(* ===== verification/Go_Prelude.thy ===== *)
theory Go_Prelude
  imports Main "HOL-Library.Finite_Map" "HOL-Library.Sublist"
    "HOL-Library.List_Lexorder" "HOL-Library.Char_ord"
begin

text \<open>
  Shared vocabulary of the development: Go errors as values, Go maps, the two string
  functions of the Go standard library the code uses, the operator's view of the world
  (API server and event recorder) and the shape of a call that may fail.

  Conventions. A Go \<^verbatim>\<open>map[string]T\<close> is a finite map; a nil map or slice
  is identified with the empty one, as \<^verbatim>\<open>equality.Semantic.DeepEqual\<close> and
  the \<^verbatim>\<open>omitempty\<close> encoding of the API objects do. A pointer to an optional
  value is an \<open>option\<close>. A Go panic is the error \<open>Panic\<close>: like an error it
  abandons the rest of the computation, and no handler of the code recognises it.
\<close>

section \<open>Errors\<close>

datatype status_reason = NotFound | AlreadyExists | Conflict | BadRequest | OtherReason string

text \<open>
  \<open>StatusError\<close> is \<^verbatim>\<open>apierrors.StatusError\<close>, \<open>ErrorString\<close> is
  \<^verbatim>\<open>errors.New\<close>, \<open>WrappedError\<close> is \<^verbatim>\<open>fmt.Errorf("...: %w", err)\<close>,
  \<open>WaitTimeout\<close> is \<^verbatim>\<open>wait.ErrWaitTimeout\<close> and \<open>ContextError\<close> is the error of a
  cancelled or expired context.
\<close>

datatype go_error =
    StatusError status_reason string
  | ErrorString string
  | WrappedError string go_error
  | WaitTimeout
  | ContextError string
  | Panic string

fun ReasonForError :: "go_error \<Rightarrow> status_reason option" where
  "ReasonForError (StatusError r _) = Some r"
| "ReasonForError (WrappedError _ e) = ReasonForError e"
| "ReasonForError _ = None"

definition IsNotFound :: "go_error \<Rightarrow> bool" where
  "IsNotFound e \<longleftrightarrow> ReasonForError e = Some NotFound"

definition IsConflict :: "go_error \<Rightarrow> bool" where
  "IsConflict e \<longleftrightarrow> ReasonForError e = Some Conflict"

fun ErrorText :: "go_error \<Rightarrow> string" where
  "ErrorText (StatusError _ msg) = msg"
| "ErrorText (ErrorString msg) = msg"
| "ErrorText (WrappedError msg e) = msg @ '': '' @ ErrorText e"
| "ErrorText WaitTimeout = ''timed out waiting for the condition''"
| "ErrorText (ContextError msg) = msg"
| "ErrorText (Panic msg) = msg"

lemma IsNotFound_simps [simp]:
  "IsNotFound (StatusError r m) \<longleftrightarrow> r = NotFound"
  "\<not> IsNotFound (ErrorString m)"
  "IsNotFound (WrappedError m e) \<longleftrightarrow> IsNotFound e"
  "\<not> IsNotFound WaitTimeout"
  "\<not> IsNotFound (ContextError m)"
  "\<not> IsNotFound (Panic m)"
  by (simp_all add: IsNotFound_def)

lemma IsConflict_simps [simp]:
  "IsConflict (StatusError r m) \<longleftrightarrow> r = Conflict"
  "\<not> IsConflict (ErrorString m)"
  "IsConflict (WrappedError m e) \<longleftrightarrow> IsConflict e"
  "\<not> IsConflict WaitTimeout"
  "\<not> IsConflict (ContextError m)"
  "\<not> IsConflict (Panic m)"
  by (simp_all add: IsConflict_def)

lemma IsNotFound_not_Conflict: "IsNotFound e \<Longrightarrow> \<not> IsConflict e"
  by (simp add: IsNotFound_def IsConflict_def)

text \<open>A call whose error is returned at once.\<close>

definition sum_bind :: "go_error + 'a \<Rightarrow> ('a \<Rightarrow> go_error + 'b) \<Rightarrow> go_error + 'b" where
  "sum_bind r f = (case r of Inl e \<Rightarrow> Inl e | Inr x \<Rightarrow> f x)"

lemma sum_bind_simps [simp]: "sum_bind (Inl e) f = Inl e" "sum_bind (Inr x) f = f x"
  by (simp_all add: sum_bind_def)

lemma sum_bind_Inr: "sum_bind r f = Inr y \<longleftrightarrow> (\<exists>x. r = Inr x \<and> f x = Inr y)"
  by (cases r) auto

text \<open>An interface value that holds a nil pointer is not a nil interface.\<close>

datatype 'a iface = NilInterface | Holding "'a option"

section \<open>Strings and maps\<close>

type_synonym gomap = "(string, string) fmap"

definition HasSuffixDash :: "string \<Rightarrow> bool" where
  "HasSuffixDash s \<longleftrightarrow> s \<noteq> [] \<and> last s = CHR ''-''"

definition TrimRightDash :: "string \<Rightarrow> string" where
  "TrimRightDash s = rev (dropWhile (\<lambda>c. c = CHR ''-'') (rev s))"

lemma TrimRightDash_no_suffix [simp]: "\<not> HasSuffixDash (TrimRightDash s)"
proof -
  have "dropWhile (\<lambda>c. c = CHR ''-'') (rev s) \<noteq> [] \<Longrightarrow>
      hd (dropWhile (\<lambda>c. c = CHR ''-'') (rev s)) \<noteq> CHR ''-''"
    by (rule hd_dropWhile)
  then show ?thesis
    by (auto simp: HasSuffixDash_def TrimRightDash_def last_rev)
qed

text \<open>The decimal form of a natural number, as \<^verbatim>\<open>%d\<close> prints it.\<close>

fun decimal :: "nat \<Rightarrow> string" where
  "decimal n = (if n < 10 then [char_of (48 + n)] else decimal (n div 10) @ [char_of (48 + n mod 10)])"

declare decimal.simps [simp del]

text \<open>
  The entries of a map in one of the orders a \<^verbatim>\<open>range\<close> loop may visit them.
  Go leaves the order open; the model visits the keys in increasing order, and the
  theorems about loops over maps show where the order does not matter.
\<close>

definition range_entries :: "(string, 'v) fmap \<Rightarrow> (string \<times> 'v) list" where
  "range_entries m = sorted_list_of_fmap m"

definition enumerates :: "(string \<times> 'v) list \<Rightarrow> (string, 'v) fmap \<Rightarrow> bool" where
  "enumerates es m \<longleftrightarrow> distinct (map fst es) \<and> fmap_of_list es = m"

lemma map_of_range_entries [simp]: "map_of (range_entries m) = fmlookup m"
  by (simp add: range_entries_def map_of_sorted_list)

lemma distinct_range_entries [simp]: "distinct (map fst (range_entries m))"
  by (simp add: range_entries_def sorted_list_of_fmap_def comp_def sorted_list_of_fset.rep_eq)

lemma range_entries_single [simp]: "range_entries (fmupd k v fmempty) = [(k, v)]"
  by (simp add: range_entries_def sorted_list_of_fmap_def sorted_list_of_fset.rep_eq)

lemma enumerates_range_entries: "enumerates (range_entries m) m"
  by (auto simp: enumerates_def fmap_of_list.rep_eq intro: fmap_ext)

lemma enumerates_map_of: "enumerates es m \<Longrightarrow> map_of es = fmlookup m"
  by (auto simp: enumerates_def fmap_of_list.rep_eq)

lemma enumerates_keys: "enumerates es m \<Longrightarrow> fst ` set es = fmdom' m"
  by (metis dom_map_of_conv_image_fst enumerates_map_of fmdom'_alt_def fmdom.rep_eq)

section \<open>JSON values\<close>

text \<open>
  The values of an unstructured object: what \<^verbatim>\<open>interface{}\<close> holds after JSON
  decoding. A float is kept as its decimal text, since no code computes with one.
\<close>

datatype json =
    JNull
  | JBool bool
  | JInt int
  | JFloat string
  | JStr string
  | JArr "json list"
  | JObj "(string, json) fmap"

type_synonym json_map = "(string, json) fmap"

lemma fmupd_idem [simp]: "fmupd k v (fmupd k u m) = fmupd k v m"
  by (rule fmap_ext) auto

lemma fmupd_twist: "k \<noteq> l \<Longrightarrow> fmupd k v (fmupd l u m) = fmupd l u (fmupd k v m)"
  by (rule fmap_ext) auto

lemma fmupd_same: "fmlookup m k = Some v \<Longrightarrow> fmupd k v m = m"
  by (rule fmap_ext) auto

lemma fmupd_last:
  "k \<notin> fst ` set kvs \<Longrightarrow> fmupd k v (fmap_of_list (kvs @ [(k, u)])) = fmap_of_list (kvs @ [(k, v)])"
proof (induction kvs)
  case (Cons kv kvs)
  then show ?case by (cases kv) (auto simp: fmupd_twist)
qed simp

lemma lookup_last: "k \<notin> fst ` set kvs \<Longrightarrow> fmlookup (fmap_of_list (kvs @ [(k, u)])) k = Some u"
  by (induction kvs) auto

section \<open>Events and the world\<close>

datatype event = EventNormal string string | EventWarning string string

text \<open>
  What the operator's calls act on: the world the API clients talk to (an arbitrary type)
  and the events its recorder was given, oldest first.
\<close>

record 'w env =
  env_world :: 'w
  env_events :: "event list"

type_synonym ('w, 'a) go = "'w env \<Rightarrow> 'a \<times> 'w env"

definition call :: "('w \<Rightarrow> 'a \<times> 'w) \<Rightarrow> ('w, 'a) go" where
  "call f s = (let (r, w) = f (env_world s) in (r, s\<lparr>env_world := w\<rparr>))"

definition emit :: "event \<Rightarrow> 'w env \<Rightarrow> 'w env" where
  "emit e s = s\<lparr>env_events := env_events s @ [e]\<rparr>"

lemma call_eq: "f (env_world s) = (r, w) \<Longrightarrow> call f s = (r, s\<lparr>env_world := w\<rparr>)"
  by (simp add: call_def)

lemma call_read: "f (env_world s) = (r, env_world s) \<Longrightarrow> call f s = (r, s)"
  by (simp add: call_def)

lemma call_events [simp]: "env_events (snd (call f s)) = env_events s"
  by (simp add: call_def split: prod.split)

lemma call_eventsD: "call f s = (r, s') \<Longrightarrow> env_events s' = env_events s"
  using call_events [of f s] by simp

lemma emit_world [simp]: "env_world (emit e s) = env_world s"
  and emit_events [simp]: "env_events (emit e s) = env_events s @ [e]"
  by (simp_all add: emit_def)

text \<open>Sequencing of calls that return an error or a value: the first error ends it.\<close>

definition bindE :: "('w, go_error + 'a) go \<Rightarrow> ('a \<Rightarrow> ('w, go_error + 'b) go) \<Rightarrow> ('w, go_error + 'b) go" where
  "bindE m f s = (case m s of (Inl e, s') \<Rightarrow> (Inl e, s') | (Inr x, s') \<Rightarrow> f x s')"

definition returnE :: "'a \<Rightarrow> ('w, go_error + 'a) go" where
  "returnE x s = (Inr x, s)"

definition throwE :: "go_error \<Rightarrow> ('w, go_error + 'a) go" where
  "throwE e s = (Inl e, s)"

lemma bindE_Inl: "m s = (Inl e, s') \<Longrightarrow> bindE m f s = (Inl e, s')"
  and bindE_Inr: "m s = (Inr x, s') \<Longrightarrow> bindE m f s = f x s'"
  by (simp_all add: bindE_def)

lemma bindE_return [simp]: "bindE (returnE x) f = f x"
  and bindE_throw [simp]: "bindE (throwE e) f = throwE e"
  by (simp_all add: bindE_def returnE_def throwE_def fun_eq_iff)

lemma bindE_assoc: "bindE (bindE m f) g = bindE m (\<lambda>x. bindE (f x) g)"
  by (simp add: bindE_def fun_eq_iff split: prod.split sum.split)

lemma bindE_InrE:
  assumes "bindE m f s = (Inr y, s'')"
  obtains x s' where "m s = (Inr x, s')" and "f x s' = (Inr y, s'')"
  using assms by (auto simp: bindE_def split: prod.splits sum.splits)

lemma bindE_InlE:
  assumes "bindE m f s = (Inl e, s'')"
  obtains "m s = (Inl e, s'')" | x s' where "m s = (Inr x, s')" and "f x s' = (Inl e, s'')"
  using assms by (auto simp: bindE_def split: prod.splits sum.splits)

end
