(* ===== verification/Object_Meta.thy ===== *)
theory Object_Meta
  imports Go_Prelude
begin

text \<open>
  Object metadata and its merge: \<^verbatim>\<open>metav1.ObjectMeta\<close> and
  \<^verbatim>\<open>metav1.OwnerReference\<close>, \<^verbatim>\<open>controller.EnsureOwnerRef\<close>
  (library-go \<^verbatim>\<open>pkg/controller/ownerref.go\<close>) and
  \<^verbatim>\<open>resourcemerge.EnsureObjectMeta\<close> with the helpers it is built from
  (\<^verbatim>\<open>pkg/operator/resource/resourcemerge/object_merger.go\<close>).
\<close>

section \<open>Data\<close>

record owner_reference =
  or_apiVersion :: string
  or_kind :: string
  or_name :: string
  or_uid :: string
  or_controller :: "bool option"
  or_blockOwnerDeletion :: "bool option"

text \<open>
  \<open>om_server\<close> holds the fields of \<^verbatim>\<open>ObjectMeta\<close> that only the API
  server or other clients write and this code carries along (\<^verbatim>\<open>selfLink\<close>,
  \<^verbatim>\<open>generateName\<close>, timestamps, finalizers, managed fields), in their JSON form.
\<close>

record object_meta =
  om_name :: string
  om_namespace :: string
  om_uid :: string
  om_resourceVersion :: string
  om_generation :: int
  om_labels :: gomap
  om_annotations :: gomap
  om_ownerReferences :: "owner_reference list"
  om_server :: json_map

section \<open>Owner references\<close>

definition same_owner_key :: "owner_reference \<Rightarrow> owner_reference \<Rightarrow> bool" where
  "same_owner_key x y \<longleftrightarrow>
     or_apiVersion x = or_apiVersion y \<and> or_kind x = or_kind y \<and> or_name x = or_name y"

text \<open>The three outcomes of the search loop of \<open>EnsureOwnerRef\<close>.\<close>

datatype owner_search = OwnerEqual | OwnerDiffers | OwnerMissing

fun search_owner :: "owner_reference \<Rightarrow> owner_reference list \<Rightarrow> owner_search" where
  "search_owner new [] = OwnerMissing"
| "search_owner new (x # xs) =
     (if same_owner_key x new then (if x = new then OwnerEqual else OwnerDiffers)
      else search_owner new xs)"

text \<open>The new owner references, and whether the input was mutated.\<close>

definition EnsureOwnerRef :: "owner_reference list \<Rightarrow> owner_reference \<Rightarrow> owner_reference list \<times> bool" where
  "EnsureOwnerRef refs new =
     (case search_owner new refs of
        OwnerEqual \<Rightarrow> (refs, False)
      | OwnerMissing \<Rightarrow> (refs @ [new], True)
      | OwnerDiffers \<Rightarrow> (new # filter (\<lambda>x. \<not> same_owner_key x new) refs, True))"

definition HasOwnerRef :: "owner_reference list \<Rightarrow> owner_reference \<Rightarrow> bool" where
  "HasOwnerRef refs needle \<longleftrightarrow>
     list_ex (\<lambda>x. same_owner_key x needle \<and> or_uid x = or_uid needle) refs"

lemma same_owner_key_refl [simp]: "same_owner_key x x"
  by (simp add: same_owner_key_def)

lemma search_owner_Equal: "search_owner new xs = OwnerEqual \<Longrightarrow> new \<in> set xs"
  by (induction xs) (auto split: if_splits)

lemma search_owner_Missing:
  "search_owner new xs = OwnerMissing \<longleftrightarrow> (\<forall>x \<in> set xs. \<not> same_owner_key x new)"
  by (induction xs) auto

lemma EnsureOwnerRef_member: "new \<in> set (fst (EnsureOwnerRef refs new))"
  by (auto simp: EnsureOwnerRef_def dest: search_owner_Equal split: owner_search.split)

lemma search_owner_append_new:
  "search_owner new xs = OwnerMissing \<Longrightarrow> search_owner new (xs @ [new]) = OwnerEqual"
  by (induction xs) (auto split: if_splits)

lemma EnsureOwnerRef_idem:
  "EnsureOwnerRef (fst (EnsureOwnerRef refs new)) new = (fst (EnsureOwnerRef refs new), False)"
  by (auto simp: EnsureOwnerRef_def search_owner_append_new split: owner_search.split)

lemma EnsureOwnerRef_singleton [simp]: "EnsureOwnerRef [new] new = ([new], False)"
  by (simp add: EnsureOwnerRef_def)

lemma EnsureOwnerRef_others:
  "\<not> same_owner_key x new \<Longrightarrow> x \<in> set (fst (EnsureOwnerRef refs new)) \<longleftrightarrow> x \<in> set refs"
  by (auto simp: EnsureOwnerRef_def split: owner_search.split)

text \<open>After a mutation exactly one reference has the owner's key.\<close>

lemma EnsureOwnerRef_unique:
  "snd (EnsureOwnerRef refs new) \<Longrightarrow>
    filter (\<lambda>x. same_owner_key x new) (fst (EnsureOwnerRef refs new)) = [new]"
  using search_owner_Missing [of new refs]
  by (cases "search_owner new refs") (auto simp: EnsureOwnerRef_def filter_empty_conv)

section \<open>Group and version\<close>

text \<open>
  \<^verbatim>\<open>schema.ParseGroupVersion\<close>: the group of an \<^verbatim>\<open>apiVersion\<close>, or
  \<open>None\<close> where it returns an error (more than one slash).
\<close>

definition ParseGroupVersion :: "string \<Rightarrow> (string \<times> string) option" where
  "ParseGroupVersion gv =
     (if gv = [] \<or> gv = ''/'' then Some ([], [])
      else if count_list gv (CHR ''/'') = 0 then Some ([], gv)
      else if count_list gv (CHR ''/'') = 1 then
        Some (takeWhile (\<lambda>c. c \<noteq> CHR ''/'') gv, tl (dropWhile (\<lambda>c. c \<noteq> CHR ''/'') gv))
      else None)"

definition ownerRefMatched :: "owner_reference \<Rightarrow> owner_reference \<Rightarrow> bool" where
  "ownerRefMatched existing required \<longleftrightarrow>
     or_name existing = or_name required \<and> or_kind existing = or_kind required \<and>
     (case ParseGroupVersion (or_apiVersion existing) of None \<Rightarrow> False
      | Some (g1, _) \<Rightarrow>
        (case ParseGroupVersion (or_apiVersion required) of None \<Rightarrow> False
         | Some (g2, _) \<Rightarrow> g1 = g2))"

lemma ownerRefMatched_sym: "ownerRefMatched x y \<Longrightarrow> ownerRefMatched y x"
  by (auto simp: ownerRefMatched_def split: option.splits)

lemma ownerRefMatched_trans: "ownerRefMatched x y \<Longrightarrow> ownerRefMatched y z \<Longrightarrow> ownerRefMatched x z"
  by (auto simp: ownerRefMatched_def split: option.splits)

lemma ownerRefMatched_self: "ownerRefMatched x x \<longleftrightarrow> ParseGroupVersion (or_apiVersion x) \<noteq> None"
  by (auto simp: ownerRefMatched_def split: option.splits)

section \<open>Merging owner references\<close>

text \<open>The inner search loop: the first index that matches, or the length.\<close>

fun owner_index :: "owner_reference \<Rightarrow> owner_reference list \<Rightarrow> nat" where
  "owner_index o' [] = 0"
| "owner_index o' (x # xs) = (if ownerRefMatched o' x then 0 else Suc (owner_index o' xs))"

definition merge_owner_step ::
  "owner_reference \<Rightarrow> bool \<times> owner_reference list \<Rightarrow> bool \<times> owner_reference list" where
  "merge_owner_step o' st =
     (let (modified, existing) = st; removeOwner = HasSuffixDash (or_uid o');
          i = owner_index o' existing
      in if i = length existing then
           (if \<not> removeOwner then (True, existing @ [o']) else (modified, existing))
         else if removeOwner then (True, take i existing @ drop (Suc i) existing)
         else if o' \<noteq> existing ! i then (True, existing[i := o'])
         else (modified, existing))"

definition MergeOwnerRefs ::
  "bool \<Rightarrow> owner_reference list \<Rightarrow> owner_reference list \<Rightarrow> bool \<times> owner_reference list" where
  "MergeOwnerRefs modified existing required =
     fold merge_owner_step required (modified, existing)"

definition cleanRemovalOwnerRefs :: "owner_reference list \<Rightarrow> owner_reference list" where
  "cleanRemovalOwnerRefs refs = filter (\<lambda>r. \<not> HasSuffixDash (or_uid r)) refs"

lemma owner_index_le: "owner_index o' xs \<le> length xs"
  by (induction xs) auto

lemma owner_index_matched: "owner_index o' xs < length xs \<Longrightarrow> ownerRefMatched o' (xs ! owner_index o' xs)"
  by (induction xs) (auto split: if_splits)

lemma owner_index_length: "owner_index o' xs = length xs \<longleftrightarrow> (\<forall>x \<in> set xs. \<not> ownerRefMatched o' x)"
  by (induction xs) auto

lemma owner_index_append_new:
  "owner_index o' xs = length xs \<Longrightarrow> ownerRefMatched o' o' \<Longrightarrow> owner_index o' (xs @ [o']) = length xs"
  by (induction xs) (auto split: if_splits)

lemma owner_index_append_other:
  "\<not> ownerRefMatched o' x \<Longrightarrow>
    owner_index o' (xs @ [x]) = (if owner_index o' xs = length xs then Suc (length xs) else owner_index o' xs)"
  by (induction xs) auto

lemma owner_index_update_same:
  "ownerRefMatched o' o' \<Longrightarrow> owner_index o' (xs[owner_index o' xs := o']) = owner_index o' xs"
  by (induction xs) auto

lemma owner_index_update_other:
  "i < length xs \<Longrightarrow> \<not> ownerRefMatched o' (xs ! i) \<Longrightarrow> \<not> ownerRefMatched o' y \<Longrightarrow>
    owner_index o' (xs[i := y]) = owner_index o' xs"
  by (induction xs arbitrary: i) (auto simp: nth_Cons split: nat.splits)

text \<open>An owner reference is settled in a list when merging it changes nothing.\<close>

definition owner_settled :: "owner_reference \<Rightarrow> owner_reference list \<Rightarrow> bool" where
  "owner_settled o' xs \<longleftrightarrow> owner_index o' xs < length xs \<and> xs ! owner_index o' xs = o'"

lemma merge_owner_step_settled:
  "owner_settled o' xs \<Longrightarrow> \<not> HasSuffixDash (or_uid o') \<Longrightarrow> merge_owner_step o' (m, xs) = (m, xs)"
  by (auto simp: merge_owner_step_def owner_settled_def)

lemma merge_owner_step_settles:
  assumes "\<not> HasSuffixDash (or_uid o')" and "ownerRefMatched o' o'"
  shows "owner_settled o' (snd (merge_owner_step o' (m, xs)))"
proof (cases "owner_index o' xs = length xs")
  case True
  with assms show ?thesis
    by (simp add: merge_owner_step_def owner_settled_def owner_index_append_new)
next
  case False
  then have "owner_index o' xs < length xs" using owner_index_le [of o' xs] by simp
  with assms show ?thesis
    by (auto simp: merge_owner_step_def owner_settled_def owner_index_update_same Let_def)
qed

lemma merge_owner_step_keeps:
  assumes "owner_settled o' xs" and "\<not> ownerRefMatched o' p" and "\<not> HasSuffixDash (or_uid p)"
  shows "owner_settled o' (snd (merge_owner_step p (m, xs)))"
proof (cases "owner_index p xs = length xs")
  case True
  with assms show ?thesis
    by (auto simp: merge_owner_step_def owner_settled_def owner_index_append_other nth_append)
next
  case False
  then have lt: "owner_index p xs < length xs" using owner_index_le [of p xs] by simp
  then have pm: "ownerRefMatched p (xs ! owner_index p xs)" by (rule owner_index_matched)
  with assms(2) have no: "\<not> ownerRefMatched o' (xs ! owner_index p xs)"
    by (meson ownerRefMatched_sym ownerRefMatched_trans)
  have "owner_index o' xs \<noteq> owner_index p xs"
    using assms(1) no owner_index_matched [of o' xs] by (auto simp: owner_settled_def)
  with assms lt no show ?thesis
    by (auto simp: merge_owner_step_def owner_settled_def owner_index_update_other Let_def)
qed

text \<open>
  The owner references an operator may ask for: identifiable (their \<^verbatim>\<open>apiVersion\<close>
  parses), pairwise about different owners, and no removal request.
\<close>

definition mergeable_owners :: "owner_reference list \<Rightarrow> bool" where
  "mergeable_owners req \<longleftrightarrow>
     list_all (\<lambda>r. ownerRefMatched r r \<and> \<not> HasSuffixDash (or_uid r)) req \<and>
     sorted_wrt (\<lambda>x y. \<not> ownerRefMatched x y) req"

lemma fold_owner_keeps:
  assumes "owner_settled o' xs" and "\<forall>p \<in> set req. \<not> ownerRefMatched o' p \<and> \<not> HasSuffixDash (or_uid p)"
  shows "owner_settled o' (snd (fold merge_owner_step req (m, xs)))"
  using assms
proof (induction req arbitrary: m xs)
  case Nil
  then show ?case by simp
next
  case (Cons p req)
  obtain m1 xs1 where st: "merge_owner_step p (m, xs) = (m1, xs1)" by (cases "merge_owner_step p (m, xs)")
  from Cons.prems have "owner_settled o' (snd (merge_owner_step p (m, xs)))"
    by (intro merge_owner_step_keeps) auto
  with st have "owner_settled o' xs1" by simp
  with Cons.IH [of xs1 m1] Cons.prems(2) st show ?case by simp
qed

lemma fold_owner_settles:
  assumes "mergeable_owners req" and "r \<in> set req"
  shows "owner_settled r (snd (fold merge_owner_step req (m, xs)))"
  using assms
proof (induction req arbitrary: m xs)
  case Nil
  then show ?case by simp
next
  case (Cons p req)
  obtain m1 xs1 where st: "merge_owner_step p (m, xs) = (m1, xs1)" by (cases "merge_owner_step p (m, xs)")
  have req: "mergeable_owners req" using Cons.prems(1) by (auto simp: mergeable_owners_def)
  show ?case
  proof (cases "r \<in> set req")
    case True
    with Cons.IH [OF req, of m1 xs1] st show ?thesis by simp
  next
    case False
    with Cons.prems(2) have [simp]: "r = p" by simp
    have "owner_settled p (snd (merge_owner_step p (m, xs)))"
      using Cons.prems(1) by (intro merge_owner_step_settles) (auto simp: mergeable_owners_def)
    with st have "owner_settled p xs1" by simp
    moreover have "\<forall>q \<in> set req. \<not> ownerRefMatched p q \<and> \<not> HasSuffixDash (or_uid q)"
      using Cons.prems(1) by (auto simp: mergeable_owners_def list_all_iff)
    ultimately show ?thesis using fold_owner_keeps [of p xs1 req m1] st by simp
  qed
qed

lemma fold_owner_settled:
  assumes "\<forall>r \<in> set req. owner_settled r xs \<and> \<not> HasSuffixDash (or_uid r)"
  shows "fold merge_owner_step req (m, xs) = (m, xs)"
  using assms by (induction req) (auto simp: merge_owner_step_settled)

lemma MergeOwnerRefs_idem:
  assumes "mergeable_owners req"
  shows "MergeOwnerRefs m' (snd (MergeOwnerRefs m xs req)) req = (m', snd (MergeOwnerRefs m xs req))"
  unfolding MergeOwnerRefs_def
  using assms fold_owner_settles [OF assms]
  by (intro fold_owner_settled) (auto simp: mergeable_owners_def list_all_iff)

lemma settled_in_self:
  assumes "mergeable_owners req" and "r \<in> set req"
  shows "owner_settled r req"
  using assms
proof (induction req)
  case Nil
  then show ?case by simp
next
  case (Cons p req)
  show ?case
  proof (cases "r = p")
    case True
    with Cons.prems show ?thesis by (auto simp: mergeable_owners_def owner_settled_def)
  next
    case False
    with Cons have "owner_settled r req" by (auto simp: mergeable_owners_def)
    moreover have "\<not> ownerRefMatched r p"
      using Cons.prems False by (auto simp: mergeable_owners_def dest: ownerRefMatched_sym)
    ultimately show ?thesis by (auto simp: owner_settled_def)
  qed
qed

lemma MergeOwnerRefs_self:
  "mergeable_owners req \<Longrightarrow> MergeOwnerRefs m req req = (m, req)"
  unfolding MergeOwnerRefs_def
  by (intro fold_owner_settled) (auto simp: settled_in_self, auto simp: mergeable_owners_def list_all_iff)

lemma cleanRemovalOwnerRefs_mergeable:
  "mergeable_owners req \<Longrightarrow> cleanRemovalOwnerRefs req = req"
  by (auto simp: cleanRemovalOwnerRefs_def mergeable_owners_def list_all_iff)

lemma merge_owner_step_flag:
  "fst (merge_owner_step o' (m, xs)) \<longleftrightarrow> m \<or> snd (merge_owner_step o' (m, xs)) \<noteq> xs"
proof -
  let ?i = "owner_index o' xs"
  have "?i < length xs \<Longrightarrow> length (take ?i xs @ drop (Suc ?i) xs) \<noteq> length xs" by simp
  then have a: "?i < length xs \<Longrightarrow> take ?i xs @ drop (Suc ?i) xs \<noteq> xs" by metis
  have b: "?i < length xs \<Longrightarrow> o' \<noteq> xs ! ?i \<Longrightarrow> xs[?i := o'] \<noteq> xs"
    by (metis nth_list_update_eq)
  show ?thesis
    using a b owner_index_le [of o' xs] by (auto simp: merge_owner_step_def Let_def)
qed

lemma MergeOwnerRefs_mono: "m \<Longrightarrow> fst (MergeOwnerRefs m xs req)"
  unfolding MergeOwnerRefs_def
proof (induction req arbitrary: m xs)
  case Nil
  then show ?case by simp
next
  case (Cons p req)
  then show ?case
    by (cases "merge_owner_step p (m, xs)") (metis Cons.IH Cons.prems fold_simps(2) fst_conv merge_owner_step_flag)
qed

lemma MergeOwnerRefs_unmodified:
  "\<not> fst (MergeOwnerRefs m xs req) \<Longrightarrow> snd (MergeOwnerRefs m xs req) = xs"
proof (induction req arbitrary: m xs)
  case Nil
  then show ?case by (simp add: MergeOwnerRefs_def)
next
  case (Cons p req)
  obtain m1 xs1 where st: "merge_owner_step p (m, xs) = (m1, xs1)" by (cases "merge_owner_step p (m, xs)")
  have "\<not> fst (MergeOwnerRefs m1 xs1 req)" using Cons.prems st by (simp add: MergeOwnerRefs_def)
  moreover from this have "\<not> m1" using MergeOwnerRefs_mono by blast
  ultimately show ?case
    using Cons.IH [of m1 xs1] st merge_owner_step_flag [of p m xs]
    by (simp add: MergeOwnerRefs_def)
qed

section \<open>Properties\<close>


end
