(* ===== verification/Meta_Merge.thy ===== *)
theory Meta_Merge
  imports Object_Meta
begin

text \<open>
  The label and annotation merge of \<^verbatim>\<open>resourcemerge\<close> and
  \<^verbatim>\<open>EnsureObjectMeta\<close>, which merges the metadata an operator requires into
  the metadata a stored object has. The merge is a loop over a Go map: the lemmas give its
  result in closed form for requirements that do not ask for a key and for its removal at
  once, so that the order of the loop does not matter, and show that merging twice changes
  nothing more, which is what makes every apply function converge.
\<close>

section \<open>Merging a map\<close>

definition merge_map_step :: "string \<times> string \<Rightarrow> bool \<times> gomap \<Rightarrow> bool \<times> gomap" where
  "merge_map_step kv st =
     (let (k, v) = kv; (modified, existing) = st in
      if HasSuffixDash k then
        (let actualKey = TrimRightDash k in
         case fmlookup existing actualKey of
           None \<Rightarrow> (modified, existing)
         | Some _ \<Rightarrow> (True, fmdrop actualKey existing))
      else
        (case fmlookup existing k of
           None \<Rightarrow> (True, fmupd k v existing)
         | Some existingV \<Rightarrow>
             if v \<noteq> existingV then (True, fmupd k v existing) else (modified, existing)))"

text \<open>The loop over a given sequence of entries, and over the required map.\<close>

definition merge_entries :: "(string \<times> string) list \<Rightarrow> bool \<times> gomap \<Rightarrow> bool \<times> gomap" where
  "merge_entries es st = fold merge_map_step es st"

definition MergeMap :: "bool \<Rightarrow> gomap \<Rightarrow> gomap \<Rightarrow> bool \<times> gomap" where
  "MergeMap modified existing required = merge_entries (range_entries required) (modified, existing)"

definition cleanRemovalKeys :: "gomap \<Rightarrow> gomap" where
  "cleanRemovalKeys required = fmfilter (\<lambda>k. \<not> HasSuffixDash k) required"

text \<open>A requirement that does not contradict itself: no key is both set and removed.\<close>

definition clash_free :: "gomap \<Rightarrow> bool" where
  "clash_free m \<longleftrightarrow> fBall (fmdom m) (\<lambda>k. HasSuffixDash k \<longrightarrow> TrimRightDash k |\<notin>| fmdom m)"

definition clash_free_entries :: "(string \<times> string) list \<Rightarrow> bool" where
  "clash_free_entries es \<longleftrightarrow>
     distinct (map fst es) \<and>
     (\<forall>k \<in> fst ` set es. HasSuffixDash k \<longrightarrow> TrimRightDash k \<notin> fst ` set es)"

definition removes :: "(string \<times> string) list \<Rightarrow> string \<Rightarrow> bool" where
  "removes es x \<longleftrightarrow> (\<exists>k \<in> fst ` set es. HasSuffixDash k \<and> TrimRightDash k = x)"

text \<open>The value a key has after the merge.\<close>

definition merged_value :: "(string \<times> string) list \<Rightarrow> gomap \<Rightarrow> string \<Rightarrow> string option" where
  "merged_value es ex x =
     (if removes es x then None
      else if HasSuffixDash x then fmlookup ex x
      else (case map_of es x of None \<Rightarrow> fmlookup ex x | Some v \<Rightarrow> Some v))"

lemma merge_entries_Nil [simp]: "merge_entries [] st = st"
  and merge_entries_Cons [simp]: "merge_entries (e # es) st = merge_entries es (merge_map_step e st)"
  by (simp_all add: merge_entries_def)

lemma clash_free_entries_Cons:
  "clash_free_entries (e # es) \<Longrightarrow> clash_free_entries es"
  by (auto simp: clash_free_entries_def)

lemma removes_Cons:
  "removes ((k, v) # es) x \<longleftrightarrow> HasSuffixDash k \<and> TrimRightDash k = x \<or> removes es x"
  by (auto simp: removes_def)

lemma removes_no_suffix: "removes es x \<Longrightarrow> \<not> HasSuffixDash x"
  by (auto simp: removes_def)

text \<open>What one step does to the map, and when it reports a modification.\<close>

lemma merge_map_step_lookup:
  "fmlookup (snd (merge_map_step (k, v) (m, ex))) x =
    (if HasSuffixDash k then (if x = TrimRightDash k then None else fmlookup ex x)
     else if x = k then Some v else fmlookup ex x)"
  by (auto simp: merge_map_step_def Let_def split: option.splits)

lemma merge_map_step_flag:
  "fst (merge_map_step (k, v) (m, ex)) \<longleftrightarrow> m \<or> snd (merge_map_step (k, v) (m, ex)) \<noteq> ex"
proof -
  have drop: "fmlookup ex y = Some w \<Longrightarrow> fmdrop y ex \<noteq> ex" for y w
    by (metis fmlookup_drop option.distinct(1))
  have upd: "fmlookup ex k \<noteq> Some v \<Longrightarrow> fmupd k v ex \<noteq> ex"
    by (metis fmupd_lookup)
  show ?thesis
    using drop upd by (auto simp: merge_map_step_def Let_def split: option.split)
qed

lemma merge_map_step_snd: "snd (merge_map_step e (m, ex)) = snd (merge_map_step e (m', ex))"
  by (cases e) (auto intro!: fmap_ext simp: merge_map_step_lookup)

lemma merge_entries_lookup:
  assumes "clash_free_entries es"
  shows "fmlookup (snd (merge_entries es (m, ex))) x = merged_value es ex x"
  using assms
proof (induction es arbitrary: m ex)
  case Nil
  then show ?case by (simp add: merged_value_def removes_def)
next
  case (Cons e es)
  obtain k v where e: "e = (k, v)" by (cases e)
  obtain m1 ex1 where st: "merge_map_step (k, v) (m, ex) = (m1, ex1)"
    by (cases "merge_map_step (k, v) (m, ex)")
  have ex1: "fmlookup ex1 y = (if HasSuffixDash k then (if y = TrimRightDash k then None else fmlookup ex y)
     else if y = k then Some v else fmlookup ex y)" for y
    using merge_map_step_lookup [of k v m ex y] st by simp
  have IH: "fmlookup (snd (merge_entries es (m1, ex1))) x = merged_value es ex1 x"
    using Cons clash_free_entries_Cons by blast
  have notin: "map_of es k = None" and cl: "HasSuffixDash k \<Longrightarrow> map_of es (TrimRightDash k) = None"
    using Cons.prems by (auto simp: clash_free_entries_def e map_of_eq_None_iff)
  have norem: "\<not> HasSuffixDash k \<Longrightarrow> \<not> removes es k"
    using Cons.prems by (force simp: clash_free_entries_def removes_def e)
  have "merged_value es ex1 x = merged_value ((k, v) # es) ex x"
    using notin cl norem
    by (auto simp: merged_value_def removes_Cons ex1 split: option.split)
  with IH show ?case by (simp add: e st)
qed

lemma merge_entries_flag:
  assumes "clash_free_entries es"
  shows "fst (merge_entries es (m, ex)) \<longleftrightarrow> m \<or> snd (merge_entries es (m, ex)) \<noteq> ex"
  using assms
proof (induction es arbitrary: m ex)
  case Nil
  then show ?case by simp
next
  case (Cons e es)
  obtain k v where e: "e = (k, v)" by (cases e)
  obtain m1 ex1 where st: "merge_map_step (k, v) (m, ex) = (m1, ex1)"
    by (cases "merge_map_step (k, v) (m, ex)")
  have m1: "m1 \<longleftrightarrow> m \<or> ex1 \<noteq> ex" using merge_map_step_flag [of k v m ex] st by simp
  have IH: "fst (merge_entries es (m1, ex1)) \<longleftrightarrow> m1 \<or> snd (merge_entries es (m1, ex1)) \<noteq> ex1"
    using Cons clash_free_entries_Cons by blast
  have "snd (merge_entries es (m1, ex1)) \<noteq> ex" if changed: "ex1 \<noteq> ex"
  proof
    assume eq: "snd (merge_entries es (m1, ex1)) = ex"
    have "merged_value (e # es) ex x = fmlookup ex x" for x
      using merge_entries_lookup [OF Cons.prems, of m ex x] eq by (simp add: e st)
    then have "fmlookup ex1 x = fmlookup ex x" for x
      using merge_map_step_lookup [of k v m ex x] st Cons.prems
        \<open>\<And>x. merged_value (e # es) ex x = fmlookup ex x\<close> [of "if HasSuffixDash k then TrimRightDash k else k"]
      by (force simp: merged_value_def removes_def e clash_free_entries_def split: if_splits option.splits)
    then show False using changed by (auto intro: fmap_ext)
  qed
  with IH m1 show ?case by (auto simp: e st)
qed

lemma clash_free_enumeration:
  assumes "clash_free m" and "enumerates es m"
  shows "clash_free_entries es"
proof -
  have "fst ` set es = fmdom' m" using assms(2) by (rule enumerates_keys)
  with assms show ?thesis
    by (auto simp: clash_free_entries_def clash_free_def enumerates_def fmdom'_alt_def)
qed

lemma merged_value_enumeration:
  assumes "enumerates es m" and "enumerates es' m"
  shows "merged_value es ex x = merged_value es' ex x"
proof -
  have "removes es x = removes es' x"
    using enumerates_keys [OF assms(1)] enumerates_keys [OF assms(2)] by (simp only: removes_def)
  then show ?thesis
    using enumerates_map_of [OF assms(1)] enumerates_map_of [OF assms(2)] by (simp add: merged_value_def)
qed

lemma MergeMap_lookup:
  "clash_free required \<Longrightarrow>
    fmlookup (snd (MergeMap m ex required)) x = merged_value (range_entries required) ex x"
  unfolding MergeMap_def
  by (rule merge_entries_lookup) (rule clash_free_enumeration [OF _ enumerates_range_entries])

lemma MergeMap_flag:
  "clash_free required \<Longrightarrow> fst (MergeMap m ex required) \<longleftrightarrow> m \<or> snd (MergeMap m ex required) \<noteq> ex"
  unfolding MergeMap_def
  by (rule merge_entries_flag) (rule clash_free_enumeration [OF _ enumerates_range_entries])

lemma MergeMap_idem:
  assumes "clash_free required"
  shows "MergeMap m' (snd (MergeMap m ex required)) required = (m', snd (MergeMap m ex required))"
proof -
  let ?r = "snd (MergeMap m ex required)"
  have "fmlookup (snd (MergeMap m' ?r required)) x = fmlookup ?r x" for x
    by (auto simp: MergeMap_lookup [OF assms] merged_value_def split: option.split dest: removes_no_suffix)
  then have eq: "snd (MergeMap m' ?r required) = ?r" by (rule fmap_ext)
  with MergeMap_flag [OF assms, of m' ?r] show ?thesis
    by (cases "MergeMap m' ?r required") auto
qed

lemma removes_range_entries:
  "removes (range_entries m) x \<longleftrightarrow> (\<exists>k. k |\<in>| fmdom m \<and> HasSuffixDash k \<and> TrimRightDash k = x)"
  using enumerates_keys [OF enumerates_range_entries, of m]
  by (auto simp: removes_def fmdom'_alt_def)

lemma MergeMap_clean:
  assumes "clash_free required"
  shows "MergeMap m (cleanRemovalKeys required) required = (m, cleanRemovalKeys required)"
proof -
  let ?c = "cleanRemovalKeys required"
  have "fmlookup (snd (MergeMap m ?c required)) x = fmlookup ?c x" for x
  proof (cases "removes (range_entries required) x")
    case True
    then have "x |\<notin>| fmdom required" using assms by (auto simp: removes_range_entries clash_free_def)
    with True show ?thesis
      by (simp add: MergeMap_lookup [OF assms] merged_value_def cleanRemovalKeys_def fmdom_notD)
  next
    case False
    then show ?thesis
      by (auto simp: MergeMap_lookup [OF assms] merged_value_def cleanRemovalKeys_def split: option.split)
  qed
  then have eq: "snd (MergeMap m ?c required) = ?c" by (rule fmap_ext)
  with MergeMap_flag [OF assms, of m ?c] show ?thesis by (cases "MergeMap m ?c required") auto
qed

lemma MergeMap_self:
  assumes "clash_free required"
  shows "MergeMap m required required = (m, required)"
proof -
  have "fmlookup (snd (MergeMap m required required)) x = fmlookup required x" for x
  proof (cases "removes (range_entries required) x")
    case True
    then have "x |\<notin>| fmdom required" using assms by (auto simp: removes_range_entries clash_free_def)
    with True show ?thesis by (simp add: MergeMap_lookup [OF assms] merged_value_def fmdom_notD)
  next
    case False
    then show ?thesis by (auto simp: MergeMap_lookup [OF assms] merged_value_def split: option.split)
  qed
  then have eq: "snd (MergeMap m required required) = required" by (rule fmap_ext)
  with MergeMap_flag [OF assms, of m required] show ?thesis by (cases "MergeMap m required required") auto
qed

lemma MergeMap_mono: "m \<Longrightarrow> fst (MergeMap m ex required)"
proof -
  have "fst st \<Longrightarrow> fst (merge_entries es st)" for es and st
  proof (induction es arbitrary: st)
    case (Cons e es)
    then show ?case by (cases e; cases st) (metis merge_map_step_flag merge_entries_Cons fst_conv prod.collapse)
  qed simp
  then show "m \<Longrightarrow> fst (MergeMap m ex required)" by (simp add: MergeMap_def)
qed

section \<open>Merging metadata\<close>

definition SetStringIfSet :: "bool \<Rightarrow> string \<Rightarrow> string \<Rightarrow> bool \<times> string" where
  "SetStringIfSet modified existing required =
     (if required = [] then (modified, existing)
      else if required \<noteq> existing then (True, required) else (modified, existing))"

definition EnsureObjectMeta :: "bool \<Rightarrow> object_meta \<Rightarrow> object_meta \<Rightarrow> bool \<times> object_meta" where
  "EnsureObjectMeta modified existing required =
     (let (m1, ns) = SetStringIfSet modified (om_namespace existing) (om_namespace required);
          (m2, nm) = SetStringIfSet m1 (om_name existing) (om_name required);
          (m3, ls) = MergeMap m2 (om_labels existing) (om_labels required);
          (m4, ans) = MergeMap m3 (om_annotations existing) (om_annotations required);
          (m5, os) = MergeOwnerRefs m4 (om_ownerReferences existing) (om_ownerReferences required)
      in (m5, existing\<lparr>om_namespace := ns, om_name := nm, om_labels := ls,
                 om_annotations := ans, om_ownerReferences := os\<rparr>))"

definition WithCleanLabelsAndAnnotations :: "object_meta \<Rightarrow> object_meta" where
  "WithCleanLabelsAndAnnotations obj =
     obj\<lparr>om_annotations := cleanRemovalKeys (om_annotations obj),
         om_labels := cleanRemovalKeys (om_labels obj),
         om_ownerReferences := cleanRemovalOwnerRefs (om_ownerReferences obj)\<rparr>"

text \<open>Requirements the merge can settle.\<close>

definition mergeable_meta :: "object_meta \<Rightarrow> bool" where
  "mergeable_meta req \<longleftrightarrow>
     clash_free (om_labels req) \<and> clash_free (om_annotations req) \<and>
     mergeable_owners (om_ownerReferences req)"

text \<open>
  A stored object's metadata is in sync with a requirement when the merge would leave it as
  it is and report no modification.
\<close>

definition meta_in_sync :: "object_meta \<Rightarrow> object_meta \<Rightarrow> bool" where
  "meta_in_sync existing required \<longleftrightarrow> EnsureObjectMeta False existing required = (False, existing)"

lemma SetStringIfSet_idem [simp]:
  "SetStringIfSet m' (snd (SetStringIfSet m ex req)) req = (m', snd (SetStringIfSet m ex req))"
  and SetStringIfSet_self [simp]: "SetStringIfSet m req req = (m, req)"
  by (simp_all add: SetStringIfSet_def)

lemma SetStringIfSet_flag:
  "fst (SetStringIfSet m ex req) \<longleftrightarrow> m \<or> snd (SetStringIfSet m ex req) \<noteq> ex"
  by (simp add: SetStringIfSet_def)

lemma EnsureObjectMeta_snd:
  "snd (EnsureObjectMeta m ex req) =
    ex\<lparr>om_namespace := snd (SetStringIfSet False (om_namespace ex) (om_namespace req)),
       om_name := snd (SetStringIfSet False (om_name ex) (om_name req)),
       om_labels := snd (MergeMap False (om_labels ex) (om_labels req)),
       om_annotations := snd (MergeMap False (om_annotations ex) (om_annotations req)),
       om_ownerReferences := snd (MergeOwnerRefs False (om_ownerReferences ex) (om_ownerReferences req))\<rparr>"
proof -
  have s: "snd (SetStringIfSet a x y) = snd (SetStringIfSet b x y)" for a b x y
    by (simp add: SetStringIfSet_def)
  have mm: "snd (fold merge_map_step es (a, x)) = snd (fold merge_map_step es (b, x))" for es a b x
  proof (induction es arbitrary: a b x)
    case (Cons e es)
    then show ?case
      using merge_map_step_snd [of e a x b]
      by (cases "merge_map_step e (a, x)"; cases "merge_map_step e (b, x)") auto
  qed simp
  have os: "snd (merge_owner_step r (a, x)) = snd (merge_owner_step r (b, x))" for r a b x
    by (simp add: merge_owner_step_def Let_def)
  have mo: "snd (fold merge_owner_step rs (a, x)) = snd (fold merge_owner_step rs (b, x))" for rs a b x
  proof (induction rs arbitrary: a b x)
    case (Cons r rs)
    then show ?case
      using os [of r a x b]
      by (cases "merge_owner_step r (a, x)"; cases "merge_owner_step r (b, x)") auto
  qed simp
  have m': "snd (MergeMap a x y) = snd (MergeMap False x y)" for a x y
    by (simp add: MergeMap_def merge_entries_def mm [of _ a _ False])
  have o': "snd (MergeOwnerRefs a x y) = snd (MergeOwnerRefs False x y)" for a x y
    by (simp add: MergeOwnerRefs_def mo [of _ a _ False])
  have s': "snd (SetStringIfSet a x y) = snd (SetStringIfSet False x y)" for a x y by (rule s)
  show ?thesis
    by (simp add: EnsureObjectMeta_def Let_def case_prod_beta m' [of "fst _"] o' [of "fst _"] s' [of "fst _"] s' [of m])
qed

lemma EnsureObjectMeta_idem:
  assumes "mergeable_meta req"
  shows "EnsureObjectMeta False (snd (EnsureObjectMeta m ex req)) req = (False, snd (EnsureObjectMeta m ex req))"
  using assms
  by (simp add: mergeable_meta_def EnsureObjectMeta_snd EnsureObjectMeta_def [of False "ex\<lparr>om_namespace := _\<rparr>"]
      EnsureObjectMeta_def [of False "_\<lparr>om_ownerReferences := _\<rparr>"] MergeMap_idem MergeOwnerRefs_idem)

lemma MergeOwnerRefs_flag:
  assumes "mergeable_owners req"
  shows "fst (MergeOwnerRefs m xs req) \<longleftrightarrow> m \<or> snd (MergeOwnerRefs m xs req) \<noteq> xs"
proof
  assume flag: "fst (MergeOwnerRefs m xs req)"
  show "m \<or> snd (MergeOwnerRefs m xs req) \<noteq> xs"
  proof (rule ccontr)
    assume "\<not> (m \<or> snd (MergeOwnerRefs m xs req) \<noteq> xs)"
    then have "\<not> m" and same: "snd (fold merge_owner_step req (m, xs)) = xs"
      by (auto simp: MergeOwnerRefs_def)
    have "\<forall>r \<in> set req. owner_settled r xs \<and> \<not> HasSuffixDash (or_uid r)"
      using assms fold_owner_settles [OF assms, of _ m xs] same
      by (auto simp: mergeable_owners_def list_all_iff)
    then have "fold merge_owner_step req (m, xs) = (m, xs)" by (rule fold_owner_settled)
    with flag \<open>\<not> m\<close> show False by (simp add: MergeOwnerRefs_def)
  qed
next
  assume "m \<or> snd (MergeOwnerRefs m xs req) \<noteq> xs"
  then show "fst (MergeOwnerRefs m xs req)"
    using MergeOwnerRefs_mono MergeOwnerRefs_unmodified by blast
qed

lemma meta_fields_update_self:
  "ex\<lparr>om_namespace := a, om_name := b, om_labels := c, om_annotations := d, om_ownerReferences := e\<rparr> = ex
    \<longleftrightarrow> a = om_namespace ex \<and> b = om_name ex \<and> c = om_labels ex \<and> d = om_annotations ex \<and>
      e = om_ownerReferences ex"
  by (cases ex) auto

lemma EnsureObjectMeta_flag:
  assumes "mergeable_meta req"
  shows "fst (EnsureObjectMeta m ex req) \<longleftrightarrow> m \<or> snd (EnsureObjectMeta m ex req) \<noteq> ex"
proof -
  have "clash_free (om_labels req)" "clash_free (om_annotations req)" "mergeable_owners (om_ownerReferences req)"
    using assms by (simp_all add: mergeable_meta_def)
  then show ?thesis
    by (auto simp: EnsureObjectMeta_def Let_def case_prod_beta meta_fields_update_self MergeOwnerRefs_flag MergeMap_flag SetStringIfSet_flag)
qed

lemma EnsureObjectMeta_unmodified:
  "mergeable_meta req \<Longrightarrow> \<not> fst (EnsureObjectMeta False ex req) \<Longrightarrow> meta_in_sync ex req"
  using EnsureObjectMeta_flag [of req False ex]
  by (cases "EnsureObjectMeta False ex req") (auto simp: meta_in_sync_def)

lemma meta_in_sync_iff:
  "mergeable_meta req \<Longrightarrow> meta_in_sync ex req \<longleftrightarrow> \<not> fst (EnsureObjectMeta False ex req)"
  by (metis EnsureObjectMeta_unmodified fst_conv meta_in_sync_def)

lemma EnsureObjectMeta_settles:
  "mergeable_meta req \<Longrightarrow> meta_in_sync (snd (EnsureObjectMeta m ex req)) req"
  by (simp add: meta_in_sync_def EnsureObjectMeta_idem)

lemma WithClean_in_sync:
  "mergeable_meta req \<Longrightarrow> meta_in_sync (WithCleanLabelsAndAnnotations req) req"
  by (simp add: meta_in_sync_def EnsureObjectMeta_def WithCleanLabelsAndAnnotations_def mergeable_meta_def
      MergeMap_clean MergeOwnerRefs_self cleanRemovalOwnerRefs_mergeable)

lemma self_in_sync: "mergeable_meta req \<Longrightarrow> meta_in_sync req req"
  by (simp add: meta_in_sync_def EnsureObjectMeta_def mergeable_meta_def MergeMap_self MergeOwnerRefs_self)

text \<open>The merge reads and writes five fields; whoever agrees on them agrees on being in sync.\<close>

definition same_desired_meta :: "object_meta \<Rightarrow> object_meta \<Rightarrow> bool" where
  "same_desired_meta x y \<longleftrightarrow>
     om_namespace x = om_namespace y \<and> om_name x = om_name y \<and> om_labels x = om_labels y \<and>
     om_annotations x = om_annotations y \<and> om_ownerReferences x = om_ownerReferences y"

lemma same_desired_meta_refl [simp]: "same_desired_meta x x"
  by (simp add: same_desired_meta_def)

lemma fst_EnsureObjectMeta_cong:
  "same_desired_meta x y \<Longrightarrow> fst (EnsureObjectMeta m x req) = fst (EnsureObjectMeta m y req)"
  by (simp add: same_desired_meta_def EnsureObjectMeta_def Let_def case_prod_beta)

lemma snd_EnsureObjectMeta_cong:
  "same_desired_meta x y \<Longrightarrow> snd (EnsureObjectMeta m y req) = y \<Longrightarrow> snd (EnsureObjectMeta m x req) = x"
  unfolding EnsureObjectMeta_snd meta_fields_update_self same_desired_meta_def by simp

lemma meta_in_sync_cong:
  "meta_in_sync x req \<Longrightarrow> same_desired_meta y x \<Longrightarrow> meta_in_sync y req"
  using fst_EnsureObjectMeta_cong [of y x False req] snd_EnsureObjectMeta_cong [of y x False req]
  by (simp add: meta_in_sync_def prod_eq_iff)

lemma EnsureObjectMeta_frame [simp]:
  "om_uid (snd (EnsureObjectMeta m ex req)) = om_uid ex"
  "om_resourceVersion (snd (EnsureObjectMeta m ex req)) = om_resourceVersion ex"
  "om_generation (snd (EnsureObjectMeta m ex req)) = om_generation ex"
  "om_server (snd (EnsureObjectMeta m ex req)) = om_server ex"
  by (simp_all add: EnsureObjectMeta_snd)

lemma EnsureObjectMeta_name:
  "om_name (snd (EnsureObjectMeta m ex req)) = (if om_name req = [] then om_name ex else om_name req)"
  "om_namespace (snd (EnsureObjectMeta m ex req)) =
    (if om_namespace req = [] then om_namespace ex else om_namespace req)"
  by (simp_all add: EnsureObjectMeta_snd SetStringIfSet_def)

text \<open>The merge is a conservative extension: it sets what is required, keeps the rest.\<close>

lemma MergeMap_required:
  assumes "clash_free req" and "fmlookup req k = Some v" and "\<not> HasSuffixDash k"
  shows "fmlookup (snd (MergeMap m ex req)) k = Some v"
proof -
  have "\<not> removes (range_entries req) k"
    using assms(1,2) by (auto simp: removes_range_entries clash_free_def fmdomI)
  with assms show ?thesis by (simp add: MergeMap_lookup merged_value_def)
qed

lemma MergeMap_kept:
  assumes "clash_free req" and "fmlookup req k = None" and "\<And>k'. k' |\<in>| fmdom req \<Longrightarrow> HasSuffixDash k' \<Longrightarrow> TrimRightDash k' \<noteq> k"
  shows "fmlookup (snd (MergeMap m ex req)) k = fmlookup ex k"
  using assms by (auto simp: MergeMap_lookup merged_value_def removes_range_entries)

lemma MergeMap_removed:
  assumes "clash_free req" and "k |\<in>| fmdom req" and "HasSuffixDash k"
  shows "fmlookup (snd (MergeMap m ex req)) (TrimRightDash k) = None"
  using assms by (auto simp: MergeMap_lookup merged_value_def removes_range_entries)

section \<open>Properties\<close>


definition sample_meta :: object_meta where
  "sample_meta = \<lparr>om_name = ''n'', om_namespace = ''ns'', om_uid = [], om_resourceVersion = [], om_generation = 0,
     om_labels = fmap_of_list [(''app'', ''x''), (''old-'', [])], om_annotations = fmempty,
     om_ownerReferences = [], om_server = fmempty\<rparr>"

lemma sample_meta_mergeable: "mergeable_meta sample_meta"
  by (simp add: mergeable_meta_def sample_meta_def clash_free_def mergeable_owners_def HasSuffixDash_def TrimRightDash_def)


text \<open>C8: the order in which Go visits the required map does not matter: for a requirement that
  does not contradict itself, the loop over any enumeration of its entries gives the map, and the
  modification flag, the model computes with one fixed order.\<close>

theorem MergeMap_any_order:
  assumes "clash_free required" and "enumerates es required"
  shows "merge_entries es (modified, existing) = MergeMap modified existing required"
proof -
  have c: "clash_free_entries es" using assms by (rule clash_free_enumeration)
  have "fmlookup (snd (merge_entries es (modified, existing))) x = fmlookup (snd (MergeMap modified existing required)) x" for x
    using merge_entries_lookup [OF c] MergeMap_lookup [OF assms(1)]
      merged_value_enumeration [OF assms(2) enumerates_range_entries] by simp
  then have "snd (merge_entries es (modified, existing)) = snd (MergeMap modified existing required)" by (rule fmap_ext)
  with merge_entries_flag [OF c, of modified existing] MergeMap_flag [OF assms(1), of modified existing]
  show ?thesis by (simp add: prod_eq_iff)
qed

theorem MergeMap_any_order_witness:
  "merge_entries [(''a'', ''1''), (''b-'', [])] (False, fmap_of_list [(''b'', ''2'')]) =
   MergeMap False (fmap_of_list [(''b'', ''2'')]) (fmap_of_list [(''a'', ''1''), (''b-'', [])])"
  by (rule MergeMap_any_order) (simp_all add: clash_free_def enumerates_def HasSuffixDash_def TrimRightDash_def)

text \<open>C9: without that proviso it does matter, and the merge never settles: with a key and its
  removal both required, one order keeps the key and the other drops it, and in either order a second
  merge reports a modification again.\<close>

theorem MergeMap_clash:
  assumes "\<not> HasSuffixDash k"
  shows "fmlookup (snd (merge_entries [(k, v), (k @ ''-'', w)] (False, existing))) k = None \<and>
    fmlookup (snd (merge_entries [(k @ ''-'', w), (k, v)] (False, existing))) k = Some v \<and>
    fst (merge_entries [(k, v), (k @ ''-'', w)] (False, snd (merge_entries [(k, v), (k @ ''-'', w)] (False, existing)))) \<and>
    fst (merge_entries [(k @ ''-'', w), (k, v)] (False, snd (merge_entries [(k @ ''-'', w), (k, v)] (False, existing))))"
proof -
  have t: "TrimRightDash (k @ ''-'') = k"
    using assms by (cases k rule: rev_cases) (auto simp: TrimRightDash_def HasSuffixDash_def)
  have d: "HasSuffixDash (k @ ''-'')" by (simp add: HasSuffixDash_def)
  show ?thesis
    using assms t d by (auto simp: merge_map_step_def Let_def split: option.split)
qed

theorem MergeMap_clash_witness:
  "fst (merge_entries [(''a'', ''1''), (''a-'', [])]
     (False, snd (merge_entries [(''a'', ''1''), (''a-'', [])] (False, fmempty))))"
  using MergeMap_clash [of "''a''" "''1''" "[]" fmempty] by (simp add: HasSuffixDash_def)

end
