(* ===== verification/Kube_Objects.thy ===== *)
theory Kube_Objects
  imports Meta_Merge
begin

text \<open>
  The API objects the operator handles, as records with the fields of the Go structs of
  \<^verbatim>\<open>k8s.io/api\<close>, \<^verbatim>\<open>github.com/openshift/api\<close> and
  \<^verbatim>\<open>pkg/apis/climanager/v1\<close>. A field no code of this repository reads or
  writes on its own is carried along in a \<open>_rest\<close> or \<open>_status\<close> field, as the JSON
  object that encodes it; comparing two objects compares these fields as well.
\<close>

section \<open>RBAC and selectors\<close>

datatype int_or_string = IntVal int | StringVal string

record policy_rule =
  pr_verbs :: "string list"
  pr_apiGroups :: "string list"
  pr_resources :: "string list"
  pr_resourceNames :: "string list"
  pr_nonResourceURLs :: "string list"

record label_selector_requirement =
  lsr_key :: string
  lsr_operator :: string
  lsr_values :: "string list"

record label_selector =
  ls_matchLabels :: gomap
  ls_matchExpressions :: "label_selector_requirement list"

record role =
  role_meta :: object_meta
  role_rules :: "policy_rule list"

record cluster_role =
  crole_meta :: object_meta
  crole_rules :: "policy_rule list"
  crole_aggregationRule :: "label_selector list option"

record subject =
  sub_kind :: string
  sub_apiGroup :: string
  sub_name :: string
  sub_namespace :: string

record role_ref =
  rr_apiGroup :: string
  rr_kind :: string
  rr_name :: string

text \<open>\<^verbatim>\<open>RoleBinding\<close> and \<^verbatim>\<open>ClusterRoleBinding\<close> have the same fields.\<close>

record role_binding =
  rb_meta :: object_meta
  rb_subjects :: "subject list"
  rb_roleRef :: role_ref

section \<open>Core, networking and routes\<close>

record service_account =
  sa_meta :: object_meta
  sa_rest :: json_map

record service_port =
  sp_name :: string
  sp_protocol :: string
  sp_port :: int
  sp_targetPort :: int_or_string
  sp_rest :: json_map

record service_spec =
  ss_ports :: "service_port list"
  ss_selector :: gomap
  ss_clusterIP :: string
  ss_type :: string
  ss_sessionAffinity :: string
  ss_rest :: json_map

record service =
  svc_meta :: object_meta
  svc_spec :: service_spec
  svc_status :: json_map

record ip_block =
  ipb_cidr :: string
  ipb_except :: "string list"

record network_policy_port =
  npp_protocol :: "string option"
  npp_port :: "int_or_string option"
  npp_endPort :: "int option"

record network_policy_peer =
  peer_podSelector :: "label_selector option"
  peer_namespaceSelector :: "label_selector option"
  peer_ipBlock :: "ip_block option"

record network_policy_ingress =
  npi_ports :: "network_policy_port list"
  npi_from :: "network_policy_peer list"

record network_policy_egress =
  npe_ports :: "network_policy_port list"
  npe_to :: "network_policy_peer list"

record network_policy_spec =
  nps_podSelector :: label_selector
  nps_ingress :: "network_policy_ingress list"
  nps_egress :: "network_policy_egress list"
  nps_policyTypes :: "string list"

record network_policy =
  np_meta :: object_meta
  np_spec :: network_policy_spec

record route_target =
  rt_kind :: string
  rt_name :: string
  rt_weight :: "int option"

record tls_config =
  tls_termination :: string
  tls_insecureEdgeTerminationPolicy :: string
  tls_rest :: json_map

record route_spec =
  rs_host :: string
  rs_subdomain :: string
  rs_path :: string
  rs_to :: route_target
  rs_alternateBackends :: "route_target list"
  rs_port :: "int_or_string option"
  rs_tls :: "tls_config option"
  rs_wildcardPolicy :: string
  rs_httpHeaders :: "json_map option"

record route =
  route_meta :: object_meta
  route_spec :: route_spec
  route_status :: json_map

section \<open>Deployments\<close>

record container =
  c_name :: string
  c_image :: string
  c_command :: "string list"
  c_args :: "string list"
  c_rest :: json_map

record pod_spec =
  ps_containers :: "container list"
  ps_rest :: json_map

record pod_template =
  pt_labels :: gomap
  pt_annotations :: gomap
  pt_rest :: json_map
  pt_spec :: pod_spec

record deployment_spec =
  ds_replicas :: "int option"
  ds_selector :: label_selector
  ds_template :: pod_template
  ds_rest :: json_map

record deployment =
  dep_meta :: object_meta
  dep_spec :: deployment_spec
  dep_status :: json_map

section \<open>Unstructured objects\<close>

record unstructured =
  u_object :: json_map

section \<open>The CliManager resource\<close>

text \<open>\<^verbatim>\<open>operatorv1.LogLevel\<close> and \<^verbatim>\<open>ManagementState\<close> are strings.\<close>

type_synonym log_level = string
type_synonym management_state = string

abbreviation Normal :: log_level where "Normal \<equiv> ''Normal''"
abbreviation Debug :: log_level where "Debug \<equiv> ''Debug''"
abbreviation Trace :: log_level where "Trace \<equiv> ''Trace''"
abbreviation TraceAll :: log_level where "TraceAll \<equiv> ''TraceAll''"

record operator_spec =
  os_managementState :: management_state
  os_logLevel :: log_level
  os_operatorLogLevel :: log_level
  os_unsupportedConfigOverrides :: json
  os_observedConfig :: json

record operator_condition =
  oc_type :: string
  oc_status :: string
  oc_lastTransitionTime :: int
  oc_reason :: string
  oc_message :: string

record generation_status =
  gs_group :: string
  gs_resource :: string
  gs_namespace :: string
  gs_name :: string
  gs_lastGeneration :: int
  gs_hash :: string

record operator_status =
  ost_observedGeneration :: int
  ost_conditions :: "operator_condition list"
  ost_version :: string
  ost_readyReplicas :: int
  ost_latestAvailableRevision :: int
  ost_generations :: "generation_status list"

text \<open>
  \<^verbatim>\<open>CliManagerSpec\<close> and \<^verbatim>\<open>CliManagerStatus\<close> embed the operator
  spec and status and have no field of their own.
\<close>

record cli_manager_spec =
  cms_operatorSpec :: operator_spec

record cli_manager_status =
  cmst_operatorStatus :: operator_status

record cli_manager =
  cm_meta :: object_meta
  cm_spec :: cli_manager_spec
  cm_status :: cli_manager_status

end
