(* ===== verification/Resource_Client.thy ===== *)
theory Resource_Client
  imports Kube_Objects
begin

text \<open>
  The interface between the operator and the API server. A typed client of one resource is
  a record of its \<^verbatim>\<open>Get\<close>, \<^verbatim>\<open>Create\<close> and \<^verbatim>\<open>Update\<close> calls, functions of the world;
  the server behind it is not part of the repository. What the operator relies on is the
  locale \<open>object_api\<close>; what a kind of object brings to an apply function is the locale
  \<open>apply_kind\<close>; together they give convergence (\<open>apply_convergence\<close>): once an apply
  has returned without error, applying again writes nothing. The theory also holds the
  event reports of \<^verbatim>\<open>resourcehelper\<close> (library-go).
\<close>

section \<open>Clients and results\<close>

record ('w, 'o) resource_client =
  rc_get :: "string \<Rightarrow> string \<Rightarrow> 'w \<Rightarrow> (go_error + 'o) \<times> 'w"
  rc_create :: "string \<Rightarrow> 'o \<Rightarrow> 'w \<Rightarrow> (go_error + 'o) \<times> 'w"
  rc_update :: "string \<Rightarrow> 'o \<Rightarrow> 'w \<Rightarrow> (go_error + 'o) \<times> 'w"

text \<open>
  The triple an apply function returns: object, whether it tried to change anything, error.
  The object beside an error is \<open>None\<close>; no caller reads it.
\<close>

type_synonym 'o apply_result = "'o option \<times> bool \<times> go_error option"

definition apply_same :: "'o \<Rightarrow> 'o apply_result" where
  "apply_same ob = (Some ob, False, None)"

definition apply_fail :: "go_error \<Rightarrow> 'o apply_result" where
  "apply_fail e = (None, False, Some e)"

definition apply_write :: "go_error + 'o \<Rightarrow> 'o apply_result" where
  "apply_write r = (case r of Inl e \<Rightarrow> (None, True, Some e) | Inr ob \<Rightarrow> (Some ob, True, None))"

definition error_of :: "go_error + 'o \<Rightarrow> go_error option" where
  "error_of r = (case r of Inl e \<Rightarrow> Some e | Inr _ \<Rightarrow> None)"

lemma apply_write_simps [simp]:
  "apply_write (Inl e) = (None, True, Some e)"
  "apply_write (Inr ob) = (Some ob, True, None)"
  by (simp_all add: apply_write_def)

lemma error_of_simps [simp]: "error_of (Inl e) = Some e" "error_of (Inr ob) = None"
  by (simp_all add: error_of_def)

lemma apply_write_Some [simp]:
  "apply_write r = (Some a, ch, None) \<longleftrightarrow> r = Inr a \<and> ch"
  "apply_same ob = (Some a, ch, None) \<longleftrightarrow> ob = a \<and> \<not> ch"
  "apply_fail e \<noteq> (Some a, ch, None)"
  by (auto simp: apply_write_def apply_same_def apply_fail_def split: sum.split)

section \<open>Event reports\<close>

definition FormatResourceForCLIWithNamespace :: "string \<Rightarrow> string \<Rightarrow> object_meta \<Rightarrow> string" where
  "FormatResourceForCLIWithNamespace kind grp m =
     kind @ (if grp = [] then [] else ''.'' @ grp) @ ''/'' @ om_name m @
     (if om_namespace m = [] then [] else '' -n '' @ om_namespace m)"

definition create_event :: "string \<Rightarrow> string \<Rightarrow> object_meta \<Rightarrow> go_error option \<Rightarrow> event" where
  "create_event kind grp m err =
     (let obj = FormatResourceForCLIWithNamespace kind grp m in
      case err of
        None \<Rightarrow> EventNormal (kind @ ''Created'') (''Created '' @ obj @ '' because it was missing'')
      | Some e \<Rightarrow> EventWarning (kind @ ''CreateFailed'')
                   (''Failed to create '' @ obj @ '': '' @ ErrorText e))"

definition update_event :: "string \<Rightarrow> string \<Rightarrow> object_meta \<Rightarrow> go_error option \<Rightarrow> event" where
  "update_event kind grp m err =
     (let obj = FormatResourceForCLIWithNamespace kind grp m in
      case err of
        Some e \<Rightarrow> EventWarning (kind @ ''UpdateFailed'')
                   (''Failed to update '' @ obj @ '': '' @ ErrorText e)
      | None \<Rightarrow> EventNormal (kind @ ''Updated'') (''Updated '' @ obj @ '' because it changed''))"

definition ReportCreateEvent :: "string \<Rightarrow> string \<Rightarrow> object_meta \<Rightarrow> go_error option \<Rightarrow> 'w env \<Rightarrow> 'w env" where
  "ReportCreateEvent kind grp m err s = emit (create_event kind grp m err) s"

definition ReportUpdateEvent :: "string \<Rightarrow> string \<Rightarrow> object_meta \<Rightarrow> go_error option \<Rightarrow> 'w env \<Rightarrow> 'w env" where
  "ReportUpdateEvent kind grp m err s = emit (update_event kind grp m err) s"

section \<open>The shape of an apply function\<close>

text \<open>
  Look the object up; create it if it is missing; give up on another error; otherwise let
  \<open>plan\<close> decide, from the object found, whether to leave it, to write it or to give up with
  an error. The apply functions are modelled one by one from the source, and each is shown
  to be an instance of this one.
\<close>

datatype 'o decision = is_Keep: Keep 'o | Write 'o | Refuse go_error

definition emit_all :: "event list \<Rightarrow> 'w env \<Rightarrow> 'w env" where
  "emit_all es s = s\<lparr>env_events := env_events s @ es\<rparr>"

definition apply_skeleton ::
  "('w, 'o) resource_client \<Rightarrow> string \<Rightarrow> string \<Rightarrow> 'o \<Rightarrow> ('o \<Rightarrow> 'o decision) \<Rightarrow>
   (go_error option \<Rightarrow> event list) \<Rightarrow> ('o \<Rightarrow> go_error option \<Rightarrow> event list) \<Rightarrow> ('w, 'o apply_result) go" where
  "apply_skeleton client ns n created plan evc evu s =
     (case call (rc_get client ns n) s of
        (Inl e, s1) \<Rightarrow>
          if IsNotFound e then
            (case call (rc_create client ns created) s1 of
               (r, s2) \<Rightarrow> (apply_write r, emit_all (evc (error_of r)) s2))
          else (apply_fail e, s1)
      | (Inr ex, s1) \<Rightarrow>
          (case plan ex of
             Keep ex' \<Rightarrow> (apply_same ex', s1)
           | Refuse e \<Rightarrow> (apply_fail e, s1)
           | Write ob \<Rightarrow>
               (case call (rc_update client ns ob) s1 of
                  (r, s2) \<Rightarrow> (apply_write r, emit_all (evu ob (error_of r)) s2))))"

lemma emit_all_simps [simp]:
  "emit_all [] s = s" "emit_all [e] s = emit e s"
  "env_world (emit_all es s) = env_world s" "env_events (emit_all es s) = env_events s @ es"
  by (simp_all add: emit_all_def emit_def)

text \<open>An apply emits one report for a write and none otherwise.\<close>

lemma apply_skeleton_events:
  assumes "apply_skeleton client ns n created plan evc evu s = ((a, ch, err), s')"
  shows "\<not> ch \<Longrightarrow> env_events s' = env_events s"
    and "ch \<Longrightarrow> env_events s' = env_events s @ evc err \<or> (\<exists>ob. env_events s' = env_events s @ evu ob err)"
proof -
  show "\<not> ch \<Longrightarrow> env_events s' = env_events s"
    using assms by (auto simp: apply_skeleton_def apply_write_def apply_same_def apply_fail_def
        dest!: call_eventsD split: prod.splits sum.splits if_splits decision.splits)
  show "ch \<Longrightarrow> env_events s' = env_events s @ evc err \<or> (\<exists>ob. env_events s' = env_events s @ evu ob err)"
    using assms by (auto simp: apply_skeleton_def apply_write_def apply_same_def apply_fail_def
        dest!: call_eventsD split: prod.splits sum.splits if_splits decision.splits)
qed

section \<open>What the operator relies on\<close>

text \<open>
  \<open>kept_meta ns m m'\<close>: the server stored the metadata \<open>m\<close> of a request in namespace
  \<open>ns\<close> as \<open>m'\<close>; it assigns identity, version, generation and timestamps and fills in a
  missing namespace, and keeps what the client says.
\<close>

definition kept_meta :: "string \<Rightarrow> object_meta \<Rightarrow> object_meta \<Rightarrow> bool" where
  "kept_meta ns m m' \<longleftrightarrow>
     om_name m' = om_name m \<and> om_labels m' = om_labels m \<and> om_annotations m' = om_annotations m \<and>
     om_ownerReferences m' = om_ownerReferences m \<and>
     om_namespace m' = (if om_namespace m = [] then ns else om_namespace m)"

lemma meta_in_sync_kept:
  assumes "meta_in_sync m req" and "kept_meta ns m m'"
  shows "meta_in_sync m' req"
proof (cases "om_namespace m = []")
  case False
  with assms(2) have "same_desired_meta m' m" by (simp add: kept_meta_def same_desired_meta_def)
  with assms(1) show ?thesis by (rule meta_in_sync_cong)
next
  case True
  with assms(1) have r: "om_namespace req = []"
    unfolding meta_in_sync_def
    by (metis EnsureObjectMeta_name(2) snd_conv)
  have "EnsureObjectMeta False (m\<lparr>om_namespace := ns'\<rparr>) req =
      (fst (EnsureObjectMeta False m req), (snd (EnsureObjectMeta False m req))\<lparr>om_namespace := ns'\<rparr>)" for ns'
    using r by (simp add: EnsureObjectMeta_def SetStringIfSet_def Let_def case_prod_beta)
  then have "meta_in_sync (m\<lparr>om_namespace := ns\<rparr>) req"
    using assms(1) by (simp add: meta_in_sync_def)
  moreover have "same_desired_meta m' (m\<lparr>om_namespace := ns\<rparr>)"
    using assms(2) True by (simp add: kept_meta_def same_desired_meta_def)
  ultimately show ?thesis by (rule meta_in_sync_cong)
qed

lemma created_kept_in_sync:
  "mergeable_meta req \<Longrightarrow> kept_meta ns (WithCleanLabelsAndAnnotations req) m' \<Longrightarrow> meta_in_sync m' req"
  by (rule meta_in_sync_kept [OF WithClean_in_sync])

lemma merged_kept_in_sync:
  "mergeable_meta req \<Longrightarrow> kept_meta ns (snd (EnsureObjectMeta b ex req)) m' \<Longrightarrow> meta_in_sync m' req"
  by (rule meta_in_sync_kept [OF EnsureObjectMeta_settles])

lemma required_kept_in_sync:
  "mergeable_meta req \<Longrightarrow> kept_meta ns req m' \<Longrightarrow> meta_in_sync m' req"
  by (rule meta_in_sync_kept [OF self_in_sync])

locale object_api =
  fixes client :: "('w, 'o) resource_client"
    and name_of :: "'o \<Rightarrow> string"
    and admits :: "string \<Rightarrow> 'o \<Rightarrow> 'o \<Rightarrow> bool"
    and world_ok :: "'w \<Rightarrow> bool"
  assumes get_reads: "rc_get client ns n w = (r, w') \<Longrightarrow> w' = w"
    and get_name: "world_ok w \<Longrightarrow> fst (rc_get client ns n w) = Inr ob \<Longrightarrow> name_of ob = n"
    and create_inv: "world_ok w \<Longrightarrow> rc_create client ns ob w = (r, w') \<Longrightarrow> world_ok w'"
    and update_inv: "world_ok w \<Longrightarrow> rc_update client ns ob w = (r, w') \<Longrightarrow> world_ok w'"
    and create_stores: "rc_create client ns ob w = (Inr a, w') \<Longrightarrow>
      rc_get client ns (name_of ob) w' = (Inr a, w')"
    and update_stores: "rc_update client ns ob w = (Inr a, w') \<Longrightarrow>
      rc_get client ns (name_of ob) w' = (Inr a, w')"
    and create_admits: "rc_create client ns ob w = (Inr a, w') \<Longrightarrow> admits ns ob a"
    and update_admits: "rc_update client ns ob w = (Inr a, w') \<Longrightarrow> admits ns ob a"
begin

lemma call_get: "call (rc_get client ns n) s = (fst (rc_get client ns n (env_world s)), s)"
  using get_reads [of ns n "env_world s"]
  by (cases "rc_get client ns n (env_world s)") (auto simp: call_def)

lemma call_create_stores:
  "call (rc_create client ns ob) s = (Inr a, s') \<Longrightarrow>
    call (rc_get client ns (name_of ob)) (emit_all es s') = (Inr a, emit_all es s')"
  by (auto simp: call_def dest!: create_stores split: prod.splits)

lemma call_update_stores:
  "call (rc_update client ns ob) s = (Inr a, s') \<Longrightarrow>
    call (rc_get client ns (name_of ob)) (emit_all es s') = (Inr a, emit_all es s')"
  by (auto simp: call_def dest!: update_stores split: prod.splits)

lemma call_create_inv: "call (rc_create client ns ob) s = (r, s') \<Longrightarrow> world_ok (env_world s) \<Longrightarrow> world_ok (env_world s')"
  by (auto simp: call_def dest: create_inv split: prod.splits)

lemma call_update_inv: "call (rc_update client ns ob) s = (r, s') \<Longrightarrow> world_ok (env_world s) \<Longrightarrow> world_ok (env_world s')"
  by (auto simp: call_def dest: update_inv split: prod.splits)

lemma apply_inv:
  "world_ok (env_world s) \<Longrightarrow> apply_skeleton client ns n created plan evc evu s = (r, s') \<Longrightarrow> world_ok (env_world s')"
  by (auto simp: apply_skeleton_def call_get dest!: call_create_inv call_update_inv
      split: sum.splits prod.splits decision.splits if_splits)

lemma call_create_admits: "call (rc_create client ns ob) s = (Inr a, s') \<Longrightarrow> admits ns ob a"
  by (auto simp: call_def dest: create_admits split: prod.splits)

lemma call_update_admits: "call (rc_update client ns ob) s = (Inr a, s') \<Longrightarrow> admits ns ob a"
  by (auto simp: call_def dest: update_admits split: prod.splits)

end

lemma object_api_weaken:
  assumes "object_api client name_of admits world_ok" and "\<And>ns x a. admits ns x a \<Longrightarrow> admits' ns x a"
  shows "object_api client name_of admits' world_ok"
proof (rule object_api.intro)
  note adm = object_api.create_admits [OF assms(1), THEN assms(2)] object_api.update_admits [OF assms(1), THEN assms(2)]
  show "w' = w" if "rc_get client ns n w = (r, w')" for ns n w r w' using that by (rule object_api.get_reads [OF assms(1)])
  show "name_of ob = n" if "world_ok w" and "fst (rc_get client ns n w) = Inr ob" for w ns n ob
    using that by (rule object_api.get_name [OF assms(1)])
  show "world_ok w'" if "world_ok w" and "rc_create client ns ob w = (r, w')" for w ns ob r w'
    using that by (rule object_api.create_inv [OF assms(1)])
  show "world_ok w'" if "world_ok w" and "rc_update client ns ob w = (r, w')" for w ns ob r w'
    using that by (rule object_api.update_inv [OF assms(1)])
  show "rc_get client ns (name_of ob) w' = (Inr a, w')" if "rc_create client ns ob w = (Inr a, w')" for ns ob w a w'
    using that by (rule object_api.create_stores [OF assms(1)])
  show "rc_get client ns (name_of ob) w' = (Inr a, w')" if "rc_update client ns ob w = (Inr a, w')" for ns ob w a w'
    using that by (rule object_api.update_stores [OF assms(1)])
  show "admits' ns ob a" if "rc_create client ns ob w = (Inr a, w')" for ns ob w a w'
    using that by (rule adm(1))
  show "admits' ns ob a" if "rc_update client ns ob w = (Inr a, w')" for ns ob w a w'
    using that by (rule adm(2))
qed

text \<open>
  What a kind of object brings: the requirements it can settle (\<open>wf\<close>), the object to
  create, the plan for an existing one, and what the operator remembers of an applied object
  (\<open>memo\<close>: a deployment's generation, nothing for the other kinds), which the next plan
  is made with.
\<close>

locale apply_kind =
  fixes name_of :: "'o \<Rightarrow> string"
    and admits :: "string \<Rightarrow> 'o \<Rightarrow> 'o \<Rightarrow> bool"
    and wf :: "'o \<Rightarrow> bool"
    and created :: "'o \<Rightarrow> 'o"
    and plan :: "'c \<Rightarrow> 'o \<Rightarrow> 'o \<Rightarrow> 'o decision"
    and memo :: "'o \<Rightarrow> 'c"
  assumes created_name: "wf req \<Longrightarrow> name_of (created req) = name_of req"
    and plan_name: "wf req \<Longrightarrow> plan c req ex = Write ob \<Longrightarrow> name_of ex = name_of req \<Longrightarrow> name_of ob = name_of req"
    and plan_same: "wf req \<Longrightarrow> plan c req ex = Keep ex' \<Longrightarrow> memo ex' = memo ex \<and> is_Keep (plan (memo ex) req ex)"
    and created_settles: "wf req \<Longrightarrow> admits ns (created req) a \<Longrightarrow> is_Keep (plan (memo a) req a)"
    and written_settles: "wf req \<Longrightarrow> plan c req ex = Write ob \<Longrightarrow> admits ns ob a \<Longrightarrow> is_Keep (plan (memo a) req a)"

locale apply_convergence = object_api client name_of admits world_ok + apply_kind name_of admits wf created plan memo
  for client :: "('w, 'o) resource_client"
    and name_of :: "'o \<Rightarrow> string"
    and admits :: "string \<Rightarrow> 'o \<Rightarrow> 'o \<Rightarrow> bool"
    and world_ok :: "'w \<Rightarrow> bool"
    and wf :: "'o \<Rightarrow> bool"
    and created :: "'o \<Rightarrow> 'o"
    and plan :: "'c \<Rightarrow> 'o \<Rightarrow> 'o \<Rightarrow> 'o decision"
    and memo :: "'o \<Rightarrow> 'c"
begin

lemma settles:
  assumes "wf req" and "world_ok (env_world s)"
    and "apply_skeleton client ns (name_of req) (created req) (plan c req) evc evu s = ((Some a, ch, None), s')"
  shows "\<exists>b. call (rc_get client ns (name_of req)) s' = (Inr b, s') \<and> memo a = memo b \<and> is_Keep (plan (memo b) req b)"
proof (cases "call (rc_get client ns (name_of req)) s")
  case (Pair r s1)
  then have s1: "s1 = s" using call_get by simp
  show ?thesis
  proof (cases r)
    case (Inl e)
    with assms(3) Pair obtain s2 where nf: "call (rc_create client ns (created req)) s = (Inr a, s2)"
      and s': "s' = emit_all (evc None) s2"
      by (auto simp: apply_skeleton_def s1 split: if_splits prod.splits)
    from call_create_stores [OF nf] call_create_admits [OF nf] assms(1)
    show ?thesis by (simp add: s' created_name created_settles)
  next
    case (Inr ex)
    then have name: "name_of ex = name_of req" using Pair call_get get_name [OF assms(2)] by (metis fst_conv)
    show ?thesis
    proof (cases "plan c req ex")
      case (Refuse e)
      with assms(3) Pair Inr show ?thesis by (simp add: apply_skeleton_def)
    next
      case (Keep ex')
      with assms(1,3) Pair Inr have "a = ex'" and "s' = s" by (auto simp: apply_skeleton_def s1)
      with Pair Inr plan_same [OF assms(1) Keep] show ?thesis by (simp add: s1)
    next
      case (Write ob)
      with assms(3) Pair \<open>r = Inr ex\<close> obtain s2 where up: "call (rc_update client ns ob) s = (Inr a, s2)"
        and s': "s' = emit_all (evu ob None) s2"
        by (auto simp: apply_skeleton_def s1 split: prod.splits)
      from call_update_stores [OF up] call_update_admits [OF up] assms(1) Write
      show ?thesis by (simp add: s' plan_name [OF assms(1) Write name] written_settles)
    qed
  qed
qed

lemma converges:
  assumes "wf req" and "world_ok (env_world s)"
    and "apply_skeleton client ns (name_of req) (created req) (plan c req) evc evu s = ((Some a, ch, None), s')"
  shows "\<exists>a'. apply_skeleton client ns (name_of req) (created req) (plan (memo a) req) evc evu s' =
    ((Some a', False, None), s') \<and> memo a' = memo a"
proof -
  obtain b where b: "call (rc_get client ns (name_of req)) s' = (Inr b, s')" "memo a = memo b"
    "is_Keep (plan (memo b) req b)"
    using settles [OF assms] by blast
  then obtain a' where "plan (memo b) req b = Keep a'" by (auto simp: is_Keep_def)
  with b plan_same [OF assms(1)] show ?thesis by (auto simp: apply_skeleton_def apply_same_def)
qed

end

end
