(* ===== verification/Resource_Apply.thy ===== *)
theory Resource_Apply
  imports Resource_Client
begin

text \<open>
  The apply functions of library-go for the RBAC objects
  (\<^verbatim>\<open>pkg/operator/resource/resourceapply/rbac.go\<close>): bring a stored object to the form
  required, creating it when it is missing. Each function is translated branch by branch and
  then shown to be an instance of \<open>apply_skeleton\<close>. The locale \<open>merged_kind\<close> is what the
  kinds have in common: metadata merged by \<open>EnsureObjectMeta\<close>, and a content that is
  compared with the required one and replaced when it differs.

  The changes logged at a verbosity of 2 or more are not modelled.
\<close>

section \<open>Objects with merged metadata and required content\<close>

locale merged_kind =
  fixes meta :: "'o \<Rightarrow> object_meta"
    and set_meta :: "object_meta \<Rightarrow> 'o \<Rightarrow> 'o"
    and prepare :: "'o \<Rightarrow> 'o"
    and content_same :: "'o \<Rightarrow> 'o \<Rightarrow> bool"
    and take_content :: "'o \<Rightarrow> 'o \<Rightarrow> 'o"
    and keeps :: "'o \<Rightarrow> 'o \<Rightarrow> bool"
    and ok :: "'o \<Rightarrow> bool"
  assumes meta_set: "meta (set_meta m x) = m"
    and meta_prepare: "meta (prepare x) = meta x"
    and meta_take: "meta (take_content req x) = meta x"
    and created_same: "ok req \<Longrightarrow> keeps (set_meta m req) a \<Longrightarrow> content_same req a"
    and taken_same: "ok req \<Longrightarrow> keeps (take_content req x) a \<Longrightarrow> content_same req a"
begin

definition wf :: "'o \<Rightarrow> bool" where
  "wf req \<longleftrightarrow> ok req \<and> mergeable_meta (meta req) \<and> om_name (meta req) \<noteq> []"

definition admits :: "string \<Rightarrow> 'o \<Rightarrow> 'o \<Rightarrow> bool" where
  "admits ns x a \<longleftrightarrow> kept_meta ns (meta x) (meta a) \<and> keeps x a"

definition created :: "'o \<Rightarrow> 'o" where
  "created req = set_meta (WithCleanLabelsAndAnnotations (meta req)) req"

definition merge_plan :: "unit \<Rightarrow> 'o \<Rightarrow> 'o \<Rightarrow> 'o decision" where
  "merge_plan u req ex =
     (let (modified, m) = EnsureObjectMeta False (meta ex) (meta req) in
      if content_same req ex \<and> \<not> modified then Keep (set_meta m (prepare ex))
      else Write (take_content req (set_meta m (prepare ex))))"

lemma in_sync_plan:
  "content_same req ex \<Longrightarrow> meta_in_sync (meta ex) (meta req) \<Longrightarrow> is_Keep (merge_plan u req ex)"
  by (simp add: merge_plan_def meta_in_sync_def)

lemma keep_plan:
  "wf req \<Longrightarrow> is_Keep (merge_plan u req ex) \<Longrightarrow> content_same req ex \<and> meta_in_sync (meta ex) (meta req)"
  by (auto simp: merge_plan_def wf_def meta_in_sync_iff case_prod_beta split: if_splits)

lemma plan_write_meta:
  "merge_plan u req ex = Write ob \<Longrightarrow> meta ob = snd (EnsureObjectMeta False (meta ex) (meta req))"
  by (auto simp: merge_plan_def meta_take meta_set case_prod_beta split: if_splits)

lemma plan_write_namespace:
  "merge_plan u req ex = Write ob \<Longrightarrow> om_namespace (meta ex) = om_namespace (meta req) \<Longrightarrow>
    om_namespace (meta ob) = om_namespace (meta req)"
  by (simp add: plan_write_meta EnsureObjectMeta_name(2))

lemma created_namespace: "om_namespace (meta (created req)) = om_namespace (meta req)"
  by (simp add: created_def meta_set WithCleanLabelsAndAnnotations_def)

lemma plan_accepts: "merge_plan u req ex \<noteq> Refuse e"
  by (simp add: merge_plan_def case_prod_beta)

lemma plan_write_content:
  "merge_plan u req ex = Write ob \<Longrightarrow> \<exists>x. ob = take_content req x"
  by (auto simp: merge_plan_def case_prod_beta split: if_splits)

end

sublocale merged_kind \<subseteq> kind: apply_kind "\<lambda>x. om_name (meta x)" admits wf created merge_plan "\<lambda>_. ()"
proof unfold_locales
  fix req assume "wf req"
  then show "om_name (meta (created req)) = om_name (meta req)"
    by (simp add: created_def meta_set WithCleanLabelsAndAnnotations_def)
next
  fix req u ex ob
  assume "wf req" "merge_plan u req ex = Write ob" "om_name (meta ex) = om_name (meta req)"
  then show "om_name (meta ob) = om_name (meta req)"
    by (simp add: plan_write_meta EnsureObjectMeta_name wf_def)
next
  fix req u ex ex'
  assume "wf req" "merge_plan u req ex = Keep ex'"
  then show "() = () \<and> is_Keep (merge_plan () req ex)" by simp
next
  fix req ns a
  assume "wf req" and adm: "admits ns (created req) a"
  then have "content_same req a" using created_same by (auto simp: admits_def created_def wf_def)
  moreover have "meta_in_sync (meta a) (meta req)"
    using adm \<open>wf req\<close> by (auto simp: admits_def created_def meta_set wf_def intro: created_kept_in_sync)
  ultimately show "is_Keep (merge_plan () req a)" by (rule in_sync_plan)
next
  fix req u ex ob ns a
  assume "wf req" and pl: "merge_plan u req ex = Write ob" and adm: "admits ns ob a"
  then have "content_same req a"
    using taken_same plan_write_content [OF pl] by (auto simp: admits_def wf_def)
  moreover have "meta_in_sync (meta a) (meta req)"
    using adm \<open>wf req\<close> plan_write_meta [OF pl] by (auto simp: admits_def wf_def intro: merged_kept_in_sync)
  ultimately show "is_Keep (merge_plan () req a)" by (rule in_sync_plan)
qed

section \<open>Roles\<close>

abbreviation rbac_group :: string where "rbac_group \<equiv> ''rbac.authorization.k8s.io''"

definition ApplyRole :: "('w, role) resource_client \<Rightarrow> role \<Rightarrow> ('w, role apply_result) go" where
  "ApplyRole client required s =
     (let ns = om_namespace (role_meta required); name = om_name (role_meta required) in
      case call (rc_get client ns name) s of
        (Inl err, s1) \<Rightarrow>
          if IsNotFound err then
            (let (r, s2) = call (rc_create client ns
                   (required\<lparr>role_meta := WithCleanLabelsAndAnnotations (role_meta required)\<rparr>)) s1
             in (apply_write r, ReportCreateEvent ''Role'' rbac_group (role_meta required) (error_of r) s2))
          else (apply_fail err, s1)
      | (Inr existing, s1) \<Rightarrow>
          (let (modified, m) = EnsureObjectMeta False (role_meta existing) (role_meta required);
               existingCopy = existing\<lparr>role_meta := m\<rparr>;
               contentSame = (role_rules existingCopy = role_rules required) in
           if contentSame \<and> \<not> modified then (apply_same existingCopy, s1)
           else
             (let toWrite = existingCopy\<lparr>role_rules := role_rules required\<rparr>;
                  (r, s2) = call (rc_update client ns toWrite) s1
              in (apply_write r, ReportUpdateEvent ''Role'' rbac_group (role_meta required) (error_of r) s2))))"

definition role_same :: "role \<Rightarrow> role \<Rightarrow> bool" where
  "role_same req ex \<longleftrightarrow> role_rules ex = role_rules req"

definition role_take :: "role \<Rightarrow> role \<Rightarrow> role" where
  "role_take req ex = ex\<lparr>role_rules := role_rules req\<rparr>"

interpretation role_kind: merged_kind role_meta "\<lambda>m x. x\<lparr>role_meta := m\<rparr>" id role_same role_take
  role_same "\<lambda>_. True"
  by unfold_locales (simp_all add: role_same_def role_take_def)

lemma ApplyRole_skeleton:
  "ApplyRole client required =
    apply_skeleton client (om_namespace (role_meta required)) (om_name (role_meta required))
      (role_kind.created required) (role_kind.merge_plan () required)
      (\<lambda>e. [create_event ''Role'' rbac_group (role_meta required) e])
      (\<lambda>_ e. [update_event ''Role'' rbac_group (role_meta required) e])"
  by (auto simp: fun_eq_iff ApplyRole_def apply_skeleton_def role_kind.created_def role_kind.merge_plan_def
      role_same_def role_take_def Let_def ReportCreateEvent_def ReportUpdateEvent_def
      split: prod.split sum.split)

section \<open>Cluster roles\<close>

definition ApplyClusterRole ::
  "('w, cluster_role) resource_client \<Rightarrow> cluster_role \<Rightarrow> ('w, cluster_role apply_result) go" where
  "ApplyClusterRole client required s =
     (let name = om_name (crole_meta required) in
      case call (rc_get client [] name) s of
        (Inl err, s1) \<Rightarrow>
          if IsNotFound err then
            (let (r, s2) = call (rc_create client []
                   (required\<lparr>crole_meta := WithCleanLabelsAndAnnotations (crole_meta required)\<rparr>)) s1
             in (apply_write r, ReportCreateEvent ''ClusterRole'' rbac_group (crole_meta required) (error_of r) s2))
          else (apply_fail err, s1)
      | (Inr existing, s1) \<Rightarrow>
          (let (modified, m) = EnsureObjectMeta False (crole_meta existing) (crole_meta required);
               existingCopy = existing\<lparr>crole_meta := m\<rparr>;
               rulesContentSame = (crole_rules existingCopy = crole_rules required);
               aggregationRuleContentSame =
                 (crole_aggregationRule existingCopy = crole_aggregationRule required) in
           if aggregationRuleContentSame \<and> rulesContentSame \<and> \<not> modified then (apply_same existingCopy, s1)
           else
             (let w1 = (if \<not> aggregationRuleContentSame
                        then existingCopy\<lparr>crole_aggregationRule := crole_aggregationRule required\<rparr>
                        else existingCopy);
                  w2 = (if \<not> rulesContentSame \<and> crole_aggregationRule required = None
                        then w1\<lparr>crole_rules := crole_rules required\<rparr> else w1);
                  (r, s2) = call (rc_update client [] w2) s1
              in (apply_write r,
                  ReportUpdateEvent ''ClusterRole'' rbac_group (crole_meta required) (error_of r) s2))))"

definition crole_same :: "cluster_role \<Rightarrow> cluster_role \<Rightarrow> bool" where
  "crole_same req ex \<longleftrightarrow> crole_aggregationRule ex = crole_aggregationRule req \<and> crole_rules ex = crole_rules req"

definition crole_take :: "cluster_role \<Rightarrow> cluster_role \<Rightarrow> cluster_role" where
  "crole_take req ex =
     (let w1 = ex\<lparr>crole_aggregationRule := crole_aggregationRule req\<rparr> in
      if crole_aggregationRule req = None then w1\<lparr>crole_rules := crole_rules req\<rparr> else w1)"

text \<open>
  With an aggregation rule the control plane owns the rules and the apply never writes them,
  so only a requirement without one settles.
\<close>

interpretation crole_kind: merged_kind crole_meta "\<lambda>m x. x\<lparr>crole_meta := m\<rparr>" id crole_same crole_take
  crole_same "\<lambda>req. crole_aggregationRule req = None"
  by unfold_locales (simp_all add: crole_same_def crole_take_def Let_def)

lemma crole_take_alt:
  "(let w1 = (if crole_aggregationRule ex \<noteq> crole_aggregationRule req
              then ex\<lparr>crole_aggregationRule := crole_aggregationRule req\<rparr> else ex)
    in if crole_rules ex \<noteq> crole_rules req \<and> crole_aggregationRule req = None
       then w1\<lparr>crole_rules := crole_rules req\<rparr> else w1) = crole_take req ex"
  by (cases ex) (auto simp: crole_take_def Let_def)

lemma ApplyClusterRole_skeleton:
  "ApplyClusterRole client required =
    apply_skeleton client [] (om_name (crole_meta required))
      (crole_kind.created required) (crole_kind.merge_plan () required)
      (\<lambda>e. [create_event ''ClusterRole'' rbac_group (crole_meta required) e])
      (\<lambda>_ e. [update_event ''ClusterRole'' rbac_group (crole_meta required) e])"
  using crole_take_alt [of "_\<lparr>crole_meta := _\<rparr>" required]
  by (auto simp: fun_eq_iff ApplyClusterRole_def apply_skeleton_def crole_kind.created_def
      crole_kind.merge_plan_def crole_same_def Let_def ReportCreateEvent_def ReportUpdateEvent_def
      split: prod.split sum.split)

section \<open>Role bindings\<close>

text \<open>
  The API group is enforced in the role reference and in the subjects of kind \<^verbatim>\<open>User\<close>
  before two bindings are compared.
\<close>

definition enforce_user_group :: "subject \<Rightarrow> subject" where
  "enforce_user_group sub =
     (if sub_kind sub = ''User'' then sub\<lparr>sub_apiGroup := rbac_group\<rparr> else sub)"

definition enforceAPIGroups :: "role_binding \<Rightarrow> role_binding" where
  "enforceAPIGroups rb =
     rb\<lparr>rb_roleRef := (rb_roleRef rb)\<lparr>rr_apiGroup := rbac_group\<rparr>,
        rb_subjects := map enforce_user_group (rb_subjects rb)\<rparr>"

lemma enforce_user_group_idem [simp]: "enforce_user_group (enforce_user_group sub) = enforce_user_group sub"
  by (simp add: enforce_user_group_def)

lemma enforceAPIGroups_idem [simp]: "enforceAPIGroups (enforceAPIGroups rb) = enforceAPIGroups rb"
  by (simp add: enforceAPIGroups_def)

lemma enforceAPIGroups_meta [simp]:
  "rb_meta (enforceAPIGroups rb) = rb_meta rb"
  "enforceAPIGroups (rb\<lparr>rb_meta := m\<rparr>) = (enforceAPIGroups rb)\<lparr>rb_meta := m\<rparr>"
  by (simp_all add: enforceAPIGroups_def)

definition ApplyRoleBinding ::
  "('w, role_binding) resource_client \<Rightarrow> role_binding \<Rightarrow> ('w, role_binding apply_result) go" where
  "ApplyRoleBinding client required s =
     (let ns = om_namespace (rb_meta required); name = om_name (rb_meta required) in
      case call (rc_get client ns name) s of
        (Inl err, s1) \<Rightarrow>
          if IsNotFound err then
            (let (r, s2) = call (rc_create client ns
                   (required\<lparr>rb_meta := WithCleanLabelsAndAnnotations (rb_meta required)\<rparr>)) s1
             in (apply_write r, ReportCreateEvent ''RoleBinding'' rbac_group (rb_meta required) (error_of r) s2))
          else (apply_fail err, s1)
      | (Inr existing, s1) \<Rightarrow>
          (let existingCopy = enforceAPIGroups existing;
               requiredCopy = enforceAPIGroups required;
               (modified, m) = EnsureObjectMeta False (rb_meta existingCopy) (rb_meta requiredCopy);
               existingCopy = existingCopy\<lparr>rb_meta := m\<rparr>;
               subjectsAreSame = (rb_subjects existingCopy = rb_subjects requiredCopy);
               roleRefIsSame = (rb_roleRef existingCopy = rb_roleRef requiredCopy) in
           if subjectsAreSame \<and> roleRefIsSame \<and> \<not> modified then (apply_same existingCopy, s1)
           else
             (let toWrite = existingCopy\<lparr>rb_subjects := rb_subjects requiredCopy,
                              rb_roleRef := rb_roleRef requiredCopy\<rparr>;
                  (r, s2) = call (rc_update client ns toWrite) s1
              in (apply_write r,
                  ReportUpdateEvent ''RoleBinding'' rbac_group (rb_meta requiredCopy) (error_of r) s2))))"

definition ApplyClusterRoleBinding ::
  "('w, role_binding) resource_client \<Rightarrow> role_binding \<Rightarrow> ('w, role_binding apply_result) go" where
  "ApplyClusterRoleBinding client required s =
     (let ns = []; name = om_name (rb_meta required) in
      case call (rc_get client ns name) s of
        (Inl err, s1) \<Rightarrow>
          if IsNotFound err then
            (let (r, s2) = call (rc_create client ns
                   (required\<lparr>rb_meta := WithCleanLabelsAndAnnotations (rb_meta required)\<rparr>)) s1
             in (apply_write r, ReportCreateEvent ''ClusterRoleBinding'' rbac_group (rb_meta required) (error_of r) s2))
          else (apply_fail err, s1)
      | (Inr existing, s1) \<Rightarrow>
          (let existingCopy = enforceAPIGroups existing;
               requiredCopy = enforceAPIGroups required;
               (modified, m) = EnsureObjectMeta False (rb_meta existingCopy) (rb_meta requiredCopy);
               existingCopy = existingCopy\<lparr>rb_meta := m\<rparr>;
               subjectsAreSame = (rb_subjects existingCopy = rb_subjects requiredCopy);
               roleRefIsSame = (rb_roleRef existingCopy = rb_roleRef requiredCopy) in
           if subjectsAreSame \<and> roleRefIsSame \<and> \<not> modified then (apply_same existingCopy, s1)
           else
             (let toWrite = existingCopy\<lparr>rb_subjects := rb_subjects requiredCopy,
                              rb_roleRef := rb_roleRef requiredCopy\<rparr>;
                  (r, s2) = call (rc_update client ns toWrite) s1
              in (apply_write r,
                  ReportUpdateEvent ''ClusterRoleBinding'' rbac_group (rb_meta requiredCopy) (error_of r) s2))))"

definition binding_same :: "role_binding \<Rightarrow> role_binding \<Rightarrow> bool" where
  "binding_same req ex \<longleftrightarrow>
     rb_subjects (enforceAPIGroups ex) = rb_subjects (enforceAPIGroups req) \<and>
     rb_roleRef (enforceAPIGroups ex) = rb_roleRef (enforceAPIGroups req)"

definition binding_take :: "role_binding \<Rightarrow> role_binding \<Rightarrow> role_binding" where
  "binding_take req ex = ex\<lparr>rb_subjects := rb_subjects (enforceAPIGroups req),
     rb_roleRef := rb_roleRef (enforceAPIGroups req)\<rparr>"

text \<open>The server may itself fill in the API groups of what it is sent.\<close>

interpretation binding_kind: merged_kind rb_meta "\<lambda>m x. x\<lparr>rb_meta := m\<rparr>" enforceAPIGroups
  binding_same binding_take binding_same "\<lambda>_. True"
proof unfold_locales
  fix req x a :: role_binding
  assume "binding_same (binding_take req x) a"
  moreover have "rb_subjects (enforceAPIGroups (binding_take req x)) = rb_subjects (enforceAPIGroups req)"
    and "rb_roleRef (enforceAPIGroups (binding_take req x)) = rb_roleRef (enforceAPIGroups req)"
    by (simp_all add: binding_take_def enforceAPIGroups_def)
  ultimately show "binding_same req a" by (simp add: binding_same_def)
qed (simp_all add: binding_same_def binding_take_def)

lemma ApplyRoleBinding_skeleton:
  "ApplyRoleBinding client required =
    apply_skeleton client (om_namespace (rb_meta required)) (om_name (rb_meta required))
      (binding_kind.created required) (binding_kind.merge_plan () required)
      (\<lambda>e. [create_event ''RoleBinding'' rbac_group (rb_meta required) e])
      (\<lambda>_ e. [update_event ''RoleBinding'' rbac_group (rb_meta required) e])"
  by (auto simp: fun_eq_iff ApplyRoleBinding_def apply_skeleton_def binding_kind.created_def
      binding_kind.merge_plan_def binding_same_def binding_take_def Let_def
      ReportCreateEvent_def ReportUpdateEvent_def split: prod.split sum.split)

lemma ApplyClusterRoleBinding_skeleton:
  "ApplyClusterRoleBinding client required =
    apply_skeleton client [] (om_name (rb_meta required))
      (binding_kind.created required) (binding_kind.merge_plan () required)
      (\<lambda>e. [create_event ''ClusterRoleBinding'' rbac_group (rb_meta required) e])
      (\<lambda>_ e. [update_event ''ClusterRoleBinding'' rbac_group (rb_meta required) e])"
  by (auto simp: fun_eq_iff ApplyClusterRoleBinding_def apply_skeleton_def binding_kind.created_def
      binding_kind.merge_plan_def binding_same_def binding_take_def Let_def
      ReportCreateEvent_def ReportUpdateEvent_def split: prod.split sum.split)

end
