(* ===== verification/Resource_Cache.thy ===== *)
theory Resource_Cache
  imports Resource_Client
begin

text \<open>
  The resource cache of library-go (\<^verbatim>\<open>resourceapply/resource_cache.go\<close>), which lets an
  apply return early when neither the requirement nor the stored object has changed since the
  last apply. A nil cache is \<open>None\<close>. The hash of a resource is a parameter: the code takes
  the MD5 of its printed form.
\<close>

type_synonym group_kind = "string \<times> string"
type_synonym cache_key = "string \<times> string \<times> group_kind"

record cached_resource =
  cr_resourceHash :: string
  cr_resourceVersion :: string

type_synonym resource_cache = "(cache_key, cached_resource) fmap option"

definition NewResourceCache :: resource_cache where
  "NewResourceCache = Some fmempty"

definition noCache :: resource_cache where
  "noCache = None"

text \<open>
  The metadata of the required object: its group and kind where they can be determined, its
  name and namespace, and its hash.
\<close>

definition getResourceMetadata ::
  "group_kind option \<Rightarrow> object_meta \<Rightarrow> string \<Rightarrow> go_error + (group_kind \<times> string \<times> string \<times> string)" where
  "getResourceMetadata gk m hash =
     (case gk of
        None \<Rightarrow> Inl (ErrorString ''unable to determine GroupKind'')
      | Some kind \<Rightarrow> Inr (kind, om_name m, om_namespace m, hash))"

definition getResourceVersion :: "object_meta option \<Rightarrow> go_error + string" where
  "getResourceVersion obj =
     (case obj of
        None \<Rightarrow> Inl (ErrorString ''nil object has no resourceVersion'')
      | Some m \<Rightarrow> if om_resourceVersion m = [] then Inl (ErrorString ''missing resourceVersion'')
                 else Inr (om_resourceVersion m))"

definition UpdateCachedResourceMetadata ::
  "resource_cache \<Rightarrow> group_kind option \<Rightarrow> object_meta \<Rightarrow> string \<Rightarrow> object_meta option \<Rightarrow> resource_cache" where
  "UpdateCachedResourceMetadata c gk required hash actual =
     (case c of
        None \<Rightarrow> c
      | Some cache \<Rightarrow>
          (case getResourceMetadata gk required hash of
             Inl _ \<Rightarrow> c
           | Inr (kind, name, namespace, resourceHash) \<Rightarrow>
               (case getResourceVersion actual of
                  Inl _ \<Rightarrow> c
                | Inr resourceVersion \<Rightarrow>
                    Some (fmupd (name, namespace, kind)
                            \<lparr>cr_resourceHash = resourceHash, cr_resourceVersion = resourceVersion\<rparr> cache))))"

definition SafeToSkipApply ::
  "resource_cache \<Rightarrow> group_kind option \<Rightarrow> object_meta \<Rightarrow> string \<Rightarrow> object_meta option \<Rightarrow> bool" where
  "SafeToSkipApply c gk required hash existing =
     (case c of
        None \<Rightarrow> False
      | Some cache \<Rightarrow>
          (case getResourceMetadata gk required hash of
             Inl _ \<Rightarrow> False
           | Inr (kind, name, namespace, resourceHash) \<Rightarrow>
               (case getResourceVersion existing of
                  Inl _ \<Rightarrow> False
                | Inr resourceVersion \<Rightarrow>
                    (case fmlookup cache (name, namespace, kind) of
                       None \<Rightarrow> False
                     | Some cached \<Rightarrow> cr_resourceVersion cached = resourceVersion \<and>
                                     cr_resourceHash cached = resourceHash))))"

lemma noCache_never_skips [simp]: "\<not> SafeToSkipApply noCache gk required hash existing"
  and noCache_update [simp]: "UpdateCachedResourceMetadata noCache gk required hash actual = noCache"
  by (simp_all add: SafeToSkipApply_def UpdateCachedResourceMetadata_def noCache_def)

lemma fresh_never_skips [simp]: "\<not> SafeToSkipApply NewResourceCache gk required hash existing"
  by (auto simp: SafeToSkipApply_def NewResourceCache_def split: sum.splits prod.splits)

text \<open>
  The cache skips only what it recorded for the same requirement and the same version of the
  stored object.
\<close>

lemma skip_after_update:
  assumes "SafeToSkipApply (UpdateCachedResourceMetadata (Some c) gk required hash actual) gk required' hash' existing"
    and "\<not> SafeToSkipApply (Some c) gk required' hash' existing"
  shows "hash' = hash \<and> om_name required' = om_name required \<and> om_namespace required' = om_namespace required \<and>
    (\<exists>a e. actual = Some a \<and> existing = Some e \<and> om_resourceVersion e = om_resourceVersion a \<and>
      om_resourceVersion e \<noteq> [])"
  using assms
  by (auto simp: SafeToSkipApply_def UpdateCachedResourceMetadata_def getResourceMetadata_def
      getResourceVersion_def split: option.splits sum.splits if_splits)

lemma update_then_skip:
  assumes "gk \<noteq> None" and "om_resourceVersion a \<noteq> []" and "om_resourceVersion e = om_resourceVersion a"
  shows "SafeToSkipApply (UpdateCachedResourceMetadata (Some c) gk required hash (Some a)) gk required hash (Some e)"
  using assms
  by (auto simp: SafeToSkipApply_def UpdateCachedResourceMetadata_def getResourceMetadata_def getResourceVersion_def)

end
