(* ===== verification/Core_Apply.thy ===== *)
theory Core_Apply
  imports Resource_Apply Resource_Cache
begin

text \<open>
  The apply functions of library-go for service accounts, services and network policies
  (\<^verbatim>\<open>resourceapply/core.go\<close>, \<^verbatim>\<open>resourceapply/networking.go\<close>). They consult a
  resource cache and return it updated. \<open>hashOf\<close> stands for the hash of a printed
  resource and \<open>spec_hash\<close> for the hash of the JSON encoding of a spec, which may fail.
\<close>

section \<open>The spec hash annotation\<close>

abbreviation specHashAnnotation :: string where
  "specHashAnnotation \<equiv> ''operator.openshift.io/spec-hash''"

definition SetSpecHashAnnotation :: "go_error + string \<Rightarrow> object_meta \<Rightarrow> go_error + object_meta" where
  "SetSpecHashAnnotation hash objMeta =
     (case hash of
        Inl err \<Rightarrow> Inl err
      | Inr h \<Rightarrow> Inr (objMeta\<lparr>om_annotations := fmupd specHashAnnotation h (om_annotations objMeta)\<rparr>))"

lemma SetSpecHashAnnotation_Inr:
  "SetSpecHashAnnotation hash m = Inr m' \<Longrightarrow>
    \<exists>h. hash = Inr h \<and> m' = m\<lparr>om_annotations := fmupd specHashAnnotation h (om_annotations m)\<rparr>"
  by (auto simp: SetSpecHashAnnotation_def split: sum.splits)

lemma not_dash_spec_hash [simp]: "\<not> HasSuffixDash specHashAnnotation"
  by (simp add: HasSuffixDash_def)

text \<open>Adding the annotation keeps a requirement mergeable, unless it also removes it.\<close>

lemma mergeable_spec_hash:
  assumes "mergeable_meta m" and "SetSpecHashAnnotation hash m = Inr m'"
    and "\<And>k. k |\<in>| fmdom (om_annotations m) \<Longrightarrow> HasSuffixDash k \<Longrightarrow> TrimRightDash k \<noteq> specHashAnnotation"
  shows "mergeable_meta m'"
  using assms by (auto simp: mergeable_meta_def clash_free_def dest!: SetSpecHashAnnotation_Inr)

section \<open>Service accounts\<close>

definition ApplyServiceAccountImproved ::
  "(service_account \<Rightarrow> string) \<Rightarrow> ('w, service_account) resource_client \<Rightarrow> service_account \<Rightarrow>
   resource_cache \<Rightarrow> ('w, service_account apply_result \<times> resource_cache) go" where
  "ApplyServiceAccountImproved hashOf client required cache s =
     (let gk = Some ([], ''ServiceAccount''); rm = sa_meta required; h = hashOf required;
          ns = om_namespace rm; name = om_name rm in
      case call (rc_get client ns name) s of
        (Inl err, s1) \<Rightarrow>
          if IsNotFound err then
            (let (r, s2) = call (rc_create client ns
                   (required\<lparr>sa_meta := WithCleanLabelsAndAnnotations rm\<rparr>)) s1;
                 s3 = ReportCreateEvent ''ServiceAccount'' [] (WithCleanLabelsAndAnnotations rm) (error_of r) s2;
                 cache' = (case r of Inl _ \<Rightarrow> cache
                           | Inr a \<Rightarrow> UpdateCachedResourceMetadata cache gk rm h (Some (sa_meta a)))
             in ((apply_write r, cache'), s3))
          else ((apply_fail err, cache), s1)
      | (Inr existing, s1) \<Rightarrow>
          if SafeToSkipApply cache gk rm h (Some (sa_meta existing)) then ((apply_same existing, cache), s1)
          else
            (let (modified, m) = EnsureObjectMeta False (sa_meta existing) rm;
                 existingCopy = existing\<lparr>sa_meta := m\<rparr> in
             if \<not> modified then
               ((apply_same existingCopy, UpdateCachedResourceMetadata cache gk rm h (Some m)), s1)
             else
               (let (r, s2) = call (rc_update client ns existingCopy) s1;
                    s3 = ReportUpdateEvent ''ServiceAccount'' [] rm (error_of r) s2;
                    cache' = (case r of Inl _ \<Rightarrow> cache
                              | Inr a \<Rightarrow> UpdateCachedResourceMetadata cache gk rm h (Some (sa_meta a)))
                in ((apply_write r, cache'), s3))))"

definition ApplyServiceAccount ::
  "(service_account \<Rightarrow> string) \<Rightarrow> ('w, service_account) resource_client \<Rightarrow> service_account \<Rightarrow>
   ('w, service_account apply_result) go" where
  "ApplyServiceAccount hashOf client required s =
     (let ((r, _), s') = ApplyServiceAccountImproved hashOf client required noCache s in (r, s'))"

text \<open>Only the metadata of a service account is required; the server owns the rest.\<close>

interpretation sa_kind: merged_kind sa_meta "\<lambda>m x. x\<lparr>sa_meta := m\<rparr>" id "\<lambda>_ _. True"
  "\<lambda>_ x. x" "\<lambda>_ _. True" "\<lambda>_. True"
  by unfold_locales simp_all

lemma WithClean_name [simp]:
  "om_name (WithCleanLabelsAndAnnotations m) = om_name m"
  "om_namespace (WithCleanLabelsAndAnnotations m) = om_namespace m"
  by (simp_all add: WithCleanLabelsAndAnnotations_def)

lemma Format_WithClean [simp]:
  "FormatResourceForCLIWithNamespace kind grp (WithCleanLabelsAndAnnotations m) =
    FormatResourceForCLIWithNamespace kind grp m"
  by (simp add: FormatResourceForCLIWithNamespace_def)

lemma create_event_WithClean [simp]:
  "create_event kind grp (WithCleanLabelsAndAnnotations m) = create_event kind grp m"
  by (simp add: create_event_def fun_eq_iff)

lemma ApplyServiceAccount_skeleton:
  "ApplyServiceAccount hashOf client required =
    apply_skeleton client (om_namespace (sa_meta required)) (om_name (sa_meta required))
      (sa_kind.created required) (sa_kind.merge_plan () required)
      (\<lambda>e. [create_event ''ServiceAccount'' [] (sa_meta required) e])
      (\<lambda>_ e. [update_event ''ServiceAccount'' [] (sa_meta required) e])"
  by (auto simp: fun_eq_iff ApplyServiceAccount_def ApplyServiceAccountImproved_def apply_skeleton_def
      sa_kind.created_def sa_kind.merge_plan_def Let_def ReportCreateEvent_def ReportUpdateEvent_def
      split: prod.split sum.split)

section \<open>Services\<close>

definition ApplyServiceImproved ::
  "(service_spec \<Rightarrow> go_error + string) \<Rightarrow> (service \<Rightarrow> string) \<Rightarrow> ('w, service) resource_client \<Rightarrow>
   service \<Rightarrow> resource_cache \<Rightarrow> ('w, service apply_result \<times> resource_cache) go" where
  "ApplyServiceImproved spec_hash hashOf client requiredOriginal cache s =
     (case SetSpecHashAnnotation (spec_hash (svc_spec requiredOriginal)) (svc_meta requiredOriginal) of
        Inl err \<Rightarrow> ((apply_fail err, cache), s)
      | Inr rm \<Rightarrow>
          (let required = requiredOriginal\<lparr>svc_meta := rm\<rparr>;
               gk = Some ([], ''Service''); h = hashOf required;
               ns = om_namespace rm; name = om_name rm in
           case call (rc_get client ns name) s of
             (Inl err, s1) \<Rightarrow>
               if IsNotFound err then
                 (let (r, s2) = call (rc_create client ns
                        (required\<lparr>svc_meta := WithCleanLabelsAndAnnotations rm\<rparr>)) s1;
                      s3 = ReportCreateEvent ''Service'' [] (WithCleanLabelsAndAnnotations rm) (error_of r) s2;
                      cache' = (case r of Inl _ \<Rightarrow> cache
                                | Inr a \<Rightarrow> UpdateCachedResourceMetadata cache gk rm h (Some (svc_meta a)))
                  in ((apply_write r, cache'), s3))
               else ((apply_fail err, cache), s1)
           | (Inr existing, s1) \<Rightarrow>
               if SafeToSkipApply cache gk rm h (Some (svc_meta existing)) then ((apply_same existing, cache), s1)
               else
                 (let (modified, m) = EnsureObjectMeta False (svc_meta existing) rm;
                      existingCopy = existing\<lparr>svc_meta := m\<rparr>;
                      selectorSame = (ss_selector (svc_spec existingCopy) = ss_selector (svc_spec required));
                      requiredIsEmpty = (ss_type (svc_spec required) = []);
                      existingCopyIsCluster = (ss_type (svc_spec existingCopy) = ''ClusterIP'');
                      typeSame = (requiredIsEmpty \<and> existingCopyIsCluster \<or>
                                  ss_type (svc_spec existingCopy) = ss_type (svc_spec required)) in
                  if selectorSame \<and> typeSame \<and> \<not> modified then
                    ((apply_same existingCopy, UpdateCachedResourceMetadata cache gk rm h (Some m)), s1)
                  else
                    (let toWrite = existingCopy\<lparr>svc_spec := svc_spec required\<rparr>;
                         (r, s2) = call (rc_update client ns toWrite) s1;
                         s3 = ReportUpdateEvent ''Service'' [] rm (error_of r) s2;
                         cache' = (case r of Inl _ \<Rightarrow> cache
                                   | Inr a \<Rightarrow> UpdateCachedResourceMetadata cache gk rm h (Some (svc_meta a)))
                     in ((apply_write r, cache'), s3)))))"

definition ApplyService ::
  "(service_spec \<Rightarrow> go_error + string) \<Rightarrow> (service \<Rightarrow> string) \<Rightarrow> ('w, service) resource_client \<Rightarrow>
   service \<Rightarrow> ('w, service apply_result) go" where
  "ApplyService spec_hash hashOf client required s =
     (let ((r, _), s') = ApplyServiceImproved spec_hash hashOf client required noCache s in (r, s'))"

text \<open>
  Selector and type are compared, the rest of the spec through its hash in the metadata. The
  server may replace an empty type by the default.
\<close>

definition service_same :: "service \<Rightarrow> service \<Rightarrow> bool" where
  "service_same req ex \<longleftrightarrow>
     ss_selector (svc_spec ex) = ss_selector (svc_spec req) \<and>
     (ss_type (svc_spec req) = [] \<and> ss_type (svc_spec ex) = ''ClusterIP'' \<or>
      ss_type (svc_spec ex) = ss_type (svc_spec req))"

definition service_take :: "service \<Rightarrow> service \<Rightarrow> service" where
  "service_take req ex = ex\<lparr>svc_spec := svc_spec req\<rparr>"

interpretation service_kind: merged_kind svc_meta "\<lambda>m x. x\<lparr>svc_meta := m\<rparr>" id service_same service_take
  service_same "\<lambda>_. True"
  by unfold_locales (simp_all add: service_same_def service_take_def)

definition with_spec_hash :: "string \<Rightarrow> service \<Rightarrow> service" where
  "with_spec_hash h required = required\<lparr>svc_meta := (svc_meta required)
     \<lparr>om_annotations := fmupd specHashAnnotation h (om_annotations (svc_meta required))\<rparr>\<rparr>"

lemma with_spec_hash_simps [simp]:
  "om_name (svc_meta (with_spec_hash h required)) = om_name (svc_meta required)"
  "om_namespace (svc_meta (with_spec_hash h required)) = om_namespace (svc_meta required)"
  "svc_spec (with_spec_hash h required) = svc_spec required"
  "FormatResourceForCLIWithNamespace k g (svc_meta (with_spec_hash h required)) =
    FormatResourceForCLIWithNamespace k g (svc_meta required)"
  by (simp_all add: with_spec_hash_def FormatResourceForCLIWithNamespace_def)

lemma ApplyService_unhashed:
  "spec_hash (svc_spec required) = Inl e \<Longrightarrow>
    ApplyService spec_hash hashOf client required s = (apply_fail e, s)"
  by (simp add: ApplyService_def ApplyServiceImproved_def SetSpecHashAnnotation_def)

lemma ApplyService_skeleton:
  assumes "spec_hash (svc_spec required) = Inr h"
  shows "ApplyService spec_hash hashOf client required =
    apply_skeleton client (om_namespace (svc_meta required)) (om_name (svc_meta required))
      (service_kind.created (with_spec_hash h required)) (service_kind.merge_plan () (with_spec_hash h required))
      (\<lambda>e. [create_event ''Service'' [] (svc_meta required) e])
      (\<lambda>_ e. [update_event ''Service'' [] (svc_meta required) e])"
proof -
  have rm: "SetSpecHashAnnotation (spec_hash (svc_spec required)) (svc_meta required) =
      Inr (svc_meta (with_spec_hash h required))"
    by (simp add: assms SetSpecHashAnnotation_def with_spec_hash_def)
  have req: "required\<lparr>svc_meta := svc_meta (with_spec_hash h required)\<rparr> = with_spec_hash h required"
    by (simp add: with_spec_hash_def)
  have ev: "create_event ''Service'' [] (svc_meta (with_spec_hash h required)) = create_event ''Service'' [] (svc_meta required)"
    "update_event ''Service'' [] (svc_meta (with_spec_hash h required)) = update_event ''Service'' [] (svc_meta required)"
    by (simp_all add: create_event_def update_event_def fun_eq_iff)
  have clean: "with_spec_hash h required\<lparr>svc_meta := m\<rparr> = required\<lparr>svc_meta := m\<rparr>" for m
    by (simp add: with_spec_hash_def)
  show ?thesis
    by (rule ext) (auto simp: ApplyService_def ApplyServiceImproved_def rm req ev clean apply_skeleton_def
        service_kind.created_def service_kind.merge_plan_def service_same_def service_take_def Let_def
        ReportCreateEvent_def ReportUpdateEvent_def split: prod.split sum.split)
qed

section \<open>Network policies\<close>

text \<open>\<open>gk\<close> is the group and kind of the requirement, as its type metadata gives it.\<close>

definition ApplyNetworkPolicy ::
  "(network_policy \<Rightarrow> string) \<Rightarrow> group_kind option \<Rightarrow> ('w, network_policy) resource_client \<Rightarrow>
   network_policy \<Rightarrow> resource_cache \<Rightarrow> ('w, network_policy apply_result \<times> resource_cache) go" where
  "ApplyNetworkPolicy hashOf gk client required cache s =
     (let rm = np_meta required; h = hashOf required; ns = om_namespace rm; name = om_name rm in
      case call (rc_get client ns name) s of
        (Inl err, s1) \<Rightarrow>
          if IsNotFound err then
            (let (r, s2) = call (rc_create client ns
                   (required\<lparr>np_meta := WithCleanLabelsAndAnnotations rm\<rparr>)) s1;
                 s3 = ReportCreateEvent ''NetworkPolicy'' ''networking.k8s.io'' rm (error_of r) s2;
                 cache' = (case r of Inl _ \<Rightarrow> cache
                           | Inr a \<Rightarrow> UpdateCachedResourceMetadata cache gk rm h (Some (np_meta a)))
             in ((apply_write r, cache'), s3))
          else ((apply_fail err, cache), s1)
      | (Inr existing, s1) \<Rightarrow>
          if SafeToSkipApply cache gk rm h (Some (np_meta existing)) then ((apply_same existing, cache), s1)
          else
            (let (modified, m) = EnsureObjectMeta False (np_meta existing) rm;
                 existingCopy = existing\<lparr>np_meta := m\<rparr>;
                 specContentSame = (np_spec existingCopy = np_spec required) in
             if specContentSame \<and> \<not> modified then
               ((apply_same existingCopy, UpdateCachedResourceMetadata cache gk rm h (Some m)), s1)
             else
               (let toWrite = existingCopy\<lparr>np_spec := np_spec required\<rparr>;
                    (r, s2) = call (rc_update client (om_namespace (np_meta toWrite)) toWrite) s1;
                    s3 = ReportUpdateEvent ''NetworkPolicy'' ''networking.k8s.io'' rm (error_of r) s2;
                    cache' = (case r of Inl _ \<Rightarrow> cache
                              | Inr a \<Rightarrow> UpdateCachedResourceMetadata cache gk rm h (Some (np_meta a)))
                in ((apply_write r, cache'), s3))))"

definition policy_same :: "network_policy \<Rightarrow> network_policy \<Rightarrow> bool" where
  "policy_same req ex \<longleftrightarrow> np_spec ex = np_spec req"

definition policy_take :: "network_policy \<Rightarrow> network_policy \<Rightarrow> network_policy" where
  "policy_take req ex = ex\<lparr>np_spec := np_spec req\<rparr>"

interpretation policy_kind: merged_kind np_meta "\<lambda>m x. x\<lparr>np_meta := m\<rparr>" id policy_same policy_take
  policy_same "\<lambda>_. True"
  by unfold_locales (simp_all add: policy_same_def policy_take_def)

text \<open>
  With a fresh cache the function is an instance of the skeleton. The update goes to the
  namespace of the merged object, which is the required one.
\<close>

lemma ApplyNetworkPolicy_skeleton:
  assumes "om_namespace (np_meta required) \<noteq> []"
    and "\<And>h ex. \<not> SafeToSkipApply cache gk (np_meta required) h ex"
  shows "(let ((r, _), s') = ApplyNetworkPolicy hashOf gk client required cache s in (r, s')) =
    apply_skeleton client (om_namespace (np_meta required)) (om_name (np_meta required))
      (policy_kind.created required) (policy_kind.merge_plan () required)
      (\<lambda>e. [create_event ''NetworkPolicy'' ''networking.k8s.io'' (np_meta required) e])
      (\<lambda>_ e. [update_event ''NetworkPolicy'' ''networking.k8s.io'' (np_meta required) e]) s"
proof -
  have ns: "EnsureObjectMeta False m (np_meta required) = (b, m') \<Longrightarrow>
      om_namespace m' = om_namespace (np_meta required)" for m b m'
    using EnsureObjectMeta_name(2) [of False m "np_meta required"] assms(1) by simp
  show ?thesis
    by (auto simp: ApplyNetworkPolicy_def assms(2) apply_skeleton_def policy_kind.created_def
        policy_kind.merge_plan_def policy_same_def policy_take_def Let_def ReportCreateEvent_def
        ReportUpdateEvent_def ns split: prod.split sum.split)
qed

text \<open>A cache hit ends the apply without merging and without a write.\<close>

lemma ApplyNetworkPolicy_skip:
  assumes "call (rc_get client (om_namespace (np_meta required)) (om_name (np_meta required))) s = (Inr ex, s1)"
    and "SafeToSkipApply cache gk (np_meta required) (hashOf required) (Some (np_meta ex))"
  shows "ApplyNetworkPolicy hashOf gk client required cache s = ((apply_same ex, cache), s1)"
  using assms by (simp add: ApplyNetworkPolicy_def Let_def)

end
