(* ===== verification/Generations.thy ===== *)
theory Generations
  imports Kube_Objects
begin

text \<open>
  The generation table in the operator status, which remembers the generation of each
  workload the operator last applied (library-go
  \<^verbatim>\<open>pkg/operator/resource/resourcemerge/apps.go\<close>). It is a list used as a map keyed by
  group, resource, namespace and name; the locale \<open>generation_table\<close> states that contract.
\<close>

definition generation_key :: "generation_status \<Rightarrow> string \<times> string \<times> string \<times> string" where
  "generation_key g = (gs_group g, gs_resource g, gs_namespace g, gs_name g)"

text \<open>The first entry with the key, as the loop over the slice finds it.\<close>

fun GenerationFor ::
  "generation_status list \<Rightarrow> string \<Rightarrow> string \<Rightarrow> string \<Rightarrow> string \<Rightarrow> generation_status option" where
  "GenerationFor [] grp resource namespace name = None"
| "GenerationFor (cur # rest) grp resource namespace name =
     (if gs_namespace cur = namespace \<and> gs_name cur = name \<and>
         gs_group cur = grp \<and> gs_resource cur = resource
      then Some cur else GenerationFor rest grp resource namespace name)"

text \<open>Writing through the pointer \<open>GenerationFor\<close> returned updates the entry it points to.\<close>

fun update_generation :: "generation_status list \<Rightarrow> generation_status \<Rightarrow> generation_status list" where
  "update_generation [] new = []"
| "update_generation (cur # rest) new =
     (if generation_key cur = generation_key new
      then cur\<lparr>gs_lastGeneration := gs_lastGeneration new, gs_hash := gs_hash new\<rparr> # rest
      else cur # update_generation rest new)"

definition SetGeneration :: "generation_status list \<Rightarrow> generation_status \<Rightarrow> generation_status list" where
  "SetGeneration generations new =
     (case GenerationFor generations (gs_group new) (gs_resource new) (gs_namespace new) (gs_name new) of
        None \<Rightarrow> generations @ [new]
      | Some _ \<Rightarrow> update_generation generations new)"

definition ExpectedDeploymentGeneration :: "deployment \<Rightarrow> generation_status list \<Rightarrow> int" where
  "ExpectedDeploymentGeneration required previous =
     (case GenerationFor previous ''apps'' ''deployments''
             (om_namespace (dep_meta required)) (om_name (dep_meta required)) of
        Some g \<Rightarrow> gs_lastGeneration g
      | None \<Rightarrow> -1)"

definition deployment_generation :: "deployment \<Rightarrow> generation_status" where
  "deployment_generation actual =
     \<lparr>gs_group = ''apps'', gs_resource = ''deployments'',
      gs_namespace = om_namespace (dep_meta actual), gs_name = om_name (dep_meta actual),
      gs_lastGeneration = om_generation (dep_meta actual), gs_hash = []\<rparr>"

definition SetDeploymentGeneration :: "generation_status list \<Rightarrow> deployment option \<Rightarrow> generation_status list" where
  "SetDeploymentGeneration generations actual =
     (case actual of None \<Rightarrow> generations
      | Some d \<Rightarrow> SetGeneration generations (deployment_generation d))"

section \<open>The table as a map\<close>

definition lookup_generation ::
  "generation_status list \<Rightarrow> string \<times> string \<times> string \<times> string \<Rightarrow> generation_status option" where
  "lookup_generation gs k = (case k of (g, r, ns, n) \<Rightarrow> GenerationFor gs g r ns n)"

lemma lookup_generation_Nil [simp]: "lookup_generation [] k = None"
  by (simp add: lookup_generation_def split: prod.split)

lemma lookup_generation_Cons:
  "lookup_generation (c # gs) k = (if generation_key c = k then Some c else lookup_generation gs k)"
  by (auto simp: lookup_generation_def generation_key_def split: prod.split)

lemma GenerationFor_lookup:
  "GenerationFor gs g r ns n = lookup_generation gs (g, r, ns, n)"
  by (simp add: lookup_generation_def)

lemma lookup_generation_append:
  "lookup_generation (gs @ [c]) k =
    (case lookup_generation gs k of Some g \<Rightarrow> Some g
     | None \<Rightarrow> if generation_key c = k then Some c else None)"
  by (induction gs) (auto simp: lookup_generation_Cons)

lemma lookup_generation_key: "lookup_generation gs k = Some g \<Longrightarrow> generation_key g = k"
  by (induction gs) (auto simp: lookup_generation_Cons split: if_splits)

lemma lookup_update_generation:
  "lookup_generation (update_generation gs new) k =
    (if k = generation_key new
     then map_option (\<lambda>c. c\<lparr>gs_lastGeneration := gs_lastGeneration new, gs_hash := gs_hash new\<rparr>)
       (lookup_generation gs k)
     else lookup_generation gs k)"
  by (induction gs) (auto simp: lookup_generation_Cons generation_key_def)

lemma generation_eqI:
  "generation_key c = generation_key new \<Longrightarrow>
    c\<lparr>gs_lastGeneration := gs_lastGeneration new, gs_hash := gs_hash new\<rparr> = (new :: generation_status)"
  by (cases c; cases new) (auto simp: generation_key_def)

lemma lookup_SetGeneration:
  "lookup_generation (SetGeneration gs new) k =
    (if k = generation_key new then Some new else lookup_generation gs k)"
proof (cases "lookup_generation gs (generation_key new)")
  case None
  then show ?thesis
    by (auto simp: SetGeneration_def GenerationFor_lookup generation_key_def [symmetric]
        lookup_generation_append split: option.split)
next
  case (Some c)
  then have "c\<lparr>gs_lastGeneration := gs_lastGeneration new, gs_hash := gs_hash new\<rparr> = new"
    by (intro generation_eqI lookup_generation_key)
  with Some show ?thesis
    by (simp add: SetGeneration_def GenerationFor_lookup generation_key_def [symmetric] lookup_update_generation)
qed

text \<open>Entries are unique by key (the list is a map in the API); setting keeps that.\<close>

definition unique_generations :: "generation_status list \<Rightarrow> bool" where
  "unique_generations gs \<longleftrightarrow> distinct (map generation_key gs)"

lemma lookup_generation_None:
  "lookup_generation gs k = None \<longleftrightarrow> k \<notin> set (map generation_key gs)"
  by (induction gs) (auto simp: lookup_generation_Cons)

lemma update_generation_keys: "map generation_key (update_generation gs new) = map generation_key gs"
  by (induction gs) (auto simp: generation_key_def)

lemma SetGeneration_unique:
  "unique_generations gs \<Longrightarrow> unique_generations (SetGeneration gs new)"
proof (cases "lookup_generation gs (generation_key new)")
  case None
  then have "generation_key new \<notin> generation_key ` set gs" by (simp add: lookup_generation_None)
  with None show "unique_generations gs \<Longrightarrow> ?thesis"
    by (simp add: SetGeneration_def GenerationFor_lookup generation_key_def [symmetric] unique_generations_def)
next
  case (Some c)
  then show "unique_generations gs \<Longrightarrow> ?thesis"
    by (simp add: SetGeneration_def GenerationFor_lookup generation_key_def [symmetric]
        unique_generations_def update_generation_keys)
qed

lemma update_generation_same:
  "lookup_generation gs (generation_key new) = Some new \<Longrightarrow> update_generation gs new = gs"
  by (induction gs) (auto simp: lookup_generation_Cons split: if_splits)

lemma SetGeneration_idem: "SetGeneration (SetGeneration gs new) new = SetGeneration gs new"
proof -
  have "lookup_generation (SetGeneration gs new) (generation_key new) = Some new"
    by (simp add: lookup_SetGeneration)
  then show ?thesis
    by (simp add: SetGeneration_def [of "SetGeneration gs new"] GenerationFor_lookup
        generation_key_def [symmetric] update_generation_same)
qed

locale generation_table =
  fixes lookup_gen :: "'t \<Rightarrow> 'k \<Rightarrow> 'g option"
    and set_gen :: "'t \<Rightarrow> 'g \<Rightarrow> 't"
    and key_of :: "'g \<Rightarrow> 'k"
    and table_ok :: "'t \<Rightarrow> bool"
  assumes lookup_set: "lookup_gen (set_gen t g) k = (if k = key_of g then Some g else lookup_gen t k)"
    and set_set: "set_gen (set_gen t g) g = set_gen t g"
    and set_ok: "table_ok t \<Longrightarrow> table_ok (set_gen t g)"
begin

lemma lookup_own [simp]: "lookup_gen (set_gen t g) (key_of g) = Some g"
  by (simp add: lookup_set)

lemma set_many_ok: "table_ok t \<Longrightarrow> table_ok (foldl set_gen t gs)"
  by (induction gs arbitrary: t) (auto simp: set_ok)

lemma last_set_wins:
  "lookup_gen (foldl set_gen t gs) k =
    (case find (\<lambda>g. key_of g = k) (rev gs) of Some g \<Rightarrow> Some g | None \<Rightarrow> lookup_gen t k)"
proof (induction gs rule: rev_induct)
  case Nil
  then show ?case by simp
next
  case (snoc g gs)
  then show ?case by (simp add: lookup_set)
qed

end

interpretation gens: generation_table lookup_generation SetGeneration generation_key unique_generations
  by unfold_locales (simp_all add: lookup_SetGeneration SetGeneration_idem SetGeneration_unique)

text \<open>What the deployment controller relies on: the generation set is the one expected next.\<close>

lemma deployment_generation_key:
  "generation_key (deployment_generation d) =
    (''apps'', ''deployments'', om_namespace (dep_meta d), om_name (dep_meta d))"
  by (simp add: generation_key_def deployment_generation_def)

lemma Expected_after_Set:
  assumes "om_namespace (dep_meta required) = om_namespace (dep_meta actual)"
    and "om_name (dep_meta required) = om_name (dep_meta actual)"
  shows "ExpectedDeploymentGeneration required (SetDeploymentGeneration gs (Some actual)) =
    om_generation (dep_meta actual)"
  using gens.lookup_own [of gs "deployment_generation actual"] assms
  by (simp add: ExpectedDeploymentGeneration_def SetDeploymentGeneration_def GenerationFor_lookup
      deployment_generation_key) (simp add: deployment_generation_def)

section \<open>Properties\<close>

text \<open>C11: the generation list is a map: after any sequence of \<open>SetGeneration\<close> calls each key has the
  entry set last for it, or the one it had before, and a list with unique keys keeps unique keys.\<close>

theorem SetGeneration_last_wins:
  "lookup_generation (foldl SetGeneration gs news) k =
    (case find (\<lambda>g. generation_key g = k) (rev news) of Some g \<Rightarrow> Some g | None \<Rightarrow> lookup_generation gs k)"
  by (rule gens.last_set_wins)

text \<open>C12: the generation recorded for a deployment is the one expected for a required deployment of
  the same namespace and name; for any other the expectation is what it was.\<close>

theorem expected_after_recording:
  "ExpectedDeploymentGeneration required (SetDeploymentGeneration gs (Some actual)) =
    (if om_namespace (dep_meta required) = om_namespace (dep_meta actual) \<and>
        om_name (dep_meta required) = om_name (dep_meta actual)
     then om_generation (dep_meta actual) else ExpectedDeploymentGeneration required gs)"
  by (auto simp: Expected_after_Set) (auto simp: ExpectedDeploymentGeneration_def SetDeploymentGeneration_def
      GenerationFor_lookup lookup_SetGeneration deployment_generation_key)

end
