(* ===== verification/Deployment_Apply.thy ===== *)
theory Deployment_Apply
  imports Core_Apply Generations
begin

text \<open>
  \<^verbatim>\<open>ApplyDeployment\<close> of library-go (\<^verbatim>\<open>resourceapply/apps.go\<close>). A deployment's
  spec is not compared: a change of the requirement shows in the spec hash annotation, a change
  made by somebody else in the generation, which the caller remembers. \<open>uuid\<close> is the value of
  the next random UUID, read only when a rollout is forced.
\<close>

abbreviation pullSpecAnnotation :: string where
  "pullSpecAnnotation \<equiv> ''operator.openshift.io/pull-spec''"

abbreviation forceAnnotation :: string where
  "forceAnnotation \<equiv> ''operator.openshift.io/force''"

definition annotate_force :: "string \<Rightarrow> deployment \<Rightarrow> deployment" where
  "annotate_force forceString d =
     (let m = dep_meta d; sp = dep_spec d; t = ds_template sp in
      d\<lparr>dep_meta := m\<lparr>om_annotations := fmupd forceAnnotation forceString (om_annotations m)\<rparr>,
        dep_spec := sp\<lparr>ds_template := t\<lparr>pt_annotations := fmupd forceAnnotation forceString (pt_annotations t)\<rparr>\<rparr>\<rparr>)"

text \<open>
  Without the spec hash the first container's image becomes an annotation; a deployment
  without containers makes that index panic.
\<close>

definition annotate_pull_spec :: "deployment \<Rightarrow> go_error + deployment" where
  "annotate_pull_spec d =
     (let m = dep_meta d in
      case fmlookup (om_annotations m) specHashAnnotation of
        Some _ \<Rightarrow> Inr d
      | None \<Rightarrow>
          (case ps_containers (pt_spec (ds_template (dep_spec d))) of
             [] \<Rightarrow> Inl (Panic ''index out of range [0] with length 0'')
           | c # _ \<Rightarrow> Inr (d\<lparr>dep_meta := m\<lparr>om_annotations :=
                          fmupd pullSpecAnnotation (c_image c) (om_annotations m)\<rparr>\<rparr>)))"

definition ApplyDeploymentWithForce ::
  "string \<Rightarrow> ('w, deployment) resource_client \<Rightarrow> deployment \<Rightarrow> int \<Rightarrow> bool \<Rightarrow>
   ('w, deployment apply_result) go" where
  "ApplyDeploymentWithForce uuid client requiredOriginal expectedGeneration forceRollout s =
     (case annotate_pull_spec requiredOriginal of
        Inl err \<Rightarrow> (apply_fail err, s)
      | Inr required \<Rightarrow>
          (let rm = dep_meta required; ns = om_namespace rm; name = om_name rm in
           case call (rc_get client ns name) s of
             (Inl err, s1) \<Rightarrow>
               if IsNotFound err then
                 (let (r, s2) = call (rc_create client ns required) s1
                  in (apply_write r, ReportCreateEvent ''Deployment'' ''apps'' rm (error_of r) s2))
               else (apply_fail err, s1)
           | (Inr existing, s1) \<Rightarrow>
               (let (modified, m) = EnsureObjectMeta False (dep_meta existing) rm;
                    existingCopy = existing\<lparr>dep_meta := m\<rparr> in
                if \<not> modified \<and> om_generation (dep_meta existingCopy) = expectedGeneration \<and> \<not> forceRollout then
                  (apply_same existingCopy, s1)
                else
                  (let toWrite = existingCopy\<lparr>dep_spec := dep_spec required\<rparr>;
                       toWrite = (if forceRollout then annotate_force uuid toWrite else toWrite);
                       (r, s2) = call (rc_update client ns toWrite) s1
                   in (apply_write r, ReportUpdateEvent ''Deployment'' ''apps'' rm (error_of r) s2)))))"

definition with_deployment_hash :: "string \<Rightarrow> deployment \<Rightarrow> deployment" where
  "with_deployment_hash h d = d\<lparr>dep_meta := (dep_meta d)
     \<lparr>om_annotations := fmupd specHashAnnotation h (om_annotations (dep_meta d))\<rparr>\<rparr>"

definition ApplyDeployment ::
  "(deployment_spec \<Rightarrow> go_error + string) \<Rightarrow> string \<Rightarrow> ('w, deployment) resource_client \<Rightarrow>
   deployment \<Rightarrow> int \<Rightarrow> ('w, deployment apply_result) go" where
  "ApplyDeployment spec_hash uuid client requiredOriginal expectedGeneration s =
     (case SetSpecHashAnnotation (spec_hash (dep_spec requiredOriginal)) (dep_meta requiredOriginal) of
        Inl err \<Rightarrow> (apply_fail err, s)
      | Inr m \<Rightarrow>
          ApplyDeploymentWithForce uuid client (requiredOriginal\<lparr>dep_meta := m\<rparr>) expectedGeneration False s)"

section \<open>The deployment kind\<close>

definition deployment_wf :: "deployment \<Rightarrow> bool" where
  "deployment_wf req \<longleftrightarrow> mergeable_meta (dep_meta req) \<and> om_name (dep_meta req) \<noteq> []"

definition deployment_plan :: "int \<Rightarrow> deployment \<Rightarrow> deployment \<Rightarrow> deployment decision" where
  "deployment_plan expected req ex =
     (let (modified, m) = EnsureObjectMeta False (dep_meta ex) (dep_meta req) in
      if \<not> modified \<and> om_generation m = expected then Keep (ex\<lparr>dep_meta := m\<rparr>)
      else Write (ex\<lparr>dep_meta := m, dep_spec := dep_spec req\<rparr>))"

definition deployment_admits :: "string \<Rightarrow> deployment \<Rightarrow> deployment \<Rightarrow> bool" where
  "deployment_admits ns x a \<longleftrightarrow> kept_meta ns (dep_meta x) (dep_meta a)"

text \<open>What the operator remembers of a deployment is its entry in the generation table.\<close>

lemma last_deployment_generation [simp]: "gs_lastGeneration (deployment_generation d) = om_generation (dep_meta d)"
  by (simp add: deployment_generation_def)

abbreviation deployment_plan_for :: "generation_status \<Rightarrow> deployment \<Rightarrow> deployment \<Rightarrow> deployment decision" where
  "deployment_plan_for g \<equiv> deployment_plan (gs_lastGeneration g)"

lemma deployment_in_sync:
  "meta_in_sync (dep_meta a) (dep_meta req) \<Longrightarrow> is_Keep (deployment_plan_for (deployment_generation a) req a)"
  by (simp add: deployment_plan_def meta_in_sync_def)

interpretation deployment_kind: apply_kind "\<lambda>d. om_name (dep_meta d)" deployment_admits deployment_wf
  "\<lambda>d. d" deployment_plan_for deployment_generation
proof unfold_locales
  fix req c ex ob
  assume "deployment_wf req" "deployment_plan_for c req ex = Write ob"
    "om_name (dep_meta ex) = om_name (dep_meta req)"
  then show "om_name (dep_meta ob) = om_name (dep_meta req)"
    using EnsureObjectMeta_name(1) [of False "dep_meta ex" "dep_meta req"]
    by (auto simp: deployment_plan_def deployment_wf_def split: prod.splits if_splits)
next
  fix req c ex ex'
  assume wf: "deployment_wf req" and pl: "deployment_plan_for c req ex = Keep ex'"
  then have "meta_in_sync (dep_meta ex) (dep_meta req)"
    by (auto simp: deployment_plan_def deployment_wf_def meta_in_sync_iff split: prod.splits if_splits)
  moreover from this have "deployment_generation ex' = deployment_generation ex"
    using pl by (auto simp: deployment_plan_def deployment_generation_def meta_in_sync_def split: if_splits)
  ultimately show "deployment_generation ex' = deployment_generation ex \<and>
      is_Keep (deployment_plan_for (deployment_generation ex) req ex)"
    by (blast intro: deployment_in_sync)
next
  fix req ns a
  assume "deployment_wf req" "deployment_admits ns req a"
  then show "is_Keep (deployment_plan_for (deployment_generation a) req a)"
    by (intro deployment_in_sync) (auto simp: deployment_wf_def deployment_admits_def intro: required_kept_in_sync)
next
  fix req c ex ob ns a
  assume "deployment_wf req" and pl: "deployment_plan_for c req ex = Write ob" and adm: "deployment_admits ns ob a"
  moreover have "dep_meta ob = snd (EnsureObjectMeta False (dep_meta ex) (dep_meta req))"
    using pl by (auto simp: deployment_plan_def split: prod.splits if_splits)
  ultimately show "is_Keep (deployment_plan_for (deployment_generation a) req a)"
    by (intro deployment_in_sync) (auto simp: deployment_wf_def deployment_admits_def intro: merged_kept_in_sync)
qed simp

lemma ApplyDeployment_skeleton:
  assumes "spec_hash (dep_spec required) = Inr h"
  shows "ApplyDeployment spec_hash uuid client required expected =
    apply_skeleton client (om_namespace (dep_meta required)) (om_name (dep_meta required))
      (with_deployment_hash h required) (deployment_plan expected (with_deployment_hash h required))
      (\<lambda>e. [create_event ''Deployment'' ''apps'' (dep_meta required) e])
      (\<lambda>_ e. [update_event ''Deployment'' ''apps'' (dep_meta required) e])"
proof -
  have ev: "create_event ''Deployment'' ''apps'' (dep_meta (with_deployment_hash h required)) =
        create_event ''Deployment'' ''apps'' (dep_meta required)"
    "update_event ''Deployment'' ''apps'' (dep_meta (with_deployment_hash h required)) =
        update_event ''Deployment'' ''apps'' (dep_meta required)"
    by (simp_all add: create_event_def update_event_def fun_eq_iff with_deployment_hash_def
        FormatResourceForCLIWithNamespace_def)
  have m: "om_name (dep_meta (with_deployment_hash h required)) = om_name (dep_meta required)"
    "om_namespace (dep_meta (with_deployment_hash h required)) = om_namespace (dep_meta required)"
    by (simp_all add: with_deployment_hash_def)
  have pull: "annotate_pull_spec (with_deployment_hash h required) = Inr (with_deployment_hash h required)"
    by (simp add: annotate_pull_spec_def with_deployment_hash_def)
  have "ApplyDeployment spec_hash uuid client required expected =
      ApplyDeploymentWithForce uuid client (with_deployment_hash h required) expected False"
    by (simp add: fun_eq_iff ApplyDeployment_def SetSpecHashAnnotation_def assms with_deployment_hash_def)
  also have "\<dots> = apply_skeleton client (om_namespace (dep_meta required)) (om_name (dep_meta required))
      (with_deployment_hash h required) (deployment_plan expected (with_deployment_hash h required))
      (\<lambda>e. [create_event ''Deployment'' ''apps'' (dep_meta required) e])
      (\<lambda>_ e. [update_event ''Deployment'' ''apps'' (dep_meta required) e])"
    by (rule ext) (auto simp: ApplyDeploymentWithForce_def pull ev m apply_skeleton_def deployment_plan_def
        Let_def ReportCreateEvent_def ReportUpdateEvent_def split: prod.split sum.split)
  finally show ?thesis .
qed

end
