(* ===== verification/Unstructured_Objects.thy ===== *)
theory Unstructured_Objects
  imports Kube_Objects
begin

text \<open>
  Unstructured objects: nested fields of JSON values and the metadata accessors built on them
  (apimachinery \<^verbatim>\<open>pkg/apis/meta/v1/unstructured/helpers.go\<close> and
  \<^verbatim>\<open>unstructured.go\<close>). An update in place returns the new object; an update that fails has
  changed nothing, since the maps the code creates on the way are filled without a failure.
  Values are copied by the code where they are stored or returned, so there is no aliasing.
  The accessor errors print the offending value and its Go type after the path; the model's
  texts end at the path.
\<close>

section \<open>Nested path\<close>

fun join_dots :: "string list \<Rightarrow> string" where
  "join_dots [] = []"
| "join_dots [f] = f"
| "join_dots (f # g # fs) = f @ ''.'' @ join_dots (g # fs)"

definition jsonPath :: "string list \<Rightarrow> string" where
  "jsonPath path = ''.'' @ join_dots path"

definition accessor_error :: "string list \<Rightarrow> go_error" where
  "accessor_error path = ErrorString (jsonPath path @ '' accessor error'')"

text \<open>The loop of \<open>NestedFieldNoCopy\<close>; \<open>seen\<close> are the fields passed, for the error text.\<close>

fun walk_fields :: "string list \<Rightarrow> json \<Rightarrow> string list \<Rightarrow> go_error + json option" where
  "walk_fields seen val [] = Inr (Some val)"
| "walk_fields seen val (field # path) =
     (case val of
        JNull \<Rightarrow> Inr None
      | JObj m \<Rightarrow> (case fmlookup m field of
                     None \<Rightarrow> Inr None
                   | Some v \<Rightarrow> walk_fields (seen @ [field]) v path)
      | _ \<Rightarrow> Inl (accessor_error (seen @ [field])))"

definition NestedFieldNoCopy :: "json_map \<Rightarrow> string list \<Rightarrow> go_error + json option" where
  "NestedFieldNoCopy obj path = walk_fields [] (JObj obj) path"

definition NestedString :: "json_map \<Rightarrow> string list \<Rightarrow> go_error + string option" where
  "NestedString obj path =
     (case NestedFieldNoCopy obj path of
        Inl e \<Rightarrow> Inl e | Inr None \<Rightarrow> Inr None
      | Inr (Some (JStr s)) \<Rightarrow> Inr (Some s)
      | Inr (Some _) \<Rightarrow> Inl (accessor_error path))"

definition NestedBool :: "json_map \<Rightarrow> string list \<Rightarrow> go_error + bool option" where
  "NestedBool obj path =
     (case NestedFieldNoCopy obj path of
        Inl e \<Rightarrow> Inl e | Inr None \<Rightarrow> Inr None
      | Inr (Some (JBool b)) \<Rightarrow> Inr (Some b)
      | Inr (Some _) \<Rightarrow> Inl (accessor_error path))"

definition NestedSlice :: "json_map \<Rightarrow> string list \<Rightarrow> go_error + json list option" where
  "NestedSlice obj path =
     (case NestedFieldNoCopy obj path of
        Inl e \<Rightarrow> Inl e | Inr None \<Rightarrow> Inr None
      | Inr (Some (JArr xs)) \<Rightarrow> Inr (Some xs)
      | Inr (Some _) \<Rightarrow> Inl (accessor_error path))"

definition nestedMapNoCopy :: "json_map \<Rightarrow> bool \<Rightarrow> string list \<Rightarrow> go_error + json_map option" where
  "nestedMapNoCopy obj tolerateNil path =
     (case NestedFieldNoCopy obj path of
        Inl e \<Rightarrow> Inl e | Inr None \<Rightarrow> Inr None
      | Inr (Some (JObj m)) \<Rightarrow> Inr (Some m)
      | Inr (Some JNull) \<Rightarrow> if tolerateNil then Inr (Some fmempty) else Inl (accessor_error path)
      | Inr (Some _) \<Rightarrow> Inl (accessor_error path))"

definition NestedMap :: "json_map \<Rightarrow> string list \<Rightarrow> go_error + json_map option" where
  "NestedMap obj path = nestedMapNoCopy obj False path"

fun set_fields :: "string list \<Rightarrow> json_map \<Rightarrow> json \<Rightarrow> string list \<Rightarrow> go_error + json_map" where
  "set_fields seen m v [] = Inl (Panic ''slice bounds out of range'')"
| "set_fields seen m v [field] = Inr (fmupd field v m)"
| "set_fields seen m v (field # nxt # path) =
     (case fmlookup m field of
        Some (JObj inner) \<Rightarrow>
          (case set_fields (seen @ [field]) inner v (nxt # path) of
             Inl e \<Rightarrow> Inl e
           | Inr inner' \<Rightarrow> Inr (fmupd field (JObj inner') m))
      | Some _ \<Rightarrow> Inl (ErrorString (''value cannot be set because '' @ jsonPath (seen @ [field]) @
                              '' is not a map[string]interface{}''))
      | None \<Rightarrow>
          (case set_fields (seen @ [field]) fmempty v (nxt # path) of
             Inl e \<Rightarrow> Inl e
           | Inr inner' \<Rightarrow> Inr (fmupd field (JObj inner') m)))"

definition SetNestedField :: "json_map \<Rightarrow> json \<Rightarrow> string list \<Rightarrow> go_error + json_map" where
  "SetNestedField obj v path = set_fields [] obj v path"

definition SetNestedSlice :: "json_map \<Rightarrow> json list \<Rightarrow> string list \<Rightarrow> go_error + json_map" where
  "SetNestedSlice obj xs path = SetNestedField obj (JArr xs) path"

definition SetNestedMap :: "json_map \<Rightarrow> json_map \<Rightarrow> string list \<Rightarrow> go_error + json_map" where
  "SetNestedMap obj m path = SetNestedField obj (JObj m) path"

fun RemoveNestedField :: "json_map \<Rightarrow> string list \<Rightarrow> json_map" where
  "RemoveNestedField m [] = m"
| "RemoveNestedField m [field] = fmdrop field m"
| "RemoveNestedField m (field # nxt # path) =
     (case fmlookup m field of
        Some (JObj inner) \<Rightarrow> fmupd field (JObj (RemoveNestedField inner (nxt # path))) m
      | _ \<Rightarrow> m)"

text \<open>One level of a set: the map below the first field, created when it is missing.\<close>

lemma set_fields_step:
  assumes "set_fields seen m v (field # nxt # path) = Inr m'"
  obtains inner inner' where "fmlookup m field = Some (JObj inner) \<or> fmlookup m field = None \<and> inner = fmempty"
    and "set_fields (seen @ [field]) inner v (nxt # path) = Inr inner'"
    and "m' = fmupd field (JObj inner') m"
  using assms by (auto split: option.splits json.splits sum.splits)

lemma walk_fields_step:
  assumes "walk_fields seen (JObj m) (field # nxt # path) = Inr (Some v)"
  obtains inner where "fmlookup m field = Some (JObj inner)"
    and "walk_fields (seen @ [field]) (JObj inner) (nxt # path) = Inr (Some v)"
  using assms by (auto split: option.splits json.splits simp del: walk_fields.simps(2)
      simp: walk_fields.simps(2) [of seen] walk_fields.simps(2) [of "seen @ [field]"])

text \<open>What is set is found.\<close>

lemma walk_set_fields:
  "set_fields seen m v path = Inr m' \<Longrightarrow> walk_fields seen' (JObj m') path = Inr (Some v)"
proof (induction path arbitrary: seen m m' seen')
  case (Cons field path)
  show ?case
  proof (cases path)
    case Nil
    with Cons.prems show ?thesis by auto
  next
    case (Cons nxt rest)
    from Cons.prems [unfolded Cons] obtain inner inner' where
      "set_fields (seen @ [field]) inner v (nxt # rest) = Inr inner'" and "m' = fmupd field (JObj inner') m"
      by (rule set_fields_step)
    with Cons Cons.IH show ?thesis by simp
  qed
qed simp

lemma Nested_after_Set: "SetNestedField obj v path = Inr obj' \<Longrightarrow> NestedFieldNoCopy obj' path = Inr (Some v)"
  by (simp add: SetNestedField_def NestedFieldNoCopy_def walk_set_fields)

text \<open>Paths that branch off are not touched.\<close>

lemma set_fields_other:
  "set_fields seen m v (field # path) = Inr m' \<Longrightarrow> other \<noteq> field \<Longrightarrow> fmlookup m' other = fmlookup m other"
  by (cases path) (auto simp del: set_fields.simps(3) elim!: set_fields_step)

lemma Nested_Set_other:
  "SetNestedField obj v (f # path) = Inr obj' \<Longrightarrow> g \<noteq> f \<Longrightarrow>
    NestedFieldNoCopy obj' (g # path') = NestedFieldNoCopy obj (g # path')"
  by (simp add: SetNestedField_def NestedFieldNoCopy_def set_fields_other)

text \<open>Setting what was just read changes nothing.\<close>

lemma set_walk_fields:
  "walk_fields seen' (JObj m) path = Inr (Some v) \<Longrightarrow> path \<noteq> [] \<Longrightarrow> set_fields seen m v path = Inr m"
proof (induction path arbitrary: seen m seen')
  case (Cons field path)
  show ?case
  proof (cases path)
    case Nil
    with Cons.prems show ?thesis by (auto simp: fmupd_same split: option.splits)
  next
    case (Cons nxt rest)
    from Cons.prems(1) [unfolded Cons] obtain inner where "fmlookup m field = Some (JObj inner)"
      and "walk_fields (seen' @ [field]) (JObj inner) (nxt # rest) = Inr (Some v)"
      by (rule walk_fields_step)
    with Cons Cons.IH show ?thesis by (simp add: fmupd_same)
  qed
qed simp

lemma Set_Nested_same:
  "NestedFieldNoCopy obj path = Inr (Some v) \<Longrightarrow> path \<noteq> [] \<Longrightarrow> SetNestedField obj v path = Inr obj"
  unfolding SetNestedField_def NestedFieldNoCopy_def by (rule set_walk_fields)

text \<open>A field that can be read can be set.\<close>

lemma set_fields_ok:
  "walk_fields seen' (JObj m) path = Inr (Some v) \<Longrightarrow> path \<noteq> [] \<Longrightarrow> \<exists>m'. set_fields seen m w path = Inr m'"
proof (induction path arbitrary: seen m seen')
  case (Cons field path)
  show ?case
  proof (cases path)
    case (Cons nxt rest)
    from Cons.prems(1) [unfolded Cons] obtain inner where "fmlookup m field = Some (JObj inner)"
      and "walk_fields (seen' @ [field]) (JObj inner) (nxt # rest) = Inr (Some v)"
      by (rule walk_fields_step)
    with Cons Cons.IH [of "seen' @ [field]" inner "seen @ [field]"] show ?thesis by auto
  qed simp
qed simp

lemma Set_after_Nested:
  "NestedFieldNoCopy obj path = Inr (Some v) \<Longrightarrow> path \<noteq> [] \<Longrightarrow> \<exists>obj'. SetNestedField obj w path = Inr obj'"
  unfolding SetNestedField_def NestedFieldNoCopy_def by (rule set_fields_ok)

section \<open>Metadata accessors\<close>

definition getNestedString :: "json_map \<Rightarrow> string list \<Rightarrow> string" where
  "getNestedString obj path = (case NestedString obj path of Inr (Some s) \<Rightarrow> s | _ \<Rightarrow> [])"

text \<open>The setters drop the error of \<open>SetNestedField\<close>: then the object stays as it was.\<close>

definition setNestedField :: "unstructured \<Rightarrow> json \<Rightarrow> string list \<Rightarrow> unstructured" where
  "setNestedField u v path =
     (case SetNestedField (u_object u) v path of Inl _ \<Rightarrow> u | Inr obj \<Rightarrow> u\<lparr>u_object := obj\<rparr>)"

definition GetAPIVersion :: "unstructured \<Rightarrow> string" where
  "GetAPIVersion u = getNestedString (u_object u) [''apiVersion'']"

definition GetKind :: "unstructured \<Rightarrow> string" where
  "GetKind u = getNestedString (u_object u) [''kind'']"

definition GetName :: "unstructured \<Rightarrow> string" where
  "GetName u = getNestedString (u_object u) [''metadata'', ''name'']"

definition GetNamespace :: "unstructured \<Rightarrow> string" where
  "GetNamespace u = getNestedString (u_object u) [''metadata'', ''namespace'']"

definition SetNamespace :: "unstructured \<Rightarrow> string \<Rightarrow> unstructured" where
  "SetNamespace u namespace =
     (if namespace = [] then u\<lparr>u_object := RemoveNestedField (u_object u) [''metadata'', ''namespace'']\<rparr>
      else setNestedField u (JStr namespace) [''metadata'', ''namespace''])"

definition GroupVersionKind :: "unstructured \<Rightarrow> string \<times> string \<times> string" where
  "GroupVersionKind u =
     (case ParseGroupVersion (GetAPIVersion u) of
        None \<Rightarrow> ([], [], [])
      | Some (grp, version) \<Rightarrow> (grp, version, GetKind u))"

definition GroupKind :: "unstructured \<Rightarrow> string \<times> string" where
  "GroupKind u = (case GroupVersionKind u of (grp, _, kind) \<Rightarrow> (grp, kind))"

definition extractOwnerReference :: "json_map \<Rightarrow> owner_reference" where
  "extractOwnerReference v =
     \<lparr>or_apiVersion = getNestedString v [''apiVersion''], or_kind = getNestedString v [''kind''],
      or_name = getNestedString v [''name''], or_uid = getNestedString v [''uid''],
      or_controller = (case NestedBool v [''controller''] of Inr b \<Rightarrow> b | Inl _ \<Rightarrow> None),
      or_blockOwnerDeletion = (case NestedBool v [''blockOwnerDeletion''] of Inr b \<Rightarrow> b | Inl _ \<Rightarrow> None)\<rparr>"

fun extract_owners :: "json list \<Rightarrow> owner_reference list option" where
  "extract_owners [] = Some []"
| "extract_owners (x # xs) =
     (case x of
        JObj o' \<Rightarrow> map_option (\<lambda>rs. extractOwnerReference o' # rs) (extract_owners xs)
      | _ \<Rightarrow> None)"

definition GetOwnerReferences :: "unstructured \<Rightarrow> owner_reference list" where
  "GetOwnerReferences u =
     (case NestedFieldNoCopy (u_object u) [''metadata'', ''ownerReferences''] of
        Inr (Some (JArr original)) \<Rightarrow> (case extract_owners original of None \<Rightarrow> [] | Some rs \<Rightarrow> rs)
      | _ \<Rightarrow> [])"

text \<open>An owner reference as the converter encodes it: unset pointers are left out.\<close>

definition owner_to_json :: "owner_reference \<Rightarrow> json" where
  "owner_to_json r =
     (let base = fmap_of_list [(''apiVersion'', JStr (or_apiVersion r)), (''kind'', JStr (or_kind r)),
                   (''name'', JStr (or_name r)), (''uid'', JStr (or_uid r))];
          m1 = (case or_controller r of None \<Rightarrow> base | Some b \<Rightarrow> fmupd ''controller'' (JBool b) base);
          m2 = (case or_blockOwnerDeletion r of None \<Rightarrow> m1
                | Some b \<Rightarrow> fmupd ''blockOwnerDeletion'' (JBool b) m1)
      in JObj m2)"

definition SetOwnerReferences :: "unstructured \<Rightarrow> owner_reference list \<Rightarrow> unstructured" where
  "SetOwnerReferences u references =
     setNestedField u (JArr (map owner_to_json references)) [''metadata'', ''ownerReferences'']"

text \<open>\<open>controller.EnsureOwnerRef\<close> on an unstructured object.\<close>

definition EnsureOwnerRefUnstructured :: "unstructured \<Rightarrow> owner_reference \<Rightarrow> unstructured" where
  "EnsureOwnerRefUnstructured u newRef =
     (case EnsureOwnerRef (GetOwnerReferences u) newRef of
        (_, False) \<Rightarrow> u
      | (refs, True) \<Rightarrow> SetOwnerReferences u refs)"

lemma extract_owner_to_json: "\<exists>m. owner_to_json r = JObj m \<and> extractOwnerReference m = r"
  by (cases r) (auto simp: owner_to_json_def extractOwnerReference_def getNestedString_def NestedString_def
      NestedBool_def NestedFieldNoCopy_def Let_def split: option.split)

lemma extract_owners_to_json: "extract_owners (map owner_to_json rs) = Some rs"
proof (induction rs)
  case (Cons r rs)
  then show ?case using extract_owner_to_json [of r] by auto
qed simp

text \<open>Owner references survive the round trip through an object that has a metadata map.\<close>

lemma Get_SetOwnerReferences:
  assumes "NestedFieldNoCopy (u_object u) [''metadata''] = Inr (Some (JObj m))"
  shows "GetOwnerReferences (SetOwnerReferences u rs) = rs"
proof -
  have "fmlookup (u_object u) ''metadata'' = Some (JObj m)"
    using assms by (simp add: NestedFieldNoCopy_def split: option.splits)
  then show ?thesis
    by (simp add: GetOwnerReferences_def SetOwnerReferences_def setNestedField_def SetNestedField_def
        NestedFieldNoCopy_def extract_owners_to_json)
qed

lemma Get_SetNamespace:
  assumes "NestedFieldNoCopy (u_object u) [''metadata''] = Inr (Some (JObj m))"
  shows "GetNamespace (SetNamespace u ns) = ns"
proof -
  have "fmlookup (u_object u) ''metadata'' = Some (JObj m)"
    using assms by (simp add: NestedFieldNoCopy_def split: option.splits)
  then show ?thesis
    by (simp add: GetNamespace_def SetNamespace_def setNestedField_def SetNestedField_def
        NestedFieldNoCopy_def getNestedString_def NestedString_def)
qed

end
