(* ===== verification/Unstructured_Apply.thy ===== *)
theory Unstructured_Apply
  imports Unstructured_Objects Resource_Apply Resource_Cache
begin

text \<open>
  Applying unstructured objects (library-go \<^verbatim>\<open>resourceapply/unstructured.go\<close>,
  \<^verbatim>\<open>resourceapply/monitoring.go\<close>, \<^verbatim>\<open>EnsureObjectMetaForUnstructured\<close> in
  \<^verbatim>\<open>resourcemerge/object_merger.go\<close>) and the conversion of their metadata
  (apimachinery \<^verbatim>\<open>pkg/runtime/converter.go\<close> at the type \<^verbatim>\<open>metav1.ObjectMeta\<close>).
\<close>

section \<open>Metadata conversion\<close>

text \<open>
  The reflective converter, run on the JSON names of the fields of \<^verbatim>\<open>ObjectMeta\<close>. A null
  or missing field becomes the zero value and a zero value is left out again. The fields
  gathered in \<open>om_server\<close> are carried over as they are, without a check of their types; a
  generation is an integer.
\<close>

definition cannot_convert :: go_error where
  "cannot_convert = ErrorString ''cannot convert''"

definition string_field :: "json_map \<Rightarrow> string \<Rightarrow> go_error + string" where
  "string_field m k =
     (case fmlookup m k of None \<Rightarrow> Inr [] | Some JNull \<Rightarrow> Inr [] | Some (JStr s) \<Rightarrow> Inr s
      | Some _ \<Rightarrow> Inl cannot_convert)"

definition int_field :: "json_map \<Rightarrow> string \<Rightarrow> go_error + int" where
  "int_field m k =
     (case fmlookup m k of None \<Rightarrow> Inr 0 | Some JNull \<Rightarrow> Inr 0 | Some (JInt i) \<Rightarrow> Inr i
      | Some _ \<Rightarrow> Inl cannot_convert)"

definition bool_field :: "json_map \<Rightarrow> string \<Rightarrow> go_error + bool option" where
  "bool_field m k =
     (case fmlookup m k of None \<Rightarrow> Inr None | Some JNull \<Rightarrow> Inr None | Some (JBool b) \<Rightarrow> Inr (Some b)
      | Some _ \<Rightarrow> Inl cannot_convert)"

fun string_value :: "json \<Rightarrow> string option" where
  "string_value (JStr s) = Some s"
| "string_value JNull = Some []"
| "string_value _ = None"

definition string_map_field :: "json_map \<Rightarrow> string \<Rightarrow> go_error + gomap" where
  "string_map_field m k =
     (case fmlookup m k of
        None \<Rightarrow> Inr fmempty
      | Some JNull \<Rightarrow> Inr fmempty
      | Some (JObj sm) \<Rightarrow>
          if fmpred (\<lambda>_ v. string_value v \<noteq> None) sm then Inr (fmmap (the \<circ> string_value) sm)
          else Inl cannot_convert
      | Some _ \<Rightarrow> Inl cannot_convert)"

definition owner_from_fields :: "json_map \<Rightarrow> go_error + owner_reference" where
  "owner_from_fields m =
     sum_bind (string_field m ''apiVersion'') (\<lambda>a.
     sum_bind (string_field m ''kind'') (\<lambda>k.
     sum_bind (string_field m ''name'') (\<lambda>n.
     sum_bind (string_field m ''uid'') (\<lambda>u.
     sum_bind (bool_field m ''controller'') (\<lambda>c.
     sum_bind (bool_field m ''blockOwnerDeletion'') (\<lambda>b.
       Inr \<lparr>or_apiVersion = a, or_kind = k, or_name = n, or_uid = u,
            or_controller = c, or_blockOwnerDeletion = b\<rparr>))))))"

definition owner_from_json :: "json \<Rightarrow> go_error + owner_reference" where
  "owner_from_json v =
     (case v of JObj m \<Rightarrow> owner_from_fields m | JNull \<Rightarrow> owner_from_fields fmempty
      | _ \<Rightarrow> Inl cannot_convert)"

fun owners_from_json :: "json list \<Rightarrow> go_error + owner_reference list" where
  "owners_from_json [] = Inr []"
| "owners_from_json (x # xs) =
     sum_bind (owner_from_json x) (\<lambda>r. sum_bind (owners_from_json xs) (\<lambda>rs. Inr (r # rs)))"

definition owners_field :: "json_map \<Rightarrow> string \<Rightarrow> go_error + owner_reference list" where
  "owners_field m k =
     (case fmlookup m k of None \<Rightarrow> Inr [] | Some JNull \<Rightarrow> Inr [] | Some (JArr xs) \<Rightarrow> owners_from_json xs
      | Some _ \<Rightarrow> Inl cannot_convert)"

definition server_fields :: "string list" where
  "server_fields = [''generateName'', ''selfLink'', ''creationTimestamp'', ''deletionTimestamp'',
     ''deletionGracePeriodSeconds'', ''finalizers'', ''managedFields'']"

definition FromUnstructured :: "json_map \<Rightarrow> go_error + object_meta" where
  "FromUnstructured m =
     sum_bind (string_field m ''name'') (\<lambda>name.
     sum_bind (string_field m ''namespace'') (\<lambda>namespace.
     sum_bind (string_field m ''uid'') (\<lambda>uid.
     sum_bind (string_field m ''resourceVersion'') (\<lambda>resourceVersion.
     sum_bind (int_field m ''generation'') (\<lambda>generation.
     sum_bind (string_map_field m ''labels'') (\<lambda>labels.
     sum_bind (string_map_field m ''annotations'') (\<lambda>annotations.
     sum_bind (owners_field m ''ownerReferences'') (\<lambda>owners.
       Inr \<lparr>om_name = name, om_namespace = namespace, om_uid = uid,
            om_resourceVersion = resourceVersion, om_generation = generation,
            om_labels = labels, om_annotations = annotations, om_ownerReferences = owners,
            om_server = fmfilter (\<lambda>k. k \<in> set server_fields) m\<rparr>))))))))"

definition opt_field :: "string \<Rightarrow> bool \<Rightarrow> json \<Rightarrow> json_map \<Rightarrow> json_map" where
  "opt_field k present v m = (if present then fmupd k v m else m)"

definition ToUnstructured :: "object_meta \<Rightarrow> json_map" where
  "ToUnstructured m =
     opt_field ''name'' (om_name m \<noteq> []) (JStr (om_name m))
     (opt_field ''namespace'' (om_namespace m \<noteq> []) (JStr (om_namespace m))
     (opt_field ''uid'' (om_uid m \<noteq> []) (JStr (om_uid m))
     (opt_field ''resourceVersion'' (om_resourceVersion m \<noteq> []) (JStr (om_resourceVersion m))
     (opt_field ''generation'' (om_generation m \<noteq> 0) (JInt (om_generation m))
     (opt_field ''labels'' (om_labels m \<noteq> fmempty) (JObj (fmmap JStr (om_labels m)))
     (opt_field ''annotations'' (om_annotations m \<noteq> fmempty) (JObj (fmmap JStr (om_annotations m)))
     (opt_field ''ownerReferences'' (om_ownerReferences m \<noteq> []) (JArr (map owner_to_json (om_ownerReferences m)))
     (om_server m))))))))"

lemma opt_field_lookup: "fmlookup (opt_field k b v m) x = (if x = k \<and> b then Some v else fmlookup m x)"
  by (auto simp: opt_field_def)

lemma owner_round_trip: "owner_from_json (owner_to_json r) = Inr r"
  by (cases r) (auto simp: owner_from_json_def owner_to_json_def owner_from_fields_def string_field_def
      bool_field_def Let_def split: option.split)

lemma owners_round_trip: "owners_from_json (map owner_to_json rs) = Inr rs"
  by (induction rs) (simp_all add: owner_round_trip)

text \<open>Metadata whose server fields are what a conversion gives survives the way back.\<close>

definition server_fields_only :: "object_meta \<Rightarrow> bool" where
  "server_fields_only m \<longleftrightarrow> fset (fmdom (om_server m)) \<subseteq> set server_fields"

lemma server_fields_only_lookup: "server_fields_only m \<Longrightarrow> k \<notin> set server_fields \<Longrightarrow> fmlookup (om_server m) k = None"
  by (auto simp: server_fields_only_def fmdom_notD)

lemma string_map_round_trip:
  "fmpred (\<lambda>_ v. string_value v \<noteq> None) (fmmap JStr m)"
  "fmmap (the \<circ> string_value) (fmmap JStr m) = m"
  by (auto intro: fmap_ext simp: option.map_comp comp_def option.map_ident)

lemma converter_round_trip:
  assumes "server_fields_only m"
  shows "FromUnstructured (ToUnstructured m) = Inr m"
proof -
  note none = server_fields_only_lookup [OF assms]
  have f: "string_field (ToUnstructured m) ''name'' = Inr (om_name m)"
    "string_field (ToUnstructured m) ''namespace'' = Inr (om_namespace m)"
    "string_field (ToUnstructured m) ''uid'' = Inr (om_uid m)"
    "string_field (ToUnstructured m) ''resourceVersion'' = Inr (om_resourceVersion m)"
    "int_field (ToUnstructured m) ''generation'' = Inr (om_generation m)"
    by (auto simp: string_field_def int_field_def ToUnstructured_def opt_field_lookup none server_fields_def)
  have g: "string_map_field (ToUnstructured m) ''labels'' = Inr (om_labels m)"
    "string_map_field (ToUnstructured m) ''annotations'' = Inr (om_annotations m)"
    "owners_field (ToUnstructured m) ''ownerReferences'' = Inr (om_ownerReferences m)"
    using string_map_round_trip
    by (auto simp: string_map_field_def owners_field_def ToUnstructured_def opt_field_lookup none
        server_fields_def owners_round_trip simp del: fmpred_iff)
  have h: "fmfilter (\<lambda>k. k \<in> set server_fields) (ToUnstructured m) = om_server m"
    by (rule fmap_ext) (auto simp: ToUnstructured_def opt_field_lookup server_fields_def none)
  show ?thesis by (simp add: FromUnstructured_def f g h)
qed

lemma FromUnstructured_server: "FromUnstructured j = Inr m \<Longrightarrow> server_fields_only m"
  by (auto simp: FromUnstructured_def sum_bind_Inr server_fields_only_def)

section \<open>Merging and applying\<close>

definition EnsureObjectMetaForUnstructured ::
  "unstructured \<Rightarrow> unstructured \<Rightarrow> go_error + (bool \<times> unstructured)" where
  "EnsureObjectMetaForUnstructured existing required =
     sum_bind (NestedMap (u_object existing) [''metadata'']) (\<lambda>em.
       case em of
         None \<Rightarrow> Inl (ErrorString (''metadata not found in the existing object: '' @
                   GetNamespace existing @ ''/'' @ GetName existing))
       | Some existingObjectMeta \<Rightarrow>
           sum_bind (NestedMap (u_object required) [''metadata'']) (\<lambda>rm.
             case rm of
               None \<Rightarrow> Inl (ErrorString (''metadata not found in the required object: '' @
                         GetNamespace required @ ''/'' @ GetName required))
             | Some requiredObjectMeta \<Rightarrow>
                 sum_bind (FromUnstructured existingObjectMeta) (\<lambda>existingTyped.
                 sum_bind (FromUnstructured requiredObjectMeta) (\<lambda>requiredTyped.
                   let (modified, merged) = EnsureObjectMeta False existingTyped requiredTyped in
                   if modified then
                     Inr (True, existing\<lparr>u_object :=
                       fmupd ''metadata'' (JObj (ToUnstructured merged)) (u_object existing)\<rparr>)
                   else Inr (False, existing)))))"

text \<open>The spec as a map; a missing spec is the nil map.\<close>

definition nested_spec :: "unstructured \<Rightarrow> go_error + json_map" where
  "nested_spec u = sum_bind (NestedMap (u_object u) [''spec''])
     (\<lambda>sp. Inr (case sp of None \<Rightarrow> fmempty | Some m \<Rightarrow> m))"

definition ensureGenericSpec ::
  "unstructured \<Rightarrow> unstructured \<Rightarrow> (unstructured \<Rightarrow> unstructured) \<Rightarrow> (json_map \<Rightarrow> json_map \<Rightarrow> bool) \<Rightarrow>
   go_error + (bool \<times> unstructured)" where
  "ensureGenericSpec required existing mimicDefaultingFn equalityChecker =
     sum_bind (nested_spec (mimicDefaultingFn required)) (\<lambda>requiredSpec.
     sum_bind (nested_spec existing) (\<lambda>existingSpec.
       if equalityChecker existingSpec requiredSpec then Inr (False, existing)
       else sum_bind (SetNestedMap (u_object existing) requiredSpec [''spec''])
              (\<lambda>obj. Inr (True, existing\<lparr>u_object := obj\<rparr>))))"

definition noDefaulting :: "unstructured \<Rightarrow> unstructured" where
  "noDefaulting u = u"

text \<open>
  What \<^verbatim>\<open>meta.Accessor\<close> and \<^verbatim>\<open>GuessObjectGroupVersionKind\<close> read off an
  unstructured object for an event or the cache.
\<close>

definition accessor_meta :: "unstructured \<Rightarrow> object_meta" where
  "accessor_meta u =
     \<lparr>om_name = GetName u, om_namespace = GetNamespace u, om_uid = [],
      om_resourceVersion = getNestedString (u_object u) [''metadata'', ''resourceVersion''],
      om_generation = 0, om_labels = fmempty, om_annotations = fmempty,
      om_ownerReferences = GetOwnerReferences u, om_server = fmempty\<rparr>"

definition guess_kind :: "unstructured \<Rightarrow> string \<times> string" where
  "guess_kind u = (case GroupKind u of (grp, kind) \<Rightarrow>
     if kind = [] then ([], ''<unknown>'') else (grp, kind))"

definition unstructured_gk :: "unstructured \<Rightarrow> group_kind option" where
  "unstructured_gk u = (case GroupKind u of (grp, kind) \<Rightarrow> if kind = [] then None else Some (grp, kind))"

definition unstructured_create_event :: "unstructured \<Rightarrow> go_error option \<Rightarrow> event list" where
  "unstructured_create_event u err =
     (case guess_kind u of (grp, kind) \<Rightarrow> [create_event kind grp (accessor_meta u) err])"

definition unstructured_update_event :: "unstructured \<Rightarrow> go_error option \<Rightarrow> event list" where
  "unstructured_update_event u err =
     (case guess_kind u of (grp, kind) \<Rightarrow> [update_event kind grp (accessor_meta u) err])"

definition ApplyUnstructuredResourceImproved ::
  "(unstructured \<Rightarrow> string) \<Rightarrow> ('w, unstructured) resource_client \<Rightarrow> unstructured \<Rightarrow> resource_cache \<Rightarrow>
   (unstructured \<Rightarrow> unstructured) option \<Rightarrow> (json_map \<Rightarrow> json_map \<Rightarrow> bool) option \<Rightarrow>
   ('w, unstructured apply_result \<times> resource_cache) go" where
  "ApplyUnstructuredResourceImproved hashOf client required cache defaultingFunc equalityChecker s =
     (let name = GetName required; namespace = GetNamespace required; gk = unstructured_gk required in
      case call (rc_get client namespace name) s of
        (Inl err, s1) \<Rightarrow>
          if IsNotFound err then
            (let (r, s2) = call (rc_create client namespace required) s1;
                 s3 = emit_all (unstructured_create_event required (error_of r)) s2;
                 cache' = (case r of Inl _ \<Rightarrow> cache
                           | Inr want \<Rightarrow> UpdateCachedResourceMetadata cache gk (accessor_meta required)
                                          (hashOf required) (Some (accessor_meta want)))
             in ((apply_write r, cache'), s3))
          else ((apply_fail err, cache), s1)
      | (Inr existing, s1) \<Rightarrow>
          if SafeToSkipApply cache gk (accessor_meta required) (hashOf required) (Some (accessor_meta existing))
          then ((apply_same existing, cache), s1)
          else
            (case EnsureObjectMetaForUnstructured existing required of
               Inl err \<Rightarrow> ((apply_fail err, cache), s1)
             | Inr (didMetadataModify, existingCopy) \<Rightarrow>
                 (let defaulting = (case defaultingFunc of None \<Rightarrow> noDefaulting | Some f \<Rightarrow> f);
                      checker = (case equalityChecker of None \<Rightarrow> (=) | Some f \<Rightarrow> f) in
                  case ensureGenericSpec required existingCopy defaulting checker of
                    Inl err \<Rightarrow> ((apply_fail err, cache), s1)
                  | Inr (didSpecModify, existingCopy) \<Rightarrow>
                      if \<not> didSpecModify \<and> \<not> didMetadataModify then
                        ((apply_same existingCopy,
                          UpdateCachedResourceMetadata cache gk (accessor_meta required) (hashOf required)
                            (Some (accessor_meta existingCopy))), s1)
                      else
                        (let (r, s2) = call (rc_update client namespace existingCopy) s1;
                             s3 = emit_all (unstructured_update_event existingCopy (error_of r)) s2;
                             cache' = (case r of Inl _ \<Rightarrow> cache
                                       | Inr actual \<Rightarrow> UpdateCachedResourceMetadata cache
                                           (unstructured_gk existingCopy) (accessor_meta existingCopy)
                                           (hashOf existingCopy) (Some (accessor_meta actual)))
                         in ((apply_write r, cache'), s3)))))"

text \<open>A dynamic client gives a client for every group, version and resource.\<close>

type_synonym gvr = "string \<times> string \<times> string"
type_synonym 'w dynamic_client = "gvr \<Rightarrow> ('w, unstructured) resource_client"

definition alertmanagerGVR :: gvr where
  "alertmanagerGVR = (''monitoring.coreos.com'', ''v1'', ''alertmanagers'')"
definition prometheusGVR :: gvr where
  "prometheusGVR = (''monitoring.coreos.com'', ''v1'', ''prometheuses'')"
definition prometheusRuleGVR :: gvr where
  "prometheusRuleGVR = (''monitoring.coreos.com'', ''v1'', ''prometheusrules'')"
definition serviceMonitorGVR :: gvr where
  "serviceMonitorGVR = (''monitoring.coreos.com'', ''v1'', ''servicemonitors'')"

text \<open>\<open>ApplyAlertmanager\<close>, \<open>ApplyPrometheus\<close>, \<open>ApplyPrometheusRule\<close> and \<open>ApplyServiceMonitor\<close>.\<close>

definition ApplyMonitoringResource ::
  "(unstructured \<Rightarrow> string) \<Rightarrow> 'w dynamic_client \<Rightarrow> gvr \<Rightarrow> unstructured \<Rightarrow>
   ('w, unstructured apply_result) go" where
  "ApplyMonitoringResource hashOf dyn resource required s =
     (let ((r, _), s') = ApplyUnstructuredResourceImproved hashOf (dyn resource) required noCache None None s
      in (r, s'))"

definition ApplyServiceMonitor ::
  "(unstructured \<Rightarrow> string) \<Rightarrow> 'w dynamic_client \<Rightarrow> unstructured \<Rightarrow> ('w, unstructured apply_result) go" where
  "ApplyServiceMonitor hashOf dyn required = ApplyMonitoringResource hashOf dyn serviceMonitorGVR required"

text \<open>
  Dispatch on group and kind. \<open>applyVolumeSnapshotClass\<close> stands for the function that
  handles volume snapshot classes, which this operator has none of.
\<close>

definition ApplyKnownUnstructured ::
  "(unstructured \<Rightarrow> ('w, unstructured apply_result) go) \<Rightarrow> (unstructured \<Rightarrow> string) \<Rightarrow>
   'w dynamic_client \<Rightarrow> unstructured \<Rightarrow> ('w, unstructured apply_result) go" where
  "ApplyKnownUnstructured applyVolumeSnapshotClass hashOf dyn obj =
     (let gk = GroupKind obj in
      if gk = (''monitoring.coreos.com'', ''ServiceMonitor'') then ApplyServiceMonitor hashOf dyn obj
      else if gk = (''monitoring.coreos.com'', ''PrometheusRule'') then
        ApplyMonitoringResource hashOf dyn prometheusRuleGVR obj
      else if gk = (''snapshot.storage.k8s.io'', ''VolumeSnapshotClass'') then applyVolumeSnapshotClass obj
      else if gk = (''monitoring.coreos.com'', ''Alertmanager'') then
        ApplyMonitoringResource hashOf dyn alertmanagerGVR obj
      else if gk = (''monitoring.coreos.com'', ''Prometheus'') then
        ApplyMonitoringResource hashOf dyn prometheusGVR obj
      else (\<lambda>s. (apply_fail (ErrorString (''unsupported object type: '' @ GetKind obj)), s)))"

section \<open>The unstructured kind\<close>

definition typed_meta :: "unstructured \<Rightarrow> go_error + object_meta" where
  "typed_meta u = sum_bind (NestedMap (u_object u) [''metadata''])
     (\<lambda>m. case m of None \<Rightarrow> Inl (ErrorString ''metadata not found'') | Some j \<Rightarrow> FromUnstructured j)"

definition unstructured_wf :: "unstructured \<Rightarrow> bool" where
  "unstructured_wf req \<longleftrightarrow>
     (case typed_meta req of Inl _ \<Rightarrow> False | Inr m \<Rightarrow> mergeable_meta m \<and> om_name m \<noteq> []) \<and>
     (case nested_spec req of Inl _ \<Rightarrow> False | Inr _ \<Rightarrow> True)"

definition unstructured_plan :: "unit \<Rightarrow> unstructured \<Rightarrow> unstructured \<Rightarrow> unstructured decision" where
  "unstructured_plan u req ex =
     (case EnsureObjectMetaForUnstructured ex req of
        Inl e \<Rightarrow> Refuse e
      | Inr (m1, c1) \<Rightarrow>
          (case ensureGenericSpec req c1 noDefaulting (=) of
             Inl e \<Rightarrow> Refuse e
           | Inr (m2, c2) \<Rightarrow> if \<not> m2 \<and> \<not> m1 then Keep c2 else Write c2))"

text \<open>The server keeps the metadata a request carries and stores its spec as sent.\<close>

definition unstructured_admits :: "string \<Rightarrow> unstructured \<Rightarrow> unstructured \<Rightarrow> bool" where
  "unstructured_admits ns x a \<longleftrightarrow>
     (case typed_meta x of Inl _ \<Rightarrow> True
      | Inr mx \<Rightarrow> (case typed_meta a of Inl _ \<Rightarrow> False | Inr ma \<Rightarrow> kept_meta ns mx ma)) \<and>
     nested_spec a = nested_spec x"

lemma NestedMap_single:
  "NestedMap obj [k] =
    (case fmlookup obj k of None \<Rightarrow> Inr None | Some (JObj m) \<Rightarrow> Inr (Some m) | Some _ \<Rightarrow> Inl (accessor_error [k]))"
  by (auto simp: NestedMap_def nestedMapNoCopy_def NestedFieldNoCopy_def split: option.split json.split)

lemma typed_meta_Inr:
  "typed_meta u = Inr m \<longleftrightarrow> (\<exists>j. fmlookup (u_object u) ''metadata'' = Some (JObj j) \<and> FromUnstructured j = Inr m)"
  by (auto simp: typed_meta_def NestedMap_single sum_bind_Inr split: option.splits json.splits)

lemma FromUnstructured_strings:
  assumes "FromUnstructured j = Inr m"
  shows "string_field j ''name'' = Inr (om_name m)" and "string_field j ''namespace'' = Inr (om_namespace m)"
  using assms by (auto simp: FromUnstructured_def sum_bind_Inr)

lemma GetName_typed: "typed_meta u = Inr m \<Longrightarrow> GetName u = om_name m"
  by (auto simp: typed_meta_Inr GetName_def getNestedString_def NestedString_def NestedFieldNoCopy_def
      string_field_def dest!: FromUnstructured_strings(1) split: option.splits json.splits)

lemma GetNamespace_typed: "typed_meta u = Inr m \<Longrightarrow> GetNamespace u = om_namespace m"
  by (auto simp: typed_meta_Inr GetNamespace_def getNestedString_def NestedString_def NestedFieldNoCopy_def
      string_field_def dest!: FromUnstructured_strings(2) split: option.splits json.splits)

lemma EnsureObjectMeta_server [simp]:
  "server_fields_only (snd (EnsureObjectMeta b m req)) = server_fields_only m"
  by (simp add: server_fields_only_def)

text \<open>What the metadata merge does to an object: typed metadata merged, spec untouched.\<close>

lemma EnsureObjectMetaForUnstructured_Inr:
  assumes "EnsureObjectMetaForUnstructured ex req = Inr (b, c)"
  obtains me mr where "typed_meta ex = Inr me" and "typed_meta req = Inr mr"
    and "b = fst (EnsureObjectMeta False me mr)"
    and "typed_meta c = Inr (if b then snd (EnsureObjectMeta False me mr) else me)"
    and "nested_spec c = nested_spec ex" and "b \<or> c = ex"
proof -
  obtain je jr me mr where j: "fmlookup (u_object ex) ''metadata'' = Some (JObj je)"
    "fmlookup (u_object req) ''metadata'' = Some (JObj jr)"
    and f: "FromUnstructured je = Inr me" "FromUnstructured jr = Inr mr"
    and r: "(let (modified, merged) = EnsureObjectMeta False me mr in
       if modified then Inr (True, ex\<lparr>u_object := fmupd ''metadata'' (JObj (ToUnstructured merged)) (u_object ex)\<rparr>)
       else Inr (False, ex)) = (Inr (b, c) :: go_error + bool \<times> unstructured)"
    using assms
    by (auto simp: EnsureObjectMetaForUnstructured_def NestedMap_single sum_bind_Inr
        split: option.splits json.splits)
  have "server_fields_only (snd (EnsureObjectMeta False me mr))"
    using FromUnstructured_server [OF f(1)] by simp
  then have conv: "FromUnstructured (ToUnstructured (snd (EnsureObjectMeta False me mr))) =
      Inr (snd (EnsureObjectMeta False me mr))"
    by (rule converter_round_trip)
  have t: "typed_meta ex = Inr me" "typed_meta req = Inr mr" using j f by (auto simp: typed_meta_Inr)
  show ?thesis
  proof (rule that [OF t])
    show "b = fst (EnsureObjectMeta False me mr)" and "b \<or> c = ex"
      using r by (auto simp: Let_def split: prod.splits if_splits)
    show "typed_meta c = Inr (if b then snd (EnsureObjectMeta False me mr) else me)"
      using r conv t by (auto simp: typed_meta_Inr split: prod.splits if_splits)
    show "nested_spec c = nested_spec ex"
      using r by (auto simp: nested_spec_def NestedMap_single split: prod.splits if_splits)
  qed
qed

lemma ensureGenericSpec_Inr:
  assumes "ensureGenericSpec req ex noDefaulting (=) = Inr (b, c)"
  shows "nested_spec c = nested_spec req" and "typed_meta c = typed_meta ex" and "b \<or> c = ex"
  using assms
  by (auto simp: ensureGenericSpec_def sum_bind_Inr noDefaulting_def SetNestedMap_def SetNestedField_def
      nested_spec_def NestedMap_single typed_meta_def split: if_splits)

lemma unstructured_plan_shape:
  assumes "unstructured_plan u req ex = Keep c \<or> unstructured_plan u req ex = Write c"
    and "unstructured_wf req"
  obtains me mr where "typed_meta ex = Inr me" and "typed_meta req = Inr mr"
    and "mergeable_meta mr" and "om_name mr \<noteq> []"
    and "typed_meta c = Inr (snd (EnsureObjectMeta False me mr))" and "nested_spec c = nested_spec req"
proof -
  obtain m1 c1 m2 where e: "EnsureObjectMetaForUnstructured ex req = Inr (m1, c1)"
    and g: "ensureGenericSpec req c1 noDefaulting (=) = Inr (m2, c)"
    using assms(1) by (auto simp: unstructured_plan_def split: sum.splits prod.splits if_splits)
  obtain me mr where t: "typed_meta ex = Inr me" "typed_meta req = Inr mr"
    "m1 = fst (EnsureObjectMeta False me mr)"
    "typed_meta c1 = Inr (if m1 then snd (EnsureObjectMeta False me mr) else me)"
    using e by (rule EnsureObjectMetaForUnstructured_Inr)
  have wf: "mergeable_meta mr" "om_name mr \<noteq> []" using assms(2) t(2) by (auto simp: unstructured_wf_def)
  have "\<not> m1 \<Longrightarrow> snd (EnsureObjectMeta False me mr) = me"
    using t(3) EnsureObjectMeta_flag [OF wf(1), of False me] by simp
  then show ?thesis using that t wf ensureGenericSpec_Inr [OF g] by auto
qed

lemma unstructured_in_sync:
  assumes "typed_meta a = Inr ma" and "typed_meta req = Inr mr" and "meta_in_sync ma mr"
    and "nested_spec a = nested_spec req" and "unstructured_wf req"
  shows "is_Keep (unstructured_plan u req a)"
proof -
  have "EnsureObjectMetaForUnstructured a req = Inr (False, a)"
    using assms(1-3)
    by (auto simp: EnsureObjectMetaForUnstructured_def typed_meta_Inr NestedMap_single meta_in_sync_def)
  moreover obtain sp where "nested_spec req = Inr sp"
    using assms(5) by (auto simp: unstructured_wf_def split: sum.splits)
  ultimately show ?thesis
    using assms(4) by (simp add: unstructured_plan_def ensureGenericSpec_def noDefaulting_def)
qed

interpretation unstructured_kind: apply_kind GetName unstructured_admits unstructured_wf "\<lambda>u. u"
  unstructured_plan "\<lambda>_. ()"
proof unfold_locales
  fix req u ex ob
  assume wf: "unstructured_wf req" and pl: "unstructured_plan u req ex = Write ob" and n: "GetName ex = GetName req"
  from pl obtain me mr where "typed_meta ex = Inr me" "typed_meta req = Inr mr" "om_name mr \<noteq> []"
    "typed_meta ob = Inr (snd (EnsureObjectMeta False me mr))"
    using unstructured_plan_shape [OF disjI2 wf] by metis
  then show "GetName ob = GetName req" by (simp add: GetName_typed EnsureObjectMeta_name)
next
  fix req ns a
  assume wf: "unstructured_wf req" and adm: "unstructured_admits ns req a"
  then obtain mr ma where "typed_meta req = Inr mr" "typed_meta a = Inr ma" "kept_meta ns mr ma"
    "mergeable_meta mr" "nested_spec a = nested_spec req"
    by (auto simp: unstructured_admits_def unstructured_wf_def split: sum.splits)
  then show "is_Keep (unstructured_plan () req a)"
    using wf by (auto intro: unstructured_in_sync required_kept_in_sync)
next
  fix req u ex ob ns a
  assume wf: "unstructured_wf req" and pl: "unstructured_plan u req ex = Write ob"
    and adm: "unstructured_admits ns ob a"
  from pl obtain me mr where m: "typed_meta req = Inr mr" "mergeable_meta mr"
    "typed_meta ob = Inr (snd (EnsureObjectMeta False me mr))" "nested_spec ob = nested_spec req"
    using unstructured_plan_shape [OF disjI2 wf] by metis
  moreover obtain ma where "typed_meta a = Inr ma" "kept_meta ns (snd (EnsureObjectMeta False me mr)) ma"
    "nested_spec a = nested_spec ob"
    using adm m(3) by (auto simp: unstructured_admits_def split: sum.splits)
  ultimately show "is_Keep (unstructured_plan () req a)"
    using wf by (auto intro!: unstructured_in_sync merged_kept_in_sync)
qed simp_all

lemma ApplyMonitoringResource_skeleton:
  "ApplyMonitoringResource hashOf dyn resource required =
    apply_skeleton (dyn resource) (GetNamespace required) (GetName required)
      required (unstructured_plan () required)
      (unstructured_create_event required) unstructured_update_event"
  by (rule ext) (auto simp: ApplyMonitoringResource_def ApplyUnstructuredResourceImproved_def apply_skeleton_def
      unstructured_plan_def Let_def split: prod.split sum.split)

end
