(* ===== verification/Assets.thy ===== *)
theory Assets
  imports Kube_Objects
begin

text \<open>
  The manifests embedded in the binary (\<^verbatim>\<open>bindata/assets.go\<close> and
  \<^verbatim>\<open>bindata/assets/cli-manager/*.yaml\<close>), as the objects they decode to, and the readers of
  \<^verbatim>\<open>resourceread\<close> (library-go), which panic when a manifest is missing or of
  another kind. The YAML decoder itself is not modelled: an asset is its decoded content.
\<close>

definition jobj :: "(string \<times> json) list \<Rightarrow> json" where
  "jobj kvs = JObj (fmap_of_list kvs)"

definition manifest_meta ::
  "string \<Rightarrow> string \<Rightarrow> (string \<times> string) list \<Rightarrow> (string \<times> string) list \<Rightarrow> object_meta" where
  "manifest_meta name namespace labels annotations =
     \<lparr>om_name = name, om_namespace = namespace, om_uid = [], om_resourceVersion = [], om_generation = 0,
      om_labels = fmap_of_list labels, om_annotations = fmap_of_list annotations,
      om_ownerReferences = [], om_server = fmempty\<rparr>"

section \<open>The manifests\<close>

definition manifest_rule :: "string list \<Rightarrow> string list \<Rightarrow> string list \<Rightarrow> policy_rule" where
  "manifest_rule groups resources verbs =
     \<lparr>pr_verbs = verbs, pr_apiGroups = groups, pr_resources = resources, pr_resourceNames = [],
      pr_nonResourceURLs = []\<rparr>"

definition role_yaml :: role where
  "role_yaml =
     \<lparr>role_meta = manifest_meta ''openshift-cli-manager'' ''openshift-cli-manager-operator'' [] [],
      role_rules = [manifest_rule [''''] [''pods'', ''services'', ''endpoints''] [''get'', ''list'', ''watch'']]\<rparr>"

definition rolebinding_yaml :: role_binding where
  "rolebinding_yaml =
     \<lparr>rb_meta = manifest_meta ''openshift-cli-manager'' ''openshift-cli-manager-operator'' [] [],
      rb_subjects = [\<lparr>sub_kind = ''ServiceAccount'', sub_apiGroup = [], sub_name = ''openshift-cli-manager'',
                      sub_namespace = ''openshift-cli-manager-operator''\<rparr>],
      rb_roleRef = \<lparr>rr_apiGroup = ''rbac.authorization.k8s.io'', rr_kind = ''Role'',
                    rr_name = ''openshift-cli-manager''\<rparr>\<rparr>"

definition clusterrole_yaml :: cluster_role where
  "clusterrole_yaml =
     \<lparr>crole_meta = manifest_meta ''openshift-cli-manager'' [] [] [],
      crole_rules =
        [manifest_rule [''config.openshift.io''] [''plugins''] [''get'', ''list'', ''watch''],
         manifest_rule [''config.openshift.io''] [''plugins/status'']
           [''create'', ''update'', ''patch'', ''get'', ''list'', ''watch''],
         manifest_rule [''coordination.k8s.io''] [''leases'']
           [''create'', ''delete'', ''deletecollection'', ''get'', ''list'', ''patch'', ''update'', ''watch''],
         manifest_rule [''route.openshift.io''] [''routes''] [''get'', ''list''],
         manifest_rule [''''] [''secrets''] [''get''],
         manifest_rule [''''] [''events''] [''create'', ''patch'']],
      crole_aggregationRule = None\<rparr>"

definition clusterrolebinding_yaml :: role_binding where
  "clusterrolebinding_yaml =
     \<lparr>rb_meta = manifest_meta ''openshift-cli-manager'' [] [] [],
      rb_subjects = [\<lparr>sub_kind = ''ServiceAccount'', sub_apiGroup = [], sub_name = ''openshift-cli-manager'',
                      sub_namespace = ''openshift-cli-manager-operator''\<rparr>],
      rb_roleRef = \<lparr>rr_apiGroup = ''rbac.authorization.k8s.io'', rr_kind = ''ClusterRole'',
                    rr_name = ''openshift-cli-manager''\<rparr>\<rparr>"

definition serviceaccount_yaml :: service_account where
  "serviceaccount_yaml =
     \<lparr>sa_meta = manifest_meta ''openshift-cli-manager'' ''openshift-cli-manager-operator'' [] [],
      sa_rest = fmempty\<rparr>"

definition service_annotations :: "(string \<times> string) list" where
  "service_annotations =
     [(''include.release.openshift.io/self-managed-high-availability'', ''true''),
      (''include.release.openshift.io/single-node-developer'', ''true''),
      (''service.beta.openshift.io/serving-cert-secret-name'', ''openshift-cli-manager-serving-cert''),
      (''exclude.release.openshift.io/internal-openshift-hosted'', ''true'')]"

definition service_yaml :: service where
  "service_yaml =
     \<lparr>svc_meta = manifest_meta ''openshift-cli-manager'' ''openshift-cli-manager-operator''
        [(''app'', ''openshift-cli-manager'')] service_annotations,
      svc_spec =
        \<lparr>ss_ports = [\<lparr>sp_name = ''cli-manager-port'', sp_protocol = ''TCP'', sp_port = 9449,
                       sp_targetPort = IntVal 9449, sp_rest = fmempty\<rparr>],
         ss_selector = fmap_of_list [(''app'', ''openshift-cli-manager'')],
         ss_clusterIP = [], ss_type = ''ClusterIP'', ss_sessionAffinity = ''None'', ss_rest = fmempty\<rparr>,
      svc_status = fmempty\<rparr>"

definition servicemetrics_yaml :: service where
  "servicemetrics_yaml =
     \<lparr>svc_meta = manifest_meta ''openshift-cli-manager-metrics'' ''openshift-cli-manager-operator''
        [(''app'', ''openshift-cli-manager'')] service_annotations,
      svc_spec =
        \<lparr>ss_ports = [\<lparr>sp_name = ''cli-manager-metrics-port'', sp_protocol = ''TCP'', sp_port = 60000,
                       sp_targetPort = IntVal 60000, sp_rest = fmempty\<rparr>],
         ss_selector = fmap_of_list [(''app'', ''openshift-cli-manager'')],
         ss_clusterIP = ''None'', ss_type = [], ss_sessionAffinity = [], ss_rest = fmempty\<rparr>,
      svc_status = fmempty\<rparr>"

definition route_yaml :: route where
  "route_yaml =
     \<lparr>route_meta = manifest_meta ''openshift-cli-manager'' ''openshift-cli-manager-operator''
        [(''app'', ''openshift-cli-manager'')] [(''haproxy.router.openshift.io/timeout'', ''5m'')],
      route_spec =
        \<lparr>rs_host = [], rs_subdomain = [], rs_path = ''/cli-manager'',
         rs_to = \<lparr>rt_kind = ''Service'', rt_name = ''openshift-cli-manager'', rt_weight = Some 100\<rparr>,
         rs_alternateBackends = [], rs_port = Some (StringVal ''cli-manager-port''),
         rs_tls = Some \<lparr>tls_termination = ''edge'', tls_insecureEdgeTerminationPolicy = ''Redirect'',
                        tls_rest = fmempty\<rparr>,
         rs_wildcardPolicy = ''None'', rs_httpHeaders = None\<rparr>,
      route_status = fmempty\<rparr>"

definition namespace_peer :: "string \<Rightarrow> string \<Rightarrow> network_policy_peer" where
  "namespace_peer k v =
     \<lparr>peer_podSelector = None,
      peer_namespaceSelector = Some \<lparr>ls_matchLabels = fmap_of_list [(k, v)], ls_matchExpressions = []\<rparr>,
      peer_ipBlock = None\<rparr>"

definition tcp_port :: "int \<Rightarrow> network_policy_port" where
  "tcp_port p = \<lparr>npp_protocol = Some ''TCP'', npp_port = Some (IntVal p), npp_endPort = None\<rparr>"

definition networkpolicy_operand_allow_yaml :: network_policy where
  "networkpolicy_operand_allow_yaml =
     \<lparr>np_meta = manifest_meta ''cli-manager-operand'' [] []
        [(''include.release.openshift.io/self-managed-high-availability'', ''true''),
         (''include.release.openshift.io/single-node-developer'', ''true'')],
      np_spec =
        \<lparr>nps_podSelector = \<lparr>ls_matchLabels = fmap_of_list [(''app'', ''openshift-cli-manager'')],
                            ls_matchExpressions = []\<rparr>,
         nps_ingress =
           [\<lparr>npi_ports = [tcp_port 60000],
             npi_from = [namespace_peer ''openshift.io/cluster-monitoring'' ''true'',
                         namespace_peer ''kubernetes.io/metadata.name'' ''openshift-monitoring'',
                         namespace_peer ''kubernetes.io/metadata.name'' ''openshift-user-workload-monitoring'']\<rparr>,
            \<lparr>npi_ports = [tcp_port 9449],
             npi_from = [namespace_peer ''policy-group.network.openshift.io/ingress'' '''']\<rparr>],
         nps_egress = [\<lparr>npe_ports = [], npe_to = []\<rparr>],
         nps_policyTypes = [''Ingress'', ''Egress'']\<rparr>\<rparr>"

definition volume_mount :: "string \<Rightarrow> string \<Rightarrow> json" where
  "volume_mount path name = jobj [(''mountPath'', JStr path), (''name'', JStr name)]"

definition container_port :: "int \<Rightarrow> json" where
  "container_port p = jobj [(''containerPort'', JInt p), (''protocol'', JStr ''TCP'')]"

definition empty_dir :: "string \<Rightarrow> json" where
  "empty_dir name = jobj [(''name'', JStr name), (''emptyDir'', jobj [])]"

definition cli_manager_container :: container where
  "cli_manager_container =
     \<lparr>c_name = ''cli-manager'', c_image = ''${IMAGE}'', c_command = [''cli-manager'', ''start''], c_args = [],
      c_rest = fmap_of_list
        [(''terminationMessagePolicy'', JStr ''FallbackToLogsOnError''),
         (''securityContext'', jobj [(''allowPrivilegeEscalation'', JBool False),
            (''readOnlyRootFilesystem'', JBool True), (''capabilities'', jobj [(''drop'', JArr [JStr ''ALL''])])]),
         (''resources'', jobj [(''requests'', jobj [(''cpu'', JStr ''250m''), (''memory'', JStr ''1G'')])]),
         (''ports'', JArr [container_port 9449, container_port 60000]),
         (''volumeMounts'', JArr [volume_mount ''/etc/secrets'' ''certs-dir'',
            volume_mount ''/var/run/plugins'' ''krew-plugins'', volume_mount ''/var/run/git'' ''krew-git'',
            volume_mount ''/tmp'' ''tmp''])]\<rparr>"

definition deployment_yaml :: deployment where
  "deployment_yaml =
     \<lparr>dep_meta = manifest_meta ''openshift-cli-manager'' ''openshift-cli-manager-operator''
        [(''app'', ''openshift-cli-manager'')] [],
      dep_spec =
        \<lparr>ds_replicas = Some 2,
         ds_selector = \<lparr>ls_matchLabels = fmap_of_list [(''app'', ''openshift-cli-manager'')],
                        ls_matchExpressions = []\<rparr>,
         ds_template =
           \<lparr>pt_labels = fmap_of_list [(''app'', ''openshift-cli-manager'')],
            pt_annotations = fmap_of_list [(''kubectl.kubernetes.io/default-container'', ''cli-manager''),
                               (''openshift.io/required-scc'', ''restricted-v2'')],
            pt_rest = fmempty,
            pt_spec = \<lparr>ps_containers = [cli_manager_container],
              ps_rest = fmap_of_list
                [(''securityContext'', jobj [(''runAsNonRoot'', JBool True),
                    (''seccompProfile'', jobj [(''type'', JStr ''RuntimeDefault'')])]),
                 (''volumes'', JArr [jobj [(''name'', JStr ''certs-dir''),
                     (''secret'', jobj [(''secretName'', JStr ''openshift-cli-manager-serving-cert'')])],
                    empty_dir ''krew-plugins'', empty_dir ''krew-git'', empty_dir ''tmp'']),
                 (''restartPolicy'', JStr ''Always''),
                 (''serviceAccountName'', JStr ''openshift-cli-manager''),
                 (''terminationGracePeriodSeconds'', JInt 10)]\<rparr>\<rparr>,
         ds_rest = fmempty\<rparr>,
      dep_status = fmempty\<rparr>"

definition servicemonitor_tls :: "(string \<times> json) list" where
  "servicemonitor_tls =
     [(''caFile'', JStr ''/etc/prometheus/configmaps/serving-certs-ca-bundle/service-ca.crt''),
      (''certFile'', JStr ''/etc/prometheus/secrets/metrics-client-certs/tls.crt''),
      (''keyFile'', JStr ''/etc/prometheus/secrets/metrics-client-certs/tls.key''),
      (''serverName'', JStr ''metrics.openshift-cli-manager-operator.svc'')]"

definition servicemonitor_yaml :: unstructured where
  "servicemonitor_yaml =
     \<lparr>u_object = fmap_of_list
        [(''apiVersion'', JStr ''monitoring.coreos.com/v1''), (''kind'', JStr ''ServiceMonitor''),
         (''metadata'', jobj [(''name'', JStr ''openshift-cli-manager''),
                              (''namespace'', JStr ''openshift-cli-manager-operator'')]),
         (''spec'', jobj
            [(''endpoints'', JArr [jobj
               [(''bearerTokenFile'', JStr ''/var/run/secrets/kubernetes.io/serviceaccount/token''),
                (''interval'', JStr ''30s''), (''path'', JStr ''/metrics''),
                (''port'', JStr ''cli-manager-metrics-port''), (''scheme'', JStr ''https''),
                (''tlsConfig'', jobj servicemonitor_tls)]]),
             (''jobLabel'', JStr ''component''),
             (''selector'', jobj [(''matchLabels'', jobj [(''app'', JStr ''openshift-cli-manager'')])])])]\<rparr>"

section \<open>The embedded file system and the readers\<close>

datatype asset =
    RoleAsset role
  | RoleBindingAsset role_binding
  | ClusterRoleAsset cluster_role
  | ClusterRoleBindingAsset role_binding
  | ServiceAccountAsset service_account
  | ServiceAsset service
  | RouteAsset route
  | NetworkPolicyAsset network_policy
  | DeploymentAsset deployment
  | UnstructuredAsset unstructured

definition embedded_files :: "(string \<times> asset) list" where
  "embedded_files =
     [(''assets/cli-manager/clusterrole.yaml'', ClusterRoleAsset clusterrole_yaml),
      (''assets/cli-manager/clusterrolebinding.yaml'', ClusterRoleBindingAsset clusterrolebinding_yaml),
      (''assets/cli-manager/deployment.yaml'', DeploymentAsset deployment_yaml),
      (''assets/cli-manager/networkpolicy-operand-allow.yaml'', NetworkPolicyAsset networkpolicy_operand_allow_yaml),
      (''assets/cli-manager/role.yaml'', RoleAsset role_yaml),
      (''assets/cli-manager/rolebinding.yaml'', RoleBindingAsset rolebinding_yaml),
      (''assets/cli-manager/route.yaml'', RouteAsset route_yaml),
      (''assets/cli-manager/service.yaml'', ServiceAsset service_yaml),
      (''assets/cli-manager/serviceaccount.yaml'', ServiceAccountAsset serviceaccount_yaml),
      (''assets/cli-manager/servicemetrics.yaml'', ServiceAsset servicemetrics_yaml),
      (''assets/cli-manager/servicemonitor.yaml'', UnstructuredAsset servicemonitor_yaml)]"

definition Asset :: "string \<Rightarrow> go_error + asset" where
  "Asset name = (case map_of embedded_files name of
     Some a \<Rightarrow> Inr a
   | None \<Rightarrow> Inl (ErrorString (''open '' @ name @ '': file does not exist'')))"

definition MustAsset :: "string \<Rightarrow> go_error + asset" where
  "MustAsset name = (case Asset name of Inl err \<Rightarrow> Inl (Panic (ErrorText err)) | Inr a \<Rightarrow> Inr a)"

definition wrong_kind :: go_error where
  "wrong_kind = Panic ''unable to decode the manifest''"

definition ReadRoleV1OrDie :: "asset \<Rightarrow> go_error + role" where
  "ReadRoleV1OrDie a = (case a of RoleAsset x \<Rightarrow> Inr x | _ \<Rightarrow> Inl wrong_kind)"
definition ReadRoleBindingV1OrDie :: "asset \<Rightarrow> go_error + role_binding" where
  "ReadRoleBindingV1OrDie a = (case a of RoleBindingAsset x \<Rightarrow> Inr x | _ \<Rightarrow> Inl wrong_kind)"
definition ReadClusterRoleV1OrDie :: "asset \<Rightarrow> go_error + cluster_role" where
  "ReadClusterRoleV1OrDie a = (case a of ClusterRoleAsset x \<Rightarrow> Inr x | _ \<Rightarrow> Inl wrong_kind)"
definition ReadClusterRoleBindingV1OrDie :: "asset \<Rightarrow> go_error + role_binding" where
  "ReadClusterRoleBindingV1OrDie a = (case a of ClusterRoleBindingAsset x \<Rightarrow> Inr x | _ \<Rightarrow> Inl wrong_kind)"
definition ReadServiceAccountV1OrDie :: "asset \<Rightarrow> go_error + service_account" where
  "ReadServiceAccountV1OrDie a = (case a of ServiceAccountAsset x \<Rightarrow> Inr x | _ \<Rightarrow> Inl wrong_kind)"
definition ReadServiceV1OrDie :: "asset \<Rightarrow> go_error + service" where
  "ReadServiceV1OrDie a = (case a of ServiceAsset x \<Rightarrow> Inr x | _ \<Rightarrow> Inl wrong_kind)"
definition ReadRouteV1OrDie :: "asset \<Rightarrow> go_error + route" where
  "ReadRouteV1OrDie a = (case a of RouteAsset x \<Rightarrow> Inr x | _ \<Rightarrow> Inl wrong_kind)"
definition ReadNetworkPolicyV1OrDie :: "asset \<Rightarrow> go_error + network_policy" where
  "ReadNetworkPolicyV1OrDie a = (case a of NetworkPolicyAsset x \<Rightarrow> Inr x | _ \<Rightarrow> Inl wrong_kind)"
definition ReadDeploymentV1OrDie :: "asset \<Rightarrow> go_error + deployment" where
  "ReadDeploymentV1OrDie a = (case a of DeploymentAsset x \<Rightarrow> Inr x | _ \<Rightarrow> Inl wrong_kind)"
definition ReadUnstructuredOrDie :: "asset \<Rightarrow> go_error + unstructured" where
  "ReadUnstructuredOrDie a = (case a of UnstructuredAsset x \<Rightarrow> Inr x | _ \<Rightarrow> Inl wrong_kind)"

named_theorems asset_reads

lemma MustAsset_files [asset_reads]:
  "MustAsset ''assets/cli-manager/clusterrole.yaml'' = Inr (ClusterRoleAsset clusterrole_yaml)"
  "MustAsset ''assets/cli-manager/clusterrolebinding.yaml'' = Inr (ClusterRoleBindingAsset clusterrolebinding_yaml)"
  "MustAsset ''assets/cli-manager/deployment.yaml'' = Inr (DeploymentAsset deployment_yaml)"
  "MustAsset ''assets/cli-manager/networkpolicy-operand-allow.yaml'' = Inr (NetworkPolicyAsset networkpolicy_operand_allow_yaml)"
  "MustAsset ''assets/cli-manager/role.yaml'' = Inr (RoleAsset role_yaml)"
  "MustAsset ''assets/cli-manager/rolebinding.yaml'' = Inr (RoleBindingAsset rolebinding_yaml)"
  "MustAsset ''assets/cli-manager/route.yaml'' = Inr (RouteAsset route_yaml)"
  "MustAsset ''assets/cli-manager/service.yaml'' = Inr (ServiceAsset service_yaml)"
  "MustAsset ''assets/cli-manager/serviceaccount.yaml'' = Inr (ServiceAccountAsset serviceaccount_yaml)"
  "MustAsset ''assets/cli-manager/servicemetrics.yaml'' = Inr (ServiceAsset servicemetrics_yaml)"
  "MustAsset ''assets/cli-manager/servicemonitor.yaml'' = Inr (UnstructuredAsset servicemonitor_yaml)"
  by (simp_all add: MustAsset_def Asset_def embedded_files_def)

lemma readers [asset_reads]:
  "ReadRoleV1OrDie (RoleAsset a1) = Inr a1"
  "ReadRoleBindingV1OrDie (RoleBindingAsset a2) = Inr a2"
  "ReadClusterRoleV1OrDie (ClusterRoleAsset a3) = Inr a3"
  "ReadClusterRoleBindingV1OrDie (ClusterRoleBindingAsset a2) = Inr a2"
  "ReadServiceAccountV1OrDie (ServiceAccountAsset a5) = Inr a5"
  "ReadServiceV1OrDie (ServiceAsset a6) = Inr a6"
  "ReadRouteV1OrDie (RouteAsset a7) = Inr a7"
  "ReadNetworkPolicyV1OrDie (NetworkPolicyAsset a8) = Inr a8"
  "ReadDeploymentV1OrDie (DeploymentAsset a9) = Inr a9"
  "ReadUnstructuredOrDie (UnstructuredAsset a10) = Inr a10"
  by (simp_all add: ReadRoleV1OrDie_def ReadRoleBindingV1OrDie_def ReadClusterRoleV1OrDie_def
      ReadClusterRoleBindingV1OrDie_def ReadServiceAccountV1OrDie_def ReadServiceV1OrDie_def
      ReadRouteV1OrDie_def ReadNetworkPolicyV1OrDie_def ReadDeploymentV1OrDie_def ReadUnstructuredOrDie_def)

end
