(* ===== verification/Retry.thy ===== *)
theory Retry
  imports Go_Prelude
begin

text \<open>
  Retrying a call that fails (client-go \<^verbatim>\<open>util/retry/util.go\<close>, apimachinery
  \<^verbatim>\<open>pkg/util/wait/backoff.go\<close>). The call works on local variables of its caller
  (\<open>'st\<close>) and on the world. Sleeping between attempts changes neither and is left out; what
  remains of a \<^verbatim>\<open>Backoff\<close> without a cap is its number of steps.
\<close>

type_synonym ('w, 'st) attempt = "'st \<Rightarrow> 'w env \<Rightarrow> go_error option \<times> 'st \<times> 'w env"
type_synonym ('w, 'st) condition = "'st \<Rightarrow> 'w env \<Rightarrow> (go_error + bool) \<times> 'st \<times> 'w env"

fun ExponentialBackoff :: "nat \<Rightarrow> ('w, 'st) condition \<Rightarrow> ('w, 'st) attempt" where
  "ExponentialBackoff 0 condition st s = (Some WaitTimeout, st, s)"
| "ExponentialBackoff (Suc steps) condition st s =
     (case condition st s of
        (Inl err, st', s') \<Rightarrow> (Some err, st', s')
      | (Inr True, st', s') \<Rightarrow> (None, st', s')
      | (Inr False, st', s') \<Rightarrow>
          if steps = 0 then (Some WaitTimeout, st', s') else ExponentialBackoff steps condition st' s')"

fun Interrupted :: "go_error \<Rightarrow> bool" where
  "Interrupted WaitTimeout = True"
| "Interrupted (ContextError _) = True"
| "Interrupted (WrappedError _ e) = Interrupted e"
| "Interrupted _ = False"

text \<open>The condition of \<open>OnError\<close> remembers the last retriable error.\<close>

definition retry_condition ::
  "(go_error \<Rightarrow> bool) \<Rightarrow> ('w, 'st) attempt \<Rightarrow> ('w, 'st \<times> go_error option) condition" where
  "retry_condition retriable fn stl s =
     (let (st, lastErr) = stl in
      case fn st s of
        (None, st', s') \<Rightarrow> (Inr True, (st', lastErr), s')
      | (Some err, st', s') \<Rightarrow>
          if retriable err then (Inr False, (st', Some err), s')
          else (Inl err, (st', lastErr), s'))"

definition OnError :: "nat \<Rightarrow> (go_error \<Rightarrow> bool) \<Rightarrow> ('w, 'st) attempt \<Rightarrow> ('w, 'st) attempt" where
  "OnError steps retriable fn st s =
     (case ExponentialBackoff steps (retry_condition retriable fn) (st, None) s of
        (err, (st', lastErr), s') \<Rightarrow>
          (case (err, lastErr) of
             (Some e, Some l) \<Rightarrow> (Some (if Interrupted e then l else e), st', s')
           | _ \<Rightarrow> (err, st', s')))"

definition RetryOnConflict :: "nat \<Rightarrow> ('w, 'st) attempt \<Rightarrow> ('w, 'st) attempt" where
  "RetryOnConflict steps fn = OnError steps IsConflict fn"

definition DefaultBackoffSteps :: nat where
  "DefaultBackoffSteps = 4"

section \<open>What retrying does\<close>

lemma retry_condition_simps [simp]:
  "fn st s = (None, st', s') \<Longrightarrow> retry_condition retriable fn (st, l) s = (Inr True, (st', l), s')"
  "fn st s = (Some e, st', s') \<Longrightarrow> retry_condition retriable fn (st, l) s =
    (if retriable e then (Inr False, (st', Some e), s') else (Inl e, (st', l), s'))"
  by (simp_all add: retry_condition_def)

text \<open>\<open>retry_runs retriable fn k st s st' s'\<close>: \<open>k\<close> attempts in a row failed retriably.\<close>

inductive retry_runs :: "(go_error \<Rightarrow> bool) \<Rightarrow> ('w, 'st) attempt \<Rightarrow> nat \<Rightarrow> 'st \<Rightarrow> 'w env \<Rightarrow> 'st \<Rightarrow> 'w env \<Rightarrow> bool"
  for retriable fn where
  no_retry: "retry_runs retriable fn 0 st s st s"
| one_retry: "fn st s = (Some e, st1, s1) \<Longrightarrow> retriable e \<Longrightarrow> retry_runs retriable fn k st1 s1 st' s' \<Longrightarrow>
    retry_runs retriable fn (Suc k) st s st' s'"

inductive_cases retry_runs_0E: "retry_runs retriable fn 0 st s st' s'"
inductive_cases retry_runs_SucE: "retry_runs retriable fn (Suc k) st s st' s'"

lemma backoff_after_retries:
  assumes "retry_runs retriable fn k st s st' s'" and "k < n"
  shows "\<exists>l'. (k = 0 \<longrightarrow> l' = l) \<and> ExponentialBackoff n (retry_condition retriable fn) (st, l) s =
    ExponentialBackoff (n - k) (retry_condition retriable fn) (st', l') s'"
  using assms
proof (induction arbitrary: n l rule: retry_runs.induct)
  case (no_retry st s)
  then show ?case by auto
next
  case (one_retry st s e st1 s1 k st' s')
  then obtain m where m: "n = Suc m" "k < m" by (cases n) auto
  with one_retry.hyps have "ExponentialBackoff n (retry_condition retriable fn) (st, l) s =
      ExponentialBackoff m (retry_condition retriable fn) (st1, Some e) s1"
    by (simp)
  with one_retry.IH [OF m(2), of "Some e"] m show ?case by auto
qed

lemma RetryOnConflict_success:
  assumes "retry_runs IsConflict fn k st s st' s'" and "k < n"
    and "fn st' s' = (None, st'', s'')"
  shows "RetryOnConflict n fn st s = (None, st'', s'')"
proof -
  obtain l' where "ExponentialBackoff n (retry_condition IsConflict fn) (st, None) s =
      ExponentialBackoff (n - k) (retry_condition IsConflict fn) (st', l') s'"
    using backoff_after_retries [OF assms(1,2)] by blast
  moreover obtain m where "n - k = Suc m" using assms(2) by (cases "n - k") auto
  ultimately show ?thesis
    using assms(3) by (simp add: RetryOnConflict_def OnError_def)
qed

text \<open>
  Every result is one of: success after fewer than \<open>n\<close> conflicts, the first error that is no
  conflict, or the last conflict after \<open>n\<close> attempts.
\<close>

lemma backoff_result:
  assumes "ExponentialBackoff n (retry_condition retriable fn) (st, l) s = (err, (st', l'), s')" and "n > 0"
  shows "\<exists>k st1 s1. k < n \<and> retry_runs retriable fn k st s st1 s1 \<and>
    (err = None \<and> fn st1 s1 = (None, st', s') \<or>
     (\<exists>e. err = Some e \<and> \<not> retriable e \<and> fn st1 s1 = (Some e, st', s')) \<or>
     (\<exists>e. k = n - 1 \<and> err = Some WaitTimeout \<and> l' = Some e \<and> retriable e \<and> fn st1 s1 = (Some e, st', s')))"
  using assms
proof (induction n arbitrary: st l s)
  case (Suc n)
  obtain r st1 s1 where fn: "fn st s = (r, st1, s1)" by (cases "fn st s") auto
  note zero = no_retry [of retriable fn st s]
  show ?case
  proof (cases r)
    case None
    with Suc.prems fn zero show ?thesis by (auto simp: retry_condition_def)
  next
    case (Some e)
    show ?thesis
    proof (cases "retriable e \<and> n > 0")
      case False
      with Suc.prems fn Some zero show ?thesis
        by (intro exI [of _ 0] exI [of _ st] exI [of _ s]) (auto split: if_splits)
    next
      case True
      with Suc.prems fn Some have "ExponentialBackoff n (retry_condition retriable fn) (st1, Some e) s1 =
          (err, (st', l'), s')"
        by (simp)
      from Suc.IH [OF this] True obtain k st2 s2 where k: "k < n" "retry_runs retriable fn k st1 s1 st2 s2"
        and r2: "err = None \<and> fn st2 s2 = (None, st', s') \<or>
          (\<exists>e. err = Some e \<and> \<not> retriable e \<and> fn st2 s2 = (Some e, st', s')) \<or>
          (\<exists>e. k = n - 1 \<and> err = Some WaitTimeout \<and> l' = Some e \<and> retriable e \<and> fn st2 s2 = (Some e, st', s'))"
        by blast
      have "retry_runs retriable fn (Suc k) st s st2 s2"
        using fn Some True k(2) by (auto intro: one_retry)
      with k(1) r2 show ?thesis by (intro exI [of _ "Suc k"] exI [of _ st2] exI [of _ s2]) auto
    qed
  qed
qed simp

lemma OnError_result:
  assumes "RetryOnConflict n fn st s = (err, st', s')" and "n > 0"
  shows "\<exists>k st1 s1. k < n \<and> retry_runs IsConflict fn k st s st1 s1 \<and>
    (err = None \<and> fn st1 s1 = (None, st', s') \<or>
     (\<exists>e. fn st1 s1 = (Some e, st', s') \<and> (err = Some e \<or> Interrupted e \<and> k > 0)) )"
proof -
  obtain e0 l' where b: "ExponentialBackoff n (retry_condition IsConflict fn) (st, None) s = (e0, (st', l'), s')"
    and err: "err = (case (e0, l') of (Some e, Some l) \<Rightarrow> Some (if Interrupted e then l else e) | _ \<Rightarrow> e0)"
    using assms(1) by (auto simp: RetryOnConflict_def OnError_def split: prod.splits option.splits)
  from backoff_result [OF b assms(2)] obtain k st1 s1 where k: "k < n" "retry_runs IsConflict fn k st s st1 s1"
    and r: "e0 = None \<and> fn st1 s1 = (None, st', s') \<or>
     (\<exists>e. e0 = Some e \<and> \<not> IsConflict e \<and> fn st1 s1 = (Some e, st', s')) \<or>
     (\<exists>e. k = n - 1 \<and> e0 = Some WaitTimeout \<and> l' = Some e \<and> IsConflict e \<and> fn st1 s1 = (Some e, st', s'))"
    by blast
  have l0: "k = 0 \<Longrightarrow> e0 = Some e \<Longrightarrow> \<not> IsConflict e \<Longrightarrow> fn st1 s1 = (Some e, st', s') \<Longrightarrow> l' = None" for e
    using b k assms(2) by (cases n) (auto elim: retry_runs_0E)
  from k r err show ?thesis
    by (intro exI [of _ k] exI [of _ st1] exI [of _ s1])
      (auto split: option.splits dest: l0)
qed

text \<open>\<open>RetryOnConflict\<close> with the default backoff makes at most four attempts. All but the last failed with a
  conflict; the last one succeeded, or failed with another error, or was the fourth conflict, which is
  then returned. An interruption that follows a conflict is hidden behind an earlier conflict.\<close>

theorem RetryOnConflict_attempts:
  "case RetryOnConflict DefaultBackoffSteps fn st s of (err, st', s') \<Rightarrow>
     \<exists>k st1 s1. k < 4 \<and> retry_runs IsConflict fn k st s st1 s1 \<and>
       (err = None \<and> fn st1 s1 = (None, st', s') \<or>
        (\<exists>e. \<not> IsConflict e \<and> fn st1 s1 = (Some e, st', s') \<and> (err = Some e \<or> err \<noteq> None \<and> Interrupted e \<and> k > 0)) \<or>
        (\<exists>e. k = 3 \<and> IsConflict e \<and> fn st1 s1 = (Some e, st', s') \<and> err = Some e))"
proof -
  obtain err st' s' where r: "RetryOnConflict DefaultBackoffSteps fn st s = (err, st', s')"
    by (cases "RetryOnConflict DefaultBackoffSteps fn st s") auto
  then obtain e0 l' where b: "ExponentialBackoff 4 (retry_condition IsConflict fn) (st, None) s = (e0, (st', l'), s')"
    and err: "err = (case (e0, l') of (Some e, Some l) \<Rightarrow> Some (if Interrupted e then l else e) | _ \<Rightarrow> e0)"
    by (auto simp: RetryOnConflict_def OnError_def DefaultBackoffSteps_def split: prod.splits option.splits)
  from backoff_result [OF b] obtain k st1 s1 where k: "k < 4" "retry_runs IsConflict fn k st s st1 s1"
    and res: "e0 = None \<and> fn st1 s1 = (None, st', s') \<or>
     (\<exists>e. e0 = Some e \<and> \<not> IsConflict e \<and> fn st1 s1 = (Some e, st', s')) \<or>
     (\<exists>e. k = 4 - 1 \<and> e0 = Some WaitTimeout \<and> l' = Some e \<and> IsConflict e \<and> fn st1 s1 = (Some e, st', s'))"
    by auto
  have l0: "k = 0 \<Longrightarrow> e0 = Some e \<Longrightarrow> \<not> IsConflict e \<Longrightarrow> fn st1 s1 = (Some e, st', s') \<Longrightarrow> l' = None" for e
    using b k by (cases "4 :: nat") (auto elim: retry_runs_0E simp: numeral_eq_Suc)
  from k res err show ?thesis
    by (auto simp: r split: option.splits if_splits dest: l0 intro!: exI [of _ k] exI [of _ st1] exI [of _ s1])
qed

end
