(* ===== verification/Apply_Config.thy ===== *)
theory Apply_Config
  imports Kube_Objects
begin

text \<open>
  The declarative configurations of the CliManager resource
  (\<^verbatim>\<open>pkg/generated/applyconfiguration\<close>): records of optional fields and their builders, and
  the condition helpers of library-go that work on them
  (\<^verbatim>\<open>v1helpers/canonicalize.go\<close>). A builder that changes its receiver returns it. A
  variadic argument of pointers is a list of options; a nil pointer panics. The extraction of
  the fields a manager owns (\<^verbatim>\<open>managedfields.ExtractInto\<close>) is a parameter.
\<close>

section \<open>The configurations\<close>

record operator_condition_ac =
  oca_type :: "string option"
  oca_status :: "string option"
  oca_lastTransitionTime :: "int option"
  oca_reason :: "string option"
  oca_message :: "string option"

record generation_status_ac =
  gsa_group :: "string option"
  gsa_resource :: "string option"
  gsa_namespace :: "string option"
  gsa_name :: "string option"
  gsa_lastGeneration :: "int option"
  gsa_hash :: "string option"

record operator_spec_ac =
  osa_managementState :: "management_state option"
  osa_logLevel :: "log_level option"
  osa_operatorLogLevel :: "log_level option"
  osa_unsupportedConfigOverrides :: "json option"
  osa_observedConfig :: "json option"

record operator_status_ac =
  osta_observedGeneration :: "int option"
  osta_conditions :: "operator_condition_ac list"
  osta_version :: "string option"
  osta_readyReplicas :: "int option"
  osta_latestAvailableRevision :: "int option"
  osta_generations :: "generation_status_ac list"

record owner_reference_ac =
  ora_apiVersion :: "string option"
  ora_kind :: "string option"
  ora_name :: "string option"
  ora_uid :: "string option"
  ora_controller :: "bool option"
  ora_blockOwnerDeletion :: "bool option"

record object_meta_ac =
  oma_name :: "string option"
  oma_generateName :: "string option"
  oma_namespace :: "string option"
  oma_uid :: "string option"
  oma_resourceVersion :: "string option"
  oma_generation :: "int option"
  oma_creationTimestamp :: "int option"
  oma_deletionTimestamp :: "int option"
  oma_deletionGracePeriodSeconds :: "int option"
  oma_labels :: gomap
  oma_annotations :: gomap
  oma_ownerReferences :: "owner_reference_ac list"
  oma_finalizers :: "string list"

record cli_manager_spec_ac =
  cmsa_operatorSpec :: operator_spec_ac

record cli_manager_status_ac =
  cmsta_operatorStatus :: operator_status_ac

record cli_manager_ac =
  cma_kind :: "string option"
  cma_apiVersion :: "string option"
  cma_meta :: "object_meta_ac option"
  cma_spec :: "cli_manager_spec_ac option"
  cma_status :: "cli_manager_status_ac option"

definition empty_meta_ac :: object_meta_ac where
  "empty_meta_ac =
     \<lparr>oma_name = None, oma_generateName = None, oma_namespace = None, oma_uid = None,
      oma_resourceVersion = None, oma_generation = None, oma_creationTimestamp = None,
      oma_deletionTimestamp = None, oma_deletionGracePeriodSeconds = None, oma_labels = fmempty,
      oma_annotations = fmempty, oma_ownerReferences = [], oma_finalizers = []\<rparr>"

definition empty_cli_manager_ac :: cli_manager_ac where
  "empty_cli_manager_ac =
     \<lparr>cma_kind = None, cma_apiVersion = None, cma_meta = None, cma_spec = None, cma_status = None\<rparr>"

section \<open>Builders\<close>

definition ensureObjectMetaApplyConfigurationExists :: "cli_manager_ac \<Rightarrow> cli_manager_ac" where
  "ensureObjectMetaApplyConfigurationExists b =
     (case cma_meta b of None \<Rightarrow> b\<lparr>cma_meta := Some empty_meta_ac\<rparr> | Some _ \<Rightarrow> b)"

definition update_meta_ac :: "(object_meta_ac \<Rightarrow> object_meta_ac) \<Rightarrow> cli_manager_ac \<Rightarrow> cli_manager_ac" where
  "update_meta_ac f b =
     (let b' = ensureObjectMetaApplyConfigurationExists b in b'\<lparr>cma_meta := map_option f (cma_meta b')\<rparr>)"

definition WithKind :: "string \<Rightarrow> cli_manager_ac \<Rightarrow> cli_manager_ac" where
  "WithKind v b = b\<lparr>cma_kind := Some v\<rparr>"
definition WithAPIVersion :: "string \<Rightarrow> cli_manager_ac \<Rightarrow> cli_manager_ac" where
  "WithAPIVersion v b = b\<lparr>cma_apiVersion := Some v\<rparr>"
definition WithName :: "string \<Rightarrow> cli_manager_ac \<Rightarrow> cli_manager_ac" where
  "WithName v b = update_meta_ac (\<lambda>m. m\<lparr>oma_name := Some v\<rparr>) b"
definition WithGenerateName :: "string \<Rightarrow> cli_manager_ac \<Rightarrow> cli_manager_ac" where
  "WithGenerateName v b = update_meta_ac (\<lambda>m. m\<lparr>oma_generateName := Some v\<rparr>) b"
definition WithNamespace :: "string \<Rightarrow> cli_manager_ac \<Rightarrow> cli_manager_ac" where
  "WithNamespace v b = update_meta_ac (\<lambda>m. m\<lparr>oma_namespace := Some v\<rparr>) b"
definition WithUID :: "string \<Rightarrow> cli_manager_ac \<Rightarrow> cli_manager_ac" where
  "WithUID v b = update_meta_ac (\<lambda>m. m\<lparr>oma_uid := Some v\<rparr>) b"
definition WithResourceVersion :: "string \<Rightarrow> cli_manager_ac \<Rightarrow> cli_manager_ac" where
  "WithResourceVersion v b = update_meta_ac (\<lambda>m. m\<lparr>oma_resourceVersion := Some v\<rparr>) b"
definition WithGeneration :: "int \<Rightarrow> cli_manager_ac \<Rightarrow> cli_manager_ac" where
  "WithGeneration v b = update_meta_ac (\<lambda>m. m\<lparr>oma_generation := Some v\<rparr>) b"
definition WithCreationTimestamp :: "int \<Rightarrow> cli_manager_ac \<Rightarrow> cli_manager_ac" where
  "WithCreationTimestamp v b = update_meta_ac (\<lambda>m. m\<lparr>oma_creationTimestamp := Some v\<rparr>) b"
definition WithDeletionTimestamp :: "int \<Rightarrow> cli_manager_ac \<Rightarrow> cli_manager_ac" where
  "WithDeletionTimestamp v b = update_meta_ac (\<lambda>m. m\<lparr>oma_deletionTimestamp := Some v\<rparr>) b"
definition WithDeletionGracePeriodSeconds :: "int \<Rightarrow> cli_manager_ac \<Rightarrow> cli_manager_ac" where
  "WithDeletionGracePeriodSeconds v b = update_meta_ac (\<lambda>m. m\<lparr>oma_deletionGracePeriodSeconds := Some v\<rparr>) b"

definition WithLabels :: "gomap \<Rightarrow> cli_manager_ac \<Rightarrow> cli_manager_ac" where
  "WithLabels es b = update_meta_ac
     (\<lambda>m. m\<lparr>oma_labels := fold (\<lambda>(k, v) l. fmupd k v l) (range_entries es) (oma_labels m)\<rparr>) b"
definition WithAnnotations :: "gomap \<Rightarrow> cli_manager_ac \<Rightarrow> cli_manager_ac" where
  "WithAnnotations es b = update_meta_ac
     (\<lambda>m. m\<lparr>oma_annotations := fold (\<lambda>(k, v) l. fmupd k v l) (range_entries es) (oma_annotations m)\<rparr>) b"

text \<open>Appending dereferenced pointers, up to the first nil.\<close>

fun append_pointers :: "string \<Rightarrow> 'a option list \<Rightarrow> 'a list \<Rightarrow> go_error + 'a list" where
  "append_pointers msg [] acc = Inr acc"
| "append_pointers msg (None # vs) acc = Inl (Panic msg)"
| "append_pointers msg (Some v # vs) acc = append_pointers msg vs (acc @ [v])"

definition WithOwnerReferences ::
  "owner_reference_ac option list \<Rightarrow> cli_manager_ac \<Rightarrow> go_error + cli_manager_ac" where
  "WithOwnerReferences vs b =
     (let b' = ensureObjectMetaApplyConfigurationExists b;
          old = (case cma_meta b' of None \<Rightarrow> [] | Some m \<Rightarrow> oma_ownerReferences m) in
      case append_pointers ''nil value passed to WithOwnerReferences'' vs old of
        Inl e \<Rightarrow> Inl e
      | Inr rs \<Rightarrow> Inr (update_meta_ac (\<lambda>m. m\<lparr>oma_ownerReferences := rs\<rparr>) b'))"

definition WithFinalizers :: "string list \<Rightarrow> cli_manager_ac \<Rightarrow> cli_manager_ac" where
  "WithFinalizers vs b = update_meta_ac (\<lambda>m. m\<lparr>oma_finalizers := oma_finalizers m @ vs\<rparr>) b"

definition WithSpec :: "cli_manager_spec_ac option \<Rightarrow> cli_manager_ac \<Rightarrow> cli_manager_ac" where
  "WithSpec v b = b\<lparr>cma_spec := v\<rparr>"
definition WithStatus :: "cli_manager_status_ac option \<Rightarrow> cli_manager_ac \<Rightarrow> cli_manager_ac" where
  "WithStatus v b = b\<lparr>cma_status := v\<rparr>"

definition CliManagerAC :: "string \<Rightarrow> string \<Rightarrow> cli_manager_ac" where
  "CliManagerAC name namespace =
     WithAPIVersion ''operator.openshift.io/v1'' (WithKind ''CliManager''
       (WithNamespace namespace (WithName name empty_cli_manager_ac)))"

definition WithManagementState :: "management_state \<Rightarrow> operator_spec_ac \<Rightarrow> operator_spec_ac" where
  "WithManagementState v b = b\<lparr>osa_managementState := Some v\<rparr>"
definition WithLogLevel :: "log_level \<Rightarrow> operator_spec_ac \<Rightarrow> operator_spec_ac" where
  "WithLogLevel v b = b\<lparr>osa_logLevel := Some v\<rparr>"
definition WithOperatorLogLevel :: "log_level \<Rightarrow> operator_spec_ac \<Rightarrow> operator_spec_ac" where
  "WithOperatorLogLevel v b = b\<lparr>osa_operatorLogLevel := Some v\<rparr>"
definition WithUnsupportedConfigOverrides :: "json \<Rightarrow> operator_spec_ac \<Rightarrow> operator_spec_ac" where
  "WithUnsupportedConfigOverrides v b = b\<lparr>osa_unsupportedConfigOverrides := Some v\<rparr>"
definition WithObservedConfig :: "json \<Rightarrow> operator_spec_ac \<Rightarrow> operator_spec_ac" where
  "WithObservedConfig v b = b\<lparr>osa_observedConfig := Some v\<rparr>"

definition WithObservedGeneration :: "int \<Rightarrow> operator_status_ac \<Rightarrow> operator_status_ac" where
  "WithObservedGeneration v b = b\<lparr>osta_observedGeneration := Some v\<rparr>"
definition WithConditions ::
  "operator_condition_ac option list \<Rightarrow> operator_status_ac \<Rightarrow> go_error + operator_status_ac" where
  "WithConditions vs b =
     (case append_pointers ''nil value passed to WithConditions'' vs (osta_conditions b) of
        Inl e \<Rightarrow> Inl e | Inr cs \<Rightarrow> Inr (b\<lparr>osta_conditions := cs\<rparr>))"
definition WithVersion :: "string \<Rightarrow> operator_status_ac \<Rightarrow> operator_status_ac" where
  "WithVersion v b = b\<lparr>osta_version := Some v\<rparr>"
definition WithReadyReplicas :: "int \<Rightarrow> operator_status_ac \<Rightarrow> operator_status_ac" where
  "WithReadyReplicas v b = b\<lparr>osta_readyReplicas := Some v\<rparr>"
definition WithLatestAvailableRevision :: "int \<Rightarrow> operator_status_ac \<Rightarrow> operator_status_ac" where
  "WithLatestAvailableRevision v b = b\<lparr>osta_latestAvailableRevision := Some v\<rparr>"
definition WithGenerations ::
  "generation_status_ac option list \<Rightarrow> operator_status_ac \<Rightarrow> go_error + operator_status_ac" where
  "WithGenerations vs b =
     (case append_pointers ''nil value passed to WithGenerations'' vs (osta_generations b) of
        Inl e \<Rightarrow> Inl e | Inr gs \<Rightarrow> Inr (b\<lparr>osta_generations := gs\<rparr>))"

section \<open>Extraction\<close>

type_synonym extract_into = "cli_manager \<Rightarrow> string \<Rightarrow> string \<Rightarrow> go_error + cli_manager_ac"

definition ExtractCliManagerFrom :: "extract_into \<Rightarrow> cli_manager \<Rightarrow> string \<Rightarrow> string \<Rightarrow> go_error + cli_manager_ac" where
  "ExtractCliManagerFrom extractInto cliManager fieldManager subresource =
     (case extractInto cliManager fieldManager subresource of
        Inl err \<Rightarrow> Inl err
      | Inr b \<Rightarrow> Inr (WithAPIVersion ''operator.openshift.io/v1'' (WithKind ''CliManager''
          (WithNamespace (om_namespace (cm_meta cliManager)) (WithName (om_name (cm_meta cliManager)) b)))))"

definition ExtractCliManager :: "extract_into \<Rightarrow> cli_manager \<Rightarrow> string \<Rightarrow> go_error + cli_manager_ac" where
  "ExtractCliManager extractInto cliManager fieldManager =
     ExtractCliManagerFrom extractInto cliManager fieldManager []"

definition ExtractCliManagerStatus :: "extract_into \<Rightarrow> cli_manager \<Rightarrow> string \<Rightarrow> go_error + cli_manager_ac" where
  "ExtractCliManagerStatus extractInto cliManager fieldManager =
     ExtractCliManagerFrom extractInto cliManager fieldManager ''status''"

definition GetMetaNameAC :: "cli_manager_ac \<Rightarrow> string option" where
  "GetMetaNameAC b = (case cma_meta (ensureObjectMetaApplyConfigurationExists b) of
     None \<Rightarrow> None | Some m \<Rightarrow> oma_name m)"
definition GetMetaNamespaceAC :: "cli_manager_ac \<Rightarrow> string option" where
  "GetMetaNamespaceAC b = (case cma_meta (ensureObjectMetaApplyConfigurationExists b) of
     None \<Rightarrow> None | Some m \<Rightarrow> oma_namespace m)"

lemma extracted_identity:
  "ExtractCliManagerFrom extractInto cm fm sub = Inr b \<Longrightarrow>
    GetMetaNameAC b = Some (om_name (cm_meta cm)) \<and> GetMetaNamespaceAC b = Some (om_namespace (cm_meta cm)) \<and>
    cma_kind b = Some ''CliManager'' \<and> cma_apiVersion b = Some ''operator.openshift.io/v1''"
  by (auto simp: ExtractCliManagerFrom_def WithAPIVersion_def WithKind_def WithNamespace_def WithName_def
      update_meta_ac_def ensureObjectMetaApplyConfigurationExists_def GetMetaNameAC_def
      GetMetaNamespaceAC_def Let_def split: sum.splits option.splits)

lemma append_pointers_Inr:
  "append_pointers msg vs acc = Inr r \<longleftrightarrow> None \<notin> set vs \<and> r = acc @ map the vs"
  by (induction msg vs acc rule: append_pointers.induct) auto

text \<open>The label loop is map addition, whatever its order.\<close>

lemma fold_fmupd: "fmlookup (fold (\<lambda>(k, v) l. fmupd k v l) es m) x =
    (case map_of (rev es) x of None \<Rightarrow> fmlookup m x | Some v \<Rightarrow> Some v)"
  by (induction es arbitrary: m) (auto simp: map_add_def split: option.splits)

lemma labels_added: "fold (\<lambda>(k, v) l. fmupd k v l) (range_entries es) m = m ++\<^sub>f es"
proof (rule fmap_ext)
  fix x
  have "map_of (rev (range_entries es)) = map_of (range_entries es)"
    by (rule map_of_inject_set [THEN iffD2]) (auto simp: rev_map [symmetric])
  then show "fmlookup (fold (\<lambda>(k, v) l. fmupd k v l) (range_entries es) m) x = fmlookup (m ++\<^sub>f es) x"
    by (simp add: fold_fmupd fmdom_notD split: option.split) (auto simp: fmdom_notD intro: fmdomI)
qed

section \<open>Transition times\<close>

fun FindApplyCondition :: "operator_condition_ac list \<Rightarrow> string option \<Rightarrow> operator_condition_ac option" where
  "FindApplyCondition [] conditionType = None"
| "FindApplyCondition (cur # rest) conditionType =
     (if oca_type cur = conditionType then Some cur else FindApplyCondition rest conditionType)"

definition set_transition_time ::
  "int \<Rightarrow> operator_condition_ac list \<Rightarrow> operator_condition_ac \<Rightarrow> operator_condition_ac" where
  "set_transition_time now oldConditions newCondition =
     (let c1 = (case FindApplyCondition oldConditions (oca_type newCondition) of
                  None \<Rightarrow> newCondition
                | Some existing \<Rightarrow>
                    if oca_status existing = oca_status newCondition
                    then newCondition\<lparr>oca_lastTransitionTime := oca_lastTransitionTime existing\<rparr>
                    else newCondition)
      in case oca_lastTransitionTime c1 of
           None \<Rightarrow> c1\<lparr>oca_lastTransitionTime := Some now\<rparr>
         | Some _ \<Rightarrow> c1)"

definition SetApplyConditionsLastTransitionTime ::
  "int \<Rightarrow> operator_condition_ac list \<Rightarrow> operator_condition_ac list \<Rightarrow> operator_condition_ac list" where
  "SetApplyConditionsLastTransitionTime now newConditions oldConditions =
     map (set_transition_time now oldConditions) newConditions"

lemma set_transition_time_set: "oca_lastTransitionTime (set_transition_time now old c) \<noteq> None"
  by (auto simp: set_transition_time_def Let_def split: option.split)

lemma set_transition_time_frame:
  "oca_type (set_transition_time now old c) = oca_type c"
  "oca_status (set_transition_time now old c) = oca_status c"
  "oca_reason (set_transition_time now old c) = oca_reason c"
  "oca_message (set_transition_time now old c) = oca_message c"
  by (auto simp: set_transition_time_def Let_def split: option.split)

end
