(* ===== verification/Operator_Client.thy ===== *)
theory Operator_Client
  imports Retry Apply_Config Generations
begin

text \<open>
  The operator client (\<^verbatim>\<open>pkg/operator/operatorclient/interfaces.go\<close>): reading and writing
  the spec and status of the CliManager object named \<open>cluster\<close>, by update, apply and patch;
  \<^verbatim>\<open>v1helpers.UpdateStatus\<close> of library-go, which the reconciler uses to record the
  generation of the deployment; and the JSON patches of
  \<^verbatim>\<open>pkg/apiserver/jsonpatch/jsonpatch.go\<close>.
\<close>

abbreviation OperatorNamespace :: string where "OperatorNamespace \<equiv> ''openshift-cli-manager-operator''"
abbreviation OperatorConfigName :: string where "OperatorConfigName \<equiv> ''cluster''"
abbreviation OperandName :: string where "OperandName \<equiv> ''openshift-cli-manager''"

text \<open>The typed client for CliManager objects of one namespace; the server behind it is a parameter.\<close>

record 'w climanager_api =
  ca_get :: "string \<Rightarrow> string \<Rightarrow> 'w \<Rightarrow> (go_error + cli_manager) \<times> 'w"
  ca_update :: "string \<Rightarrow> cli_manager \<Rightarrow> 'w \<Rightarrow> (go_error + cli_manager) \<times> 'w"
  ca_updateStatus :: "string \<Rightarrow> cli_manager \<Rightarrow> 'w \<Rightarrow> (go_error + cli_manager) \<times> 'w"
  ca_apply :: "string \<Rightarrow> cli_manager_ac \<Rightarrow> bool \<Rightarrow> string \<Rightarrow> 'w \<Rightarrow> (go_error + cli_manager) \<times> 'w"
  ca_applyStatus :: "string \<Rightarrow> cli_manager_ac \<Rightarrow> bool \<Rightarrow> string \<Rightarrow> 'w \<Rightarrow> (go_error + cli_manager) \<times> 'w"
  ca_patch :: "string \<Rightarrow> string \<Rightarrow> string \<Rightarrow> string \<Rightarrow> string \<Rightarrow> 'w \<Rightarrow> (go_error + cli_manager) \<times> 'w"

section \<open>JSON patches\<close>

record patch_operation =
  po_op :: string
  po_path :: string
  po_value :: json

type_synonym patch_set = "patch_operation list"

definition NewPatchSet :: patch_set where
  "NewPatchSet = []"

definition addOperation :: "string \<Rightarrow> string \<Rightarrow> json \<Rightarrow> patch_set \<Rightarrow> patch_set" where
  "addOperation op path v p = p @ [\<lparr>po_op = op, po_path = path, po_value = v\<rparr>]"

definition WithTest :: "string \<Rightarrow> json \<Rightarrow> patch_set \<Rightarrow> patch_set" where
  "WithTest path v p = addOperation ''test'' path v p"

definition WithRemove :: "string \<Rightarrow> string \<times> json \<Rightarrow> patch_set \<Rightarrow> patch_set" where
  "WithRemove path test p = addOperation ''remove'' path JNull (WithTest (fst test) (snd test) p)"

definition forbidden_test :: "patch_operation \<Rightarrow> bool" where
  "forbidden_test patch \<longleftrightarrow> po_op patch = ''test'' \<and> po_path patch = ''/metadata/resourceVersion''"

fun patch_errors :: "nat \<Rightarrow> patch_set \<Rightarrow> string list" where
  "patch_errors i [] = []"
| "patch_errors i (p # ps) =
     (if forbidden_test p
      then (''test operation at index: '' @ decimal i @ '' contains forbidden path: '' @
            [CHR 0x22] @ po_path p @ [CHR 0x22]) # patch_errors (Suc i) ps
      else patch_errors (Suc i) ps)"

fun join_commas :: "string list \<Rightarrow> string" where
  "join_commas [] = []"
| "join_commas [e] = e"
| "join_commas (e # f # es) = e @ '', '' @ join_commas (f # es)"

definition NewAggregate :: "string list \<Rightarrow> go_error option" where
  "NewAggregate errs =
     (case errs of [] \<Rightarrow> None | [e] \<Rightarrow> Some (ErrorString e)
      | _ \<Rightarrow> Some (ErrorString (''['' @ join_commas errs @ '']'')))"

definition validatePatch :: "patch_set \<Rightarrow> go_error option" where
  "validatePatch p = NewAggregate (patch_errors 0 p)"

definition MarshalPatch :: "(patch_set \<Rightarrow> go_error + string) \<Rightarrow> patch_set \<Rightarrow> go_error + string" where
  "MarshalPatch encode p = (case validatePatch p of Some err \<Rightarrow> Inl err | None \<Rightarrow> encode p)"

lemma patch_errors_Nil: "patch_errors i p = [] \<longleftrightarrow> \<not> list_ex forbidden_test p"
  by (induction i p rule: patch_errors.induct) auto

lemma validatePatch_None: "validatePatch p = None \<longleftrightarrow> \<not> list_ex forbidden_test p"
  using patch_errors_Nil [of 0 p] by (auto simp: validatePatch_def NewAggregate_def split: list.split)

section \<open>The client\<close>

definition GetOperatorState ::
  "'w climanager_api \<Rightarrow> ('w, go_error + (operator_spec \<times> operator_status \<times> string)) go" where
  "GetOperatorState c s =
     (case call (ca_get c OperatorNamespace OperatorConfigName) s of
        (Inl err, s1) \<Rightarrow> (Inl err, s1)
      | (Inr inst, s1) \<Rightarrow> (Inr (cms_operatorSpec (cm_spec inst), cmst_operatorStatus (cm_status inst),
                             om_resourceVersion (cm_meta inst)), s1))"

definition GetOperatorStateWithQuorum ::
  "'w climanager_api \<Rightarrow> ('w, go_error + (operator_spec \<times> operator_status \<times> string)) go" where
  "GetOperatorStateWithQuorum c s =
     (case call (ca_get c OperatorNamespace OperatorConfigName) s of
        (Inl err, s1) \<Rightarrow> (Inl err, s1)
      | (Inr inst, s1) \<Rightarrow> (Inr (cms_operatorSpec (cm_spec inst), cmst_operatorStatus (cm_status inst),
                             om_resourceVersion (cm_meta inst)), s1))"

definition UpdateOperatorSpec ::
  "'w climanager_api \<Rightarrow> string \<Rightarrow> operator_spec \<Rightarrow> ('w, go_error + (operator_spec \<times> string)) go" where
  "UpdateOperatorSpec c resourceVersion spec s =
     (case call (ca_get c OperatorNamespace OperatorConfigName) s of
        (Inl err, s1) \<Rightarrow> (Inl err, s1)
      | (Inr original, s1) \<Rightarrow>
          (let copy = original\<lparr>cm_meta := (cm_meta original)\<lparr>om_resourceVersion := resourceVersion\<rparr>,
                        cm_spec := (cm_spec original)\<lparr>cms_operatorSpec := spec\<rparr>\<rparr> in
           case call (ca_update c OperatorNamespace copy) s1 of
             (Inl err, s2) \<Rightarrow> (Inl err, s2)
           | (Inr ret, s2) \<Rightarrow> (Inr (cms_operatorSpec (cm_spec ret), om_resourceVersion (cm_meta ret)), s2)))"

definition UpdateOperatorStatus ::
  "'w climanager_api \<Rightarrow> string \<Rightarrow> operator_status \<Rightarrow> ('w, go_error + operator_status) go" where
  "UpdateOperatorStatus c resourceVersion status s =
     (case call (ca_get c OperatorNamespace OperatorConfigName) s of
        (Inl err, s1) \<Rightarrow> (Inl err, s1)
      | (Inr original, s1) \<Rightarrow>
          (let copy = original\<lparr>cm_meta := (cm_meta original)\<lparr>om_resourceVersion := resourceVersion\<rparr>,
                        cm_status := (cm_status original)\<lparr>cmst_operatorStatus := status\<rparr>\<rparr> in
           case call (ca_updateStatus c OperatorNamespace copy) s1 of
             (Inl err, s2) \<Rightarrow> (Inl err, s2)
           | (Inr ret, s2) \<Rightarrow> (Inr (cmst_operatorStatus (cm_status ret)), s2)))"

definition GetObjectMeta :: "'w climanager_api \<Rightarrow> ('w, go_error + object_meta) go" where
  "GetObjectMeta c s =
     (case call (ca_get c OperatorNamespace OperatorConfigName) s of
        (Inl err, s1) \<Rightarrow> (Inl err, s1)
      | (Inr inst, s1) \<Rightarrow> (Inr (cm_meta inst), s1))"

definition apply_error :: "string \<Rightarrow> string \<Rightarrow> go_error \<Rightarrow> go_error" where
  "apply_error verb fieldManager err =
     WrappedError (''unable to '' @ verb @ '' for operator using fieldManager '' @
       [CHR 0x22] @ fieldManager @ [CHR 0x22]) err"

definition ApplyOperatorSpec ::
  "extract_into \<Rightarrow> 'w climanager_api \<Rightarrow> string \<Rightarrow> operator_spec_ac option \<Rightarrow> ('w, go_error option) go" where
  "ApplyOperatorSpec extractInto c fieldManager desiredConfiguration s =
     (case desiredConfiguration of
        None \<Rightarrow> (Some (ErrorString ''applyConfiguration must have a value''), s)
      | Some dc \<Rightarrow>
          (let desired = WithSpec (Some \<lparr>cmsa_operatorSpec = dc\<rparr>)
                           (CliManagerAC OperatorConfigName OperatorNamespace);
               send = (\<lambda>s1.
                 case call (ca_apply c OperatorNamespace desired True fieldManager) s1 of
                   (Inl err, s2) \<Rightarrow> (Some (apply_error ''Apply'' fieldManager err), s2)
                 | (Inr _, s2) \<Rightarrow> (None, s2)) in
           case call (ca_get c OperatorNamespace OperatorConfigName) s of
             (Inl err, s1) \<Rightarrow>
               if IsNotFound err then send s1
               else (Some (WrappedError ''unable to get operator configuration'' err), s1)
           | (Inr inst, s1) \<Rightarrow>
               (case ExtractCliManager extractInto inst fieldManager of
                  Inl err \<Rightarrow> (Some (WrappedError ''unable to extract operator configuration'' err), s1)
                | Inr original \<Rightarrow> if original = desired then (None, s1) else send s1)))"

definition status_conditions :: "cli_manager_ac \<Rightarrow> operator_condition_ac list" where
  "status_conditions b = (case cma_status b of None \<Rightarrow> []
     | Some st \<Rightarrow> osta_conditions (cmsta_operatorStatus st))"

definition set_status_conditions :: "operator_condition_ac list \<Rightarrow> cli_manager_ac \<Rightarrow> cli_manager_ac" where
  "set_status_conditions cs b = b\<lparr>cma_status := map_option
     (\<lambda>st. st\<lparr>cmsta_operatorStatus := (cmsta_operatorStatus st)\<lparr>osta_conditions := cs\<rparr>\<rparr>) (cma_status b)\<rparr>"

text \<open>\<open>now\<close> is the time the clock shows when the conditions are stamped.\<close>

definition ApplyOperatorStatus ::
  "extract_into \<Rightarrow> int \<Rightarrow> 'w climanager_api \<Rightarrow> string \<Rightarrow> operator_status_ac option \<Rightarrow> ('w, go_error option) go" where
  "ApplyOperatorStatus extractInto now c fieldManager desiredConfiguration s =
     (case desiredConfiguration of
        None \<Rightarrow> (Some (ErrorString ''applyConfiguration must have a value''), s)
      | Some dc \<Rightarrow>
          (let desired = WithStatus (Some \<lparr>cmsta_operatorStatus = dc\<rparr>)
                           (CliManagerAC OperatorConfigName OperatorNamespace);
               stamped = (\<lambda>old. set_status_conditions
                 (SetApplyConditionsLastTransitionTime now (status_conditions desired) old) desired);
               send = (\<lambda>b s1.
                 case call (ca_applyStatus c OperatorNamespace b True fieldManager) s1 of
                   (Inl err, s2) \<Rightarrow> (Some (apply_error ''ApplyStatus'' fieldManager err), s2)
                 | (Inr _, s2) \<Rightarrow> (None, s2)) in
           case call (ca_get c OperatorNamespace OperatorConfigName) s of
             (Inl err, s1) \<Rightarrow>
               if IsNotFound err then send (stamped []) s1
               else (Some (WrappedError ''unable to get operator configuration'' err), s1)
           | (Inr inst, s1) \<Rightarrow>
               (case ExtractCliManagerStatus extractInto inst fieldManager of
                  Inl err \<Rightarrow> (Some (WrappedError ''unable to extract operator configuration'' err), s1)
                | Inr original \<Rightarrow>
                    if original = desired then (None, s1)
                    else send (stamped (status_conditions original)) s1)))"

definition PatchOperatorStatus ::
  "(patch_set \<Rightarrow> go_error + string) \<Rightarrow> 'w climanager_api \<Rightarrow> patch_set \<Rightarrow> ('w, go_error option) go" where
  "PatchOperatorStatus encode c jsonPatch s =
     (case MarshalPatch encode jsonPatch of
        Inl err \<Rightarrow> (Some err, s)
      | Inr bytes \<Rightarrow>
          (case call (ca_patch c OperatorNamespace OperatorConfigName
                       ''application/json-patch+json'' bytes ''/status'') s of
             (Inl err, s1) \<Rightarrow> (Some err, s1)
           | (Inr _, s1) \<Rightarrow> (None, s1)))"

section \<open>UpdateStatus\<close>

type_synonym status_update = "operator_status \<Rightarrow> go_error + operator_status"

fun run_updates :: "status_update list \<Rightarrow> operator_status \<Rightarrow> go_error + operator_status" where
  "run_updates [] st = Inr st"
| "run_updates (f # fs) st = (case f st of Inl err \<Rightarrow> Inl err | Inr st' \<Rightarrow> run_updates fs st')"

text \<open>
  The variables the closure shares between attempts: the resource version the last attempt
  saw, the status to return, and whether it was written.
\<close>

record update_vars =
  uv_previousResourceVersion :: string
  uv_updatedStatus :: "operator_status option"
  uv_updated :: bool

definition update_attempt :: "'w climanager_api \<Rightarrow> status_update list \<Rightarrow> ('w, update_vars) attempt" where
  "update_attempt c updateFuncs v s =
     (case GetOperatorState c s of
        (Inl err, s1) \<Rightarrow> (Some err, v, s1)
      | (Inr (spec1, oldStatus1, rv1), s1) \<Rightarrow>
          (case (if rv1 = uv_previousResourceVersion v then GetOperatorStateWithQuorum c s1
                 else (Inr (spec1, oldStatus1, rv1), s1)) of
             (Inl err, s2) \<Rightarrow> (Some err, v, s2)
           | (Inr (_, oldStatus, resourceVersion), s2) \<Rightarrow>
               (let v1 = v\<lparr>uv_previousResourceVersion := resourceVersion\<rparr> in
                case run_updates updateFuncs oldStatus of
                  Inl err \<Rightarrow> (Some err, v1, s2)
                | Inr newStatus \<Rightarrow>
                    if oldStatus = newStatus then (None, v1\<lparr>uv_updatedStatus := Some newStatus\<rparr>, s2)
                    else
                      (case UpdateOperatorStatus c resourceVersion newStatus s2 of
                         (Inl err, s3) \<Rightarrow> (Some err, v1\<lparr>uv_updatedStatus := None, uv_updated := False\<rparr>, s3)
                       | (Inr st, s3) \<Rightarrow> (None, v1\<lparr>uv_updatedStatus := Some st, uv_updated := True\<rparr>, s3)))))"

definition UpdateStatus ::
  "'w climanager_api \<Rightarrow> status_update list \<Rightarrow> ('w, operator_status option \<times> bool \<times> go_error option) go" where
  "UpdateStatus c updateFuncs s =
     (case RetryOnConflict DefaultBackoffSteps (update_attempt c updateFuncs)
             \<lparr>uv_previousResourceVersion = [], uv_updatedStatus = None, uv_updated = False\<rparr> s of
        (err, v, s') \<Rightarrow> ((uv_updatedStatus v, uv_updated v, err), s'))"

text \<open>An attempt after which nothing has to change leaves the server alone.\<close>

lemma update_attempt_unchanged:
  assumes "call (ca_get c OperatorNamespace OperatorConfigName) s = (Inr inst, s)"
    and "run_updates fs (cmst_operatorStatus (cm_status inst)) = Inr (cmst_operatorStatus (cm_status inst))"
  shows "update_attempt c fs v s =
    (None, v\<lparr>uv_previousResourceVersion := om_resourceVersion (cm_meta inst),
             uv_updatedStatus := Some (cmst_operatorStatus (cm_status inst))\<rparr>, s)"
  using assms by (simp add: update_attempt_def GetOperatorState_def GetOperatorStateWithQuorum_def Let_def)

text \<open>
  An attempt that changes the status sends the object read, with the status replaced and the
  resource version that was read.
\<close>

lemma update_attempt_changed:
  assumes "call (ca_get c OperatorNamespace OperatorConfigName) s = (Inr inst, s)"
    and "run_updates fs (cmst_operatorStatus (cm_status inst)) = Inr new"
    and "new \<noteq> cmst_operatorStatus (cm_status inst)"
  shows "update_attempt c fs v s =
    (case call (ca_updateStatus c OperatorNamespace
            (inst\<lparr>cm_status := (cm_status inst)\<lparr>cmst_operatorStatus := new\<rparr>\<rparr>)) s of
       (Inl err, s3) \<Rightarrow> (Some err, v\<lparr>uv_previousResourceVersion := om_resourceVersion (cm_meta inst),
          uv_updatedStatus := None, uv_updated := False\<rparr>, s3)
     | (Inr ret, s3) \<Rightarrow> (None, v\<lparr>uv_previousResourceVersion := om_resourceVersion (cm_meta inst),
          uv_updatedStatus := Some (cmst_operatorStatus (cm_status ret)), uv_updated := True\<rparr>, s3))"
proof -
  let ?sp = "cms_operatorSpec (cm_spec inst)" and ?st = "cmst_operatorStatus (cm_status inst)"
    and ?rv = "om_resourceVersion (cm_meta inst)"
  have g: "GetOperatorState c s = (Inr (?sp, ?st, ?rv), s)"
    "GetOperatorStateWithQuorum c s = (Inr (?sp, ?st, ?rv), s)"
    using assms(1) by (simp_all add: GetOperatorState_def GetOperatorStateWithQuorum_def)
  have "inst\<lparr>cm_meta := (cm_meta inst)\<lparr>om_resourceVersion := ?rv\<rparr>\<rparr> = inst" by simp
  then have u: "UpdateOperatorStatus c ?rv new s =
      (case call (ca_updateStatus c OperatorNamespace
            (inst\<lparr>cm_status := (cm_status inst)\<lparr>cmst_operatorStatus := new\<rparr>\<rparr>)) s of
         (Inl err, s3) \<Rightarrow> (Inl err, s3) | (Inr ret, s3) \<Rightarrow> (Inr (cmst_operatorStatus (cm_status ret)), s3))"
    using assms(1) by (simp add: UpdateOperatorStatus_def Let_def)
  have "update_attempt c fs v s =
      (case UpdateOperatorStatus c ?rv new s of
         (Inl err, s3) \<Rightarrow> (Some err, v\<lparr>uv_previousResourceVersion := ?rv, uv_updatedStatus := None, uv_updated := False\<rparr>, s3)
       | (Inr st, s3) \<Rightarrow> (None, v\<lparr>uv_previousResourceVersion := ?rv, uv_updatedStatus := Some st, uv_updated := True\<rparr>, s3))"
    using g assms(2,3) by (cases "?rv = uv_previousResourceVersion v") (simp_all add: update_attempt_def Let_def split: prod.split sum.split)
  then show ?thesis by (simp add: u split: prod.split sum.split)
qed

lemma RetryOnConflict_first:
  "fn st s = (None, st', s') \<Longrightarrow> RetryOnConflict DefaultBackoffSteps fn st s = (None, st', s')"
  by (rule RetryOnConflict_success [OF no_retry]) (simp_all add: DefaultBackoffSteps_def)

lemma UpdateStatus_unchanged:
  assumes "call (ca_get c OperatorNamespace OperatorConfigName) s = (Inr inst, s)"
    and "run_updates fs (cmst_operatorStatus (cm_status inst)) = Inr (cmst_operatorStatus (cm_status inst))"
  shows "UpdateStatus c fs s = ((Some (cmst_operatorStatus (cm_status inst)), False, None), s)"
  by (simp add: UpdateStatus_def RetryOnConflict_first update_attempt_unchanged [OF assms])

lemma UpdateStatus_written:
  assumes "call (ca_get c OperatorNamespace OperatorConfigName) s = (Inr inst, s)"
    and "run_updates fs (cmst_operatorStatus (cm_status inst)) = Inr new"
    and "new \<noteq> cmst_operatorStatus (cm_status inst)"
    and "call (ca_updateStatus c OperatorNamespace
            (inst\<lparr>cm_status := (cm_status inst)\<lparr>cmst_operatorStatus := new\<rparr>\<rparr>)) s = (Inr ret, s')"
  shows "UpdateStatus c fs s = ((Some (cmst_operatorStatus (cm_status ret)), True, None), s')"
  using update_attempt_changed [OF assms(1-3)] assms(4)
  by (simp add: UpdateStatus_def RetryOnConflict_first)

text \<open>An attempt emits no event.\<close>

lemma GetOperatorState_events: "GetOperatorState c s = (r, s') \<Longrightarrow> env_events s' = env_events s"
  by (auto simp: GetOperatorState_def dest!: call_eventsD split: prod.splits sum.splits)

lemma GetOperatorStateWithQuorum_events:
  "GetOperatorStateWithQuorum c s = (r, s') \<Longrightarrow> env_events s' = env_events s"
  by (auto simp: GetOperatorStateWithQuorum_def dest!: call_eventsD split: prod.splits sum.splits)

lemma UpdateOperatorStatus_events: "UpdateOperatorStatus c rv st s = (r, s') \<Longrightarrow> env_events s' = env_events s"
  by (auto simp: UpdateOperatorStatus_def Let_def dest!: call_eventsD split: prod.splits sum.splits)

lemma update_attempt_events: "update_attempt c fs v s = (r, v', s') \<Longrightarrow> env_events s' = env_events s"
  by (auto simp: update_attempt_def Let_def dest!: GetOperatorState_events GetOperatorStateWithQuorum_events
      UpdateOperatorStatus_events split: prod.splits sum.splits if_splits)

lemma retry_runs_events:
  assumes "retry_runs rt (update_attempt c fs) k v s v' s'"
  shows "env_events s' = env_events s"
  using assms by (induction rule: retry_runs.induct) (auto dest: update_attempt_events)

lemma UpdateStatus_events:
  assumes "UpdateStatus c fs s = (r, s')"
  shows "env_events s' = env_events s"
proof -
  obtain err v where u: "RetryOnConflict DefaultBackoffSteps (update_attempt c fs)
      \<lparr>uv_previousResourceVersion = [], uv_updatedStatus = None, uv_updated = False\<rparr> s = (err, v, s')"
    using assms by (auto simp: UpdateStatus_def split: prod.splits)
  have "DefaultBackoffSteps > 0" by (simp add: DefaultBackoffSteps_def)
  from OnError_result [OF u this] obtain k v1 s1 r1 where
    "retry_runs IsConflict (update_attempt c fs) k
       \<lparr>uv_previousResourceVersion = [], uv_updatedStatus = None, uv_updated = False\<rparr> s v1 s1"
    and "update_attempt c fs v1 s1 = (r1, v, s')"
    by blast
  then show ?thesis using retry_runs_events update_attempt_events by metis
qed

end
