(* ===== verification/Reconciler.thy ===== *)
theory Reconciler
  imports Deployment_Apply Unstructured_Apply Assets Operator_Client
begin

text \<open>
  The target config reconciler (\<^verbatim>\<open>pkg/operator/target_config_reconciler.go\<close>): one
  \<open>manage\<close> function per operand object, each of which reads an embedded manifest, sets
  namespace, owner and the configured fields and applies it, and \<open>sync\<close>, which runs them
  in order and records the deployment's generation in the operator status.
\<close>

section \<open>The reconciler\<close>

text \<open>
  \<^verbatim>\<open>TargetConfigReconciler\<close>: the clients of the API server, the target image and the
  transport flag. The last fields are the hash functions and the random source the apply
  functions call.
\<close>

record 'w reconciler =
  rec_targetImage :: string
  rec_operatorClient :: "'w climanager_api"
  rec_cliManagerClient :: "'w climanager_api"
  rec_dynamicClient :: "'w dynamic_client"
  rec_routes :: "('w, route) resource_client"
  rec_roles :: "('w, role) resource_client"
  rec_roleBindings :: "('w, role_binding) resource_client"
  rec_clusterRoles :: "('w, cluster_role) resource_client"
  rec_clusterRoleBindings :: "('w, role_binding) resource_client"
  rec_serviceAccounts :: "('w, service_account) resource_client"
  rec_services :: "('w, service) resource_client"
  rec_networkPolicies :: "('w, network_policy) resource_client"
  rec_deployments :: "('w, deployment) resource_client"
  rec_insecureHTTP :: bool
  rec_serviceHash :: "service_spec \<Rightarrow> go_error + string"
  rec_deploymentHash :: "deployment_spec \<Rightarrow> go_error + string"
  rec_serviceSum :: "service \<Rightarrow> string"
  rec_serviceAccountSum :: "service_account \<Rightarrow> string"
  rec_policySum :: "network_policy \<Rightarrow> string"
  rec_unstructuredSum :: "unstructured \<Rightarrow> string"
  rec_uuid :: string

definition operator_owner :: "cli_manager \<Rightarrow> owner_reference" where
  "operator_owner cliManager =
     \<lparr>or_apiVersion = ''operator.openshift.io/v1'', or_kind = ''CliManager'',
      or_name = om_name (cm_meta cliManager), or_uid = om_uid (cm_meta cliManager),
      or_controller = None, or_blockOwnerDeletion = None\<rparr>"

text \<open>The owner references are set to the owner alone, and then made to contain it.\<close>

definition own_by :: "cli_manager \<Rightarrow> object_meta \<Rightarrow> object_meta" where
  "own_by cliManager m =
     (let ownerReference = operator_owner cliManager;
          m1 = m\<lparr>om_ownerReferences := [ownerReference]\<rparr> in
      m1\<lparr>om_ownerReferences := fst (EnsureOwnerRef (om_ownerReferences m1) ownerReference)\<rparr>)"

definition in_namespace_of :: "cli_manager \<Rightarrow> object_meta \<Rightarrow> object_meta" where
  "in_namespace_of cliManager m = m\<lparr>om_namespace := om_namespace (cm_meta cliManager)\<rparr>"

text \<open>Read a manifest and go on with it; a panic of the reader ends the call.\<close>

definition with_asset ::
  "string \<Rightarrow> (asset \<Rightarrow> go_error + 'm) \<Rightarrow> ('m \<Rightarrow> ('w, 'o apply_result) go) \<Rightarrow> ('w, 'o apply_result) go" where
  "with_asset name reader k s =
     (case sum_bind (MustAsset name) reader of
        Inl e \<Rightarrow> (apply_fail e, s)
      | Inr x \<Rightarrow> k x s)"

section \<open>RBAC and the service account\<close>

definition manageRole :: "'w reconciler \<Rightarrow> cli_manager \<Rightarrow> ('w, role apply_result) go" where
  "manageRole c cliManager =
     with_asset ''assets/cli-manager/role.yaml'' ReadRoleV1OrDie (\<lambda>required.
       ApplyRole (rec_roles c) (required\<lparr>role_meta := own_by cliManager (role_meta required)\<rparr>))"

definition manageRoleBinding :: "'w reconciler \<Rightarrow> cli_manager \<Rightarrow> ('w, role_binding apply_result) go" where
  "manageRoleBinding c cliManager =
     with_asset ''assets/cli-manager/rolebinding.yaml'' ReadRoleBindingV1OrDie (\<lambda>required.
       ApplyRoleBinding (rec_roleBindings c) (required\<lparr>rb_meta := own_by cliManager (rb_meta required)\<rparr>))"

definition manageClusterRole :: "'w reconciler \<Rightarrow> cli_manager \<Rightarrow> ('w, cluster_role apply_result) go" where
  "manageClusterRole c cliManager =
     with_asset ''assets/cli-manager/clusterrole.yaml'' ReadClusterRoleV1OrDie (\<lambda>required.
       ApplyClusterRole (rec_clusterRoles c) (required\<lparr>crole_meta := own_by cliManager (crole_meta required)\<rparr>))"

definition manageClusterRoleBinding :: "'w reconciler \<Rightarrow> cli_manager \<Rightarrow> ('w, role_binding apply_result) go" where
  "manageClusterRoleBinding c cliManager =
     with_asset ''assets/cli-manager/clusterrolebinding.yaml'' ReadClusterRoleBindingV1OrDie (\<lambda>required.
       ApplyClusterRoleBinding (rec_clusterRoleBindings c)
         (required\<lparr>rb_meta := own_by cliManager (rb_meta required)\<rparr>))"

definition manageServiceAccount :: "'w reconciler \<Rightarrow> cli_manager \<Rightarrow> ('w, service_account apply_result) go" where
  "manageServiceAccount c cliManager =
     with_asset ''assets/cli-manager/serviceaccount.yaml'' ReadServiceAccountV1OrDie (\<lambda>required.
       ApplyServiceAccount (rec_serviceAccountSum c) (rec_serviceAccounts c)
         (required\<lparr>sa_meta := own_by cliManager (in_namespace_of cliManager (sa_meta required))\<rparr>))"

section \<open>Services, route and network policy\<close>

definition manageService :: "'w reconciler \<Rightarrow> cli_manager \<Rightarrow> ('w, service apply_result) go" where
  "manageService c cliManager =
     with_asset ''assets/cli-manager/service.yaml'' ReadServiceV1OrDie (\<lambda>required.
       ApplyService (rec_serviceHash c) (rec_serviceSum c) (rec_services c)
         (required\<lparr>svc_meta := own_by cliManager (in_namespace_of cliManager (svc_meta required))\<rparr>))"

definition manageServiceMetrics :: "'w reconciler \<Rightarrow> cli_manager \<Rightarrow> ('w, service apply_result) go" where
  "manageServiceMetrics c cliManager =
     with_asset ''assets/cli-manager/servicemetrics.yaml'' ReadServiceV1OrDie (\<lambda>required.
       ApplyService (rec_serviceHash c) (rec_serviceSum c) (rec_services c)
         (required\<lparr>svc_meta := own_by cliManager (in_namespace_of cliManager (svc_meta required))\<rparr>))"

text \<open>\<open>applyRoute\<close> has a recorder and does not use it.\<close>

definition applyRoute :: "('w, route) resource_client \<Rightarrow> route \<Rightarrow> ('w, route apply_result) go" where
  "applyRoute client required s =
     (let rm = route_meta required; ns = om_namespace rm; name = om_name rm in
      case call (rc_get client ns name) s of
        (Inl err, s1) \<Rightarrow>
          if IsNotFound err then
            (let (r, s2) = call (rc_create client ns
                   (required\<lparr>route_meta := WithCleanLabelsAndAnnotations rm\<rparr>)) s1
             in (apply_write r, s2))
          else (apply_fail err, s1)
      | (Inr existing, s1) \<Rightarrow>
          (let (modified, m) = EnsureObjectMeta False (route_meta existing) rm;
               existingCopy = existing\<lparr>route_meta := m\<rparr>;
               specSame = (route_spec existingCopy = route_spec required) in
           if specSame \<and> \<not> modified then (apply_same existingCopy, s1)
           else
             (let (r, s2) = call (rc_update client ns (existingCopy\<lparr>route_spec := route_spec required\<rparr>)) s1
              in (apply_write r, s2))))"

text \<open>A route without a TLS section makes the assignment through the nil pointer panic.\<close>

definition allow_insecure :: "route \<Rightarrow> go_error + route" where
  "allow_insecure r =
     (case rs_tls (route_spec r) of
        None \<Rightarrow> Inl (Panic ''invalid memory address or nil pointer dereference'')
      | Some tls \<Rightarrow> Inr (r\<lparr>route_spec := (route_spec r)\<lparr>rs_tls :=
          Some (tls\<lparr>tls_insecureEdgeTerminationPolicy := ''Allow''\<rparr>)\<rparr>\<rparr>))"

definition manageRoute :: "'w reconciler \<Rightarrow> cli_manager \<Rightarrow> ('w, route apply_result) go" where
  "manageRoute c cliManager =
     with_asset ''assets/cli-manager/route.yaml'' ReadRouteV1OrDie (\<lambda>required s.
       let required = required\<lparr>route_meta := own_by cliManager (in_namespace_of cliManager (route_meta required))\<rparr> in
       case (if rec_insecureHTTP c then allow_insecure required else Inr required) of
         Inl e \<Rightarrow> (apply_fail e, s)
       | Inr required \<Rightarrow> applyRoute (rec_routes c) required s)"

text \<open>The group and kind the decoder leaves in a network policy, for the cache.\<close>

definition policy_group_kind :: "group_kind option" where
  "policy_group_kind = Some (''networking.k8s.io'', ''NetworkPolicy'')"

definition manageOperandNetworkPolicyAllow ::
  "'w reconciler \<Rightarrow> cli_manager \<Rightarrow> ('w, network_policy apply_result) go" where
  "manageOperandNetworkPolicyAllow c cliManager =
     with_asset ''assets/cli-manager/networkpolicy-operand-allow.yaml'' ReadNetworkPolicyV1OrDie (\<lambda>required s.
       let required = required\<lparr>np_meta := own_by cliManager (in_namespace_of cliManager (np_meta required))\<rparr>;
           ((r, _), s') = ApplyNetworkPolicy (rec_policySum c) policy_group_kind (rec_networkPolicies c)
                            required NewResourceCache s
       in (r, s'))"

section \<open>The service monitor\<close>

definition setServiceMonitorServerName :: "unstructured \<Rightarrow> string \<Rightarrow> go_error + unstructured" where
  "setServiceMonitorServerName sm serverName =
     (case NestedSlice (u_object sm) [''spec'', ''endpoints''] of
        Inl err \<Rightarrow> Inl (WrappedError ''failed to read ServiceMonitor endpoints'' err)
      | Inr found \<Rightarrow>
          (case found of
             None \<Rightarrow> Inl (ErrorString ''ServiceMonitor spec.endpoints is empty'')
           | Some [] \<Rightarrow> Inl (ErrorString ''ServiceMonitor spec.endpoints is empty'')
           | Some (e0 # endpoints) \<Rightarrow>
               (case e0 of
                  JObj ep \<Rightarrow>
                    (case fmlookup ep ''tlsConfig'' of
                       Some (JObj tlsConfig) \<Rightarrow>
                         (let ep' = fmupd ''tlsConfig'' (JObj (fmupd ''serverName'' (JStr serverName) tlsConfig)) ep in
                          case SetNestedSlice (u_object sm) (JObj ep' # endpoints) [''spec'', ''endpoints''] of
                            Inl err \<Rightarrow> Inl (WrappedError (''failed to set ServiceMonitor serverName '' @
                                         [CHR 0x22] @ serverName @ [CHR 0x22]) err)
                          | Inr obj \<Rightarrow> Inr (sm\<lparr>u_object := obj\<rparr>))
                     | _ \<Rightarrow> Inl (ErrorString
                         ''ServiceMonitor spec.endpoints[0].tlsConfig is missing or not an object''))
                | _ \<Rightarrow> Inl (ErrorString ''ServiceMonitor spec.endpoints[0] is not an object''))))"

definition metrics_server_name :: "cli_manager \<Rightarrow> string" where
  "metrics_server_name cliManager = ''metrics.'' @ om_namespace (cm_meta cliManager) @ ''.svc''"

text \<open>
  Of a volume snapshot class only the dispatch is modelled: this manifest is none, so the
  function passed for it is never called.
\<close>

definition no_snapshot_class :: "unstructured \<Rightarrow> ('w, unstructured apply_result) go" where
  "no_snapshot_class u s = (apply_fail (Panic ''not a volume snapshot class''), s)"

definition applyOperandServiceMonitor ::
  "'w reconciler \<Rightarrow> cli_manager \<Rightarrow> ('w, unstructured apply_result) go" where
  "applyOperandServiceMonitor c cliManager =
     with_asset ''assets/cli-manager/servicemonitor.yaml'' ReadUnstructuredOrDie (\<lambda>required s.
       let required = SetNamespace required (om_namespace (cm_meta cliManager));
           required = EnsureOwnerRefUnstructured required (operator_owner cliManager) in
       case setServiceMonitorServerName required (metrics_server_name cliManager) of
         Inl err \<Rightarrow> (apply_fail err, s)
       | Inr required \<Rightarrow>
           ApplyKnownUnstructured no_snapshot_class (rec_unstructuredSum c) (rec_dynamicClient c) required s)"

text \<open>The function itself drops the object.\<close>

definition manageServiceMonitor :: "'w reconciler \<Rightarrow> cli_manager \<Rightarrow> ('w, bool \<times> go_error option) go" where
  "manageServiceMonitor c cliManager s =
     (let ((_, changed, err), s') = applyOperandServiceMonitor c cliManager s in ((changed, err), s'))"

section \<open>The deployment\<close>

text \<open>The first pattern that is the container's image is replaced.\<close>

fun substitute_image :: "(string \<times> string) list \<Rightarrow> container \<Rightarrow> container" where
  "substitute_image [] ctr = ctr"
| "substitute_image ((pat, img) # images) ctr =
     (if c_image ctr = pat then ctr\<lparr>c_image := img\<rparr> else substitute_image images ctr)"

definition set_images :: "string \<Rightarrow> container list \<Rightarrow> container list" where
  "set_images targetImage containers =
     (if targetImage \<noteq> [] then map (substitute_image [(''${IMAGE}'', targetImage)]) containers
      else containers)"

definition verbosity :: "log_level \<Rightarrow> nat" where
  "verbosity l =
     (if l = Normal then 2 else if l = Debug then 4 else if l = Trace then 6
      else if l = TraceAll then 8 else 2)"

definition append_arg :: "string \<Rightarrow> container list \<Rightarrow> go_error + container list" where
  "append_arg a containers =
     (case containers of
        [] \<Rightarrow> Inl (Panic ''index out of range [0] with length 0'')
      | ctr # rest \<Rightarrow> Inr (ctr\<lparr>c_args := c_args ctr @ [a]\<rparr> # rest))"

definition configure_containers ::
  "string \<Rightarrow> log_level \<Rightarrow> bool \<Rightarrow> container list \<Rightarrow> go_error + container list" where
  "configure_containers targetImage logLevel insecureHTTP containers =
     sum_bind (append_arg (''-v='' @ decimal (verbosity logLevel)) (set_images targetImage containers))
       (\<lambda>cs. if insecureHTTP then append_arg ''--serve-artifacts-in-http'' cs else Inr cs)"

definition map_containers ::
  "(container list \<Rightarrow> go_error + container list) \<Rightarrow> deployment \<Rightarrow> go_error + deployment" where
  "map_containers f d =
     sum_bind (f (ps_containers (pt_spec (ds_template (dep_spec d)))))
       (\<lambda>cs. let sp = dep_spec d; t = ds_template sp in
         Inr (d\<lparr>dep_spec := sp\<lparr>ds_template := t\<lparr>pt_spec := (pt_spec t)\<lparr>ps_containers := cs\<rparr>\<rparr>\<rparr>\<rparr>))"

definition manageDeployments :: "'w reconciler \<Rightarrow> cli_manager \<Rightarrow> ('w, deployment apply_result) go" where
  "manageDeployments c cliManager =
     with_asset ''assets/cli-manager/deployment.yaml'' ReadDeploymentV1OrDie (\<lambda>required s.
       let required = required\<lparr>dep_meta := own_by cliManager (in_namespace_of cliManager
                        ((dep_meta required)\<lparr>om_name := OperandName\<rparr>))\<rparr> in
       case map_containers (configure_containers (rec_targetImage c)
              (os_logLevel (cms_operatorSpec (cm_spec cliManager))) (rec_insecureHTTP c)) required of
         Inl e \<Rightarrow> (apply_fail e, s)
       | Inr required \<Rightarrow>
           ApplyDeployment (rec_deploymentHash c) (rec_uuid c) (rec_deployments c) required
             (ExpectedDeploymentGeneration required
               (ost_generations (cmst_operatorStatus (cm_status cliManager)))) s)"

section \<open>Sync\<close>

definition checked :: "('w, 'o apply_result) go \<Rightarrow> ('w, go_error + 'o option) go" where
  "checked f s = (case f s of ((ob, _, err), s') \<Rightarrow>
     (case err of Some e \<Rightarrow> (Inl e, s') | None \<Rightarrow> (Inr ob, s')))"

definition checked_flag :: "('w, bool \<times> go_error option) go \<Rightarrow> ('w, go_error + bool) go" where
  "checked_flag f s = (case f s of ((changed, err), s') \<Rightarrow>
     (case err of Some e \<Rightarrow> (Inl e, s') | None \<Rightarrow> (Inr changed, s')))"

definition record_generation :: "deployment option \<Rightarrow> status_update" where
  "record_generation deployment status =
     Inr (status\<lparr>ost_generations := SetDeploymentGeneration (ost_generations status) deployment\<rparr>)"

definition reconcile :: "'w reconciler \<Rightarrow> ('w, go_error + unit) go" where
  "reconcile c =
     bindE (call (ca_get (rec_operatorClient c) OperatorNamespace OperatorConfigName)) (\<lambda>cliManager.
     bindE (checked (manageOperandNetworkPolicyAllow c cliManager)) (\<lambda>_.
     bindE (checked (manageClusterRole c cliManager)) (\<lambda>_.
     bindE (checked (manageClusterRoleBinding c cliManager)) (\<lambda>_.
     bindE (checked (manageRole c cliManager)) (\<lambda>_.
     bindE (checked (manageRoleBinding c cliManager)) (\<lambda>_.
     bindE (checked (manageDeployments c cliManager)) (\<lambda>deployment.
     bindE (checked (manageRoute c cliManager)) (\<lambda>_.
     bindE (checked (manageService c cliManager)) (\<lambda>_.
     bindE (checked (manageServiceMetrics c cliManager)) (\<lambda>_.
     bindE (checked (manageServiceAccount c cliManager)) (\<lambda>_.
     bindE (checked_flag (manageServiceMonitor c cliManager)) (\<lambda>_ s.
       case UpdateStatus (rec_cliManagerClient c) [record_generation deployment] s of
         ((_, _, Some e), s') \<Rightarrow> (Inl e, s')
       | ((_, _, None), s') \<Rightarrow> (Inr (), s')))))))))))))"

definition sync :: "'w reconciler \<Rightarrow> ('w, go_error option) go" where
  "sync c s = (case reconcile c s of (Inl e, s') \<Rightarrow> (Some e, s') | (Inr _, s') \<Rightarrow> (None, s'))"

end
