(* ===== verification/Sync_Order.thy ===== *)
theory Sync_Order
  imports Reconciler
begin

text \<open>
  The order of \<open>sync\<close>: it is a pipeline of twelve steps that ends at the first error. The
  abstract specification is \<open>run_pipeline\<close>, a fold over a list of steps; the steps pass on the
  deployment the sixth of them returns, which the last one records.
\<close>

type_synonym 'w sync_step = "deployment option \<Rightarrow> ('w, go_error + deployment option) go"

fun run_pipeline :: "'w sync_step list \<Rightarrow> 'w sync_step" where
  "run_pipeline [] d s = (Inr d, s)"
| "run_pipeline (f # fs) d s =
     (case f d s of (Inl e, s') \<Rightarrow> (Inl e, s') | (Inr d', s') \<Rightarrow> run_pipeline fs d' s')"

text \<open>A step that passes the deployment on, and the one that sets it.\<close>

definition passing :: "('w, go_error + 'o) go \<Rightarrow> 'w sync_step" where
  "passing f d = bindE f (\<lambda>_. returnE d)"

definition yielding :: "('w, go_error + deployment option) go \<Rightarrow> 'w sync_step" where
  "yielding f _ = f"

definition recording :: "'w reconciler \<Rightarrow> 'w sync_step" where
  "recording c d s =
     (case UpdateStatus (rec_cliManagerClient c) [record_generation d] s of
        ((_, _, Some e), s') \<Rightarrow> (Inl e, s')
      | ((_, _, None), s') \<Rightarrow> (Inr d, s'))"

definition sync_pipeline :: "'w reconciler \<Rightarrow> cli_manager \<Rightarrow> 'w sync_step list" where
  "sync_pipeline c cm =
     [passing (checked (manageOperandNetworkPolicyAllow c cm)),
      passing (checked (manageClusterRole c cm)),
      passing (checked (manageClusterRoleBinding c cm)),
      passing (checked (manageRole c cm)),
      passing (checked (manageRoleBinding c cm)),
      yielding (checked (manageDeployments c cm)),
      passing (checked (manageRoute c cm)),
      passing (checked (manageService c cm)),
      passing (checked (manageServiceMetrics c cm)),
      passing (checked (manageServiceAccount c cm)),
      passing (checked_flag (manageServiceMonitor c cm)),
      recording c]"

lemma run_passing: "run_pipeline (passing f # fs) d = bindE f (\<lambda>_. run_pipeline fs d)"
  by (simp add: fun_eq_iff passing_def bindE_def returnE_def split: prod.split sum.split)

lemma run_yielding: "run_pipeline (yielding f # fs) d = bindE f (run_pipeline fs)"
  by (simp add: fun_eq_iff yielding_def bindE_def split: prod.split sum.split)

lemma run_recording: "run_pipeline [recording c] d s =
    (case UpdateStatus (rec_cliManagerClient c) [record_generation d] s of
       ((_, _, Some e), s') \<Rightarrow> (Inl e, s') | ((_, _, None), s') \<Rightarrow> (Inr d, s'))"
  by (simp add: recording_def split: prod.split option.split)

text \<open>The error a result carries, and the state, forgetting the value.\<close>

definition outcome :: "(go_error + 'a) \<times> 'w env \<Rightarrow> go_error option \<times> 'w env" where
  "outcome r = (case r of (Inl e, s') \<Rightarrow> (Some e, s') | (Inr _, s') \<Rightarrow> (None, s'))"

lemma outcome_bindE:
  "(\<And>x s'. outcome (g x s') = outcome (h x s')) \<Longrightarrow> outcome (bindE f g s) = outcome (bindE f h s)"
proof (cases "f s")
  case (Pair r s')
  assume "\<And>x s'. outcome (g x s') = outcome (h x s')"
  with Pair show ?thesis by (cases r) (simp_all add: bindE_def outcome_def)
qed

lemma sync_outcome: "sync c s = outcome (reconcile c s)"
  by (simp add: sync_def outcome_def)

lemma reconcile_pipeline:
  "outcome (reconcile c s) = outcome
     (bindE (call (ca_get (rec_operatorClient c) OperatorNamespace OperatorConfigName))
       (\<lambda>cm. run_pipeline (sync_pipeline c cm) None) s)"
  unfolding reconcile_def sync_pipeline_def run_passing run_yielding
  by (intro outcome_bindE) (simp add: recording_def outcome_def split: prod.split option.split)

text \<open>A pipeline fails where its first failing step fails.\<close>

lemma run_pipeline_Inl:
  "run_pipeline fs d s = (Inl e, s') \<longleftrightarrow>
    (\<exists>i d1 s1. i < length fs \<and> run_pipeline (take i fs) d s = (Inr d1, s1) \<and> (fs ! i) d1 s1 = (Inl e, s'))"
proof (induction fs arbitrary: d s)
  case (Cons f fs)
  obtain r s2 where f: "f d s = (r, s2)" by (cases "f d s")
  show ?case
  proof (cases r)
    case (Inl e2)
    have "(\<exists>i d1 s1. i < Suc (length fs) \<and> run_pipeline (take i (f # fs)) d s = (Inr d1, s1) \<and>
        ((f # fs) ! i) d1 s1 = (Inl e, s')) \<longleftrightarrow> (e2, s2) = (e, s')"
      using f Inl by (auto simp: take_Cons' split: if_splits intro!: exI [of _ 0])
    with f Inl show ?thesis by simp
  next
    case (Inr d2)
    have "(\<exists>i d1 s1. i < Suc (length fs) \<and> run_pipeline (take i (f # fs)) d s = (Inr d1, s1) \<and>
        ((f # fs) ! i) d1 s1 = (Inl e, s')) \<longleftrightarrow>
      (\<exists>i d1 s1. i < length fs \<and> run_pipeline (take i fs) d2 s2 = (Inr d1, s1) \<and> (fs ! i) d1 s1 = (Inl e, s'))"
      (is "(\<exists>i. ?P i) \<longleftrightarrow> (\<exists>i. ?Q i)")
    proof
      assume "\<exists>i. ?P i"
      then obtain i where i: "?P i" ..
      with f Inr obtain j where "i = Suc j" by (cases i) auto
      with i f Inr show "\<exists>i. ?Q i" by (auto intro!: exI [of _ j])
    next
      assume "\<exists>i. ?Q i"
      then obtain i where "?Q i" ..
      with f Inr show "\<exists>i. ?P i" by (intro exI [of _ "Suc i"]) simp
    qed
    with f Inr Cons.IH show ?thesis by simp
  qed
qed simp

section \<open>What sync does not look at\<close>

definition set_managementState :: "management_state \<Rightarrow> cli_manager \<Rightarrow> cli_manager" where
  "set_managementState ms cm = cm\<lparr>cm_spec := (cm_spec cm)\<lparr>cms_operatorSpec :=
     (cms_operatorSpec (cm_spec cm))\<lparr>os_managementState := ms\<rparr>\<rparr>\<rparr>"

lemma managementState_frame:
  "cm_meta (set_managementState ms cm) = cm_meta cm" "cm_status (set_managementState ms cm) = cm_status cm"
  "os_logLevel (cms_operatorSpec (cm_spec (set_managementState ms cm))) = os_logLevel (cms_operatorSpec (cm_spec cm))"
  by (simp_all add: set_managementState_def)

lemma owner_managementState:
  "own_by (set_managementState ms cm) = own_by cm"
  "in_namespace_of (set_managementState ms cm) = in_namespace_of cm"
  "operator_owner (set_managementState ms cm) = operator_owner cm"
  "metrics_server_name (set_managementState ms cm) = metrics_server_name cm"
  by (simp_all add: fun_eq_iff own_by_def in_namespace_of_def operator_owner_def metrics_server_name_def managementState_frame)

lemma manage_managementState:
  "manageOperandNetworkPolicyAllow c (set_managementState ms cm) = manageOperandNetworkPolicyAllow c cm"
  "manageClusterRole c (set_managementState ms cm) = manageClusterRole c cm"
  "manageClusterRoleBinding c (set_managementState ms cm) = manageClusterRoleBinding c cm"
  "manageRole c (set_managementState ms cm) = manageRole c cm"
  "manageRoleBinding c (set_managementState ms cm) = manageRoleBinding c cm"
  "manageDeployments c (set_managementState ms cm) = manageDeployments c cm"
  "manageRoute c (set_managementState ms cm) = manageRoute c cm"
  "manageService c (set_managementState ms cm) = manageService c cm"
  "manageServiceMetrics c (set_managementState ms cm) = manageServiceMetrics c cm"
  "manageServiceAccount c (set_managementState ms cm) = manageServiceAccount c cm"
  "applyOperandServiceMonitor c (set_managementState ms cm) = applyOperandServiceMonitor c cm"
  unfolding manageOperandNetworkPolicyAllow_def manageClusterRole_def manageClusterRoleBinding_def
    manageRole_def manageRoleBinding_def manageDeployments_def manageRoute_def manageService_def
    manageServiceMetrics_def manageServiceAccount_def applyOperandServiceMonitor_def owner_managementState
    managementState_frame by (rule refl)+

lemma monitor_managementState:
  "manageServiceMonitor c (set_managementState ms cm) = manageServiceMonitor c cm"
  by (simp add: fun_eq_iff manageServiceMonitor_def manage_managementState)

section \<open>Properties\<close>

text \<open>C5: if \<open>sync\<close> returns an error, either the configuration object could not be read, or one
  step of the pipeline failed with that error: the steps before it ran and succeeded, in the order
  of the code, and the world is as the failing step left it, so no later step ran and the status was
  not written.\<close>

theorem sync_first_error:
  "sync c s = (Some e, s') \<longleftrightarrow>
    (call (ca_get (rec_operatorClient c) OperatorNamespace OperatorConfigName) s = (Inl e, s') \<or>
     (\<exists>cm s0 i d s1. call (ca_get (rec_operatorClient c) OperatorNamespace OperatorConfigName) s = (Inr cm, s0) \<and>
       i < length (sync_pipeline c cm) \<and>
       run_pipeline (take i (sync_pipeline c cm)) None s0 = (Inr d, s1) \<and>
       (sync_pipeline c cm ! i) d s1 = (Inl e, s')))"
proof (cases "call (ca_get (rec_operatorClient c) OperatorNamespace OperatorConfigName) s")
  case (Pair r s0)
  have o: "outcome x = (Some e, s') \<longleftrightarrow> x = (Inl e, s')" for x :: "(go_error + deployment option) \<times> 'a env"
    by (auto simp: outcome_def split: prod.splits sum.splits)
  show ?thesis
    using Pair run_pipeline_Inl [of "sync_pipeline c _" None s0 e s']
    by (cases r) (auto simp: sync_outcome reconcile_pipeline o bindE_def)
qed


end
