(* ===== verification/Work_Queue.thy ===== *)
theory Work_Queue
  imports Go_Prelude
begin

text \<open>
  The work queue of client-go (\<^verbatim>\<open>util/workqueue\<close>): the deduplicating queue, the delaying
  queue over it and the rate limiter. The lock of the queue makes each operation one step; a
  goroutine that waits is an operation that is not enabled (\<open>Blocked\<close>, \<open>None\<close>). Metrics are left
  out. The locale \<open>job_queue\<close> is the contract a controller relies on, in terms of the keys that
  are pending and the keys that are being worked on.
\<close>

section \<open>The deduplicating queue\<close>

record 'k typed_queue =
  tq_queue :: "'k list"
  tq_dirty :: "'k set"
  tq_processing :: "'k set"
  tq_shuttingDown :: bool

definition newQueue :: "'k typed_queue" where
  "newQueue = \<lparr>tq_queue = [], tq_dirty = {}, tq_processing = {}, tq_shuttingDown = False\<rparr>"

definition QueueAdd :: "'k \<Rightarrow> 'k typed_queue \<Rightarrow> 'k typed_queue" where
  "QueueAdd item q =
     (if tq_shuttingDown q then q
      else if item \<in> tq_dirty q then q
      else let q1 = q\<lparr>tq_dirty := insert item (tq_dirty q)\<rparr> in
        if item \<in> tq_processing q1 then q1
        else q1\<lparr>tq_queue := tq_queue q1 @ [item]\<rparr>)"

definition QueueLen :: "'k typed_queue \<Rightarrow> nat" where
  "QueueLen q = length (tq_queue q)"

datatype ('k, 'q) get_result = Blocked | Quit | Item 'k 'q

definition QueueGet :: "'k typed_queue \<Rightarrow> ('k, 'k typed_queue) get_result" where
  "QueueGet q =
     (case tq_queue q of
        [] \<Rightarrow> if tq_shuttingDown q then Quit else Blocked
      | item # rest \<Rightarrow> Item item (q\<lparr>tq_queue := rest,
          tq_processing := insert item (tq_processing q), tq_dirty := tq_dirty q - {item}\<rparr>))"

definition QueueDone :: "'k \<Rightarrow> 'k typed_queue \<Rightarrow> 'k typed_queue" where
  "QueueDone item q =
     (let q1 = q\<lparr>tq_processing := tq_processing q - {item}\<rparr> in
      if item \<in> tq_dirty q1 then q1\<lparr>tq_queue := tq_queue q1 @ [item]\<rparr> else q1)"

definition QueueShutDown :: "'k typed_queue \<Rightarrow> 'k typed_queue" where
  "QueueShutDown q = q\<lparr>tq_shuttingDown := True\<rparr>"

text \<open>
  What the comments on the fields promise: every queued item is dirty and not being processed.
  The code keeps more: every such item is queued, once.
\<close>

definition queue_ok :: "'k typed_queue \<Rightarrow> bool" where
  "queue_ok q \<longleftrightarrow> distinct (tq_queue q) \<and> set (tq_queue q) = tq_dirty q - tq_processing q"

section \<open>What a controller relies on\<close>

text \<open>
  \<open>pending q\<close> are the keys that still have to be worked on, \<open>busy q\<close> those handed out and not
  yet returned, \<open>closed q\<close> says that the queue takes no more keys.
\<close>

locale job_queue =
  fixes ok :: "'q \<Rightarrow> bool"
    and add :: "'k \<Rightarrow> 'q \<Rightarrow> 'q"
    and get :: "'q \<Rightarrow> ('k, 'q) get_result"
    and done_with :: "'k \<Rightarrow> 'q \<Rightarrow> 'q"
    and shut_down :: "'q \<Rightarrow> 'q"
    and pending busy :: "'q \<Rightarrow> 'k set"
    and closed :: "'q \<Rightarrow> bool"
  assumes add_ok: "ok q \<Longrightarrow> ok (add k q)"
    and get_ok: "ok q \<Longrightarrow> get q = Item k q' \<Longrightarrow> ok q'"
    and done_ok: "ok q \<Longrightarrow> k \<in> busy q \<Longrightarrow> ok (done_with k q)"
    and shut_ok: "ok q \<Longrightarrow> ok (shut_down q)"
    and add_pending: "pending (add k q) = (if closed q then pending q else insert k (pending q))"
    and add_busy: "busy (add k q) = busy q"
    and add_closed: "closed (add k q) = closed q"
    and get_item: "ok q \<Longrightarrow> get q = Item k q' \<Longrightarrow>
      k \<in> pending q - busy q \<and> pending q' = pending q - {k} \<and> busy q' = insert k (busy q) \<and>
      closed q' = closed q"
    and get_blocked: "ok q \<Longrightarrow> get q = Blocked \<longleftrightarrow> pending q \<subseteq> busy q \<and> \<not> closed q"
    and get_quit: "ok q \<Longrightarrow> get q = Quit \<longleftrightarrow> pending q \<subseteq> busy q \<and> closed q"
    and done_pending: "pending (done_with k q) = pending q"
    and done_busy: "busy (done_with k q) = busy q - {k}"
    and done_closed: "closed (done_with k q) = closed q"
    and shut_pending: "pending (shut_down q) = pending q"
    and shut_busy: "busy (shut_down q) = busy q"
    and shut_closed: "closed (shut_down q)"
begin

text \<open>A key that is pending and idle is handed out, unless another one is first.\<close>

lemma get_some:
  assumes "ok q" and "k \<in> pending q" and "k \<notin> busy q"
  obtains k' q' where "get q = Item k' q'"
  using assms get_blocked get_quit by (cases "get q") blast+

lemma get_only:
  assumes "ok q" and "pending q \<subseteq> {k}" and "k \<in> pending q" and "k \<notin> busy q"
  obtains q' where "get q = Item k q'" "pending q' = {}" "busy q' = insert k (busy q)"
    "closed q' = closed q" "ok q'"
proof -
  obtain k' q' where q': "get q = Item k' q'" using get_some [OF assms(1,3,4)] .
  with get_item [OF assms(1) q'] assms(2) show ?thesis
    using get_ok [OF assms(1) q'] by (intro that [of q']) blast+
qed

text \<open>Adding a key that is being worked on makes it come back when the work is done.\<close>

lemma requeued:
  assumes "ok q" and "k \<in> busy q" and "\<not> closed q"
  shows "k \<in> pending (done_with k (add k q))" and "k \<notin> busy (done_with k (add k q))"
  using assms by (simp_all add: done_pending add_pending done_busy)

lemma closed_add: "closed q \<Longrightarrow> pending (add k q) = pending q"
  by (simp add: add_pending)

end

lemma distinct_singleton_set: "distinct xs \<Longrightarrow> set xs = {k} \<Longrightarrow> xs = [k]"
  by (cases xs; cases "tl xs") auto

lemmas queue_ops = QueueAdd_def QueueGet_def QueueDone_def QueueShutDown_def

lemma QueueAdd_ok: "queue_ok q \<Longrightarrow> queue_ok (QueueAdd k q)"
  by (auto simp: queue_ok_def QueueAdd_def Let_def)

lemma QueueGet_Item:
  "QueueGet q = Item k q' \<longleftrightarrow> (\<exists>rest. tq_queue q = k # rest \<and>
     q' = q\<lparr>tq_queue := rest, tq_processing := insert k (tq_processing q), tq_dirty := tq_dirty q - {k}\<rparr>)"
  by (auto simp: QueueGet_def split: list.splits)

lemma queue_ok_hd: "queue_ok q \<Longrightarrow> tq_queue q = k # rest \<Longrightarrow>
    k \<in> tq_dirty q - tq_processing q \<and> distinct rest \<and> set rest = tq_dirty q - {k} - insert k (tq_processing q)"
proof -
  assume "queue_ok q" and "tq_queue q = k # rest"
  then have "distinct (k # rest)" "insert k (set rest) = tq_dirty q - tq_processing q"
    by (simp_all add: queue_ok_def)
  then show ?thesis by (simp add: set_eq_iff) metis
qed

lemma QueueGet_ok: "queue_ok q \<Longrightarrow> QueueGet q = Item k q' \<Longrightarrow> queue_ok q'"
  using queue_ok_hd [of q k] by (clarsimp simp: QueueGet_Item) (simp add: queue_ok_def)

lemma QueueDone_ok: "queue_ok q \<Longrightarrow> k \<in> tq_processing q \<Longrightarrow> queue_ok (QueueDone k q)"
  by (auto simp: queue_ok_def QueueDone_def Let_def)

lemma QueueGet_item:
  "queue_ok q \<Longrightarrow> QueueGet q = Item k q' \<Longrightarrow>
     k \<in> tq_dirty q - tq_processing q \<and> tq_dirty q' = tq_dirty q - {k} \<and>
     tq_processing q' = insert k (tq_processing q) \<and> tq_shuttingDown q' = tq_shuttingDown q"
  using queue_ok_hd [of q k] by (clarsimp simp: QueueGet_Item)

lemma QueueGet_empty: "queue_ok q \<Longrightarrow> tq_queue q = [] \<longleftrightarrow> tq_dirty q \<subseteq> tq_processing q"
  by (metis Diff_eq_empty_iff set_empty queue_ok_def)

lemma QueueGet_none:
  "QueueGet q = Blocked \<longleftrightarrow> tq_queue q = [] \<and> \<not> tq_shuttingDown q"
  "QueueGet q = Quit \<longleftrightarrow> tq_queue q = [] \<and> tq_shuttingDown q"
  by (auto simp: QueueGet_def split: list.splits)

interpretation typed: job_queue queue_ok QueueAdd QueueGet QueueDone QueueShutDown
  tq_dirty tq_processing tq_shuttingDown
proof unfold_locales
  fix k :: 'k and q q' :: "'k typed_queue"
  show "queue_ok q \<Longrightarrow> queue_ok (QueueAdd k q)" by (rule QueueAdd_ok)
  show "queue_ok q \<Longrightarrow> QueueGet q = Item k q' \<Longrightarrow> queue_ok q'" by (rule QueueGet_ok)
  show "queue_ok q \<Longrightarrow> k \<in> tq_processing q \<Longrightarrow> queue_ok (QueueDone k q)" by (rule QueueDone_ok)
  show "queue_ok q \<Longrightarrow> QueueGet q = Item k q' \<Longrightarrow>
      k \<in> tq_dirty q - tq_processing q \<and> tq_dirty q' = tq_dirty q - {k} \<and>
      tq_processing q' = insert k (tq_processing q) \<and> tq_shuttingDown q' = tq_shuttingDown q"
    by (rule QueueGet_item)
qed (simp_all add: QueueAdd_def QueueDone_def QueueShutDown_def Let_def QueueGet_none QueueGet_empty
    queue_ok_def [of "QueueShutDown _", unfolded QueueShutDown_def] insert_absorb flip: queue_ok_def)

section \<open>The delaying queue\<close>

text \<open>
  Times are nanoseconds. \<open>dq_channel\<close> is the buffered channel \<^verbatim>\<open>waitingForAddCh\<close> and
  \<open>dq_waiting\<close> the heap \<^verbatim>\<open>waitingForQueue\<close> with its index \<^verbatim>\<open>waitingEntryByData\<close>: one entry
  per key, by increasing time (entries of equal time in the order they came, where the heap
  leaves the order open).
\<close>

record 'k delaying_queue =
  dq_typed :: "'k typed_queue"
  dq_now :: int
  dq_channel :: "('k \<times> int) list"
  dq_waiting :: "('k \<times> int) list"

definition channelSize :: nat where "channelSize = 1000"

definition newDelayingQueue :: "int \<Rightarrow> 'k delaying_queue" where
  "newDelayingQueue now = \<lparr>dq_typed = newQueue, dq_now = now, dq_channel = [], dq_waiting = []\<rparr>"

definition delayingAdd :: "'k \<Rightarrow> 'k delaying_queue \<Rightarrow> 'k delaying_queue" where
  "delayingAdd item q = q\<lparr>dq_typed := QueueAdd item (dq_typed q)\<rparr>"

text \<open>\<open>None\<close> is a send that waits for room in the channel.\<close>

definition AddAfter :: "'k \<Rightarrow> int \<Rightarrow> 'k delaying_queue \<Rightarrow> 'k delaying_queue option" where
  "AddAfter item duration q =
     (if tq_shuttingDown (dq_typed q) then Some q
      else if duration \<le> 0 then Some (delayingAdd item q)
      else if length (dq_channel q) < channelSize
        then Some (q\<lparr>dq_channel := dq_channel q @ [(item, dq_now q + duration)]\<rparr>)
      else None)"

fun heap_push :: "('k \<times> int) \<Rightarrow> ('k \<times> int) list \<Rightarrow> ('k \<times> int) list" where
  "heap_push e [] = [e]"
| "heap_push e (x # xs) = (if snd e < snd x then e # x # xs else x # heap_push e xs)"

definition heap_remove :: "'k \<Rightarrow> ('k \<times> int) list \<Rightarrow> ('k \<times> int) list" where
  "heap_remove k es = filter (\<lambda>e. fst e \<noteq> k) es"

definition waiting_insert :: "('k \<times> int) \<Rightarrow> ('k \<times> int) list \<Rightarrow> ('k \<times> int) list" where
  "waiting_insert entry es =
     (case map_of es (fst entry) of
        Some readyAt \<Rightarrow> if readyAt > snd entry then heap_push entry (heap_remove (fst entry) es) else es
      | None \<Rightarrow> heap_push entry es)"

text \<open>One pass of \<open>waitingLoop\<close>: the ready entries are added, then the channel is drained.\<close>

fun add_ready :: "int \<Rightarrow> ('k \<times> int) list \<Rightarrow> 'k typed_queue \<Rightarrow> ('k \<times> int) list \<times> 'k typed_queue" where
  "add_ready now [] q = ([], q)"
| "add_ready now ((k, readyAt) # es) q =
     (if readyAt > now then ((k, readyAt) # es, q) else add_ready now es (QueueAdd k q))"

definition loop_ready :: "'k delaying_queue \<Rightarrow> 'k delaying_queue" where
  "loop_ready q = (let (es, t) = add_ready (dq_now q) (dq_waiting q) (dq_typed q)
     in q\<lparr>dq_waiting := es, dq_typed := t\<rparr>)"

definition receive_entry :: "('k \<times> int) \<Rightarrow> 'k delaying_queue \<Rightarrow> 'k delaying_queue" where
  "receive_entry waitEntry q =
     (if snd waitEntry > dq_now q then q\<lparr>dq_waiting := waiting_insert waitEntry (dq_waiting q)\<rparr>
      else delayingAdd (fst waitEntry) q)"

definition loop_receive :: "'k delaying_queue \<Rightarrow> 'k delaying_queue" where
  "loop_receive q = fold receive_entry (dq_channel q) (q\<lparr>dq_channel := []\<rparr>)"

definition waitingLoop_pass :: "'k delaying_queue \<Rightarrow> 'k delaying_queue" where
  "waitingLoop_pass q =
     (if tq_shuttingDown (dq_typed q) then q else loop_receive (loop_ready q))"

definition delayingShutDown :: "'k delaying_queue \<Rightarrow> 'k delaying_queue" where
  "delayingShutDown q = q\<lparr>dq_typed := QueueShutDown (dq_typed q)\<rparr>"

section \<open>The rate limiter\<close>

text \<open>
  The exponential limiter. The product of \<^verbatim>\<open>baseDelay\<close> and a power of two is exact in
  \<^verbatim>\<open>float64\<close>, so the model computes it on integers; \<^verbatim>\<open>math.MaxInt64\<close> as a
  \<^verbatim>\<open>float64\<close> is \<open>2 ^ 63\<close>.
\<close>

record 'k failure_limiter =
  fl_failures :: "'k \<Rightarrow> nat option"
  fl_baseDelay :: int
  fl_maxDelay :: int

definition failures_of :: "'k failure_limiter \<Rightarrow> 'k \<Rightarrow> nat" where
  "failures_of r item = (case fl_failures r item of Some n \<Rightarrow> n | None \<Rightarrow> 0)"

definition FailureWhen :: "'k \<Rightarrow> 'k failure_limiter \<Rightarrow> int \<times> 'k failure_limiter" where
  "FailureWhen item r =
     (let exp = failures_of r item;
          r1 = r\<lparr>fl_failures := (fl_failures r)(item \<mapsto> exp + 1)\<rparr>;
          backoff = fl_baseDelay r * 2 ^ exp in
      if backoff > 2 ^ 63 then (fl_maxDelay r1, r1)
      else if backoff > fl_maxDelay r1 then (fl_maxDelay r1, r1)
      else (backoff, r1))"

definition FailureForget :: "'k \<Rightarrow> 'k failure_limiter \<Rightarrow> 'k failure_limiter" where
  "FailureForget item r = r\<lparr>fl_failures := (fl_failures r)(item := None)\<rparr>"

text \<open>
  \<^verbatim>\<open>DefaultControllerRateLimiter\<close> takes the longer delay of the exponential limiter (5 ms,
  1000 s) and of a token bucket; the delay of the bucket is an argument.
\<close>

definition DefaultControllerRateLimiter :: "'k failure_limiter" where
  "DefaultControllerRateLimiter =
     \<lparr>fl_failures = Map.empty, fl_baseDelay = 5000000, fl_maxDelay = 1000000000000\<rparr>"

definition LimiterWhen :: "int \<Rightarrow> 'k \<Rightarrow> 'k failure_limiter \<Rightarrow> int \<times> 'k failure_limiter" where
  "LimiterWhen bucket item r =
     (let (curr, r1) = FailureWhen item r;
          ret = (if curr > 0 then curr else 0) in
      (if bucket > ret then bucket else ret, r1))"

record 'k rate_queue =
  rq_delaying :: "'k delaying_queue"
  rq_limiter :: "'k failure_limiter"

definition NewRateLimitingQueue :: "int \<Rightarrow> 'k rate_queue" where
  "NewRateLimitingQueue now =
     \<lparr>rq_delaying = newDelayingQueue now, rq_limiter = DefaultControllerRateLimiter\<rparr>"

definition AddRateLimited :: "int \<Rightarrow> 'k \<Rightarrow> 'k rate_queue \<Rightarrow> 'k rate_queue option" where
  "AddRateLimited bucket item q =
     (let (delay, r) = LimiterWhen bucket item (rq_limiter q) in
      map_option (\<lambda>d. q\<lparr>rq_delaying := d, rq_limiter := r\<rparr>) (AddAfter item delay (rq_delaying q)))"

definition NumRequeues :: "'k \<Rightarrow> 'k rate_queue \<Rightarrow> nat" where
  "NumRequeues item q = failures_of (rq_limiter q) item"

definition Forget :: "'k \<Rightarrow> 'k rate_queue \<Rightarrow> 'k rate_queue" where
  "Forget item q = q\<lparr>rq_limiter := FailureForget item (rq_limiter q)\<rparr>"

section \<open>Delays\<close>

text \<open>The delays of \<open>n\<close> failures in a row.\<close>

fun retry_delays :: "nat \<Rightarrow> 'k \<Rightarrow> 'k failure_limiter \<Rightarrow> int list \<times> 'k failure_limiter" where
  "retry_delays 0 item r = ([], r)"
| "retry_delays (Suc n) item r =
     (let (d, r1) = LimiterWhen 0 item r; (ds, r2) = retry_delays n item r1 in (d # ds, r2))"

definition backoff_delay :: "nat \<Rightarrow> int" where
  "backoff_delay n = min (5000000 * 2 ^ n) 1000000000000"

definition default_limits :: "'k failure_limiter \<Rightarrow> bool" where
  "default_limits r \<longleftrightarrow> fl_baseDelay r = 5000000 \<and> fl_maxDelay r = 1000000000000"

lemma backoff_nonneg [simp]: "0 \<le> backoff_delay n"
  by (simp add: backoff_delay_def)

lemma LimiterWhen_default:
  assumes "default_limits r"
  shows "LimiterWhen bucket item r =
    (max bucket (backoff_delay (failures_of r item)),
     r\<lparr>fl_failures := (fl_failures r)(item \<mapsto> failures_of r item + 1)\<rparr>)"
proof -
  have "0 < (5000000::int) * 2 ^ failures_of r item" by simp
  with assms show ?thesis
    by (simp add: LimiterWhen_def FailureWhen_def default_limits_def backoff_delay_def Let_def max_def min_def)
qed

lemma retry_delays_default:
  "default_limits r \<Longrightarrow> fst (retry_delays n item r) =
     map (\<lambda>i. backoff_delay (failures_of r item + i)) [0..<n] \<and>
   default_limits (snd (retry_delays n item r)) \<and>
   failures_of (snd (retry_delays n item r)) item = failures_of r item + n"
proof (induction n arbitrary: r)
  case 0
  then show ?case by simp
next
  case (Suc n)
  let ?r = "r\<lparr>fl_failures := (fl_failures r)(item \<mapsto> failures_of r item + 1)\<rparr>"
  have r: "default_limits ?r" "failures_of ?r item = failures_of r item + 1"
    using Suc.prems by (simp_all add: default_limits_def failures_of_def)
  show ?case
    using Suc.IH [OF r(1)] r(2) Suc.prems
    by (simp add: LimiterWhen_default case_prod_beta upt_conv_Cons comp_def del: upt_Suc flip: map_Suc_upt)
qed

lemma backoff_saturates: "backoff_delay n = (if n < 18 then 5000000 * 2 ^ n else 1000000000000)"
proof (cases "n < 18")
  case True
  then have "n \<le> 17" by simp
  then have "(2::int) ^ n \<le> 2 ^ 17" by (rule power_increasing) simp
  with True show ?thesis by (simp add: backoff_delay_def)
next
  case False
  then have "(2::int) ^ 18 \<le> 2 ^ n" by (intro power_increasing) simp_all
  with False show ?thesis by (simp add: backoff_delay_def)
qed


section \<open>A delayed key comes back\<close>

text \<open>\<open>due k t q\<close>: the key is pending, or an entry for a time not after \<open>t\<close> is on its way.\<close>

definition entries :: "'k delaying_queue \<Rightarrow> ('k \<times> int) set" where
  "entries q = set (dq_channel q) \<union> set (dq_waiting q)"

definition due :: "'k \<Rightarrow> int \<Rightarrow> 'k delaying_queue \<Rightarrow> bool" where
  "due k t q \<longleftrightarrow> k \<in> tq_dirty (dq_typed q) \<or> (\<exists>t'\<le>t. (k, t') \<in> entries q)"

definition waiting_ok :: "('k \<times> int) list \<Rightarrow> bool" where
  "waiting_ok es \<longleftrightarrow> sorted (map snd es) \<and> distinct (map fst es)"

lemma set_heap_push [simp]: "set (heap_push e es) = insert e (set es)"
  by (induction es) auto

lemma keys_heap_push [simp]: "set (map fst (heap_push e es)) = insert (fst e) (set (map fst es))"
  by (metis image_insert set_heap_push set_map)

lemma sorted_heap_push: "sorted (map snd es) \<Longrightarrow> sorted (map snd (heap_push e es))"
  by (induction es) auto

lemma distinct_heap_push: "fst e \<notin> fst ` set es \<Longrightarrow> distinct (map fst es) \<Longrightarrow> distinct (map fst (heap_push e es))"
  by (induction es) auto

lemma waiting_ok_push: "waiting_ok es \<Longrightarrow> fst e \<notin> fst ` set es \<Longrightarrow> waiting_ok (heap_push e es)"
  by (simp add: waiting_ok_def sorted_heap_push distinct_heap_push)

lemma waiting_ok_filter: "waiting_ok es \<Longrightarrow> waiting_ok (heap_remove k es)"
  by (simp add: waiting_ok_def heap_remove_def sorted_filter distinct_map_filter)

lemma waiting_insert_ok: "waiting_ok es \<Longrightarrow> waiting_ok (waiting_insert e es)"
  by (auto simp: waiting_insert_def map_of_eq_None_iff heap_remove_def [of "fst e"]
      intro!: waiting_ok_push waiting_ok_filter [of es "fst e", unfolded heap_remove_def]
      split: option.splits)

lemma waiting_insert_keeps:
  assumes "waiting_ok es" and "(k, t) \<in> insert e (set es)"
  shows "\<exists>t'\<le>t. (k, t') \<in> set (waiting_insert e es)"
proof (cases "map_of es (fst e)")
  case None
  with assms(2) show ?thesis by (auto simp: waiting_insert_def)
next
  case (Some r)
  then have r: "(fst e, r) \<in> set es" by (rule map_of_SomeD)
  show ?thesis
  proof (cases "k = fst e")
    case True
    have "(k, t) \<in> set es \<Longrightarrow> t = r"
      using assms(1) True Some by (metis map_of_is_SomeI option.sel waiting_ok_def)
    with assms(2) have "t = r \<or> t = snd e" by (metis insertE snd_conv)
    show ?thesis
    proof (cases "snd e < r")
      case less: True
      with \<open>t = r \<or> t = snd e\<close> have "snd e \<le> t" by auto
      with Some less True show ?thesis by (intro exI [of _ "snd e"]) (simp add: waiting_insert_def)
    next
      case False
      with \<open>t = r \<or> t = snd e\<close> have "r \<le> t" by auto
      with Some False r True show ?thesis by (intro exI [of _ r]) (simp add: waiting_insert_def)
    qed
  next
    case False
    with assms(2) Some show ?thesis by (cases e) (auto simp: waiting_insert_def heap_remove_def)
  qed
qed

lemma QueueAdd_fields [simp]:
  "tq_dirty (QueueAdd k q) = (if tq_shuttingDown q then tq_dirty q else insert k (tq_dirty q))"
  "tq_processing (QueueAdd k q) = tq_processing q"
  "tq_shuttingDown (QueueAdd k q) = tq_shuttingDown q"
  by (rule typed.add_pending typed.add_busy typed.add_closed)+

lemma add_ready_fields:
  "tq_processing (snd (add_ready now es q)) = tq_processing q \<and>
   tq_shuttingDown (snd (add_ready now es q)) = tq_shuttingDown q"
  by (induction now es q rule: add_ready.induct) simp_all

lemma add_ready_ok: "queue_ok q \<Longrightarrow> queue_ok (snd (add_ready now es q))"
  by (induction now es q rule: add_ready.induct) (simp_all add: QueueAdd_ok)

lemma add_ready_suffix: "suffix (fst (add_ready now es q)) es"
  by (induction now es q rule: add_ready.induct) (auto simp: suffix_ConsI)

lemma add_ready_bounds:
  "tq_dirty q \<subseteq> tq_dirty (snd (add_ready now es q)) \<and>
   tq_dirty (snd (add_ready now es q)) \<subseteq> tq_dirty q \<union> fst ` set es"
proof (induction now es q rule: add_ready.induct)
  case (2 now k readyAt es q)
  then show ?case by (cases "readyAt > now"; cases "tq_shuttingDown q"; simp) blast+
qed simp

lemma add_ready_fires:
  assumes "sorted (map snd es)" and "\<not> tq_shuttingDown q" and "(k, t) \<in> set es"
  shows "if t \<le> now then k \<in> tq_dirty (snd (add_ready now es q)) else (k, t) \<in> set (fst (add_ready now es q))"
  using assms
proof (induction now es q rule: add_ready.induct)
  case (2 now k' readyAt es q)
  show ?case
  proof (cases "readyAt > now")
    case True
    with 2 show ?thesis by fastforce
  next
    case False
    have "k' \<in> tq_dirty (snd (add_ready now es (QueueAdd k' q)))"
      using add_ready_bounds [of "QueueAdd k' q" now es] 2(3) by (simp add: subset_iff)
    with 2 False show ?thesis by fastforce
  qed
qed simp

lemma waiting_ok_suffix: "suffix es' es \<Longrightarrow> waiting_ok es \<Longrightarrow> waiting_ok es'"
  by (auto simp: suffix_def waiting_ok_def sorted_append)

text \<open>Invariant of the delaying queue.\<close>

definition delaying_ok :: "'k delaying_queue \<Rightarrow> bool" where
  "delaying_ok q \<longleftrightarrow> queue_ok (dq_typed q) \<and> waiting_ok (dq_waiting q) \<and> length (dq_channel q) \<le> channelSize"

lemma loop_ready_ok: "delaying_ok q \<Longrightarrow> delaying_ok (loop_ready q)"
  by (auto simp: delaying_ok_def loop_ready_def case_prod_beta add_ready_ok intro: waiting_ok_suffix add_ready_suffix)

lemma receive_entry_ok: "delaying_ok q \<Longrightarrow> delaying_ok (receive_entry e q)"
  by (simp add: delaying_ok_def receive_entry_def delayingAdd_def waiting_insert_ok QueueAdd_ok)

lemma fold_receive_ok: "delaying_ok q \<Longrightarrow> delaying_ok (fold receive_entry es q)"
  by (induction es arbitrary: q) (simp_all add: receive_entry_ok)

lemma loop_receive_ok: "delaying_ok q \<Longrightarrow> delaying_ok (loop_receive q)"
  unfolding loop_receive_def by (rule fold_receive_ok) (simp add: delaying_ok_def)

lemma waitingLoop_ok: "delaying_ok q \<Longrightarrow> delaying_ok (waitingLoop_pass q)"
  by (simp add: waitingLoop_pass_def loop_ready_ok loop_receive_ok)

lemma AddAfter_ok: "delaying_ok q \<Longrightarrow> AddAfter k d q = Some q' \<Longrightarrow> delaying_ok q'"
  by (auto simp: AddAfter_def delaying_ok_def delayingAdd_def QueueAdd_ok split: if_splits)

lemma receive_entry_fields [simp]:
  "tq_processing (dq_typed (receive_entry e q)) = tq_processing (dq_typed q)"
  "tq_shuttingDown (dq_typed (receive_entry e q)) = tq_shuttingDown (dq_typed q)"
  "dq_now (receive_entry e q) = dq_now q" "dq_channel (receive_entry e q) = dq_channel q"
  by (simp_all add: receive_entry_def delayingAdd_def)

lemma fold_receive_fields [simp]:
  "tq_processing (dq_typed (fold receive_entry es q)) = tq_processing (dq_typed q)"
  "tq_shuttingDown (dq_typed (fold receive_entry es q)) = tq_shuttingDown (dq_typed q)"
  "dq_now (fold receive_entry es q) = dq_now q" "dq_channel (fold receive_entry es q) = dq_channel q"
  by (induction es arbitrary: q) simp_all

lemma waitingLoop_fields [simp]:
  "tq_processing (dq_typed (waitingLoop_pass q)) = tq_processing (dq_typed q)"
  "tq_shuttingDown (dq_typed (waitingLoop_pass q)) = tq_shuttingDown (dq_typed q)"
  "dq_now (waitingLoop_pass q) = dq_now q"
  by (simp_all add: waitingLoop_pass_def loop_receive_def loop_ready_def case_prod_beta add_ready_fields)

lemma receive_due:
  assumes "delaying_ok q" and "\<not> tq_shuttingDown (dq_typed q)"
    and "due k t (q\<lparr>dq_channel := e # es\<rparr>)"
  shows "due k t ((receive_entry e q)\<lparr>dq_channel := es\<rparr>)"
proof (cases "snd e > dq_now q")
  case False
  with assms(2,3) show ?thesis
    by (cases e) (auto simp: due_def entries_def receive_entry_def delayingAdd_def)
next
  case True
  have "waiting_ok (dq_waiting q)" using assms(1) by (simp add: delaying_ok_def)
  note keeps = waiting_insert_keeps [OF this, of _ _ e]
  from assms(3) consider "k \<in> tq_dirty (dq_typed q)" | t' where "t' \<le> t" "(k, t') \<in> set es"
    | t' where "t' \<le> t" "(k, t') \<in> insert e (set (dq_waiting q))"
    by (auto simp: due_def entries_def)
  then show ?thesis
  proof cases
    case 3
    from keeps [OF 3(2)] 3(1) True show ?thesis
      by (auto simp: due_def entries_def receive_entry_def intro: order_trans)
  qed (use True in \<open>auto simp: due_def entries_def receive_entry_def\<close>)
qed

lemma fold_receive_due:
  assumes "delaying_ok (q\<lparr>dq_channel := []\<rparr>)" and "\<not> tq_shuttingDown (dq_typed q)"
    and "due k t (q\<lparr>dq_channel := es\<rparr>)"
  shows "due k t (fold receive_entry es (q\<lparr>dq_channel := []\<rparr>))"
  using assms
proof (induction es arbitrary: q)
  case Nil
  then show ?case by simp
next
  case (Cons e es)
  have eq: "(receive_entry e (q\<lparr>dq_channel := []\<rparr>))\<lparr>dq_channel := []\<rparr> = receive_entry e (q\<lparr>dq_channel := []\<rparr>)"
    by (simp add: receive_entry_def delayingAdd_def)
  have "due k t ((receive_entry e (q\<lparr>dq_channel := []\<rparr>))\<lparr>dq_channel := es\<rparr>)"
    using Cons.prems by (intro receive_due) simp_all
  then show ?case
    using Cons.IH [of "receive_entry e (q\<lparr>dq_channel := []\<rparr>)"] Cons.prems
      receive_entry_ok [of "q\<lparr>dq_channel := []\<rparr>" e]
    by (simp add: eq)
qed

lemma loop_ready_due:
  assumes "delaying_ok q" and "\<not> tq_shuttingDown (dq_typed q)" and "due k t q"
  shows "due k t (loop_ready q)"
proof -
  have "sorted (map snd (dq_waiting q))" using assms(1) by (simp add: delaying_ok_def waiting_ok_def)
  note fires = add_ready_fires [OF this assms(2), of k _ "dq_now q"]
  have dirty: "tq_dirty (dq_typed q) \<subseteq> tq_dirty (snd (add_ready (dq_now q) (dq_waiting q) (dq_typed q)))"
    by (rule conjunct1 [OF add_ready_bounds])
  from assms(3) consider "k \<in> tq_dirty (dq_typed q)" | t' where "t' \<le> t" "(k, t') \<in> set (dq_channel q)"
    | t' where "t' \<le> t" "(k, t') \<in> set (dq_waiting q)"
    by (auto simp: due_def entries_def)
  then show ?thesis
  proof cases
    case 3
    with fires [OF 3(2)] show ?thesis
      by (auto simp: due_def entries_def loop_ready_def case_prod_beta split: if_splits)
  qed (use dirty in \<open>auto simp: due_def entries_def loop_ready_def case_prod_beta\<close>)
qed

lemma waitingLoop_due:
  assumes "delaying_ok q" and "\<not> tq_shuttingDown (dq_typed q)" and "due k t q"
  shows "due k t (waitingLoop_pass q)"
proof -
  let ?q = "loop_ready q"
  have ok: "delaying_ok (?q\<lparr>dq_channel := []\<rparr>)"
    using loop_ready_ok [OF assms(1)] by (simp add: delaying_ok_def)
  have open': "\<not> tq_shuttingDown (dq_typed ?q)"
    using assms(2) by (simp add: loop_ready_def case_prod_beta add_ready_fields)
  show ?thesis
    using fold_receive_due [OF ok open', of k t "dq_channel ?q"] loop_ready_due [OF assms] assms(2)
    by (simp add: waitingLoop_pass_def loop_receive_def)
qed

text \<open>A pass leaves nothing behind that is ready.\<close>

lemma add_ready_rest:
  "sorted (map snd es) \<Longrightarrow> e \<in> set (fst (add_ready now es q)) \<Longrightarrow> now < snd e"
  by (induction now es q rule: add_ready.induct) (fastforce split: if_splits)+

lemma waiting_insert_later:
  "\<forall>e\<in>set es. now < snd e \<Longrightarrow> now < snd x \<Longrightarrow> e \<in> set (waiting_insert x es) \<Longrightarrow> now < snd e"
  by (auto simp: waiting_insert_def heap_remove_def split: option.splits if_splits)

lemma fold_receive_later:
  "\<forall>e\<in>set (dq_waiting q). dq_now q < snd e \<Longrightarrow>
   \<forall>e\<in>set (dq_waiting (fold receive_entry es q)). dq_now q < snd e"
proof (induction es arbitrary: q)
  case (Cons x es)
  have "\<forall>e\<in>set (dq_waiting (receive_entry x q)). dq_now q < snd e"
    using Cons.prems waiting_insert_later [of "dq_waiting q" "dq_now q" x]
    by (auto simp: receive_entry_def delayingAdd_def)
  then show ?case using Cons.IH [of "receive_entry x q"] by simp
qed simp

lemma waitingLoop_flushes:
  assumes "delaying_ok q" and "\<not> tq_shuttingDown (dq_typed q)" and "(k, t) \<in> entries (waitingLoop_pass q)"
  shows "dq_now q < t"
proof -
  have sorted: "sorted (map snd (dq_waiting q))" using assms(1) by (simp add: delaying_ok_def waiting_ok_def)
  have "\<forall>e\<in>set (dq_waiting (loop_ready q)). dq_now q < snd e"
    using add_ready_rest [OF sorted] by (simp add: loop_ready_def case_prod_beta)
  then have "\<forall>e\<in>set (dq_waiting (loop_receive (loop_ready q))). dq_now q < snd e"
    using fold_receive_later [of "(loop_ready q)\<lparr>dq_channel := []\<rparr>" "dq_channel (loop_ready q)"]
    by (simp add: loop_receive_def loop_ready_def case_prod_beta)
  with assms(2,3) show ?thesis
    by (auto simp: entries_def waitingLoop_pass_def loop_receive_def)
qed

lemma waitingLoop_fires:
  assumes "delaying_ok q" and "\<not> tq_shuttingDown (dq_typed q)" and "due k t q" and "t \<le> dq_now q"
  shows "k \<in> tq_dirty (dq_typed (waitingLoop_pass q))"
  using waitingLoop_due [OF assms(1-3)] waitingLoop_flushes [OF assms(1,2), of k] assms(4)
  unfolding due_def by force

lemma AddAfter_due:
  "\<not> tq_shuttingDown (dq_typed q) \<Longrightarrow> AddAfter k d q = Some q' \<Longrightarrow> due k (dq_now q + max d 0) q'"
  by (auto simp: AddAfter_def due_def entries_def delayingAdd_def max_def split: if_splits)

lemma due_mono: "due k t q \<Longrightarrow> t \<le> t' \<Longrightarrow> due k t' q"
  unfolding due_def by (meson order_trans)

text \<open>The queue invents no keys.\<close>

definition known_keys :: "'k delaying_queue \<Rightarrow> 'k set" where
  "known_keys q = tq_dirty (dq_typed q) \<union> fst ` entries q"

lemma loop_ready_keys: "known_keys (loop_ready q) \<subseteq> known_keys q"
proof -
  have "set (fst (add_ready (dq_now q) (dq_waiting q) (dq_typed q))) \<subseteq> set (dq_waiting q)"
    by (rule set_mono_suffix [OF add_ready_suffix])
  then show ?thesis
    using conjunct2 [OF add_ready_bounds, of "dq_now q" "dq_waiting q" "dq_typed q"]
    by (auto simp: known_keys_def entries_def loop_ready_def case_prod_beta)
qed

lemma receive_entry_keys: "known_keys (receive_entry e q) \<subseteq> insert (fst e) (known_keys q)"
  by (auto simp: known_keys_def entries_def receive_entry_def delayingAdd_def waiting_insert_def
      heap_remove_def split: option.splits if_splits)

lemma fold_receive_keys: "known_keys (fold receive_entry es q) \<subseteq> fst ` set es \<union> known_keys q"
proof (induction es arbitrary: q)
  case (Cons e es)
  show ?case using Cons.IH [of "receive_entry e q"] receive_entry_keys [of e q] by auto
qed simp

lemma waitingLoop_keys: "known_keys (waitingLoop_pass q) \<subseteq> known_keys q"
proof -
  have "known_keys (loop_receive (loop_ready q)) \<subseteq> known_keys (loop_ready q)"
    using fold_receive_keys [of "dq_channel (loop_ready q)" "(loop_ready q)\<lparr>dq_channel := []\<rparr>"]
    by (auto simp: loop_receive_def known_keys_def entries_def)
  with loop_ready_keys [of q] show ?thesis by (auto simp: waitingLoop_pass_def)
qed

lemma AddAfter_keys: "AddAfter k d q = Some q' \<Longrightarrow> known_keys q' \<subseteq> insert k (known_keys q)"
  by (auto simp: AddAfter_def known_keys_def entries_def delayingAdd_def split: if_splits)

lemma AddAfter_fields:
  "AddAfter k d q = Some q' \<Longrightarrow> tq_processing (dq_typed q') = tq_processing (dq_typed q) \<and>
     tq_shuttingDown (dq_typed q') = tq_shuttingDown (dq_typed q) \<and> dq_now q' = dq_now q \<and>
     tq_dirty (dq_typed q) \<subseteq> tq_dirty (dq_typed q')"
  by (auto simp: AddAfter_def delayingAdd_def split: if_splits)

end
