(* ===== verification/Controller_Loop.thy ===== *)
theory Controller_Loop
  imports Work_Queue Reconciler
begin

text \<open>
  The control loop of the reconciler (\<^verbatim>\<open>pkg/operator/target_config_reconciler.go\<close>:
  \<^verbatim>\<open>eventHandler\<close>, \<^verbatim>\<open>Run\<close>, \<^verbatim>\<open>runWorker\<close>, \<^verbatim>\<open>processNextWorkItem\<close>): informer events put the
  one key into the rate-limited queue, one worker takes it out and syncs. The goroutines are
  a step relation: event handlers, the clock, the queue's waiting loop, other clients of the
  API server and the end of the program interleave with the stages of
  \<open>processNextWorkItem\<close>; one \<open>sync\<close> is one step.
\<close>

section \<open>State\<close>

definition workQueueKey :: string where "workQueueKey = ''key''"

text \<open>Where the worker is. \<open>Finishing k p\<close> runs the deferred \<open>Done\<close>, after a panic if \<open>p\<close>.\<close>

datatype phase =
    Fetching
  | Syncing string
  | Settling string "go_error option"
  | Finishing string bool
  | Exited
  | Crashed

record 'w operator_loop =
  ol_env :: "'w env"
  ol_queue :: "string rate_queue"
  ol_phase :: phase

abbreviation typed_of :: "'w operator_loop \<Rightarrow> string typed_queue" where
  "typed_of s \<equiv> dq_typed (rq_delaying (ol_queue s))"

abbreviation delaying_of :: "'w operator_loop \<Rightarrow> string delaying_queue" where
  "delaying_of s \<equiv> rq_delaying (ol_queue s)"

definition on_delaying ::
  "(string delaying_queue \<Rightarrow> string delaying_queue) \<Rightarrow> 'w operator_loop \<Rightarrow> 'w operator_loop" where
  "on_delaying f s = s\<lparr>ol_queue := (ol_queue s)\<lparr>rq_delaying := f (rq_delaying (ol_queue s))\<rparr>\<rparr>"

definition on_typed ::
  "(string typed_queue \<Rightarrow> string typed_queue) \<Rightarrow> 'w operator_loop \<Rightarrow> 'w operator_loop" where
  "on_typed f = on_delaying (\<lambda>d. d\<lparr>dq_typed := f (dq_typed d)\<rparr>)"

text \<open>Add, update and delete handlers do the same, for both informers.\<close>

datatype informer_event = AddFunc | UpdateFunc | DeleteFunc

fun eventHandler :: "informer_event \<Rightarrow> 'w operator_loop \<Rightarrow> 'w operator_loop" where
  "eventHandler AddFunc s = on_typed (QueueAdd workQueueKey) s"
| "eventHandler UpdateFunc s = on_typed (QueueAdd workQueueKey) s"
| "eventHandler DeleteFunc s = on_typed (QueueAdd workQueueKey) s"

section \<open>The worker\<close>

fun is_panic :: "go_error \<Rightarrow> bool" where
  "is_panic (Panic _) = True"
| "is_panic _ = False"

text \<open>The stages of \<open>processNextWorkItem\<close>. \<open>None\<close> is a stage that waits.\<close>

definition take_item :: "'w operator_loop \<Rightarrow> 'w operator_loop option" where
  "take_item s =
     (case QueueGet (typed_of s) of
        Blocked \<Rightarrow> None
      | Quit \<Rightarrow> Some (s\<lparr>ol_phase := Exited\<rparr>)
      | Item dsKey q \<Rightarrow> Some ((on_typed (\<lambda>_. q) s)\<lparr>ol_phase := Syncing dsKey\<rparr>))"

definition sync_item :: "'w reconciler \<Rightarrow> string \<Rightarrow> 'w operator_loop \<Rightarrow> 'w operator_loop" where
  "sync_item c dsKey s =
     (let (err, e) = sync c (ol_env s) in s\<lparr>ol_env := e, ol_phase := Settling dsKey err\<rparr>)"

definition settle_item :: "int \<Rightarrow> string \<Rightarrow> go_error option \<Rightarrow> 'w operator_loop \<Rightarrow> 'w operator_loop option" where
  "settle_item bucket dsKey err s =
     (case err of
        None \<Rightarrow> Some (s\<lparr>ol_queue := Forget dsKey (ol_queue s), ol_phase := Finishing dsKey False\<rparr>)
      | Some e \<Rightarrow>
          if is_panic e then Some (s\<lparr>ol_phase := Finishing dsKey True\<rparr>)
          else map_option (\<lambda>q. s\<lparr>ol_queue := q, ol_phase := Finishing dsKey False\<rparr>)
                 (AddRateLimited bucket dsKey (ol_queue s)))"

definition finish_item :: "string \<Rightarrow> bool \<Rightarrow> 'w operator_loop \<Rightarrow> 'w operator_loop" where
  "finish_item dsKey panicking s =
     (on_typed (QueueDone dsKey) s)\<lparr>ol_phase := (if panicking then Crashed else Fetching)\<rparr>"

text \<open>
  A call of \<open>processNextWorkItem\<close> that nothing interrupts; the flag is its result, and a call
  that waits or panics has none.
\<close>

definition processNextWorkItem ::
  "'w reconciler \<Rightarrow> int \<Rightarrow> 'w operator_loop \<Rightarrow> (bool \<times> 'w operator_loop) option" where
  "processNextWorkItem c bucket s =
     (case take_item s of
        None \<Rightarrow> None
      | Some s1 \<Rightarrow>
          (case ol_phase s1 of
             Syncing dsKey \<Rightarrow>
               (let s2 = sync_item c dsKey s1 in
                case ol_phase s2 of
                  Settling _ err \<Rightarrow>
                    (case settle_item bucket dsKey err s2 of
                       None \<Rightarrow> None
                     | Some s3 \<Rightarrow>
                         (case ol_phase s3 of
                            Finishing _ panicking \<Rightarrow>
                              if panicking then None else Some (True, finish_item dsKey panicking s3)
                          | _ \<Rightarrow> None))
                | _ \<Rightarrow> None)
           | _ \<Rightarrow> Some (False, s1)))"

text \<open>\<open>runWorker\<close> with the delays of the bucket for its calls; it ends when a call returns false.\<close>

fun runWorker :: "'w reconciler \<Rightarrow> int list \<Rightarrow> 'w operator_loop \<Rightarrow> bool \<times> 'w operator_loop" where
  "runWorker c [] s = (True, s)"
| "runWorker c (b # bs) s =
     (case processNextWorkItem c b s of
        None \<Rightarrow> (True, s)
      | Some (again, s') \<Rightarrow> if again then runWorker c bs s' else (False, s'))"

section \<open>Steps\<close>

text \<open>\<open>Settle\<close> carries the result of the sync.\<close>

datatype label = Notify informer_event | Outside | Tick | WaitingLoop | Take | Leave | Work
  | Settle "go_error option" | Finish | Stop

inductive loop_step :: "'w reconciler \<Rightarrow> 'w operator_loop \<Rightarrow> label \<Rightarrow> 'w operator_loop \<Rightarrow> bool"
  for c :: "'w reconciler" where
  notify: "ol_phase s \<noteq> Crashed \<Longrightarrow> loop_step c s (Notify ev) (eventHandler ev s)"
| outside: "loop_step c s Outside (s\<lparr>ol_env := e\<rparr>)"
| tick: "0 \<le> d \<Longrightarrow> loop_step c s Tick (on_delaying (\<lambda>q. q\<lparr>dq_now := dq_now q + d\<rparr>) s)"
| waiting: "ol_phase s \<noteq> Crashed \<Longrightarrow> loop_step c s WaitingLoop (on_delaying waitingLoop_pass s)"
| take: "ol_phase s = Fetching \<Longrightarrow> take_item s = Some s' \<Longrightarrow> ol_phase s' = Syncing k \<Longrightarrow> loop_step c s Take s'"
| leave: "ol_phase s = Fetching \<Longrightarrow> take_item s = Some s' \<Longrightarrow> ol_phase s' = Exited \<Longrightarrow> loop_step c s Leave s'"
| work: "ol_phase s = Syncing k \<Longrightarrow> loop_step c s Work (sync_item c k s)"
| settle: "ol_phase s = Settling k err \<Longrightarrow> settle_item bucket k err s = Some s' \<Longrightarrow>
    loop_step c s (Settle err) s'"
| finish: "ol_phase s = Finishing k p \<Longrightarrow> loop_step c s Finish (finish_item k p s)"
| stop: "ol_phase s \<noteq> Crashed \<Longrightarrow> loop_step c s Stop (on_delaying delayingShutDown s)"

inductive loop_run :: "'w reconciler \<Rightarrow> 'w operator_loop \<Rightarrow> label list \<Rightarrow> 'w operator_loop \<Rightarrow> bool"
  for c :: "'w reconciler" where
  here: "loop_run c s [] s"
| step: "loop_step c s l s1 \<Longrightarrow> loop_run c s1 ls s2 \<Longrightarrow> loop_run c s (l # ls) s2"

inductive_simps loop_run_Nil [simp]: "loop_run c s [] s'"
inductive_simps loop_run_Cons [simp]: "loop_run c s (l # ls) s'"

text \<open>\<open>Run\<close> starts the worker on an empty queue.\<close>

definition started :: "int \<Rightarrow> 'w env \<Rightarrow> 'w operator_loop" where
  "started now e = \<lparr>ol_env = e, ol_queue = NewRateLimitingQueue now, ol_phase = Fetching\<rparr>"

lemma loop_run_append: "loop_run c s (ls1 @ ls2) s' \<longleftrightarrow> (\<exists>s1. loop_run c s ls1 s1 \<and> loop_run c s1 ls2 s')"
  by (induction ls1 arbitrary: s) auto

section \<open>The invariant\<close>

fun working_on :: "phase \<Rightarrow> string set" where
  "working_on (Syncing k) = {k}"
| "working_on (Settling k _) = {k}"
| "working_on (Finishing k _) = {k}"
| "working_on _ = {}"

definition loop_ok :: "'w operator_loop \<Rightarrow> bool" where
  "loop_ok s \<longleftrightarrow> delaying_ok (delaying_of s) \<and> default_limits (rq_limiter (ol_queue s)) \<and>
     tq_processing (typed_of s) = working_on (ol_phase s) \<and>
     known_keys (delaying_of s) \<union> working_on (ol_phase s) \<subseteq> {workQueueKey}"

lemma loop_projections [simp]:
  "ol_env (on_delaying f s) = ol_env s" "ol_phase (on_delaying f s) = ol_phase s"
  "delaying_of (on_delaying f s) = f (delaying_of s)"
  "rq_limiter (ol_queue (on_delaying f s)) = rq_limiter (ol_queue s)"
  "ol_env (on_typed g s) = ol_env s" "ol_phase (on_typed g s) = ol_phase s"
  "delaying_of (on_typed g s) = (delaying_of s)\<lparr>dq_typed := g (typed_of s)\<rparr>"
  "rq_limiter (ol_queue (on_typed g s)) = rq_limiter (ol_queue s)"
  by (simp_all add: on_delaying_def on_typed_def)

lemma eventHandler_eq: "eventHandler ev s = on_typed (QueueAdd workQueueKey) s"
  by (cases ev) simp_all


lemma started_ok: "loop_ok (started now e)"
  by (simp add: loop_ok_def started_def NewRateLimitingQueue_def newDelayingQueue_def newQueue_def
      delaying_ok_def queue_ok_def waiting_ok_def default_limits_def DefaultControllerRateLimiter_def
      known_keys_def entries_def)

lemma take_item_cases:
  assumes "take_item s = Some s'"
  obtains (item) k q where "QueueGet (typed_of s) = Item k q" "s' = (on_typed (\<lambda>_. q) s)\<lparr>ol_phase := Syncing k\<rparr>"
    | (quit) "QueueGet (typed_of s) = Quit" "s' = s\<lparr>ol_phase := Exited\<rparr>"
  using assms by (auto simp: take_item_def split: get_result.splits)

lemma settle_item_cases:
  assumes "settle_item bucket k err s = Some s'"
  obtains (success) "err = None" "s' = s\<lparr>ol_queue := Forget k (ol_queue s), ol_phase := Finishing k False\<rparr>"
    | (panic) e where "err = Some e" "is_panic e" "s' = s\<lparr>ol_phase := Finishing k True\<rparr>"
    | (failure) e q where "err = Some e" "\<not> is_panic e" "AddRateLimited bucket k (ol_queue s) = Some q"
        "s' = s\<lparr>ol_queue := q, ol_phase := Finishing k False\<rparr>"
  using assms by (auto simp: settle_item_def split: option.splits if_splits)

lemma AddRateLimited_Some:
  assumes "AddRateLimited bucket k q = Some q'" and "default_limits (rq_limiter q)"
  shows "AddAfter k (max bucket (backoff_delay (NumRequeues k q))) (rq_delaying q) = Some (rq_delaying q')"
    and "rq_limiter q' = (rq_limiter q)\<lparr>fl_failures :=
       (fl_failures (rq_limiter q))(k \<mapsto> NumRequeues k q + 1)\<rparr>"
  using assms by (auto simp: AddRateLimited_def LimiterWhen_default NumRequeues_def)

lemma loop_okD:
  assumes "loop_ok s"
  shows "delaying_ok (delaying_of s)" "queue_ok (typed_of s)" "default_limits (rq_limiter (ol_queue s))"
    "tq_processing (typed_of s) = working_on (ol_phase s)" "known_keys (delaying_of s) \<subseteq> {workQueueKey}"
    "working_on (ol_phase s) \<subseteq> {workQueueKey}" "tq_dirty (typed_of s) \<subseteq> {workQueueKey}"
  using assms by (simp_all add: loop_ok_def delaying_ok_def known_keys_def)

lemma loop_okI:
  "delaying_ok (delaying_of s) \<Longrightarrow> default_limits (rq_limiter (ol_queue s)) \<Longrightarrow>
   tq_processing (typed_of s) = working_on (ol_phase s) \<Longrightarrow> known_keys (delaying_of s) \<subseteq> {workQueueKey} \<Longrightarrow>
   working_on (ol_phase s) \<subseteq> {workQueueKey} \<Longrightarrow> loop_ok s"
  by (simp add: loop_ok_def)

lemma entries_typed [simp]: "entries (d\<lparr>dq_typed := t\<rparr>) = entries d"
  by (simp add: entries_def)

lemma known_keys_typed:
  "known_keys (d\<lparr>dq_typed := t\<rparr>) = tq_dirty t \<union> fst ` entries d"
  by (simp add: known_keys_def entries_def)

lemma delaying_ok_typed: "delaying_ok d \<Longrightarrow> queue_ok t \<Longrightarrow> delaying_ok (d\<lparr>dq_typed := t\<rparr>)"
  by (simp add: delaying_ok_def)

lemma loop_step_ok:
  assumes "loop_step c s l s'" and "loop_ok s"
  shows "loop_ok s'"
  using assms
proof cases
  note ok = loop_okD [OF assms(2)]
  case (notify ev)
  with ok show ?thesis
    by (intro loop_okI) (auto simp: eventHandler_eq delaying_ok_typed known_keys_typed QueueAdd_ok known_keys_def)
next
  note ok = loop_okD [OF assms(2)]
  case (outside e)
  with ok show ?thesis by (intro loop_okI) simp_all
next
  note ok = loop_okD [OF assms(2)]
  case (tick d)
  with ok show ?thesis by (intro loop_okI) (simp_all add: delaying_ok_def known_keys_def entries_def)
next
  note ok = loop_okD [OF assms(2)]
  case waiting
  with ok waitingLoop_ok waitingLoop_keys [of "delaying_of s"] show ?thesis
    by (intro loop_okI) (simp_all add: subset_trans)
next
  note ok = loop_okD [OF assms(2)]
  case (take k)
  from take(3) show ?thesis
  proof (cases rule: take_item_cases)
    case (item k' q)
    note got = QueueGet_item [OF ok(2) item(1)] QueueGet_ok [OF ok(2) item(1)]
    with item ok take(2) show ?thesis
      by (intro loop_okI) (auto simp: delaying_ok_typed known_keys_typed known_keys_def)
  qed (use take in simp)
next
  note ok = loop_okD [OF assms(2)]
  case leave
  from leave(3) show ?thesis
  proof (cases rule: take_item_cases)
    case quit
    with ok leave show ?thesis by (intro loop_okI) simp_all
  qed (use leave in simp)
next
  note ok = loop_okD [OF assms(2)]
  case (work k)
  with ok show ?thesis by (intro loop_okI) (simp_all add: sync_item_def case_prod_beta)
next
  note ok = loop_okD [OF assms(2)]
  case (settle k err bucket)
  from settle(3) show ?thesis
  proof (cases rule: settle_item_cases)
    case (failure e q)
    note d = AddRateLimited_Some [OF failure(3) ok(3)]
    from AddAfter_ok [OF ok(1) d(1)] AddAfter_keys [OF d(1)] AddAfter_fields [OF d(1)] ok settle failure(4) d(2)
    show ?thesis by (intro loop_okI) (auto simp: default_limits_def)
  qed (use ok settle in \<open>simp_all add: loop_ok_def Forget_def FailureForget_def default_limits_def\<close>)
next
  note ok = loop_okD [OF assms(2)]
  case (finish k p)
  with ok QueueDone_ok [OF ok(2), of k] show ?thesis
    by (intro loop_okI)
      (auto simp: finish_item_def delaying_ok_typed known_keys_typed known_keys_def typed.done_pending typed.done_busy)
next
  note ok = loop_okD [OF assms(2)]
  case stop
  with ok show ?thesis
    by (intro loop_okI) (simp_all add: delayingShutDown_def delaying_ok_typed known_keys_typed typed.shut_ok
        typed.shut_pending typed.shut_busy known_keys_def)
qed

lemma loop_run_ok: "loop_run c s ls s' \<Longrightarrow> loop_ok s \<Longrightarrow> loop_ok s'"
  by (induction rule: loop_run.induct) (auto intro: loop_step_ok)

section \<open>Nothing is lost\<close>

definition open_loop :: "'w operator_loop \<Rightarrow> bool" where
  "open_loop s \<longleftrightarrow> \<not> tq_shuttingDown (typed_of s)"

lemma QueueDone_fields [simp]:
  "tq_dirty (QueueDone k q) = tq_dirty q" "tq_processing (QueueDone k q) = tq_processing q - {k}"
  "tq_shuttingDown (QueueDone k q) = tq_shuttingDown q"
  by (rule typed.done_pending typed.done_busy typed.done_closed)+

lemma QueueShutDown_fields [simp]:
  "tq_dirty (QueueShutDown q) = tq_dirty q" "tq_processing (QueueShutDown q) = tq_processing q"
  "tq_shuttingDown (QueueShutDown q)"
  by (rule typed.shut_pending typed.shut_busy typed.shut_closed)+

lemma waitingLoop_dirty: "tq_dirty (dq_typed q) \<subseteq> tq_dirty (dq_typed (waitingLoop_pass q))"
proof -
  have receive: "tq_dirty (dq_typed q) \<subseteq> tq_dirty (dq_typed (fold receive_entry es q))" for es and q :: "'a delaying_queue"
  proof (induction es arbitrary: q)
    case (Cons e es)
    have "tq_dirty (dq_typed q) \<subseteq> tq_dirty (dq_typed (receive_entry e q))"
      by (auto simp: receive_entry_def delayingAdd_def)
    with Cons show ?case by (simp add: subset_trans)
  qed simp
  have "tq_dirty (dq_typed q) \<subseteq> tq_dirty (dq_typed (loop_ready q))"
    using conjunct1 [OF add_ready_bounds] by (simp add: loop_ready_def case_prod_beta)
  with receive [of "(loop_ready q)\<lparr>dq_channel := []\<rparr>" "dq_channel (loop_ready q)"] show ?thesis
    by (auto simp: waitingLoop_pass_def loop_receive_def)
qed

lemma loop_step_dirty:
  assumes "loop_step c s l s'" and "loop_ok s" and "l \<noteq> Take"
  shows "tq_dirty (typed_of s) \<subseteq> tq_dirty (typed_of s')"
  using assms(1)
proof cases
  case waiting
  then show ?thesis by (simp add: waitingLoop_dirty)
next
  case leave
  from leave(3) show ?thesis by (cases rule: take_item_cases) (use leave in simp_all)
next
  case (settle k err bucket)
  from settle(3) show ?thesis
  proof (cases rule: settle_item_cases)
    case (failure e q)
    note d = AddAfter_fields [OF AddRateLimited_Some(1) [OF failure(3) loop_okD(3) [OF assms(2)]]]
    with failure(4) show ?thesis by simp
  qed (simp_all add: Forget_def)
qed (use assms(3) in \<open>auto simp: eventHandler_eq sync_item_def case_prod_beta finish_item_def delayingShutDown_def\<close>)

lemma loop_step_closed:
  assumes "loop_step c s l s'" and "loop_ok s"
  shows "open_loop s' \<longleftrightarrow> open_loop s \<and> l \<noteq> Stop"
  using assms(1)
proof cases
  case (take k)
  from take(3) show ?thesis
  proof (cases rule: take_item_cases)
    case (item k q)
    with QueueGet_item [OF loop_okD(2) [OF assms(2)] item(1)] take(1) show ?thesis by (simp add: open_loop_def)
  qed (use take in simp)
next
  case leave
  from leave(3) show ?thesis by (cases rule: take_item_cases) (use leave in \<open>simp_all add: open_loop_def\<close>)
next
  case (settle k err bucket)
  from settle(3) show ?thesis
  proof (cases rule: settle_item_cases)
    case (failure e q)
    note d = AddAfter_fields [OF AddRateLimited_Some(1) [OF failure(3) loop_okD(3) [OF assms(2)]]]
    with failure(4) settle(1) show ?thesis by (simp add: open_loop_def)
  qed (use settle in \<open>simp_all add: Forget_def open_loop_def\<close>)
qed (auto simp: eventHandler_eq sync_item_def case_prod_beta finish_item_def delayingShutDown_def open_loop_def)

lemma loop_run_closed:
  "loop_run c s ls s' \<Longrightarrow> loop_ok s \<Longrightarrow> open_loop s' \<longleftrightarrow> open_loop s \<and> Stop \<notin> set ls"
proof (induction rule: loop_run.induct)
  case (step s l s1 ls s2)
  then show ?case
    using loop_step_closed [OF step(1)] loop_step_ok [OF step(1)] by auto
qed simp

lemma loop_run_dirty:
  "loop_run c s ls s' \<Longrightarrow> loop_ok s \<Longrightarrow> Take \<notin> set ls \<Longrightarrow> tq_dirty (typed_of s) \<subseteq> tq_dirty (typed_of s')"
proof (induction rule: loop_run.induct)
  case (step s l s1 ls s2)
  then show ?case
    using loop_step_dirty [OF step(1)] loop_step_ok [OF step(1)] by fastforce
qed simp

lemma started_open: "open_loop (started now e)"
  by (simp add: open_loop_def started_def NewRateLimitingQueue_def newDelayingQueue_def newQueue_def)

text \<open>A fetching worker takes the pending key; there is no other.\<close>

lemma fetch_pending:
  assumes "loop_ok s" and "ol_phase s = Fetching" and "workQueueKey \<in> tq_dirty (typed_of s)"
  obtains q where "QueueGet (typed_of s) = Item workQueueKey q" "tq_dirty q = {}"
    "take_item s = Some ((on_typed (\<lambda>_. q) s)\<lparr>ol_phase := Syncing workQueueKey\<rparr>)"
proof -
  note ok = loop_okD [OF assms(1)]
  have "workQueueKey \<notin> tq_processing (typed_of s)" using ok(4) assms(2) by simp
  with typed.get_only [OF ok(2,7) assms(3)] obtain q where
    "QueueGet (typed_of s) = Item workQueueKey q" "tq_dirty q = {}" by metis
  then show ?thesis by (intro that) (simp_all add: take_item_def)
qed

lemma pending_taken:
  assumes "loop_ok s" and "ol_phase s = Fetching" and "workQueueKey \<in> tq_dirty (typed_of s)"
  shows "\<exists>s'. loop_step c s Take s' \<and> ol_phase s' = Syncing workQueueKey \<and> ol_env s' = ol_env s"
  using fetch_pending [OF assms]
  by (metis loop_projections(5) loop_step.take assms(2) operator_loop.select_convs(3) operator_loop.update_convs(3)
      operator_loop.surjective operator_loop.select_convs(1))

lemma event_pending:
  assumes "loop_run c (started now e) (before @ Notify ev # after) s"
    and "Stop \<notin> set before" and "Take \<notin> set after"
  shows "workQueueKey \<in> tq_dirty (typed_of s)"
proof -
  from assms(1) obtain s1 s2 where run: "loop_run c (started now e) before s1"
    "loop_step c s1 (Notify ev) s2" "loop_run c s2 after s"
    by (auto simp: loop_run_append)
  note ok1 = loop_run_ok [OF run(1) started_ok]
  note ok2 = loop_step_ok [OF run(2) ok1]
  have "open_loop s1" using loop_run_closed [OF run(1) started_ok] started_open assms(2) by blast
  with run(2) have "workQueueKey \<in> tq_dirty (typed_of s2)"
    by cases (simp add: eventHandler_eq open_loop_def)
  with loop_run_dirty [OF run(3) ok2 assms(3)] show ?thesis by blast
qed

section \<open>Retries\<close>

lemma AddAfter_keeps_due: "AddAfter k' d q = Some q' \<Longrightarrow> due k t q \<Longrightarrow> due k t q'"
  by (auto simp: AddAfter_def due_def entries_def delayingAdd_def split: if_splits)

lemma due_typed: "tq_dirty (dq_typed d) \<subseteq> tq_dirty t \<Longrightarrow> due k n d \<Longrightarrow> due k n (d\<lparr>dq_typed := t\<rparr>)"
  by (auto simp: due_def)

lemma loop_step_due:
  assumes "loop_step c s l s'" and "loop_ok s" and "l \<noteq> Take" and "due k t (delaying_of s)"
  shows "due k t (delaying_of s')"
  using assms(1)
proof cases
  case (tick d)
  with assms(4) show ?thesis by (simp add: due_def entries_def)
next
  case waiting
  with assms(4) waitingLoop_due [OF loop_okD(1) [OF assms(2)]] show ?thesis
    by (cases "tq_shuttingDown (typed_of s)") (simp_all add: waitingLoop_pass_def)
next
  case leave
  from leave(3) show ?thesis by (cases rule: take_item_cases) (use leave assms(4) in simp_all)
next
  case (settle k' err bucket)
  from settle(3) show ?thesis
  proof (cases rule: settle_item_cases)
    case (failure e q)
    from AddAfter_keeps_due [OF AddRateLimited_Some(1) [OF failure(3) loop_okD(3) [OF assms(2)]] assms(4)] failure(4)
    show ?thesis by simp
  qed (use assms(4) in \<open>simp_all add: Forget_def\<close>)
qed (use assms(3,4) in \<open>auto simp: eventHandler_eq sync_item_def case_prod_beta finish_item_def delayingShutDown_def
    intro!: due_typed\<close>)

lemma loop_run_due:
  "loop_run c s ls s' \<Longrightarrow> loop_ok s \<Longrightarrow> Take \<notin> set ls \<Longrightarrow> due k t (delaying_of s) \<Longrightarrow> due k t (delaying_of s')"
proof (induction rule: loop_run.induct)
  case (step s l s1 ls s2)
  then show ?case
    using loop_step_due [OF step(1)] loop_step_ok [OF step(1)] by auto
qed simp

text \<open>The failures in a row that a trace shows.\<close>

fun count_failures :: "nat \<Rightarrow> label list \<Rightarrow> nat" where
  "count_failures n [] = n"
| "count_failures n (Settle None # ls) = count_failures 0 ls"
| "count_failures n (Settle (Some e) # ls) = count_failures (if is_panic e then n else n + 1) ls"
| "count_failures n (_ # ls) = count_failures n ls"

lemma NumRequeues_projections [simp]:
  "NumRequeues k (ol_queue (on_delaying f s)) = NumRequeues k (ol_queue s)"
  "NumRequeues k (ol_queue (on_typed g s)) = NumRequeues k (ol_queue s)"
  "NumRequeues k (Forget k q) = 0"
  by (simp_all add: NumRequeues_def failures_of_def Forget_def FailureForget_def)

lemma loop_step_failures:
  assumes "loop_step c s l s'" and "loop_ok s"
  shows "count_failures (NumRequeues workQueueKey (ol_queue s)) (l # ls) =
    count_failures (NumRequeues workQueueKey (ol_queue s')) ls"
  using assms(1)
proof cases
  case (take k)
  from take(3) show ?thesis by (cases rule: take_item_cases) (use take in simp_all)
next
  case leave
  from leave(3) show ?thesis by (cases rule: take_item_cases) (use leave in simp_all)
next
  case (settle k err bucket)
  have k: "k = workQueueKey" using loop_okD(6) [OF assms(2)] settle(2) by simp
  from settle(3) show ?thesis
  proof (cases rule: settle_item_cases)
    case (failure e q)
    from AddRateLimited_Some(2) [OF failure(3) loop_okD(3) [OF assms(2)]] failure settle(1) k
    show ?thesis by (simp add: NumRequeues_def failures_of_def)
  qed (use settle(1) k in simp_all)
qed (simp_all add: eventHandler_eq sync_item_def case_prod_beta finish_item_def)

lemma loop_run_failures:
  "loop_run c s ls s' \<Longrightarrow> loop_ok s \<Longrightarrow>
     NumRequeues workQueueKey (ol_queue s') = count_failures (NumRequeues workQueueKey (ol_queue s)) ls"
proof (induction rule: loop_run.induct)
  case (step s l s1 ls s2)
  then show ?case
    using loop_step_failures [OF step(1) step(4), of ls] loop_step_ok [OF step(1,4)] by simp
qed simp

section \<open>Shutting down\<close>

fun worker_label :: "label \<Rightarrow> bool" where
  "worker_label Take = True"
| "worker_label Leave = True"
| "worker_label Work = True"
| "worker_label (Settle _) = True"
| "worker_label Finish = True"
| "worker_label _ = False"

fun phase_rank :: "phase \<Rightarrow> nat" where
  "phase_rank Fetching = 1"
| "phase_rank (Syncing _) = 4"
| "phase_rank (Settling _ _) = 3"
| "phase_rank (Finishing _ _) = 2"
| "phase_rank Exited = 0"
| "phase_rank Crashed = 0"

text \<open>What a worker still has to do once no key can be added.\<close>

definition work_left :: "'w operator_loop \<Rightarrow> nat" where
  "work_left s = 4 * card (tq_dirty (typed_of s)) + phase_rank (ol_phase s)"

lemma loop_ok_finite: "loop_ok s \<Longrightarrow> finite (tq_dirty (typed_of s))"
  using loop_okD(7) finite_subset by blast

lemma closed_step_left:
  assumes "loop_step c s l s'" and "loop_ok s" and "\<not> open_loop s"
  shows "work_left s' + (if worker_label l then 1 else 0) \<le> work_left s \<and>
    card (tq_dirty (typed_of s')) + (if l = Take then 1 else 0) \<le> card (tq_dirty (typed_of s))"
  using assms(1)
proof cases
  case (take k)
  from take(3) show ?thesis
  proof (cases rule: take_item_cases)
    case (item k' q)
    note got = QueueGet_item [OF loop_okD(2) [OF assms(2)] item(1)]
    then have "card (tq_dirty (typed_of s)) = Suc (card (tq_dirty q))"
      using card_Suc_Diff1 [OF loop_ok_finite [OF assms(2)], of k'] by simp
    with item take show ?thesis by (simp add: work_left_def)
  qed (use take in simp)
next
  case leave
  from leave(3) show ?thesis by (cases rule: take_item_cases) (use leave in \<open>simp_all add: work_left_def\<close>)
next
  case (settle k err bucket)
  from settle(3) show ?thesis
  proof (cases rule: settle_item_cases)
    case (failure e q)
    from AddRateLimited_Some(1) [OF failure(3) loop_okD(3) [OF assms(2)]] assms(3)
    have "rq_delaying q = delaying_of s" by (simp add: AddAfter_def open_loop_def)
    with failure settle show ?thesis by (simp add: work_left_def)
  qed (use settle in \<open>simp_all add: work_left_def Forget_def\<close>)
qed (use assms(3) in \<open>simp_all add: work_left_def eventHandler_eq open_loop_def waitingLoop_pass_def
    sync_item_def case_prod_beta finish_item_def delayingShutDown_def\<close>)

lemma closed_run_left:
  "loop_run c s ls s' \<Longrightarrow> loop_ok s \<Longrightarrow> \<not> open_loop s \<Longrightarrow>
     work_left s' + length (filter worker_label ls) \<le> work_left s \<and>
     card (tq_dirty (typed_of s')) + length (filter (\<lambda>l. l = Take) ls) \<le> card (tq_dirty (typed_of s))"
proof (induction rule: loop_run.induct)
  case (step s l s1 ls s2)
  have "\<not> open_loop s1" using loop_step_closed [OF step(1,4)] step(5) by blast
  with step(3) loop_step_ok [OF step(1,4)] closed_step_left [OF step(1,4,5)] show ?case
    by (simp split: if_splits)
qed simp

text \<open>A worker that neither left nor crashed can go on, once the queue is shut down.\<close>

lemma closed_worker_goes_on:
  assumes "\<not> open_loop s" and "ol_phase s \<noteq> Exited" and "ol_phase s \<noteq> Crashed"
  shows "\<exists>l s'. worker_label l \<and> loop_step c s l s'"
proof (cases "ol_phase s")
  case Fetching
  show ?thesis
  proof (cases "tq_queue (typed_of s)")
    case Nil
    with assms(1) have "take_item s = Some (s\<lparr>ol_phase := Exited\<rparr>)"
      by (simp add: take_item_def QueueGet_def open_loop_def)
    from loop_step.leave [OF Fetching this] show ?thesis by (intro exI [of _ Leave]) auto
  next
    case (Cons k rest)
    then obtain q where "take_item s = Some ((on_typed (\<lambda>_. q) s)\<lparr>ol_phase := Syncing k\<rparr>)"
      by (simp add: take_item_def QueueGet_def)
    from loop_step.take [OF Fetching this, of k] show ?thesis by (intro exI [of _ Take]) auto
  qed
next
  case (Settling k err)
  have "\<exists>s'. settle_item 0 k err s = Some s'"
    using assms(1) by (auto simp: settle_item_def AddRateLimited_def AddAfter_def open_loop_def
        case_prod_beta split: option.splits)
  with loop_step.settle [OF Settling] show ?thesis by (metis worker_label.simps(4))
qed (use assms(2,3) loop_step.work loop_step.finish in \<open>metis worker_label.simps\<close>)+

section \<open>One sync at a time\<close>

text \<open>The syncs of a trace begin one after the other has finished.\<close>

fun alternating :: "bool \<Rightarrow> label list \<Rightarrow> bool" where
  "alternating running [] = True"
| "alternating running (Take # ls) = (\<not> running \<and> alternating True ls)"
| "alternating running (Finish # ls) = (running \<and> alternating False ls)"
| "alternating running (_ # ls) = alternating running ls"

definition running :: "'w operator_loop \<Rightarrow> bool" where
  "running s \<longleftrightarrow> working_on (ol_phase s) \<noteq> {}"

lemma alternating_step:
  assumes "loop_step c s l s'" and "alternating (running s') ls"
  shows "alternating (running s) (l # ls)"
  using assms(1)
proof cases
  case leave
  from leave(3) show ?thesis by (cases rule: take_item_cases) (use leave assms(2) in \<open>simp_all add: running_def\<close>)
next
  case (settle k err bucket)
  from settle(3) show ?thesis
    by (cases rule: settle_item_cases) (use settle assms(2) in \<open>simp_all add: running_def\<close>)
qed (use assms(2) in \<open>simp_all add: running_def eventHandler_eq sync_item_def case_prod_beta finish_item_def split: if_splits\<close>)

lemma alternating_run: "loop_run c s ls s' \<Longrightarrow> alternating (running s) ls"
  by (induction rule: loop_run.induct) (simp_all add: alternating_step)

section \<open>A call of processNextWorkItem\<close>

lemma processNextWorkItem_run:
  assumes "processNextWorkItem c bucket s = Some (True, s')" and "ol_phase s = Fetching"
  shows "\<exists>err. loop_run c s [Take, Work, Settle err, Finish] s'"
proof -
  from assms(1) obtain s1 k where s1: "take_item s = Some s1" "ol_phase s1 = Syncing k"
    by (auto simp: processNextWorkItem_def split: option.splits phase.splits)
  let ?s2 = "sync_item c k s1"
  have s2: "ol_phase ?s2 = Settling k (fst (sync c (ol_env s1)))"
    by (simp add: sync_item_def case_prod_beta)
  from assms(1) s1 s2 obtain s3 where
    s3: "settle_item bucket k (fst (sync c (ol_env s1))) ?s2 = Some s3"
    by (auto simp: processNextWorkItem_def Let_def split: option.splits phase.splits)
  from s3 have "\<exists>p. ol_phase s3 = Finishing k p"
    by (cases rule: settle_item_cases) auto
  then obtain p where p: "ol_phase s3 = Finishing k p" ..
  with assms(1) s1 s2 s3 have s': "s' = finish_item k p s3"
    by (simp add: processNextWorkItem_def split: if_splits)
  show ?thesis
    using loop_step.take [OF assms(2) s1, of c] loop_step.work [OF s1(2), of c]
      loop_step.settle [OF s2 s3, of c] loop_step.finish [OF p, of c] s' by auto
qed

end
