(* ===== verification/Object_Tracker.thy ===== *)
theory Object_Tracker
  imports Deployment_Apply Unstructured_Apply Apply_Config
begin

text \<open>
  The in-memory API server behind the fake clientset (client-go
  \<^verbatim>\<open>testing/fixture.go\<close> and \<^verbatim>\<open>gentype/fake.go\<close>,
  \<^verbatim>\<open>pkg/generated/clientset/versioned/fake\<close>): a store of objects by resource, namespace
  and name, the reaction to an action, and the typed clients on top of it. It is the provider
  of the interface \<open>object_api\<close>. \<open>Tracker_Watch\<close> adds watchers to it and \<open>Fake_Client\<close> the
  log of actions; the managed-fields tracker is not modelled.
\<close>

section \<open>Objects of any kind\<close>

datatype kobject =
    KRole role
  | KRoleBinding role_binding
  | KClusterRole cluster_role
  | KClusterRoleBinding role_binding
  | KServiceAccount service_account
  | KService service
  | KNetworkPolicy network_policy
  | KDeployment deployment
  | KRoute route
  | KUnstructured unstructured
  | KCliManager cli_manager

text \<open>What \<^verbatim>\<open>meta.Accessor\<close> gives access to.\<close>

fun kname :: "kobject \<Rightarrow> string" where
  "kname (KRole x) = om_name (role_meta x)"
| "kname (KRoleBinding x) = om_name (rb_meta x)"
| "kname (KClusterRole x) = om_name (crole_meta x)"
| "kname (KClusterRoleBinding x) = om_name (rb_meta x)"
| "kname (KServiceAccount x) = om_name (sa_meta x)"
| "kname (KService x) = om_name (svc_meta x)"
| "kname (KNetworkPolicy x) = om_name (np_meta x)"
| "kname (KDeployment x) = om_name (dep_meta x)"
| "kname (KRoute x) = om_name (route_meta x)"
| "kname (KUnstructured x) = GetName x"
| "kname (KCliManager x) = om_name (cm_meta x)"

fun knamespace :: "kobject \<Rightarrow> string" where
  "knamespace (KRole x) = om_namespace (role_meta x)"
| "knamespace (KRoleBinding x) = om_namespace (rb_meta x)"
| "knamespace (KClusterRole x) = om_namespace (crole_meta x)"
| "knamespace (KClusterRoleBinding x) = om_namespace (rb_meta x)"
| "knamespace (KServiceAccount x) = om_namespace (sa_meta x)"
| "knamespace (KService x) = om_namespace (svc_meta x)"
| "knamespace (KNetworkPolicy x) = om_namespace (np_meta x)"
| "knamespace (KDeployment x) = om_namespace (dep_meta x)"
| "knamespace (KRoute x) = om_namespace (route_meta x)"
| "knamespace (KUnstructured x) = GetNamespace x"
| "knamespace (KCliManager x) = om_namespace (cm_meta x)"

definition put_namespace :: "string \<Rightarrow> object_meta \<Rightarrow> object_meta" where
  "put_namespace ns m = m\<lparr>om_namespace := ns\<rparr>"

fun kset_namespace :: "string \<Rightarrow> kobject \<Rightarrow> kobject" where
  "kset_namespace ns (KRole x) = KRole (x\<lparr>role_meta := put_namespace ns (role_meta x)\<rparr>)"
| "kset_namespace ns (KRoleBinding x) = KRoleBinding (x\<lparr>rb_meta := put_namespace ns (rb_meta x)\<rparr>)"
| "kset_namespace ns (KClusterRole x) = KClusterRole (x\<lparr>crole_meta := put_namespace ns (crole_meta x)\<rparr>)"
| "kset_namespace ns (KClusterRoleBinding x) = KClusterRoleBinding (x\<lparr>rb_meta := put_namespace ns (rb_meta x)\<rparr>)"
| "kset_namespace ns (KServiceAccount x) = KServiceAccount (x\<lparr>sa_meta := put_namespace ns (sa_meta x)\<rparr>)"
| "kset_namespace ns (KService x) = KService (x\<lparr>svc_meta := put_namespace ns (svc_meta x)\<rparr>)"
| "kset_namespace ns (KNetworkPolicy x) = KNetworkPolicy (x\<lparr>np_meta := put_namespace ns (np_meta x)\<rparr>)"
| "kset_namespace ns (KDeployment x) = KDeployment (x\<lparr>dep_meta := put_namespace ns (dep_meta x)\<rparr>)"
| "kset_namespace ns (KRoute x) = KRoute (x\<lparr>route_meta := put_namespace ns (route_meta x)\<rparr>)"
| "kset_namespace ns (KUnstructured x) = KUnstructured (SetNamespace x ns)"
| "kset_namespace ns (KCliManager x) = KCliManager (x\<lparr>cm_meta := put_namespace ns (cm_meta x)\<rparr>)"

section \<open>The tracker\<close>

record versioned_object =
  vo_resourceVersion :: int
  vo_object :: kobject

type_synonym object_key = "gvr \<times> string \<times> string"

record tracker =
  trk_objects :: "(object_key, versioned_object) fmap"
  trk_resourceVersions :: "(gvr, int) fmap"

definition NewObjectTracker :: tracker where
  "NewObjectTracker = \<lparr>trk_objects = fmempty, trk_resourceVersions = fmempty\<rparr>"

definition resource_text :: "gvr \<Rightarrow> string" where
  "resource_text r = (case r of (grp, _, resource) \<Rightarrow> if grp = [] then resource else resource @ ''.'' @ grp)"

definition NewNotFound :: "gvr \<Rightarrow> string \<Rightarrow> go_error" where
  "NewNotFound r name = StatusError NotFound (resource_text r @ '' '' @ [CHR 0x22] @ name @ [CHR 0x22] @ '' not found'')"

definition NewAlreadyExists :: "gvr \<Rightarrow> string \<Rightarrow> go_error" where
  "NewAlreadyExists r name =
     StatusError AlreadyExists (resource_text r @ '' '' @ [CHR 0x22] @ name @ [CHR 0x22] @ '' already exists'')"

text \<open>The resource of the configuration objects.\<close>

definition cliManager_gvr :: gvr where
  "cliManager_gvr = (''operator.openshift.io'', ''v1'', ''climanagers'')"

definition trackerGet :: "gvr \<Rightarrow> string \<Rightarrow> string \<Rightarrow> tracker \<Rightarrow> go_error + kobject" where
  "trackerGet r ns name t =
     (case fmlookup (trk_objects t) (r, ns, name) of
        None \<Rightarrow> Inl (NewNotFound r name)
      | Some vo \<Rightarrow> Inr (vo_object vo))"

definition trackerAdd :: "gvr \<Rightarrow> kobject \<Rightarrow> string \<Rightarrow> bool \<Rightarrow> tracker \<Rightarrow> go_error option \<times> tracker" where
  "trackerAdd r obj ns replaceExisting t =
     (let obj = (if knamespace obj = [] then kset_namespace ns obj else obj) in
      if ns \<noteq> knamespace obj then
        (Some (StatusError BadRequest (''request namespace does not match object namespace, request: '' @
           [CHR 0x22] @ ns @ [CHR 0x22] @ '' object: '' @ [CHR 0x22] @ knamespace obj @ [CHR 0x22])), t)
      else
        (let rv = (case fmlookup (trk_resourceVersions t) r of None \<Rightarrow> 1 | Some v \<Rightarrow> v) + 1;
             key = (r, knamespace obj, kname obj);
             stored = t\<lparr>trk_resourceVersions := fmupd r rv (trk_resourceVersions t),
                        trk_objects := fmupd key \<lparr>vo_resourceVersion = rv, vo_object = obj\<rparr> (trk_objects t)\<rparr> in
         case fmlookup (trk_objects t) key of
           Some _ \<Rightarrow> if replaceExisting then (None, stored) else (Some (NewAlreadyExists r (kname obj)), t)
         | None \<Rightarrow> if replaceExisting then (Some (NewNotFound r (kname obj)), t) else (None, stored)))"

definition trackerCreate :: "gvr \<Rightarrow> kobject \<Rightarrow> string \<Rightarrow> tracker \<Rightarrow> go_error option \<times> tracker" where
  "trackerCreate r obj ns t = trackerAdd r obj ns False t"

definition trackerUpdate :: "gvr \<Rightarrow> kobject \<Rightarrow> string \<Rightarrow> tracker \<Rightarrow> go_error option \<times> tracker" where
  "trackerUpdate r obj ns t = trackerAdd r obj ns True t"

definition trackerDelete :: "gvr \<Rightarrow> string \<Rightarrow> string \<Rightarrow> tracker \<Rightarrow> go_error option \<times> tracker" where
  "trackerDelete r ns name t =
     (case fmlookup (trk_objects t) (r, ns, name) of
        None \<Rightarrow> (Some (NewNotFound r name), t)
      | Some _ \<Rightarrow> (None, t\<lparr>trk_objects := fmdrop (r, ns, name) (trk_objects t)\<rparr>))"

text \<open>The reactions: a write is followed by a read of the object it stored.\<close>

definition reactCreate :: "gvr \<Rightarrow> string \<Rightarrow> kobject \<Rightarrow> tracker \<Rightarrow> (go_error + kobject) \<times> tracker" where
  "reactCreate r ns obj t =
     (case trackerCreate r obj ns t of
        (Some err, t') \<Rightarrow> (Inl err, t')
      | (None, t') \<Rightarrow> (trackerGet r ns (kname obj) t', t'))"

definition reactUpdate :: "gvr \<Rightarrow> string \<Rightarrow> kobject \<Rightarrow> tracker \<Rightarrow> (go_error + kobject) \<times> tracker" where
  "reactUpdate r ns obj t =
     (case trackerUpdate r obj ns t of
        (Some err, t') \<Rightarrow> (Inl err, t')
      | (None, t') \<Rightarrow> (trackerGet r ns (kname obj) t', t'))"

definition reactDelete :: "gvr \<Rightarrow> string \<Rightarrow> string \<Rightarrow> tracker \<Rightarrow> go_error option \<times> tracker" where
  "reactDelete r ns name t = trackerDelete r ns name t"

section \<open>Invariant and frame\<close>

text \<open>Every object is stored under its own namespace and name.\<close>

definition tracker_ok :: "tracker \<Rightarrow> bool" where
  "tracker_ok t \<longleftrightarrow>
     fmpred (\<lambda>(r, ns, name) vo. knamespace (vo_object vo) = ns \<and> kname (vo_object vo) = name) (trk_objects t)"

lemma NewObjectTracker_ok: "tracker_ok NewObjectTracker"
  by (simp add: tracker_ok_def NewObjectTracker_def)

lemma trackerGet_key:
  "tracker_ok t \<Longrightarrow> trackerGet r ns name t = Inr obj \<Longrightarrow> kname obj = name \<and> knamespace obj = ns"
  by (cases r) (auto simp: tracker_ok_def trackerGet_def fmpred_iff split: option.splits)

lemma SetNamespace_name [simp]: "GetName (SetNamespace u ns) = GetName u"
proof -
  have "''name'' \<noteq> ''namespace''" by simp
  then show ?thesis
    by (auto simp: GetName_def SetNamespace_def setNestedField_def SetNestedField_def getNestedString_def
        NestedString_def NestedFieldNoCopy_def split: option.split json.split)
qed

lemma kname_set_namespace [simp]: "kname (kset_namespace ns obj) = kname obj"
  by (cases obj) (simp_all add: put_namespace_def)

lemma trackerAdd_cases:
  assumes "trackerAdd r obj ns b t = (res, t')"
  obtains err where "res = Some err" and "t' = t"
  | rv where "res = None" and "ns = knamespace (if knamespace obj = [] then kset_namespace ns obj else obj)"
    and "t' = t\<lparr>trk_resourceVersions := fmupd r rv (trk_resourceVersions t),
       trk_objects := fmupd (r, ns, kname obj)
         \<lparr>vo_resourceVersion = rv, vo_object = (if knamespace obj = [] then kset_namespace ns obj else obj)\<rparr>
         (trk_objects t)\<rparr>"
    and "b \<longleftrightarrow> fmlookup (trk_objects t) (r, ns, kname obj) \<noteq> None"
  using assms
  by (auto simp: trackerAdd_def Let_def split: if_splits option.splits)

lemma trackerAdd_ok: "tracker_ok t \<Longrightarrow> trackerAdd r obj ns b t = (res, t') \<Longrightarrow> tracker_ok t'"
  by (erule trackerAdd_cases) (auto simp: tracker_ok_def fmpred_iff)

lemma trackerAdd_other:
  "trackerAdd r obj ns b t = (res, t') \<Longrightarrow> key \<noteq> (r, ns, kname obj) \<Longrightarrow>
    fmlookup (trk_objects t') key = fmlookup (trk_objects t) key"
  by (erule trackerAdd_cases) auto

lemma trackerAdd_stores:
  "trackerAdd r obj ns b t = (None, t') \<Longrightarrow>
    trackerGet r ns (kname obj) t' = Inr (if knamespace obj = [] then kset_namespace ns obj else obj)"
  by (erule trackerAdd_cases) (auto simp: trackerGet_def)

lemma trackerDelete_ok: "tracker_ok t \<Longrightarrow> trackerDelete r ns name t = (res, t') \<Longrightarrow> tracker_ok t'"
  by (auto simp: trackerDelete_def tracker_ok_def fmpred_iff split: option.splits if_splits)

section \<open>Typed clients\<close>

text \<open>
  A fake client for objects of one kind. A stored object of another Go type makes the type
  assertion panic.
\<close>

definition wrong_type :: go_error where
  "wrong_type = Panic ''interface conversion''"

definition typed_result ::
  "(kobject \<Rightarrow> 'o option) \<Rightarrow> go_error + kobject \<Rightarrow> go_error + 'o" where
  "typed_result proj r = (case r of Inl e \<Rightarrow> Inl e
     | Inr k \<Rightarrow> (case proj k of None \<Rightarrow> Inl wrong_type | Some ob \<Rightarrow> Inr ob))"

definition fake_client ::
  "gvr \<Rightarrow> ('o \<Rightarrow> kobject) \<Rightarrow> (kobject \<Rightarrow> 'o option) \<Rightarrow> (tracker, 'o) resource_client" where
  "fake_client r emb proj =
     \<lparr>rc_get = (\<lambda>ns name t. (typed_result proj (trackerGet r ns name t), t)),
      rc_create = (\<lambda>ns ob t. case reactCreate r ns (emb ob) t of (res, t') \<Rightarrow> (typed_result proj res, t')),
      rc_update = (\<lambda>ns ob t. case reactUpdate r ns (emb ob) t of (res, t') \<Rightarrow> (typed_result proj res, t'))\<rparr>"

locale tracked_kind =
  fixes emb :: "'o \<Rightarrow> kobject"
    and proj :: "kobject \<Rightarrow> 'o option"
    and name_of :: "'o \<Rightarrow> string"
    and with_ns :: "string \<Rightarrow> 'o \<Rightarrow> 'o"
  assumes proj_inj: "proj k = Some ob \<longleftrightarrow> k = emb ob"
    and kname_inj: "kname (emb ob) = name_of ob"
    and kset_inj: "kset_namespace ns (emb ob) = emb (with_ns ns ob)"
begin

definition stored_as :: "string \<Rightarrow> 'o \<Rightarrow> 'o \<Rightarrow> bool" where
  "stored_as ns x a \<longleftrightarrow> a = (if knamespace (emb x) = [] then with_ns ns x else x) \<and> knamespace (emb a) = ns"

lemma proj_emb_same [simp]: "proj (emb ob) = Some ob"
  by (simp add: proj_inj)

lemma typed_result_Inr: "typed_result proj r = Inr ob \<longleftrightarrow> r = Inr (emb ob)"
proof (cases r)
  case (Inr k)
  then show ?thesis using proj_inj [of k] by (cases "proj k") (auto simp: typed_result_def)
qed (simp add: typed_result_def)

lemma write_stores:
  assumes "trackerAdd r (emb x) ns b t = (None, t')"
    and "typed_result proj (trackerGet r ns (kname (emb x)) t') = Inr a"
  shows "stored_as ns x a" and "trackerGet r ns (name_of x) t' = Inr (emb a)"
proof -
  have g: "trackerGet r ns (kname (emb x)) t' = Inr (emb a)"
    using assms(2) by (simp add: typed_result_Inr)
  then show "trackerGet r ns (name_of x) t' = Inr (emb a)" by (simp add: kname_inj)
  have eq: "emb a = (if knamespace (emb x) = [] then emb (with_ns ns x) else emb x)"
    using trackerAdd_stores [OF assms(1)] g by (simp add: kset_inj)
  then have "a = (if knamespace (emb x) = [] then with_ns ns x else x)"
    by (metis option.inject proj_inj)
  moreover have "ns = knamespace (emb a)"
    using assms(1) eq by (auto elim!: trackerAdd_cases simp: kset_inj)
  ultimately show "stored_as ns x a" by (simp add: stored_as_def)
qed

end

sublocale tracked_kind \<subseteq> api: object_api "fake_client r emb proj" name_of stored_as tracker_ok for r
proof unfold_locales
  fix ns n w ob
  assume "tracker_ok w" "fst (rc_get (fake_client r emb proj) ns n w) = Inr ob"
  then show "name_of ob = n"
    using trackerGet_key [of w r ns n "emb ob"] by (simp add: fake_client_def typed_result_Inr kname_inj)
next
  fix ns ob w res w'
  assume "tracker_ok w" "rc_create (fake_client r emb proj) ns ob w = (res, w')"
  then show "tracker_ok w'"
    by (auto simp: fake_client_def reactCreate_def trackerCreate_def split: prod.splits option.splits
        intro: trackerAdd_ok)
next
  fix ns ob w res w'
  assume "tracker_ok w" "rc_update (fake_client r emb proj) ns ob w = (res, w')"
  then show "tracker_ok w'"
    by (auto simp: fake_client_def reactUpdate_def trackerUpdate_def split: prod.splits option.splits
        intro: trackerAdd_ok)
next
  fix ns ob w a w'
  assume "rc_create (fake_client r emb proj) ns ob w = (Inr a, w')"
  then have "trackerAdd r (emb ob) ns False w = (None, w')" "typed_result proj (trackerGet r ns (kname (emb ob)) w') = Inr a"
    by (auto simp: fake_client_def reactCreate_def trackerCreate_def typed_result_def split: prod.splits option.splits)
  from write_stores [OF this]
  show "rc_get (fake_client r emb proj) ns (name_of ob) w' = (Inr a, w')" and "stored_as ns ob a"
    by (simp_all add: fake_client_def typed_result_Inr)
next
  fix ns ob w a w'
  assume "rc_update (fake_client r emb proj) ns ob w = (Inr a, w')"
  then have "trackerAdd r (emb ob) ns True w = (None, w')" "typed_result proj (trackerGet r ns (kname (emb ob)) w') = Inr a"
    by (auto simp: fake_client_def reactUpdate_def trackerUpdate_def typed_result_def split: prod.splits option.splits)
  from write_stores [OF this]
  show "rc_get (fake_client r emb proj) ns (name_of ob) w' = (Inr a, w')" and "stored_as ns ob a"
    by (simp_all add: fake_client_def typed_result_Inr)
qed (simp add: fake_client_def)

end
