(* ===== verification/Fake_Cluster.thy ===== *)
theory Fake_Cluster
  imports Object_Tracker Reconciler
begin

text \<open>
  The typed clients of the operator on one object tracker, each shown to provide the interface
  \<open>object_api\<close>, and the convergence of every apply function on it. The resources differ, so
  that the objects of different kinds do not meet.
\<close>

lemma kept_put_namespace:
  "om_namespace m = [] \<Longrightarrow> kept_meta ns m (put_namespace ns m)"
  "om_namespace m \<noteq> [] \<Longrightarrow> kept_meta ns m m"
  by (simp_all add: kept_meta_def put_namespace_def)

section \<open>The route kind\<close>

definition route_same :: "route \<Rightarrow> route \<Rightarrow> bool" where
  "route_same req ex \<longleftrightarrow> route_spec ex = route_spec req"

definition route_take :: "route \<Rightarrow> route \<Rightarrow> route" where
  "route_take req ex = ex\<lparr>route_spec := route_spec req\<rparr>"

text \<open>This kind assumes a server that stores a route's spec as sent.\<close>

interpretation route_kind: merged_kind route_meta "\<lambda>m x. x\<lparr>route_meta := m\<rparr>" id route_same route_take
  route_same "\<lambda>_. True"
  by unfold_locales (simp_all add: route_same_def route_take_def)

lemma applyRoute_skeleton:
  "applyRoute client required =
    apply_skeleton client (om_namespace (route_meta required)) (om_name (route_meta required))
      (route_kind.created required) (route_kind.merge_plan () required) (\<lambda>_. []) (\<lambda>_ _. [])"
  by (auto simp: fun_eq_iff applyRoute_def apply_skeleton_def route_kind.created_def route_kind.merge_plan_def
      route_same_def route_take_def Let_def split: prod.split sum.split)

section \<open>Clients by kind\<close>

fun as_role :: "kobject \<Rightarrow> role option" where
  "as_role (KRole x) = Some x"
| "as_role _ = None"

definition role_gvr :: gvr where
  "role_gvr = (''rbac.authorization.k8s.io'', ''v1'', ''roles'')"

interpretation role_store: tracked_kind KRole as_role "\<lambda>x. om_name (role_meta x)"
  "\<lambda>ns x. x\<lparr>role_meta := put_namespace ns (role_meta x)\<rparr>"
proof unfold_locales
  show "as_role k = Some ob \<longleftrightarrow> k = KRole ob" for k ob by (cases k) auto
qed simp_all

interpretation role_cluster: apply_convergence "fake_client role_gvr KRole as_role"
  "\<lambda>x. om_name (role_meta x)" role_kind.admits tracker_ok role_kind.wf role_kind.created role_kind.merge_plan "\<lambda>_. ()"
proof (rule apply_convergence.intro)
  show "object_api (fake_client role_gvr KRole as_role) (\<lambda>x. om_name (role_meta x)) role_kind.admits tracker_ok"
    by (rule object_api_weaken [OF role_store.api.object_api_axioms])
      (auto simp: role_store.stored_as_def role_kind.admits_def kept_put_namespace role_same_def)
  show "apply_kind (\<lambda>x. om_name (role_meta x)) role_kind.admits role_kind.wf role_kind.created role_kind.merge_plan (\<lambda>_. ())"
    by (rule role_kind.kind.apply_kind_axioms)
qed

fun as_roleBinding :: "kobject \<Rightarrow> role_binding option" where
  "as_roleBinding (KRoleBinding x) = Some x"
| "as_roleBinding _ = None"

definition roleBinding_gvr :: gvr where
  "roleBinding_gvr = (''rbac.authorization.k8s.io'', ''v1'', ''rolebindings'')"

interpretation roleBinding_store: tracked_kind KRoleBinding as_roleBinding "\<lambda>x. om_name (rb_meta x)"
  "\<lambda>ns x. x\<lparr>rb_meta := put_namespace ns (rb_meta x)\<rparr>"
proof unfold_locales
  show "as_roleBinding k = Some ob \<longleftrightarrow> k = KRoleBinding ob" for k ob by (cases k) auto
qed simp_all

interpretation roleBinding_cluster: apply_convergence "fake_client roleBinding_gvr KRoleBinding as_roleBinding"
  "\<lambda>x. om_name (rb_meta x)" binding_kind.admits tracker_ok binding_kind.wf binding_kind.created binding_kind.merge_plan "\<lambda>_. ()"
proof (rule apply_convergence.intro)
  show "object_api (fake_client roleBinding_gvr KRoleBinding as_roleBinding) (\<lambda>x. om_name (rb_meta x)) binding_kind.admits tracker_ok"
    by (rule object_api_weaken [OF roleBinding_store.api.object_api_axioms])
      (auto simp: roleBinding_store.stored_as_def binding_kind.admits_def kept_put_namespace binding_same_def enforceAPIGroups_def)
  show "apply_kind (\<lambda>x. om_name (rb_meta x)) binding_kind.admits binding_kind.wf binding_kind.created binding_kind.merge_plan (\<lambda>_. ())"
    by (rule binding_kind.kind.apply_kind_axioms)
qed

fun as_clusterRole :: "kobject \<Rightarrow> cluster_role option" where
  "as_clusterRole (KClusterRole x) = Some x"
| "as_clusterRole _ = None"

definition clusterRole_gvr :: gvr where
  "clusterRole_gvr = (''rbac.authorization.k8s.io'', ''v1'', ''clusterroles'')"

interpretation clusterRole_store: tracked_kind KClusterRole as_clusterRole "\<lambda>x. om_name (crole_meta x)"
  "\<lambda>ns x. x\<lparr>crole_meta := put_namespace ns (crole_meta x)\<rparr>"
proof unfold_locales
  show "as_clusterRole k = Some ob \<longleftrightarrow> k = KClusterRole ob" for k ob by (cases k) auto
qed simp_all

interpretation clusterRole_cluster: apply_convergence "fake_client clusterRole_gvr KClusterRole as_clusterRole"
  "\<lambda>x. om_name (crole_meta x)" crole_kind.admits tracker_ok crole_kind.wf crole_kind.created crole_kind.merge_plan "\<lambda>_. ()"
proof (rule apply_convergence.intro)
  show "object_api (fake_client clusterRole_gvr KClusterRole as_clusterRole) (\<lambda>x. om_name (crole_meta x)) crole_kind.admits tracker_ok"
    by (rule object_api_weaken [OF clusterRole_store.api.object_api_axioms])
      (auto simp: clusterRole_store.stored_as_def crole_kind.admits_def kept_put_namespace crole_same_def)
  show "apply_kind (\<lambda>x. om_name (crole_meta x)) crole_kind.admits crole_kind.wf crole_kind.created crole_kind.merge_plan (\<lambda>_. ())"
    by (rule crole_kind.kind.apply_kind_axioms)
qed

fun as_clusterRoleBinding :: "kobject \<Rightarrow> role_binding option" where
  "as_clusterRoleBinding (KClusterRoleBinding x) = Some x"
| "as_clusterRoleBinding _ = None"

definition clusterRoleBinding_gvr :: gvr where
  "clusterRoleBinding_gvr = (''rbac.authorization.k8s.io'', ''v1'', ''clusterrolebindings'')"

interpretation clusterRoleBinding_store: tracked_kind KClusterRoleBinding as_clusterRoleBinding "\<lambda>x. om_name (rb_meta x)"
  "\<lambda>ns x. x\<lparr>rb_meta := put_namespace ns (rb_meta x)\<rparr>"
proof unfold_locales
  show "as_clusterRoleBinding k = Some ob \<longleftrightarrow> k = KClusterRoleBinding ob" for k ob by (cases k) auto
qed simp_all

interpretation clusterRoleBinding_cluster: apply_convergence "fake_client clusterRoleBinding_gvr KClusterRoleBinding as_clusterRoleBinding"
  "\<lambda>x. om_name (rb_meta x)" binding_kind.admits tracker_ok binding_kind.wf binding_kind.created binding_kind.merge_plan "\<lambda>_. ()"
proof (rule apply_convergence.intro)
  show "object_api (fake_client clusterRoleBinding_gvr KClusterRoleBinding as_clusterRoleBinding) (\<lambda>x. om_name (rb_meta x)) binding_kind.admits tracker_ok"
    by (rule object_api_weaken [OF clusterRoleBinding_store.api.object_api_axioms])
      (auto simp: clusterRoleBinding_store.stored_as_def binding_kind.admits_def kept_put_namespace binding_same_def enforceAPIGroups_def)
  show "apply_kind (\<lambda>x. om_name (rb_meta x)) binding_kind.admits binding_kind.wf binding_kind.created binding_kind.merge_plan (\<lambda>_. ())"
    by (rule binding_kind.kind.apply_kind_axioms)
qed

fun as_serviceAccount :: "kobject \<Rightarrow> service_account option" where
  "as_serviceAccount (KServiceAccount x) = Some x"
| "as_serviceAccount _ = None"

definition serviceAccount_gvr :: gvr where
  "serviceAccount_gvr = ('''', ''v1'', ''serviceaccounts'')"

interpretation serviceAccount_store: tracked_kind KServiceAccount as_serviceAccount "\<lambda>x. om_name (sa_meta x)"
  "\<lambda>ns x. x\<lparr>sa_meta := put_namespace ns (sa_meta x)\<rparr>"
proof unfold_locales
  show "as_serviceAccount k = Some ob \<longleftrightarrow> k = KServiceAccount ob" for k ob by (cases k) auto
qed simp_all

interpretation serviceAccount_cluster: apply_convergence "fake_client serviceAccount_gvr KServiceAccount as_serviceAccount"
  "\<lambda>x. om_name (sa_meta x)" sa_kind.admits tracker_ok sa_kind.wf sa_kind.created sa_kind.merge_plan "\<lambda>_. ()"
proof (rule apply_convergence.intro)
  show "object_api (fake_client serviceAccount_gvr KServiceAccount as_serviceAccount) (\<lambda>x. om_name (sa_meta x)) sa_kind.admits tracker_ok"
    by (rule object_api_weaken [OF serviceAccount_store.api.object_api_axioms])
      (auto simp: serviceAccount_store.stored_as_def sa_kind.admits_def kept_put_namespace )
  show "apply_kind (\<lambda>x. om_name (sa_meta x)) sa_kind.admits sa_kind.wf sa_kind.created sa_kind.merge_plan (\<lambda>_. ())"
    by (rule sa_kind.kind.apply_kind_axioms)
qed

fun as_service :: "kobject \<Rightarrow> service option" where
  "as_service (KService x) = Some x"
| "as_service _ = None"

definition service_gvr :: gvr where
  "service_gvr = ('''', ''v1'', ''services'')"

interpretation service_store: tracked_kind KService as_service "\<lambda>x. om_name (svc_meta x)"
  "\<lambda>ns x. x\<lparr>svc_meta := put_namespace ns (svc_meta x)\<rparr>"
proof unfold_locales
  show "as_service k = Some ob \<longleftrightarrow> k = KService ob" for k ob by (cases k) auto
qed simp_all

interpretation service_cluster: apply_convergence "fake_client service_gvr KService as_service"
  "\<lambda>x. om_name (svc_meta x)" service_kind.admits tracker_ok service_kind.wf service_kind.created service_kind.merge_plan "\<lambda>_. ()"
proof (rule apply_convergence.intro)
  show "object_api (fake_client service_gvr KService as_service) (\<lambda>x. om_name (svc_meta x)) service_kind.admits tracker_ok"
    by (rule object_api_weaken [OF service_store.api.object_api_axioms])
      (auto simp: service_store.stored_as_def service_kind.admits_def kept_put_namespace service_same_def)
  show "apply_kind (\<lambda>x. om_name (svc_meta x)) service_kind.admits service_kind.wf service_kind.created service_kind.merge_plan (\<lambda>_. ())"
    by (rule service_kind.kind.apply_kind_axioms)
qed

fun as_networkPolicy :: "kobject \<Rightarrow> network_policy option" where
  "as_networkPolicy (KNetworkPolicy x) = Some x"
| "as_networkPolicy _ = None"

definition networkPolicy_gvr :: gvr where
  "networkPolicy_gvr = (''networking.k8s.io'', ''v1'', ''networkpolicies'')"

interpretation networkPolicy_store: tracked_kind KNetworkPolicy as_networkPolicy "\<lambda>x. om_name (np_meta x)"
  "\<lambda>ns x. x\<lparr>np_meta := put_namespace ns (np_meta x)\<rparr>"
proof unfold_locales
  show "as_networkPolicy k = Some ob \<longleftrightarrow> k = KNetworkPolicy ob" for k ob by (cases k) auto
qed simp_all

interpretation networkPolicy_cluster: apply_convergence "fake_client networkPolicy_gvr KNetworkPolicy as_networkPolicy"
  "\<lambda>x. om_name (np_meta x)" policy_kind.admits tracker_ok policy_kind.wf policy_kind.created policy_kind.merge_plan "\<lambda>_. ()"
proof (rule apply_convergence.intro)
  show "object_api (fake_client networkPolicy_gvr KNetworkPolicy as_networkPolicy) (\<lambda>x. om_name (np_meta x)) policy_kind.admits tracker_ok"
    by (rule object_api_weaken [OF networkPolicy_store.api.object_api_axioms])
      (auto simp: networkPolicy_store.stored_as_def policy_kind.admits_def kept_put_namespace policy_same_def)
  show "apply_kind (\<lambda>x. om_name (np_meta x)) policy_kind.admits policy_kind.wf policy_kind.created policy_kind.merge_plan (\<lambda>_. ())"
    by (rule policy_kind.kind.apply_kind_axioms)
qed

fun as_deployment :: "kobject \<Rightarrow> deployment option" where
  "as_deployment (KDeployment x) = Some x"
| "as_deployment _ = None"

definition deployment_gvr :: gvr where
  "deployment_gvr = (''apps'', ''v1'', ''deployments'')"

interpretation deployment_store: tracked_kind KDeployment as_deployment "\<lambda>x. om_name (dep_meta x)"
  "\<lambda>ns x. x\<lparr>dep_meta := put_namespace ns (dep_meta x)\<rparr>"
proof unfold_locales
  show "as_deployment k = Some ob \<longleftrightarrow> k = KDeployment ob" for k ob by (cases k) auto
qed simp_all

interpretation deployment_cluster: apply_convergence "fake_client deployment_gvr KDeployment as_deployment"
  "\<lambda>d. om_name (dep_meta d)" deployment_admits tracker_ok deployment_wf "\<lambda>d. d" deployment_plan_for deployment_generation
proof (rule apply_convergence.intro)
  show "object_api (fake_client deployment_gvr KDeployment as_deployment) (\<lambda>d. om_name (dep_meta d))
      deployment_admits tracker_ok"
    by (rule object_api_weaken [OF deployment_store.api.object_api_axioms])
      (auto simp: deployment_store.stored_as_def deployment_admits_def kept_put_namespace)
  show "apply_kind (\<lambda>d. om_name (dep_meta d)) deployment_admits deployment_wf (\<lambda>d. d) deployment_plan_for deployment_generation"
    by (rule deployment_kind.apply_kind_axioms)
qed

fun as_route :: "kobject \<Rightarrow> route option" where
  "as_route (KRoute x) = Some x"
| "as_route _ = None"

definition route_gvr :: gvr where
  "route_gvr = (''route.openshift.io'', ''v1'', ''routes'')"

interpretation route_store: tracked_kind KRoute as_route "\<lambda>x. om_name (route_meta x)"
  "\<lambda>ns x. x\<lparr>route_meta := put_namespace ns (route_meta x)\<rparr>"
proof unfold_locales
  show "as_route k = Some ob \<longleftrightarrow> k = KRoute ob" for k ob by (cases k) auto
qed simp_all

interpretation route_cluster: apply_convergence "fake_client route_gvr KRoute as_route"
  "\<lambda>x. om_name (route_meta x)" route_kind.admits tracker_ok route_kind.wf route_kind.created route_kind.merge_plan "\<lambda>_. ()"
proof (rule apply_convergence.intro)
  show "object_api (fake_client route_gvr KRoute as_route) (\<lambda>x. om_name (route_meta x)) route_kind.admits tracker_ok"
    by (rule object_api_weaken [OF route_store.api.object_api_axioms])
      (auto simp: route_store.stored_as_def route_kind.admits_def kept_put_namespace route_same_def)
  show "apply_kind (\<lambda>x. om_name (route_meta x)) route_kind.admits route_kind.wf route_kind.created route_kind.merge_plan (\<lambda>_. ())"
    by (rule route_kind.kind.apply_kind_axioms)
qed

section \<open>Unstructured objects\<close>

fun as_unstructured :: "kobject \<Rightarrow> unstructured option" where
  "as_unstructured (KUnstructured x) = Some x"
| "as_unstructured _ = None"

interpretation unstructured_store: tracked_kind KUnstructured as_unstructured GetName "\<lambda>ns x. SetNamespace x ns"
proof unfold_locales
  show "as_unstructured k = Some ob \<longleftrightarrow> k = KUnstructured ob" for k ob by (cases k) auto
qed simp_all

lemma FromUnstructured_set_namespace:
  assumes "FromUnstructured j = Inr m"
  shows "FromUnstructured (fmupd ''namespace'' (JStr ns) j) = Inr (m\<lparr>om_namespace := ns\<rparr>)"
proof -
  have "fmfilter (\<lambda>k. k \<in> set server_fields) (fmupd ''namespace'' (JStr ns) j) =
      fmfilter (\<lambda>k. k \<in> set server_fields) j"
    by (rule fmap_ext) (auto simp: server_fields_def)
  with assms show ?thesis
    by (auto simp: FromUnstructured_def sum_bind_Inr string_field_def int_field_def string_map_field_def owners_field_def)
qed

lemma FromUnstructured_drop_namespace:
  assumes "FromUnstructured j = Inr m"
  shows "FromUnstructured (fmdrop ''namespace'' j) = Inr (m\<lparr>om_namespace := []\<rparr>)"
proof -
  have "fmfilter (\<lambda>k. k \<in> set server_fields) (fmdrop ''namespace'' j) =
      fmfilter (\<lambda>k. k \<in> set server_fields) j"
    by (rule fmap_ext) (auto simp: server_fields_def)
  with assms show ?thesis
    by (auto simp: FromUnstructured_def sum_bind_Inr string_field_def int_field_def string_map_field_def owners_field_def)
qed

lemma typed_meta_SetNamespace:
  assumes "typed_meta x = Inr m"
  shows "typed_meta (SetNamespace x ns) = Inr (m\<lparr>om_namespace := ns\<rparr>)"
proof -
  obtain j where "fmlookup (u_object x) ''metadata'' = Some (JObj j)" and j: "FromUnstructured j = Inr m"
    using assms by (auto simp: typed_meta_Inr)
  then show ?thesis
    using FromUnstructured_set_namespace [OF j] FromUnstructured_drop_namespace [OF j]
    by (auto simp: typed_meta_Inr SetNamespace_def setNestedField_def SetNestedField_def)
qed

lemma nested_spec_SetNamespace: "nested_spec (SetNamespace x ns) = nested_spec x"
  by (auto simp: nested_spec_def NestedMap_single SetNamespace_def setNestedField_def SetNestedField_def
      split: option.split json.split)

lemma unstructured_stored_admits:
  assumes "unstructured_store.stored_as ns x a"
  shows "unstructured_admits ns x a"
proof -
  have a: "a = (if GetNamespace x = [] then SetNamespace x ns else x)" and ns: "GetNamespace a = ns"
    using assms by (auto simp: unstructured_store.stored_as_def)
  have "kept_meta ns mx ma" if "typed_meta x = Inr mx" and "typed_meta a = Inr ma" for mx ma
    using that a ns GetNamespace_typed [OF that(1)] typed_meta_SetNamespace [OF that(1), of ns]
    by (auto simp: kept_meta_def split: if_splits)
  moreover have "\<exists>ma. typed_meta a = Inr ma" if "typed_meta x = Inr mx" for mx
    using that a typed_meta_SetNamespace [OF that] by auto
  ultimately show ?thesis
    using a by (auto simp: unstructured_admits_def nested_spec_SetNamespace split: sum.split)
qed

interpretation monitor_cluster: apply_convergence "fake_client serviceMonitorGVR KUnstructured as_unstructured"
  GetName unstructured_admits tracker_ok unstructured_wf "\<lambda>u. u" unstructured_plan "\<lambda>_. ()"
proof (rule apply_convergence.intro)
  show "object_api (fake_client serviceMonitorGVR KUnstructured as_unstructured) GetName unstructured_admits tracker_ok"
    by (rule object_api_weaken [OF unstructured_store.api.object_api_axioms]) (rule unstructured_stored_admits)
  show "apply_kind GetName unstructured_admits unstructured_wf (\<lambda>u. u) unstructured_plan (\<lambda>_. ())"
    by (rule unstructured_kind.apply_kind_axioms)
qed

section \<open>The CliManager client\<close>

fun as_cliManager :: "kobject \<Rightarrow> cli_manager option" where
  "as_cliManager (KCliManager x) = Some x"
| "as_cliManager _ = None"

interpretation cliManager_store: tracked_kind KCliManager as_cliManager "\<lambda>x. om_name (cm_meta x)"
  "\<lambda>ns x. x\<lparr>cm_meta := put_namespace ns (cm_meta x)\<rparr>"
proof unfold_locales
  show "as_cliManager k = Some ob \<longleftrightarrow> k = KCliManager ob" for k ob by (cases k) auto
qed simp_all

text \<open>
  Apply and patch read the stored object, merge and replace it. The merges of the JSON patch
  library are parameters. The status subresource is the object: an update of the status
  replaces all of it.
\<close>

definition fake_merge ::
  "string \<Rightarrow> string \<Rightarrow> (cli_manager \<Rightarrow> go_error + cli_manager) \<Rightarrow> tracker \<Rightarrow> (go_error + cli_manager) \<times> tracker" where
  "fake_merge ns name merge t =
     (case typed_result as_cliManager (trackerGet cliManager_gvr ns name t) of
        Inl e \<Rightarrow> (Inl e, t)
      | Inr old \<Rightarrow>
          (case merge old of
             Inl e \<Rightarrow> (Inl e, t)
           | Inr new \<Rightarrow>
               (case trackerAdd cliManager_gvr (KCliManager new) ns True t of
                  (Some err, t') \<Rightarrow> (Inl err, t')
                | (None, t') \<Rightarrow> (typed_result as_cliManager (trackerGet cliManager_gvr ns name t'), t'))))"

text \<open>A patch that is not an apply returns what it has stored, and does not read it back.\<close>

definition fake_patch ::
  "string \<Rightarrow> string \<Rightarrow> (cli_manager \<Rightarrow> go_error + cli_manager) \<Rightarrow> tracker \<Rightarrow> (go_error + cli_manager) \<times> tracker" where
  "fake_patch ns name merge t =
     (case sum_bind (typed_result as_cliManager (trackerGet cliManager_gvr ns name t)) merge of
        Inl e \<Rightarrow> (Inl e, t)
      | Inr new \<Rightarrow>
          (case trackerAdd cliManager_gvr (KCliManager new) ns True t of
             (Some err, t') \<Rightarrow> (Inl err, t')
           | (None, t') \<Rightarrow> (Inr new, t')))"

definition fake_apply ::
  "(cli_manager \<Rightarrow> cli_manager_ac \<Rightarrow> go_error + cli_manager) \<Rightarrow> string \<Rightarrow> cli_manager_ac \<Rightarrow> tracker \<Rightarrow>
   (go_error + cli_manager) \<times> tracker" where
  "fake_apply strategicMerge ns configuration t =
     (case GetMetaNameAC configuration of
        None \<Rightarrow> (Inl (ErrorString ''configuration.Name must be provided to Apply''), t)
      | Some name \<Rightarrow> fake_merge ns name (\<lambda>old. strategicMerge old configuration) t)"

definition fake_climanagers ::
  "(cli_manager \<Rightarrow> cli_manager_ac \<Rightarrow> go_error + cli_manager) \<Rightarrow>
   (string \<Rightarrow> string \<Rightarrow> cli_manager \<Rightarrow> go_error + cli_manager) \<Rightarrow> tracker climanager_api" where
  "fake_climanagers strategicMerge patchMerge =
     (let c = fake_client cliManager_gvr KCliManager as_cliManager in
      \<lparr>ca_get = rc_get c, ca_update = rc_update c, ca_updateStatus = rc_update c,
       ca_apply = (\<lambda>ns b _ _. fake_apply strategicMerge ns b),
       ca_applyStatus = (\<lambda>ns b _ _. fake_apply strategicMerge ns b),
       ca_patch = (\<lambda>ns name pt data _. fake_patch ns name (patchMerge pt data))\<rparr>)"

text \<open>A reconciler all of whose clients talk to one tracker, as \<open>RunOperator\<close> connects it to one server.\<close>

definition on_tracker ::
  "tracker reconciler \<Rightarrow> (cli_manager \<Rightarrow> cli_manager_ac \<Rightarrow> go_error + cli_manager) \<Rightarrow>
   (string \<Rightarrow> string \<Rightarrow> cli_manager \<Rightarrow> go_error + cli_manager) \<Rightarrow> tracker reconciler" where
  "on_tracker c strategicMerge patchMerge =
     c\<lparr>rec_operatorClient := fake_climanagers strategicMerge patchMerge,
       rec_cliManagerClient := fake_climanagers strategicMerge patchMerge,
       rec_dynamicClient := (\<lambda>r. fake_client r KUnstructured as_unstructured),
       rec_routes := fake_client route_gvr KRoute as_route,
       rec_roles := fake_client role_gvr KRole as_role,
       rec_roleBindings := fake_client roleBinding_gvr KRoleBinding as_roleBinding,
       rec_clusterRoles := fake_client clusterRole_gvr KClusterRole as_clusterRole,
       rec_clusterRoleBindings := fake_client clusterRoleBinding_gvr KClusterRoleBinding as_clusterRoleBinding,
       rec_serviceAccounts := fake_client serviceAccount_gvr KServiceAccount as_serviceAccount,
       rec_services := fake_client service_gvr KService as_service,
       rec_networkPolicies := fake_client networkPolicy_gvr KNetworkPolicy as_networkPolicy,
       rec_deployments := fake_client deployment_gvr KDeployment as_deployment\<rparr>"

end
