(* ===== verification/Tracked_Apply.thy ===== *)
theory Tracked_Apply
  imports Fake_Cluster
begin

text \<open>
  Applying on the tracker: what an apply leaves alone, and that once it has returned without
  error it stays settled for as long as nobody touches its object. The locale
  \<open>tracked_apply\<close> joins a tracked kind of object with its convergence; it is interpreted for
  every kind the operator applies.
\<close>

abbreviation object_at :: "tracker \<Rightarrow> object_key \<Rightarrow> versioned_object option" where
  "object_at t key \<equiv> fmlookup (trk_objects t) key"

locale tracked_apply =
  tracked_kind emb proj name_of with_ns +
  apply_convergence "fake_client r emb proj" name_of admits tracker_ok wf created plan memo
  for emb :: "'o \<Rightarrow> kobject"
    and proj :: "kobject \<Rightarrow> 'o option"
    and name_of :: "'o \<Rightarrow> string"
    and with_ns :: "string \<Rightarrow> 'o \<Rightarrow> 'o"
    and r :: gvr
    and admits :: "string \<Rightarrow> 'o \<Rightarrow> 'o \<Rightarrow> bool"
    and wf :: "'o \<Rightarrow> bool"
    and created :: "'o \<Rightarrow> 'o"
    and plan :: "'c \<Rightarrow> 'o \<Rightarrow> 'o \<Rightarrow> 'o decision"
    and memo :: "'o \<Rightarrow> 'c"
begin

definition settled :: "string \<Rightarrow> 'o \<Rightarrow> 'c \<Rightarrow> tracker \<Rightarrow> bool" where
  "settled ns req c t \<longleftrightarrow>
     (\<exists>b. trackerGet r ns (name_of req) t = Inr (emb b) \<and> memo b = c \<and> is_Keep (plan c req b))"

lemma get_tracker: "call (rc_get (fake_client r emb proj) ns n) s = (typed_result proj (trackerGet r ns n (env_world s)), s)"
  by (simp add: call_def fake_client_def)

lemma settled_cong:
  "object_at t' (r, ns, name_of req) = object_at t (r, ns, name_of req) \<Longrightarrow> settled ns req c t' = settled ns req c t"
  by (simp add: settled_def trackerGet_def)

lemma write_frame:
  "call (rc_create (fake_client r emb proj) ns ob) s = (res, s') \<Longrightarrow> key \<noteq> (r, ns, name_of ob) \<Longrightarrow>
    object_at (env_world s') key = object_at (env_world s) key"
  "call (rc_update (fake_client r emb proj) ns ob) s = (res, s') \<Longrightarrow> key \<noteq> (r, ns, name_of ob) \<Longrightarrow>
    object_at (env_world s') key = object_at (env_world s) key"
  by (auto simp: call_def fake_client_def reactCreate_def reactUpdate_def trackerCreate_def trackerUpdate_def
      kname_inj dest: trackerAdd_other split: prod.splits option.splits)

lemma apply_frame:
  assumes "wf req" and "tracker_ok (env_world s)"
    and "apply_skeleton (fake_client r emb proj) ns (name_of req) (created req) (plan c req) evc evu s = (res, s')"
    and "key \<noteq> (r, ns, name_of req)"
  shows "object_at (env_world s') key = object_at (env_world s) key"
proof -
  have "name_of ob = name_of req"
    if "typed_result proj (trackerGet r ns (name_of req) (env_world s)) = Inr ex" and "plan c req ex = Write ob" for ex ob
    using that assms(1,2) plan_name trackerGet_key [OF assms(2), of r ns "name_of req" "emb ex"]
    by (simp add: typed_result_Inr kname_inj)
  then show ?thesis
    using assms(3,4) created_name [OF assms(1)]
    by (auto simp: apply_skeleton_def get_tracker write_frame split: sum.splits prod.splits decision.splits if_splits)
qed

lemma apply_result_some:
  "apply_skeleton (fake_client r emb proj) ns n x p evc evu s = ((ob, ch, None), s') \<Longrightarrow> \<exists>a. ob = Some a"
  by (auto simp: apply_skeleton_def apply_write_def apply_same_def apply_fail_def
      split: sum.splits prod.splits decision.splits if_splits)

lemma apply_settled:
  assumes "wf req" and "tracker_ok (env_world s)"
    and "apply_skeleton (fake_client r emb proj) ns (name_of req) (created req) (plan c req) evc evu s = ((Some a, ch, None), s')"
  shows "settled ns req (memo a) (env_world s')"
  using settles [OF assms] by (auto simp: settled_def get_tracker typed_result_Inr)

lemma settled_again:
  assumes "wf req" and "settled ns req c (env_world s)"
  shows "\<exists>a. apply_skeleton (fake_client r emb proj) ns (name_of req) (created req) (plan c req) evc evu s =
    ((Some a, False, None), s) \<and> memo a = c"
proof -
  obtain b a where "trackerGet r ns (name_of req) (env_world s) = Inr (emb b)" "memo b = c" and a: "plan c req b = Keep a"
    using assms(2) by (auto simp: settled_def is_Keep_def)
  with plan_same [OF assms(1) a] show ?thesis
    by (auto simp: apply_skeleton_def get_tracker apply_same_def typed_result_def)
qed

text \<open>
  On the tracker an apply succeeds if its key is free or holds an object of its kind the plan
  does not refuse, and the objects it writes are in the namespace of the request.
\<close>

lemma apply_succeeds:
  assumes "wf req" and "tracker_ok (env_world s)"
    and place: "object_at (env_world s) (r, ns, name_of req) = None \<or>
      (\<exists>b. trackerGet r ns (name_of req) (env_world s) = Inr (emb b) \<and> (\<forall>e. plan c req b \<noteq> Refuse e))"
    and cns: "knamespace (emb (created req)) = ns"
    and wns: "\<And>b ob. trackerGet r ns (name_of req) (env_world s) = Inr (emb b) \<Longrightarrow> plan c req b = Write ob \<Longrightarrow>
      knamespace (emb ob) = ns"
  shows "\<exists>a ch s'. apply_skeleton (fake_client r emb proj) ns (name_of req) (created req) (plan c req) evc evu s =
    ((Some a, ch, None), s')"
  using place
proof
  have keep: "knamespace (emb ob) = ns \<Longrightarrow> (if knamespace (emb ob) = [] then kset_namespace ns (emb ob) else emb ob) = emb ob
      \<or> knamespace (emb ob) = []" for ob by simp
  assume "object_at (env_world s) (r, ns, name_of req) = None"
  moreover from this have "IsNotFound (NewNotFound r (name_of req))" by (simp add: NewNotFound_def)
  moreover have "\<exists>t'. trackerAdd r (emb (created req)) ns False (env_world s) = (None, t')"
  proof (cases "ns = []")
    case True
    have "knamespace (kset_namespace [] (emb (created req))) = []"
      using cns True by (cases "emb (created req)")
        (auto simp: put_namespace_def GetNamespace_def SetNamespace_def getNestedString_def NestedString_def
          NestedFieldNoCopy_def split: option.splits json.splits)
    with True cns calculation(1) show ?thesis
      by (simp add: trackerAdd_def Let_def kname_inj created_name [OF assms(1)])
  next
    case False
    with cns calculation(1) show ?thesis
      by (simp add: trackerAdd_def Let_def kname_inj created_name [OF assms(1)])
  qed
  then obtain t' where add: "trackerAdd r (emb (created req)) ns False (env_world s) = (None, t')" by blast
  ultimately show ?thesis
    using trackerAdd_stores [OF add]
    by (auto simp: apply_skeleton_def get_tracker trackerGet_def typed_result_def call_def fake_client_def
        reactCreate_def trackerCreate_def kset_inj split: option.splits)
next
  assume "\<exists>b. trackerGet r ns (name_of req) (env_world s) = Inr (emb b) \<and> (\<forall>e. plan c req b \<noteq> Refuse e)"
  then obtain b where b: "trackerGet r ns (name_of req) (env_world s) = Inr (emb b)" "\<forall>e. plan c req b \<noteq> Refuse e"
    by blast
  show ?thesis
  proof (cases "plan c req b")
    case (Keep a)
    with b show ?thesis by (auto simp: apply_skeleton_def get_tracker typed_result_def apply_same_def)
  next
    case (Write ob)
    have n: "name_of ob = name_of req"
      using plan_name [OF assms(1) Write] trackerGet_key [OF assms(2) b(1)] by (simp add: kname_inj)
    have k: "knamespace (emb ob) = ns" using wns [OF b(1) Write] .
    have "\<exists>t'. trackerAdd r (emb ob) ns True (env_world s) = (None, t')"
    proof (cases "ns = []")
      case True
      have "knamespace (kset_namespace [] (emb ob)) = []"
        using k True by (cases "emb ob")
          (auto simp: put_namespace_def GetNamespace_def SetNamespace_def getNestedString_def NestedString_def
            NestedFieldNoCopy_def split: option.splits json.splits)
      with True k b(1) show ?thesis
        by (auto simp: trackerAdd_def Let_def kname_inj n trackerGet_def split: option.splits)
    next
      case False
      with k b(1) show ?thesis
        by (auto simp: trackerAdd_def Let_def kname_inj n trackerGet_def split: option.splits)
    qed
    then obtain t' where add: "trackerAdd r (emb ob) ns True (env_world s) = (None, t')" by blast
    show ?thesis
      using b Write trackerAdd_stores [OF add]
      by (auto simp: apply_skeleton_def get_tracker typed_result_def call_def fake_client_def reactUpdate_def
          trackerUpdate_def add kset_inj)
  next
    case (Refuse e)
    with b(2) show ?thesis by simp
  qed
qed

end

section \<open>The kinds of the operator\<close>

interpretation role_tracked: tracked_apply KRole as_role "\<lambda>x. om_name (role_meta x)"
  "\<lambda>ns x. x\<lparr>role_meta := put_namespace ns (role_meta x)\<rparr>" role_gvr role_kind.admits role_kind.wf role_kind.created role_kind.merge_plan "\<lambda>_. ()"
  by (rule tracked_apply.intro [OF role_store.tracked_kind_axioms role_cluster.apply_convergence_axioms])

interpretation roleBinding_tracked: tracked_apply KRoleBinding as_roleBinding "\<lambda>x. om_name (rb_meta x)"
  "\<lambda>ns x. x\<lparr>rb_meta := put_namespace ns (rb_meta x)\<rparr>" roleBinding_gvr binding_kind.admits binding_kind.wf binding_kind.created binding_kind.merge_plan "\<lambda>_. ()"
  by (rule tracked_apply.intro [OF roleBinding_store.tracked_kind_axioms roleBinding_cluster.apply_convergence_axioms])

interpretation clusterRole_tracked: tracked_apply KClusterRole as_clusterRole "\<lambda>x. om_name (crole_meta x)"
  "\<lambda>ns x. x\<lparr>crole_meta := put_namespace ns (crole_meta x)\<rparr>" clusterRole_gvr crole_kind.admits crole_kind.wf crole_kind.created crole_kind.merge_plan "\<lambda>_. ()"
  by (rule tracked_apply.intro [OF clusterRole_store.tracked_kind_axioms clusterRole_cluster.apply_convergence_axioms])

interpretation clusterRoleBinding_tracked: tracked_apply KClusterRoleBinding as_clusterRoleBinding "\<lambda>x. om_name (rb_meta x)"
  "\<lambda>ns x. x\<lparr>rb_meta := put_namespace ns (rb_meta x)\<rparr>" clusterRoleBinding_gvr binding_kind.admits binding_kind.wf binding_kind.created binding_kind.merge_plan "\<lambda>_. ()"
  by (rule tracked_apply.intro [OF clusterRoleBinding_store.tracked_kind_axioms clusterRoleBinding_cluster.apply_convergence_axioms])

interpretation serviceAccount_tracked: tracked_apply KServiceAccount as_serviceAccount "\<lambda>x. om_name (sa_meta x)"
  "\<lambda>ns x. x\<lparr>sa_meta := put_namespace ns (sa_meta x)\<rparr>" serviceAccount_gvr sa_kind.admits sa_kind.wf sa_kind.created sa_kind.merge_plan "\<lambda>_. ()"
  by (rule tracked_apply.intro [OF serviceAccount_store.tracked_kind_axioms serviceAccount_cluster.apply_convergence_axioms])

interpretation service_tracked: tracked_apply KService as_service "\<lambda>x. om_name (svc_meta x)"
  "\<lambda>ns x. x\<lparr>svc_meta := put_namespace ns (svc_meta x)\<rparr>" service_gvr service_kind.admits service_kind.wf service_kind.created service_kind.merge_plan "\<lambda>_. ()"
  by (rule tracked_apply.intro [OF service_store.tracked_kind_axioms service_cluster.apply_convergence_axioms])

interpretation networkPolicy_tracked: tracked_apply KNetworkPolicy as_networkPolicy "\<lambda>x. om_name (np_meta x)"
  "\<lambda>ns x. x\<lparr>np_meta := put_namespace ns (np_meta x)\<rparr>" networkPolicy_gvr policy_kind.admits policy_kind.wf policy_kind.created policy_kind.merge_plan "\<lambda>_. ()"
  by (rule tracked_apply.intro [OF networkPolicy_store.tracked_kind_axioms networkPolicy_cluster.apply_convergence_axioms])

interpretation route_tracked: tracked_apply KRoute as_route "\<lambda>x. om_name (route_meta x)"
  "\<lambda>ns x. x\<lparr>route_meta := put_namespace ns (route_meta x)\<rparr>" route_gvr route_kind.admits route_kind.wf route_kind.created route_kind.merge_plan "\<lambda>_. ()"
  by (rule tracked_apply.intro [OF route_store.tracked_kind_axioms route_cluster.apply_convergence_axioms])

interpretation deployment_tracked: tracked_apply KDeployment as_deployment "\<lambda>x. om_name (dep_meta x)"
  "\<lambda>ns x. x\<lparr>dep_meta := put_namespace ns (dep_meta x)\<rparr>" deployment_gvr deployment_admits deployment_wf "\<lambda>d. d"
  deployment_plan_for deployment_generation
  by (rule tracked_apply.intro [OF deployment_store.tracked_kind_axioms deployment_cluster.apply_convergence_axioms])

interpretation monitor_tracked: tracked_apply KUnstructured as_unstructured GetName "\<lambda>ns x. SetNamespace x ns"
  serviceMonitorGVR unstructured_admits unstructured_wf "\<lambda>u. u" unstructured_plan "\<lambda>_. ()"
  by (rule tracked_apply.intro [OF unstructured_store.tracked_kind_axioms monitor_cluster.apply_convergence_axioms])

end
