(* ===== verification/Tracker_Steps.thy ===== *)
theory Tracker_Steps
  imports Tracked_Apply
begin

text \<open>
  How steps on the tracker compose. A step is \<open>confined\<close> to a set of keys if it keeps the
  invariant and changes no other object, whatever it returns; it \<open>repeats\<close> if after a success
  its second run, on any state that agrees on its keys, succeeds and changes nothing; it is
  \<open>enabled\<close> on the states from which it succeeds. Sequences of steps on disjoint keys inherit
  the three.
\<close>

definition unchanged_off :: "object_key set \<Rightarrow> tracker \<Rightarrow> tracker \<Rightarrow> bool" where
  "unchanged_off K t t' \<longleftrightarrow> (\<forall>key. key \<notin> K \<longrightarrow> object_at t' key = object_at t key)"

definition agree_on :: "object_key set \<Rightarrow> tracker \<Rightarrow> tracker \<Rightarrow> bool" where
  "agree_on K t t' \<longleftrightarrow> (\<forall>key\<in>K. object_at t' key = object_at t key)"

definition confined :: "object_key set \<Rightarrow> (tracker, 'x) go \<Rightarrow> bool" where
  "confined K f \<longleftrightarrow> (\<forall>s r s'. tracker_ok (env_world s) \<longrightarrow> f s = (r, s') \<longrightarrow>
     tracker_ok (env_world s') \<and> unchanged_off K (env_world s) (env_world s'))"

text \<open>\<open>mem\<close> is what the second run knows of the result of the first.\<close>

definition repeats ::
  "object_key set \<Rightarrow> ('x \<Rightarrow> 'm) \<Rightarrow> (tracker, go_error + 'x) go \<Rightarrow> ('m \<Rightarrow> (tracker, go_error + 'x) go) \<Rightarrow> bool" where
  "repeats K mem f F \<longleftrightarrow> (\<forall>s x s' t. tracker_ok (env_world s) \<longrightarrow> f s = (Inr x, s') \<longrightarrow>
     agree_on K (env_world s') (env_world t) \<longrightarrow> (\<exists>y. F (mem x) t = (Inr y, t) \<and> mem y = mem x))"

definition enabled :: "object_key set \<Rightarrow> (tracker \<Rightarrow> bool) \<Rightarrow> (tracker, go_error + 'x) go \<Rightarrow> bool" where
  "enabled K Q f \<longleftrightarrow> (\<forall>t t'. agree_on K t t' \<longrightarrow> Q t \<longrightarrow> Q t') \<and>
     (\<forall>s. tracker_ok (env_world s) \<longrightarrow> Q (env_world s) \<longrightarrow> (\<exists>x s'. f s = (Inr x, s')))"

lemma unchanged_off_refl [simp]: "unchanged_off K t t"
  by (simp add: unchanged_off_def)

lemma unchanged_offD: "unchanged_off K t t' \<Longrightarrow> key \<notin> K \<Longrightarrow> object_at t' key = object_at t key"
  unfolding unchanged_off_def by blast

lemma unchanged_off_trans:
  "unchanged_off K t t' \<Longrightarrow> unchanged_off L t' t'' \<Longrightarrow> unchanged_off (K \<union> L) t t''"
  by (simp add: unchanged_off_def)

lemma unchanged_off_mono: "unchanged_off K t t' \<Longrightarrow> K \<subseteq> L \<Longrightarrow> unchanged_off L t t'"
  unfolding unchanged_off_def by blast

lemma agree_unchanged: "unchanged_off L t t' \<Longrightarrow> K \<inter> L = {} \<Longrightarrow> agree_on K t t'"
  unfolding unchanged_off_def agree_on_def by blast

lemma agree_on_trans: "agree_on K t t' \<Longrightarrow> agree_on K t' t'' \<Longrightarrow> agree_on K t t''"
  by (simp add: agree_on_def)

lemma agree_on_mono: "agree_on L t t' \<Longrightarrow> K \<subseteq> L \<Longrightarrow> agree_on K t t'"
  by (auto simp: agree_on_def)

section \<open>Sequences\<close>

lemma confinedD:
  "confined K f \<Longrightarrow> tracker_ok (env_world s) \<Longrightarrow> f s = (r, s') \<Longrightarrow> tracker_ok (env_world s')"
  "confined K f \<Longrightarrow> tracker_ok (env_world s) \<Longrightarrow> f s = (r, s') \<Longrightarrow> unchanged_off K (env_world s) (env_world s')"
  by (auto simp: confined_def)

lemma confined_returnE: "confined {} (returnE x)"
  by (simp add: confined_def returnE_def)

lemma confined_bindE:
  assumes "confined K f" and "\<And>x. confined L (g x)"
  shows "confined (K \<union> L) (bindE f g)"
proof -
  have "tracker_ok (env_world s') \<and> unchanged_off (K \<union> L) (env_world s) (env_world s')"
    if ok: "tracker_ok (env_world s)" and run: "bindE f g s = (r, s')" for s s' :: "tracker env" and r
  proof -
    obtain r1 s1 where f: "f s = (r1, s1)" by (cases "f s")
    note f1 = confinedD [OF assms(1) ok f]
    show ?thesis
    proof (cases r1)
      case (Inl e)
      with run f f1 show ?thesis by (auto simp: bindE_def intro: unchanged_off_mono)
    next
      case (Inr x)
      with run f have "g x s1 = (r, s')" by (simp add: bindE_def)
      from confinedD [OF assms(2) f1(1) this] f1(2) show ?thesis by (blast intro: unchanged_off_trans)
    qed
  qed
  then show ?thesis by (simp add: confined_def)
qed

lemma repeatsD:
  "repeats K mem f F \<Longrightarrow> tracker_ok (env_world s) \<Longrightarrow> f s = (Inr x, s') \<Longrightarrow>
    agree_on K (env_world s') (env_world t) \<Longrightarrow> \<exists>y. F (mem x) t = (Inr y, t) \<and> mem y = mem x"
  unfolding repeats_def by blast

text \<open>A step whose result is dropped, before the step whose result is remembered.\<close>

lemma repeats_before:
  assumes f: "confined K f" "repeats K u f (\<lambda>_. f')" and g: "confined L g" "repeats L mem g G"
    and "K \<inter> L = {}"
  shows "repeats (K \<union> L) mem (bindE f (\<lambda>_. g)) (\<lambda>m. bindE f' (\<lambda>_. G m))"
  unfolding repeats_def
proof (intro allI impI)
  fix s s' t :: "tracker env" and y
  assume ok: "tracker_ok (env_world s)" and run: "bindE f (\<lambda>_. g) s = (Inr y, s')"
    and agree: "agree_on (K \<union> L) (env_world s') (env_world t)"
  from run obtain x s1 where 1: "f s = (Inr x, s1)" and 2: "g s1 = (Inr y, s')" by (rule bindE_InrE)
  have ok1: "tracker_ok (env_world s1)" using f(1) ok 1 by (rule confinedD)
  have "agree_on K (env_world s1) (env_world s')"
    using confinedD(2) [OF g(1) ok1 2] assms(5) by (rule agree_unchanged)
  then have "agree_on K (env_world s1) (env_world t)"
    using agree by (blast intro: agree_on_trans agree_on_mono)
  then obtain x' where "f' t = (Inr x', t)" using repeatsD [OF f(2) ok 1] by blast
  moreover obtain y' where "G (mem y) t = (Inr y', t)" "mem y' = mem y"
    using repeatsD [OF g(2) ok1 2] agree agree_on_mono [of "K \<union> L" _ _ L] by blast
  ultimately show "\<exists>y'. bindE f' (\<lambda>_. G (mem y)) t = (Inr y', t) \<and> mem y' = mem y"
    by (auto simp: bindE_def)
qed

text \<open>A step whose result is dropped, after the step whose result is returned.\<close>

lemma repeats_after:
  assumes f: "confined K f" "repeats K mem f F" and g: "confined L g" "repeats L u g (\<lambda>_. g')"
    and "K \<inter> L = {}"
  shows "repeats (K \<union> L) mem (bindE f (\<lambda>x. bindE g (\<lambda>_. returnE x)))
    (\<lambda>m. bindE (F m) (\<lambda>x. bindE g' (\<lambda>_. returnE x)))"
  unfolding repeats_def
proof (intro allI impI)
  fix s s' t :: "tracker env" and x
  assume ok: "tracker_ok (env_world s)" and run: "bindE f (\<lambda>x. bindE g (\<lambda>_. returnE x)) s = (Inr x, s')"
    and agree: "agree_on (K \<union> L) (env_world s') (env_world t)"
  from run obtain s1 y where 1: "f s = (Inr x, s1)" and 2: "g s1 = (Inr y, s')"
    by (auto elim!: bindE_InrE simp: returnE_def)
  have ok1: "tracker_ok (env_world s1)" using f(1) ok 1 by (rule confinedD)
  have "agree_on K (env_world s1) (env_world s')"
    using confinedD(2) [OF g(1) ok1 2] assms(5) by (rule agree_unchanged)
  then have "agree_on K (env_world s1) (env_world t)"
    using agree by (blast intro: agree_on_trans agree_on_mono)
  then obtain x' where "F (mem x) t = (Inr x', t)" "mem x' = mem x" using repeatsD [OF f(2) ok 1] by blast
  moreover obtain y' where "g' t = (Inr y', t)"
    using repeatsD [OF g(2) ok1 2] agree agree_on_mono [of "K \<union> L" _ _ L] by blast
  ultimately show "\<exists>x'. bindE (F (mem x)) (\<lambda>x. bindE g' (\<lambda>_. returnE x)) t = (Inr x', t) \<and> mem x' = mem x"
    by (auto simp: bindE_def returnE_def)
qed

lemma enabled_bindE:
  assumes f: "confined K f" "enabled K P f" and g: "\<And>x. enabled L Q (g x)" and "K \<inter> L = {}"
  shows "enabled (K \<union> L) (\<lambda>t. P t \<and> Q t) (bindE f g)"
proof -
  have "\<exists>y s'. bindE f g s = (Inr y, s')"
    if ok: "tracker_ok (env_world s)" and pq: "P (env_world s)" "Q (env_world s)" for s :: "tracker env"
  proof -
    obtain x s1 where 1: "f s = (Inr x, s1)" using f(2) ok pq(1) unfolding enabled_def by blast
    note f1 = confinedD [OF f(1) ok 1]
    have "agree_on L (env_world s) (env_world s1)"
      using f1(2) assms(4) by (blast intro: agree_unchanged)
    then have "Q (env_world s1)" using g pq(2) unfolding enabled_def by blast
    then obtain y s' where "g x s1 = (Inr y, s')" using g f1(1) unfolding enabled_def by blast
    with 1 show ?thesis by (simp add: bindE_def)
  qed
  moreover have "agree_on (K \<union> L) t t' \<Longrightarrow> P t \<and> Q t \<Longrightarrow> P t' \<and> Q t'" for t t'
    using f(2) g agree_on_mono [of "K \<union> L" t t'] unfolding enabled_def by blast
  ultimately show ?thesis unfolding enabled_def by blast
qed

lemma enabled_returnE: "enabled {} (\<lambda>_. True) (returnE x)"
  by (simp add: enabled_def returnE_def)

section \<open>Applies as steps\<close>

lemma checked_Inr: "checked f s = (Inr ob, s') \<longleftrightarrow> (\<exists>ch. f s = ((ob, ch, None), s'))"
  by (auto simp: checked_def split: prod.splits option.splits)

lemma confined_checked: "confined K f \<Longrightarrow> confined K (checked f)"
  by (auto simp: confined_def checked_def split: prod.splits option.splits)

lemma repeats_failing: "(\<And>s. \<exists>e. fst (f s) = Inl e) \<Longrightarrow> repeats K mem f F"
  unfolding repeats_def by (metis fst_conv sum.distinct(1))

context tracked_apply begin

lemma confined_apply:
  assumes "wf req"
  shows "confined {(r, ns, name_of req)}
    (apply_skeleton (fake_client r emb proj) ns (name_of req) (created req) (plan c req) evc evu)"
  using apply_frame [OF assms] apply_inv
  by (fastforce simp: confined_def unchanged_off_def)

lemma repeats_apply:
  assumes "wf req"
  shows "repeats {(r, ns, name_of req)} (\<lambda>x. memo (the x))
    (checked (apply_skeleton (fake_client r emb proj) ns (name_of req) (created req) (plan c req) evc evu))
    (\<lambda>m. checked (apply_skeleton (fake_client r emb proj) ns (name_of req) (created req) (plan m req) evc evu))"
  unfolding repeats_def checked_Inr
proof (intro allI impI)
  fix s s' t :: "tracker env" and x
  assume ok: "tracker_ok (env_world s)" and agree: "agree_on {(r, ns, name_of req)} (env_world s') (env_world t)"
    and "\<exists>ch. apply_skeleton (fake_client r emb proj) ns (name_of req) (created req) (plan c req) evc evu s =
      ((x, ch, None), s')"
  then obtain ch where run: "apply_skeleton (fake_client r emb proj) ns (name_of req) (created req) (plan c req) evc evu s =
      ((x, ch, None), s')" by blast
  then obtain a where a: "x = Some a" using apply_result_some by blast
  have "object_at (env_world t) (r, ns, name_of req) = object_at (env_world s') (r, ns, name_of req)"
    using agree by (simp add: agree_on_def)
  from apply_settled [OF assms ok run [unfolded a]] have "settled ns req (memo a) (env_world t)"
    by (subst settled_cong [OF \<open>object_at _ _ = _\<close>])
  from settled_again [OF assms this, of evc evu]
  obtain a' where "apply_skeleton (fake_client r emb proj) ns (name_of req) (created req) (plan (memo a) req) evc evu t =
      ((Some a', False, None), t)" and "memo a' = memo a" by blast
  then show "\<exists>y. (\<exists>ch. apply_skeleton (fake_client r emb proj) ns (name_of req) (created req) (plan (memo (the x)) req) evc evu t =
      ((y, ch, None), t)) \<and> memo (the y) = memo (the x)"
    by (intro exI [of _ "Some a'"] conjI exI [of _ False]) (simp_all add: a)
qed

text \<open>The states from which an apply succeeds: its key is free or holds an object the plan accepts.\<close>

definition place :: "string \<Rightarrow> 'o \<Rightarrow> 'c \<Rightarrow> tracker \<Rightarrow> bool" where
  "place ns req c t \<longleftrightarrow> object_at t (r, ns, name_of req) = None \<or>
     (\<exists>b. trackerGet r ns (name_of req) t = Inr (emb b) \<and> (\<forall>e. plan c req b \<noteq> Refuse e))"

lemma enabled_apply:
  assumes "wf req" and "knamespace (emb (created req)) = ns"
    and "\<And>b ob. knamespace (emb b) = ns \<Longrightarrow> plan c req b = Write ob \<Longrightarrow> knamespace (emb ob) = ns"
  shows "enabled {(r, ns, name_of req)} (place ns req c)
    (checked (apply_skeleton (fake_client r emb proj) ns (name_of req) (created req) (plan c req) evc evu))"
  unfolding enabled_def checked_Inr
proof (intro conjI allI impI)
  show "agree_on {(r, ns, name_of req)} t t' \<Longrightarrow> place ns req c t \<Longrightarrow> place ns req c t'" for t t'
    by (auto simp: place_def agree_on_def trackerGet_def)
  fix s :: "tracker env"
  assume ok: "tracker_ok (env_world s)" and "place ns req c (env_world s)"
  then have p: "object_at (env_world s) (r, ns, name_of req) = None \<or>
     (\<exists>b. trackerGet r ns (name_of req) (env_world s) = Inr (emb b) \<and> (\<forall>e. plan c req b \<noteq> Refuse e))"
    by (simp add: place_def)
  have w: "trackerGet r ns (name_of req) (env_world s) = Inr (emb b) \<Longrightarrow> plan c req b = Write ob \<Longrightarrow>
      knamespace (emb ob) = ns" for b ob
    using trackerGet_key [OF ok, of r ns "name_of req" "emb b"] assms(3) [of b ob] by simp
  show "\<exists>x s' ch. apply_skeleton (fake_client r emb proj) ns (name_of req) (created req) (plan c req) evc evu s =
      ((x, ch, None), s')"
    using apply_succeeds [OF assms(1) ok p assms(2), of evc evu] w by blast
qed

end

end
