(* ===== verification/Operand_Objects.thy ===== *)
theory Operand_Objects
  imports Reconciler
begin

text \<open>
  What each \<open>manage\<close> function of the reconciler applies, in closed form: the manifest with the
  namespace, owner and configuration of the CliManager object. The manifests are embedded in
  the binary, so the readers and index expressions that could panic do not, and the panics are
  gone from the closed forms. The objects are an abstract specification of the operand:
  \<open>sync\<close> drives the stored objects towards them.
\<close>

named_theorems operand_simps

lemma own_by_eq [operand_simps]: "own_by cm m = m\<lparr>om_ownerReferences := [operator_owner cm]\<rparr>"
  by (simp add: own_by_def Let_def)

lemma with_asset_eq: "sum_bind (MustAsset name) reader = Inr x \<Longrightarrow> with_asset name reader k = k x"
  by (simp add: with_asset_def fun_eq_iff)

definition operand_meta :: "cli_manager \<Rightarrow> object_meta \<Rightarrow> object_meta" where
  "operand_meta cm m = m\<lparr>om_ownerReferences := [operator_owner cm]\<rparr>"

definition namespaced_operand_meta :: "cli_manager \<Rightarrow> object_meta \<Rightarrow> object_meta" where
  "namespaced_operand_meta cm m =
     m\<lparr>om_namespace := om_namespace (cm_meta cm), om_ownerReferences := [operator_owner cm]\<rparr>"

lemma own_by_operand [operand_simps]: "own_by cm m = operand_meta cm m"
  "operand_meta cm (in_namespace_of cm m) = namespaced_operand_meta cm m"
  by (simp_all add: own_by_eq operand_meta_def namespaced_operand_meta_def in_namespace_of_def)

declare own_by_eq [operand_simps del]

definition desired_role :: "cli_manager \<Rightarrow> role" where
  "desired_role cm = role_yaml\<lparr>role_meta := operand_meta cm (role_meta role_yaml)\<rparr>"
definition desired_roleBinding :: "cli_manager \<Rightarrow> role_binding" where
  "desired_roleBinding cm = rolebinding_yaml\<lparr>rb_meta := operand_meta cm (rb_meta rolebinding_yaml)\<rparr>"
definition desired_clusterRole :: "cli_manager \<Rightarrow> cluster_role" where
  "desired_clusterRole cm = clusterrole_yaml\<lparr>crole_meta := operand_meta cm (crole_meta clusterrole_yaml)\<rparr>"
definition desired_clusterRoleBinding :: "cli_manager \<Rightarrow> role_binding" where
  "desired_clusterRoleBinding cm =
     clusterrolebinding_yaml\<lparr>rb_meta := operand_meta cm (rb_meta clusterrolebinding_yaml)\<rparr>"
definition desired_serviceAccount :: "cli_manager \<Rightarrow> service_account" where
  "desired_serviceAccount cm =
     serviceaccount_yaml\<lparr>sa_meta := namespaced_operand_meta cm (sa_meta serviceaccount_yaml)\<rparr>"
definition desired_service :: "cli_manager \<Rightarrow> service" where
  "desired_service cm = service_yaml\<lparr>svc_meta := namespaced_operand_meta cm (svc_meta service_yaml)\<rparr>"
definition desired_serviceMetrics :: "cli_manager \<Rightarrow> service" where
  "desired_serviceMetrics cm =
     servicemetrics_yaml\<lparr>svc_meta := namespaced_operand_meta cm (svc_meta servicemetrics_yaml)\<rparr>"
definition desired_networkPolicy :: "cli_manager \<Rightarrow> network_policy" where
  "desired_networkPolicy cm = networkpolicy_operand_allow_yaml
     \<lparr>np_meta := namespaced_operand_meta cm (np_meta networkpolicy_operand_allow_yaml)\<rparr>"

definition desired_route :: "bool \<Rightarrow> cli_manager \<Rightarrow> route" where
  "desired_route insecureHTTP cm =
     route_yaml\<lparr>route_meta := namespaced_operand_meta cm (route_meta route_yaml),
       route_spec := (route_spec route_yaml)\<lparr>rs_tls := Some
         \<lparr>tls_termination = ''edge'',
          tls_insecureEdgeTerminationPolicy = (if insecureHTTP then ''Allow'' else ''Redirect''),
          tls_rest = fmempty\<rparr>\<rparr>\<rparr>"

definition operand_container :: "string \<Rightarrow> log_level \<Rightarrow> bool \<Rightarrow> container" where
  "operand_container targetImage logLevel insecureHTTP =
     cli_manager_container
       \<lparr>c_image := (if targetImage = [] then ''${IMAGE}'' else targetImage),
        c_args := (''-v='' @ decimal (verbosity logLevel)) #
                  (if insecureHTTP then [''--serve-artifacts-in-http''] else [])\<rparr>"

definition desired_deployment :: "string \<Rightarrow> bool \<Rightarrow> cli_manager \<Rightarrow> deployment" where
  "desired_deployment targetImage insecureHTTP cm =
     (let sp = dep_spec deployment_yaml; t = ds_template sp in
      deployment_yaml\<lparr>dep_meta := namespaced_operand_meta cm (dep_meta deployment_yaml),
        dep_spec := sp\<lparr>ds_template := t\<lparr>pt_spec := (pt_spec t)\<lparr>ps_containers :=
          [operand_container targetImage (os_logLevel (cms_operatorSpec (cm_spec cm))) insecureHTTP]\<rparr>\<rparr>\<rparr>\<rparr>)"

definition expected_generation :: "cli_manager \<Rightarrow> int" where
  "expected_generation cm = ExpectedDeploymentGeneration (desired_deployment [] False cm)
     (ost_generations (cmst_operatorStatus (cm_status cm)))"

lemma manageRole_eq:
  "manageRole c cm = ApplyRole (rec_roles c) (desired_role cm)"
  by (simp add: manageRole_def with_asset_eq asset_reads operand_simps desired_role_def)

lemma manageRoleBinding_eq:
  "manageRoleBinding c cm = ApplyRoleBinding (rec_roleBindings c) (desired_roleBinding cm)"
  by (simp add: manageRoleBinding_def with_asset_eq asset_reads operand_simps desired_roleBinding_def)

lemma manageClusterRole_eq:
  "manageClusterRole c cm = ApplyClusterRole (rec_clusterRoles c) (desired_clusterRole cm)"
  by (simp add: manageClusterRole_def with_asset_eq asset_reads operand_simps desired_clusterRole_def)

lemma manageClusterRoleBinding_eq:
  "manageClusterRoleBinding c cm =
    ApplyClusterRoleBinding (rec_clusterRoleBindings c) (desired_clusterRoleBinding cm)"
  by (simp add: manageClusterRoleBinding_def with_asset_eq asset_reads operand_simps desired_clusterRoleBinding_def)

lemma manageServiceAccount_eq:
  "manageServiceAccount c cm =
    ApplyServiceAccount (rec_serviceAccountSum c) (rec_serviceAccounts c) (desired_serviceAccount cm)"
  by (simp add: manageServiceAccount_def with_asset_eq asset_reads operand_simps desired_serviceAccount_def)

lemma manageService_eq:
  "manageService c cm =
    ApplyService (rec_serviceHash c) (rec_serviceSum c) (rec_services c) (desired_service cm)"
  by (simp add: manageService_def with_asset_eq asset_reads operand_simps desired_service_def)

lemma manageServiceMetrics_eq:
  "manageServiceMetrics c cm =
    ApplyService (rec_serviceHash c) (rec_serviceSum c) (rec_services c) (desired_serviceMetrics cm)"
  by (simp add: manageServiceMetrics_def with_asset_eq asset_reads operand_simps desired_serviceMetrics_def)

lemma manageRoute_eq:
  "manageRoute c cm = applyRoute (rec_routes c) (desired_route (rec_insecureHTTP c) cm)"
  by (simp add: manageRoute_def with_asset_eq asset_reads operand_simps desired_route_def allow_insecure_def
      route_yaml_def Let_def fun_eq_iff)

lemma manageOperandNetworkPolicyAllow_eq:
  "manageOperandNetworkPolicyAllow c cm s =
    (let ((r, _), s') = ApplyNetworkPolicy (rec_policySum c) policy_group_kind (rec_networkPolicies c)
       (desired_networkPolicy cm) NewResourceCache s in (r, s'))"
  by (simp add: manageOperandNetworkPolicyAllow_def with_asset_eq asset_reads operand_simps
      desired_networkPolicy_def Let_def)

lemma configure_operand_containers:
  "configure_containers targetImage l insecureHTTP [cli_manager_container] =
    Inr [operand_container targetImage l insecureHTTP]"
  by (simp add: configure_containers_def append_arg_def set_images_def operand_container_def cli_manager_container_def)

lemma deployment_yaml_containers:
  "ps_containers (pt_spec (ds_template (dep_spec deployment_yaml))) = [cli_manager_container]"
  by (simp add: deployment_yaml_def)

lemma expected_generation_eq:
  "ExpectedDeploymentGeneration (desired_deployment img ins cm) gs =
    ExpectedDeploymentGeneration (desired_deployment [] False cm) gs"
  by (simp add: ExpectedDeploymentGeneration_def desired_deployment_def Let_def)

lemma manageDeployments_eq:
  "manageDeployments c cm =
    ApplyDeployment (rec_deploymentHash c) (rec_uuid c) (rec_deployments c)
      (desired_deployment (rec_targetImage c) (rec_insecureHTTP c) cm) (expected_generation cm)"
proof -
  have name: "(dep_meta deployment_yaml)\<lparr>om_name := OperandName\<rparr> = dep_meta deployment_yaml"
    by (simp add: deployment_yaml_def manifest_meta_def)
  have "map_containers (configure_containers img l ins)
      (deployment_yaml\<lparr>dep_meta := namespaced_operand_meta cm (dep_meta deployment_yaml)\<rparr>) =
      Inr (let sp = dep_spec deployment_yaml; t = ds_template sp in
        deployment_yaml\<lparr>dep_meta := namespaced_operand_meta cm (dep_meta deployment_yaml),
          dep_spec := sp\<lparr>ds_template := t\<lparr>pt_spec := (pt_spec t)\<lparr>ps_containers :=
            [operand_container img l ins]\<rparr>\<rparr>\<rparr>\<rparr>)" for img l ins
    by (simp add: map_containers_def deployment_yaml_containers configure_operand_containers Let_def)
  then show ?thesis
    unfolding manageDeployments_def with_asset_eq [OF _, of "''assets/cli-manager/deployment.yaml''"]
    by (simp add: with_asset_eq asset_reads operand_simps name fun_eq_iff Let_def
        desired_deployment_def [unfolded Let_def, symmetric] expected_generation_def
        expected_generation_eq [of "rec_targetImage c"])
qed

section \<open>The service monitor\<close>

definition monitor_metadata :: "cli_manager \<Rightarrow> json_map" where
  "monitor_metadata cm = fmap_of_list
     [(''name'', JStr ''openshift-cli-manager''), (''namespace'', JStr (om_namespace (cm_meta cm))),
      (''ownerReferences'', JArr [owner_to_json (operator_owner cm)])]"

definition monitor_tls :: "string \<Rightarrow> json_map" where
  "monitor_tls serverName = fmap_of_list
     ([(''caFile'', JStr ''/etc/prometheus/configmaps/serving-certs-ca-bundle/service-ca.crt''),
       (''certFile'', JStr ''/etc/prometheus/secrets/metrics-client-certs/tls.crt''),
       (''keyFile'', JStr ''/etc/prometheus/secrets/metrics-client-certs/tls.key'')] @
      [(''serverName'', JStr serverName)])"

definition monitor_endpoint :: "json_map \<Rightarrow> json_map" where
  "monitor_endpoint tls = fmap_of_list
     ([(''bearerTokenFile'', JStr ''/var/run/secrets/kubernetes.io/serviceaccount/token''),
       (''interval'', JStr ''30s''), (''path'', JStr ''/metrics''),
       (''port'', JStr ''cli-manager-metrics-port''), (''scheme'', JStr ''https'')] @
      [(''tlsConfig'', JObj tls)])"

definition monitor_spec :: "string \<Rightarrow> json_map" where
  "monitor_spec serverName =
     fmupd ''endpoints'' (JArr [JObj (monitor_endpoint (monitor_tls serverName))])
       (fmap_of_list [(''jobLabel'', JStr ''component''),
         (''selector'', jobj [(''matchLabels'', jobj [(''app'', JStr ''openshift-cli-manager'')])])])"

text \<open>A service monitor with the given metadata and spec, and the one the operator wants.\<close>

definition monitor_object :: "json_map \<Rightarrow> json_map \<Rightarrow> unstructured" where
  "monitor_object m sp =
     \<lparr>u_object = fmupd ''metadata'' (JObj m) (fmupd ''spec'' (JObj sp)
        (fmap_of_list [(''apiVersion'', JStr ''monitoring.coreos.com/v1''), (''kind'', JStr ''ServiceMonitor'')]))\<rparr>"

definition desired_serviceMonitor :: "cli_manager \<Rightarrow> unstructured" where
  "desired_serviceMonitor cm = monitor_object (monitor_metadata cm) (monitor_spec (metrics_server_name cm))"

lemma servicemonitor_yaml_object:
  "servicemonitor_yaml = monitor_object
    (fmap_of_list [(''name'', JStr ''openshift-cli-manager''), (''namespace'', JStr OperatorNamespace)])
    (monitor_spec ''metrics.openshift-cli-manager-operator.svc'')"
  by (simp add: servicemonitor_yaml_def monitor_object_def monitor_spec_def monitor_endpoint_def
      monitor_tls_def servicemonitor_tls_def jobj_def fmupd_twist [of "''spec''" "''apiVersion''"]
      fmupd_twist [of "''spec''" "''kind''"] fmupd_twist [of "''metadata''" "''apiVersion''"]
      fmupd_twist [of "''metadata''" "''kind''"])

lemma monitor_object_lookup [simp]:
  "fmlookup (u_object (monitor_object m sp)) ''metadata'' = Some (JObj m)"
  "fmlookup (u_object (monitor_object m sp)) ''spec'' = Some (JObj sp)"
  "fmlookup (u_object (monitor_object m sp)) ''kind'' = Some (JStr ''ServiceMonitor'')"
  "fmlookup (u_object (monitor_object m sp)) ''apiVersion'' = Some (JStr ''monitoring.coreos.com/v1'')"
  by (simp_all add: monitor_object_def)

lemma monitor_object_update [simp]:
  "fmupd ''metadata'' (JObj m') (u_object (monitor_object m sp)) = u_object (monitor_object m' sp)"
  "fmupd ''spec'' (JObj sp') (u_object (monitor_object m sp)) = u_object (monitor_object m sp')"
  "(monitor_object m sp)\<lparr>u_object := u_object (monitor_object m' sp')\<rparr> = monitor_object m' sp'"
  by (simp_all add: monitor_object_def fmupd_twist [of "''spec''" "''metadata''"])

lemma set_monitor_metadata:
  "setNestedField (monitor_object m sp) v [''metadata'', k] = monitor_object (fmupd k v m) sp"
  by (simp add: setNestedField_def SetNestedField_def)

lemma set_server_name:
  "setServiceMonitorServerName (monitor_object m (monitor_spec sn)) sn' =
    Inr (monitor_object m (monitor_spec sn'))"
proof -
  have tls: "fmupd ''serverName'' (JStr sn') (monitor_tls sn) = monitor_tls sn'"
    unfolding monitor_tls_def by (rule fmupd_last) simp
  have ep: "fmupd ''tlsConfig'' (JObj t') (monitor_endpoint t) = monitor_endpoint t'" for t t'
    unfolding monitor_endpoint_def by (rule fmupd_last) simp
  have lk: "fmlookup (monitor_endpoint t) ''tlsConfig'' = Some (JObj t)" for t
    unfolding monitor_endpoint_def by (rule lookup_last) simp
  have "NestedSlice (u_object (monitor_object m (monitor_spec sn))) [''spec'', ''endpoints''] =
      Inr (Some [JObj (monitor_endpoint (monitor_tls sn))])"
    by (simp add: NestedSlice_def NestedFieldNoCopy_def monitor_spec_def)
  moreover have "SetNestedSlice (u_object (monitor_object m (monitor_spec sn)))
      [JObj (monitor_endpoint (monitor_tls sn'))] [''spec'', ''endpoints''] =
      Inr (u_object (monitor_object m (monitor_spec sn')))"
    by (simp add: SetNestedSlice_def SetNestedField_def) (simp add: monitor_spec_def)
  ultimately show ?thesis
    by (simp add: setServiceMonitorServerName_def lk ep tls)
qed

lemma monitor_no_owner:
  "fmlookup m ''ownerReferences'' = None \<Longrightarrow> GetOwnerReferences (monitor_object m sp) = []"
  by (simp add: GetOwnerReferences_def NestedFieldNoCopy_def)

text \<open>With a namespace, the service monitor the operator builds is the desired one.\<close>

lemma required_serviceMonitor:
  assumes "om_namespace (cm_meta cm) \<noteq> []"
  shows "setServiceMonitorServerName (EnsureOwnerRefUnstructured
      (SetNamespace servicemonitor_yaml (om_namespace (cm_meta cm))) (operator_owner cm))
      (metrics_server_name cm) = Inr (desired_serviceMonitor cm)"
proof -
  have ns: "SetNamespace servicemonitor_yaml (om_namespace (cm_meta cm)) =
      monitor_object (fmap_of_list [(''name'', JStr ''openshift-cli-manager''),
        (''namespace'', JStr (om_namespace (cm_meta cm)))]) (monitor_spec ''metrics.openshift-cli-manager-operator.svc'')"
    using assms by (simp add: SetNamespace_def servicemonitor_yaml_object set_monitor_metadata
        fmupd_twist [of "''namespace''" "''name''"])
  have "EnsureOwnerRefUnstructured (SetNamespace servicemonitor_yaml (om_namespace (cm_meta cm))) (operator_owner cm) =
      monitor_object (monitor_metadata cm) (monitor_spec ''metrics.openshift-cli-manager-operator.svc'')"
    by (simp add: ns EnsureOwnerRefUnstructured_def monitor_no_owner EnsureOwnerRef_def SetOwnerReferences_def
        set_monitor_metadata monitor_metadata_def fmupd_twist [of "''ownerReferences''" "''name''"]
        fmupd_twist [of "''ownerReferences''" "''namespace''"])
  then show ?thesis by (simp add: set_server_name desired_serviceMonitor_def)
qed

lemma desired_monitor_kind: "GroupKind (desired_serviceMonitor cm) = (''monitoring.coreos.com'', ''ServiceMonitor'')"
  by (simp add: desired_serviceMonitor_def GroupKind_def GroupVersionKind_def GetAPIVersion_def GetKind_def
      getNestedString_def NestedString_def NestedFieldNoCopy_def ParseGroupVersion_def)

lemma applyOperandServiceMonitor_eq:
  assumes "om_namespace (cm_meta cm) \<noteq> []"
  shows "applyOperandServiceMonitor c cm =
    ApplyServiceMonitor (rec_unstructuredSum c) (rec_dynamicClient c) (desired_serviceMonitor cm)"
  by (simp add: applyOperandServiceMonitor_def with_asset_eq asset_reads required_serviceMonitor [OF assms]
      ApplyKnownUnstructured_def desired_monitor_kind fun_eq_iff Let_def)

section \<open>The objects can be settled\<close>

text \<open>
  The metadata merge settles on what the operator requires: no manifest key is a removal, and
  the owner reference is one unless the CliManager's UID ends in a dash, which no UID does.
\<close>

definition proper_owner :: "cli_manager \<Rightarrow> bool" where
  "proper_owner cm \<longleftrightarrow> \<not> HasSuffixDash (om_uid (cm_meta cm))"

lemma operator_owner_mergeable: "proper_owner cm \<Longrightarrow> mergeable_owners [operator_owner cm]"
  by (simp add: proper_owner_def mergeable_owners_def operator_owner_def ownerRefMatched_self ParseGroupVersion_def)

lemma clash_free_no_removal: "fmpred (\<lambda>k _. \<not> HasSuffixDash k) m \<Longrightarrow> clash_free m"
  by (auto simp: clash_free_def fmpred_iff)

lemma manifest_meta_clash_free:
  assumes "list_all (\<lambda>(k, _). \<not> HasSuffixDash k) labels" and "list_all (\<lambda>(k, _). \<not> HasSuffixDash k) annotations"
  shows "clash_free (om_labels (manifest_meta n ns labels annotations))"
    and "clash_free (om_annotations (manifest_meta n ns labels annotations))"
  using assms
  by (auto simp: manifest_meta_def list_all_iff fmap_of_list.rep_eq dest!: map_of_SomeD intro!: clash_free_no_removal)

lemma operand_meta_mergeable:
  assumes "proper_owner cm" and "clash_free (om_labels m)" and "clash_free (om_annotations m)"
  shows "mergeable_meta (operand_meta cm m)" and "mergeable_meta (namespaced_operand_meta cm m)"
  using assms operator_owner_mergeable
  by (simp_all add: mergeable_meta_def operand_meta_def namespaced_operand_meta_def)

lemma desired_mergeable:
  assumes "proper_owner cm"
  shows "mergeable_meta (role_meta (desired_role cm))"
    and "mergeable_meta (rb_meta (desired_roleBinding cm))"
    and "mergeable_meta (crole_meta (desired_clusterRole cm))"
    and "mergeable_meta (rb_meta (desired_clusterRoleBinding cm))"
    and "mergeable_meta (sa_meta (desired_serviceAccount cm))"
    and "mergeable_meta (svc_meta (desired_service cm))"
    and "mergeable_meta (svc_meta (desired_serviceMetrics cm))"
    and "mergeable_meta (np_meta (desired_networkPolicy cm))"
    and "mergeable_meta (route_meta (desired_route ins cm))"
    and "mergeable_meta (dep_meta (desired_deployment img ins cm))"
  unfolding desired_role_def desired_roleBinding_def desired_clusterRole_def desired_clusterRoleBinding_def
    desired_serviceAccount_def desired_service_def desired_serviceMetrics_def desired_networkPolicy_def
    desired_route_def desired_deployment_def Let_def
  by (simp_all add: role_yaml_def rolebinding_yaml_def clusterrole_yaml_def clusterrolebinding_yaml_def
      serviceaccount_yaml_def service_yaml_def servicemetrics_yaml_def networkpolicy_operand_allow_yaml_def
      route_yaml_def deployment_yaml_def service_annotations_def
      operand_meta_mergeable [OF assms] manifest_meta_clash_free HasSuffixDash_def)

lemma desired_names:
  "om_name (role_meta (desired_role cm)) = OperandName"
  "om_name (rb_meta (desired_roleBinding cm)) = OperandName"
  "om_name (crole_meta (desired_clusterRole cm)) = OperandName"
  "om_name (rb_meta (desired_clusterRoleBinding cm)) = OperandName"
  "om_name (sa_meta (desired_serviceAccount cm)) = OperandName"
  "om_name (svc_meta (desired_service cm)) = OperandName"
  "om_name (svc_meta (desired_serviceMetrics cm)) = ''openshift-cli-manager-metrics''"
  "om_name (np_meta (desired_networkPolicy cm)) = ''cli-manager-operand''"
  "om_name (route_meta (desired_route ins cm)) = OperandName"
  "om_name (dep_meta (desired_deployment img ins cm)) = OperandName"
  unfolding desired_role_def desired_roleBinding_def desired_clusterRole_def desired_clusterRoleBinding_def
    desired_serviceAccount_def desired_service_def desired_serviceMetrics_def desired_networkPolicy_def
    desired_route_def desired_deployment_def Let_def
  by (simp_all add: role_yaml_def rolebinding_yaml_def clusterrole_yaml_def clusterrolebinding_yaml_def
      serviceaccount_yaml_def service_yaml_def servicemetrics_yaml_def networkpolicy_operand_allow_yaml_def
      route_yaml_def deployment_yaml_def operand_meta_def namespaced_operand_meta_def manifest_meta_def)

lemma desired_namespaces:
  "om_namespace (role_meta (desired_role cm)) = OperatorNamespace"
  "om_namespace (rb_meta (desired_roleBinding cm)) = OperatorNamespace"
  "om_namespace (crole_meta (desired_clusterRole cm)) = []"
  "om_namespace (rb_meta (desired_clusterRoleBinding cm)) = []"
  "om_namespace (sa_meta (desired_serviceAccount cm)) = om_namespace (cm_meta cm)"
  "om_namespace (svc_meta (desired_service cm)) = om_namespace (cm_meta cm)"
  "om_namespace (svc_meta (desired_serviceMetrics cm)) = om_namespace (cm_meta cm)"
  "om_namespace (np_meta (desired_networkPolicy cm)) = om_namespace (cm_meta cm)"
  "om_namespace (route_meta (desired_route ins cm)) = om_namespace (cm_meta cm)"
  "om_namespace (dep_meta (desired_deployment img ins cm)) = om_namespace (cm_meta cm)"
  unfolding desired_role_def desired_roleBinding_def desired_clusterRole_def desired_clusterRoleBinding_def
    desired_serviceAccount_def desired_service_def desired_serviceMetrics_def desired_networkPolicy_def
    desired_route_def desired_deployment_def Let_def
  by (simp_all add: role_yaml_def rolebinding_yaml_def clusterrole_yaml_def clusterrolebinding_yaml_def
      operand_meta_def namespaced_operand_meta_def manifest_meta_def)

definition monitor_meta :: "cli_manager \<Rightarrow> object_meta" where
  "monitor_meta cm =
     \<lparr>om_name = OperandName, om_namespace = om_namespace (cm_meta cm), om_uid = [], om_resourceVersion = [],
      om_generation = 0, om_labels = fmempty, om_annotations = fmempty,
      om_ownerReferences = [operator_owner cm], om_server = fmempty\<rparr>"

lemma desired_monitor_typed: "typed_meta (desired_serviceMonitor cm) = Inr (monitor_meta cm)"
proof -
  have "fmfilter (\<lambda>k. k \<in> set server_fields) (monitor_metadata cm) = fmempty"
    by (rule fmap_ext) (auto simp: monitor_metadata_def server_fields_def)
  then have "FromUnstructured (monitor_metadata cm) = Inr (monitor_meta cm)"
    by (simp add: FromUnstructured_def monitor_meta_def string_field_def int_field_def string_map_field_def
        owners_field_def owner_round_trip) (simp add: monitor_metadata_def owner_round_trip)
  then show ?thesis by (simp add: typed_meta_Inr desired_serviceMonitor_def)
qed

lemma desired_monitor_names:
  "GetName (desired_serviceMonitor cm) = OperandName"
  "GetNamespace (desired_serviceMonitor cm) = om_namespace (cm_meta cm)"
  by (simp_all add: GetName_typed [OF desired_monitor_typed] GetNamespace_typed [OF desired_monitor_typed]
      monitor_meta_def)

lemma desired_monitor_wf: "proper_owner cm \<Longrightarrow> unstructured_wf (desired_serviceMonitor cm)"
  using operator_owner_mergeable [of cm] desired_monitor_typed [of cm]
  by (simp add: unstructured_wf_def monitor_meta_def mergeable_meta_def clash_free_def)
    (simp add: nested_spec_def NestedMap_single desired_serviceMonitor_def)

end
