(* ===== verification/Sync_Convergence.thy ===== *)
theory Sync_Convergence
  imports Tracker_Steps Operand_Objects
begin

text \<open>
  The reconciler on one object tracker: each step of \<open>sync\<close> touches only its own object, once
  it has succeeded running it again changes nothing, and it succeeds whenever its key is free
  or holds an object of its kind. Composed, \<open>sync\<close> converges: after a run that returns no
  error the next run returns none and leaves the server as it is.
\<close>

section \<open>Sync as a sequence of steps\<close>

definition rest_steps :: "'w reconciler \<Rightarrow> cli_manager \<Rightarrow> ('w, go_error + unstructured option) go" where
  "rest_steps c cm =
     bindE (checked (manageRoute c cm)) (\<lambda>_.
     bindE (checked (manageService c cm)) (\<lambda>_.
     bindE (checked (manageServiceMetrics c cm)) (\<lambda>_.
     bindE (checked (manageServiceAccount c cm)) (\<lambda>_.
     checked (applyOperandServiceMonitor c cm)))))"

definition operand_steps :: "'w reconciler \<Rightarrow> cli_manager \<Rightarrow> ('w, go_error + deployment option) go" where
  "operand_steps c cm =
     bindE (checked (manageOperandNetworkPolicyAllow c cm)) (\<lambda>_.
     bindE (checked (manageClusterRole c cm)) (\<lambda>_.
     bindE (checked (manageClusterRoleBinding c cm)) (\<lambda>_.
     bindE (checked (manageRole c cm)) (\<lambda>_.
     bindE (checked (manageRoleBinding c cm)) (\<lambda>_.
     bindE (checked (manageDeployments c cm)) (\<lambda>d.
     bindE (rest_steps c cm) (\<lambda>_. returnE d)))))))"

definition record_status :: "'w reconciler \<Rightarrow> deployment option \<Rightarrow> ('w, go_error + unit) go" where
  "record_status c deployment s =
     (case UpdateStatus (rec_cliManagerClient c) [record_generation deployment] s of
        ((_, _, Some e), s') \<Rightarrow> (Inl e, s')
      | ((_, _, None), s') \<Rightarrow> (Inr (), s'))"

lemma monitor_step:
  "bindE (checked_flag (manageServiceMonitor c cm)) (\<lambda>_. k) = bindE (checked (applyOperandServiceMonitor c cm)) (\<lambda>_. k)"
  by (rule ext) (auto simp: bindE_def checked_flag_def checked_def manageServiceMonitor_def
      split: prod.split sum.split option.split)

lemma reconcile_steps:
  "reconcile c = bindE (call (ca_get (rec_operatorClient c) OperatorNamespace OperatorConfigName))
     (\<lambda>cm. bindE (operand_steps c cm) (record_status c))"
  unfolding reconcile_def operand_steps_def rest_steps_def record_status_def [abs_def] bindE_assoc bindE_return
    monitor_step ..

section \<open>Good steps\<close>

definition good_step :: "object_key set \<Rightarrow> (tracker, go_error + 'x) go \<Rightarrow> bool" where
  "good_step K f \<longleftrightarrow> confined K f \<and> repeats K (\<lambda>_. ()) f (\<lambda>_. f)"

lemma good_step_bind:
  "good_step K f \<Longrightarrow> good_step L g \<Longrightarrow> K \<inter> L = {} \<Longrightarrow> good_step (K \<union> L) (bindE f (\<lambda>_. g))"
  using repeats_before [of K f "\<lambda>_. ()" f L g "\<lambda>_. ()" "\<lambda>_. g"] confined_bindE [of K f L "\<lambda>_. g"]
  by (simp add: good_step_def)

lemma good_failing:
  assumes "\<And>s. f s = (apply_fail e, s)"
  shows "good_step K (checked f)"
proof -
  have "checked f = (\<lambda>s. (Inl e, s))" by (simp add: fun_eq_iff checked_def assms apply_fail_def)
  then show ?thesis by (simp add: good_step_def confined_def repeats_def)
qed

context tracked_apply begin

lemma good_apply:
  assumes "wf req" and "\<And>u v. plan u req = plan v req"
    and "\<And>s. f s = apply_skeleton (fake_client r emb proj) ns (name_of req) (created req) (plan c req) evc evu s"
  shows "good_step {(r, ns, name_of req)} (checked f)"
proof -
  let ?f = "\<lambda>c. apply_skeleton (fake_client r emb proj) ns (name_of req) (created req) (plan c req) evc evu"
  have f: "f = ?f c" using assms(3) by (rule ext)
  have e: "?f d = ?f c" for d by (subst assms(2) [of d c]) (rule refl)
  have F: "(\<lambda>m. checked (?f m)) = (\<lambda>_. checked (?f c))"
    by (rule ext, rule arg_cong [where f = checked], rule e)
  have "repeats {(r, ns, name_of req)} (\<lambda>x. memo (the x)) (checked f) (\<lambda>_. checked f)"
    using repeats_apply [OF assms(1), of ns c evc evu] unfolding f F .
  then show ?thesis
    using confined_apply [OF assms(1), of ns c evc evu]
    unfolding good_step_def f repeats_def by (blast intro: confined_checked)
qed

end

section \<open>The steps of the operator\<close>

text \<open>What the operator requires can be settled, with the hash annotation where there is one.\<close>

definition plain_keys :: "gomap \<Rightarrow> bool" where
  "plain_keys m \<longleftrightarrow> fmpred (\<lambda>k _. \<not> HasSuffixDash k) m"

lemma hashed_mergeable:
  assumes "mergeable_meta m" and "plain_keys (om_annotations m)"
  shows "mergeable_meta (m\<lparr>om_annotations := fmupd specHashAnnotation h (om_annotations m)\<rparr>)"
  by (rule mergeable_spec_hash [OF assms(1), of "Inr h"])
    (use assms(2) in \<open>auto simp: plain_keys_def SetSpecHashAnnotation_def fmpred_iff\<close>)

lemma manifest_annotations:
  "list_all (\<lambda>(k, _). \<not> HasSuffixDash k) annotations \<Longrightarrow>
    plain_keys (om_annotations (manifest_meta n ns labels annotations))"
  by (auto simp: plain_keys_def manifest_meta_def list_all_iff fmpred_iff fmap_of_list.rep_eq dest!: map_of_SomeD)

lemma operand_annotations [simp]: "om_annotations (namespaced_operand_meta cm m) = om_annotations m"
  by (simp add: namespaced_operand_meta_def)

lemma desired_annotations:
  "plain_keys (om_annotations (svc_meta (desired_service cm)))"
  "plain_keys (om_annotations (svc_meta (desired_serviceMetrics cm)))"
  "plain_keys (om_annotations (dep_meta (desired_deployment img ins cm)))"
  unfolding desired_service_def desired_serviceMetrics_def desired_deployment_def Let_def
  by (simp_all add: service_yaml_def servicemetrics_yaml_def deployment_yaml_def service_annotations_def
      manifest_annotations HasSuffixDash_def)

lemma desired_wf:
  assumes "proper_owner cm"
  shows "role_kind.wf (desired_role cm)"
    and "binding_kind.wf (desired_roleBinding cm)"
    and "crole_kind.wf (desired_clusterRole cm)"
    and "binding_kind.wf (desired_clusterRoleBinding cm)"
    and "sa_kind.wf (desired_serviceAccount cm)"
    and "service_kind.wf (with_spec_hash h (desired_service cm))"
    and "service_kind.wf (with_spec_hash h (desired_serviceMetrics cm))"
    and "policy_kind.wf (desired_networkPolicy cm)"
    and "route_kind.wf (desired_route ins cm)"
    and "deployment_wf (with_deployment_hash h (desired_deployment img ins cm))"
proof -
  note ok = desired_mergeable [OF assms] desired_names
  have agg: "crole_aggregationRule (desired_clusterRole cm) = None"
    by (simp add: desired_clusterRole_def clusterrole_yaml_def)
  show "role_kind.wf (desired_role cm)" and "binding_kind.wf (desired_roleBinding cm)"
    and "crole_kind.wf (desired_clusterRole cm)" and "binding_kind.wf (desired_clusterRoleBinding cm)"
    and "sa_kind.wf (desired_serviceAccount cm)" and "policy_kind.wf (desired_networkPolicy cm)"
    and "route_kind.wf (desired_route ins cm)"
    by (simp_all add: role_kind.wf_def binding_kind.wf_def crole_kind.wf_def sa_kind.wf_def
        policy_kind.wf_def route_kind.wf_def ok agg)
  show "service_kind.wf (with_spec_hash h (desired_service cm))"
    and "service_kind.wf (with_spec_hash h (desired_serviceMetrics cm))"
    and "deployment_wf (with_deployment_hash h (desired_deployment img ins cm))"
    by (simp_all add: service_kind.wf_def deployment_wf_def with_spec_hash_def with_deployment_hash_def ok
        hashed_mergeable desired_annotations)
qed

abbreviation metrics_name :: string where "metrics_name \<equiv> ''openshift-cli-manager-metrics''"
abbreviation policy_name :: string where "policy_name \<equiv> ''cli-manager-operand''"

lemma role_step:
  assumes "proper_owner cm"
  shows "good_step {(role_gvr, OperatorNamespace, OperandName)} (checked (manageRole (on_tracker c sm pm) cm))"
  using role_tracked.good_apply [OF desired_wf(1) [OF assms] _ fun_cong [OF ApplyRole_skeleton],
      unfolded desired_names desired_namespaces]
  by (simp add: manageRole_eq on_tracker_def)

lemma roleBinding_step:
  assumes "proper_owner cm"
  shows "good_step {(roleBinding_gvr, OperatorNamespace, OperandName)} (checked (manageRoleBinding (on_tracker c sm pm) cm))"
  using roleBinding_tracked.good_apply [OF desired_wf(2) [OF assms] _ fun_cong [OF ApplyRoleBinding_skeleton],
      unfolded desired_names desired_namespaces]
  by (simp add: manageRoleBinding_eq on_tracker_def)

lemma clusterRole_step:
  assumes "proper_owner cm"
  shows "good_step {(clusterRole_gvr, [], OperandName)} (checked (manageClusterRole (on_tracker c sm pm) cm))"
  using clusterRole_tracked.good_apply [OF desired_wf(3) [OF assms] _ fun_cong [OF ApplyClusterRole_skeleton],
      unfolded desired_names desired_namespaces]
  by (simp add: manageClusterRole_eq on_tracker_def)

lemma clusterRoleBinding_step:
  assumes "proper_owner cm"
  shows "good_step {(clusterRoleBinding_gvr, [], OperandName)} (checked (manageClusterRoleBinding (on_tracker c sm pm) cm))"
  using clusterRoleBinding_tracked.good_apply [OF desired_wf(4) [OF assms] _ fun_cong [OF ApplyClusterRoleBinding_skeleton],
      unfolded desired_names desired_namespaces]
  by (simp add: manageClusterRoleBinding_eq on_tracker_def)

lemma serviceAccount_step:
  assumes "proper_owner cm"
  shows "good_step {(serviceAccount_gvr, (om_namespace (cm_meta cm)), OperandName)} (checked (manageServiceAccount (on_tracker c sm pm) cm))"
  using serviceAccount_tracked.good_apply [OF desired_wf(5) [OF assms] _ fun_cong [OF ApplyServiceAccount_skeleton],
      unfolded desired_names desired_namespaces]
  by (simp add: manageServiceAccount_eq on_tracker_def)

lemma route_step:
  assumes "proper_owner cm"
  shows "good_step {(route_gvr, (om_namespace (cm_meta cm)), OperandName)} (checked (manageRoute (on_tracker c sm pm) cm))"
  using route_tracked.good_apply [OF desired_wf(9) [OF assms] _ fun_cong [OF applyRoute_skeleton],
      unfolded desired_names desired_namespaces]
  by (simp add: manageRoute_eq on_tracker_def)

lemma service_good:
  assumes "\<And>h. service_kind.wf (with_spec_hash h req)"
  shows "good_step {(service_gvr, om_namespace (svc_meta req), om_name (svc_meta req))}
    (checked (ApplyService spec_hash hashOf (fake_client service_gvr KService as_service) req))"
proof (cases "spec_hash (svc_spec req)")
  case (Inl e)
  then show ?thesis by (rule good_failing [OF ApplyService_unhashed])
next
  case (Inr h)
  have "ApplyService spec_hash hashOf (fake_client service_gvr KService as_service) req s =
      apply_skeleton (fake_client service_gvr KService as_service) (om_namespace (svc_meta req))
        (om_name (svc_meta (with_spec_hash h req))) (service_kind.created (with_spec_hash h req))
        (service_kind.merge_plan () (with_spec_hash h req))
        (\<lambda>e. [create_event ''Service'' [] (svc_meta req) e]) (\<lambda>_ e. [update_event ''Service'' [] (svc_meta req) e]) s" for s
    by (simp add: ApplyService_skeleton [of spec_hash, OF Inr])
  from service_tracked.good_apply [OF assms _ this] show ?thesis by simp
qed

lemma service_step:
  assumes "proper_owner cm"
  shows "good_step {(service_gvr, om_namespace (cm_meta cm), OperandName)} (checked (manageService (on_tracker c sm pm) cm))"
    and "good_step {(service_gvr, om_namespace (cm_meta cm), metrics_name)}
      (checked (manageServiceMetrics (on_tracker c sm pm) cm))"
  using service_good [OF desired_wf(6) [OF assms]] service_good [OF desired_wf(7) [OF assms]]
  by (simp_all add: manageService_eq manageServiceMetrics_eq on_tracker_def desired_names desired_namespaces)

lemma networkPolicy_step:
  assumes "proper_owner cm" and "om_namespace (cm_meta cm) \<noteq> []"
  shows "good_step {(networkPolicy_gvr, om_namespace (cm_meta cm), policy_name)}
    (checked (manageOperandNetworkPolicyAllow (on_tracker c sm pm) cm))"
  using networkPolicy_tracked.good_apply [OF desired_wf(8) [OF assms(1)],
      of "manageOperandNetworkPolicyAllow (on_tracker c sm pm) cm" "om_namespace (np_meta (desired_networkPolicy cm))",
      unfolded desired_names desired_namespaces] assms(2)
  by (simp add: manageOperandNetworkPolicyAllow_eq ApplyNetworkPolicy_skeleton desired_namespaces desired_names on_tracker_def)

lemma monitor_good_step:
  assumes "proper_owner cm" and "om_namespace (cm_meta cm) \<noteq> []"
  shows "good_step {(serviceMonitorGVR, om_namespace (cm_meta cm), OperandName)}
    (checked (applyOperandServiceMonitor (on_tracker c sm pm) cm))"
  using monitor_tracked.good_apply [OF desired_monitor_wf [OF assms(1)] _
      fun_cong [OF ApplyMonitoringResource_skeleton [where dyn = "\<lambda>r. fake_client r KUnstructured as_unstructured"
        and resource = serviceMonitorGVR and required = "desired_serviceMonitor cm"]],
      unfolded desired_monitor_names]
  by (simp add: applyOperandServiceMonitor_eq [OF assms(2)] ApplyServiceMonitor_def on_tracker_def)

section \<open>The deployment step\<close>

definition deploy_expecting :: "tracker reconciler \<Rightarrow> cli_manager \<Rightarrow> int \<Rightarrow> (tracker, go_error + deployment option) go" where
  "deploy_expecting c cm expected =
     checked (ApplyDeployment (rec_deploymentHash c) (rec_uuid c) (fake_client deployment_gvr KDeployment as_deployment)
       (desired_deployment (rec_targetImage c) (rec_insecureHTTP c) cm) expected)"

lemma manageDeployments_expecting:
  "checked (manageDeployments (on_tracker c sm pm) cm) = deploy_expecting c cm (expected_generation cm)"
  by (simp add: manageDeployments_eq deploy_expecting_def on_tracker_def)

lemma with_deployment_hash_simps [simp]:
  "om_name (dep_meta (with_deployment_hash h d)) = om_name (dep_meta d)"
  "om_namespace (dep_meta (with_deployment_hash h d)) = om_namespace (dep_meta d)"
  by (simp_all add: with_deployment_hash_def)

definition deployment_key :: "cli_manager \<Rightarrow> object_key" where
  "deployment_key cm = (deployment_gvr, om_namespace (cm_meta cm), OperandName)"

abbreviation hashed_deployment :: "tracker reconciler \<Rightarrow> cli_manager \<Rightarrow> string \<Rightarrow> deployment" where
  "hashed_deployment c cm h \<equiv>
     with_deployment_hash h (desired_deployment (rec_targetImage c) (rec_insecureHTTP c) cm)"

text \<open>With the hash computed, the step is an instance of the tracked apply.\<close>

lemma deploy_expecting_hashed:
  assumes "rec_deploymentHash c (dep_spec (desired_deployment (rec_targetImage c) (rec_insecureHTTP c) cm)) = Inr h"
  shows "\<exists>evc evu. \<forall>e. deploy_expecting c cm e =
    checked (apply_skeleton (fake_client deployment_gvr KDeployment as_deployment) (om_namespace (cm_meta cm))
      (om_name (dep_meta (hashed_deployment c cm h))) (hashed_deployment c cm h)
      (deployment_plan e (hashed_deployment c cm h)) evc evu)"
  unfolding deploy_expecting_def
  by (auto simp: ApplyDeployment_skeleton [of "rec_deploymentHash c", OF assms] desired_namespaces)

lemma deploy_unhashed:
  assumes "rec_deploymentHash c (dep_spec (desired_deployment (rec_targetImage c) (rec_insecureHTTP c) cm)) = Inl e"
  shows "deploy_expecting c cm n = (\<lambda>s. (Inl e, s))"
  by (simp add: deploy_expecting_def ApplyDeployment_def SetSpecHashAnnotation_def assms checked_def fun_eq_iff apply_fail_def)

lemma deployment_confined:
  assumes "proper_owner cm"
  shows "confined {deployment_key cm} (deploy_expecting c cm e)"
proof (cases "rec_deploymentHash c (dep_spec (desired_deployment (rec_targetImage c) (rec_insecureHTTP c) cm))")
  case (Inl e)
  then show ?thesis by (simp add: deploy_unhashed confined_def)
next
  case (Inr h)
  then obtain evc evu where d: "\<forall>e. deploy_expecting c cm e =
    checked (apply_skeleton (fake_client deployment_gvr KDeployment as_deployment) (om_namespace (cm_meta cm))
      (om_name (dep_meta (hashed_deployment c cm h)))
      (hashed_deployment c cm h)
      (deployment_plan e (hashed_deployment c cm h)) evc evu)"
    using deploy_expecting_hashed by blast
  show ?thesis
    using confined_checked [OF deployment_tracked.confined_apply [OF desired_wf(10) [OF assms],
        of "om_namespace (cm_meta cm)" h "rec_targetImage c" "rec_insecureHTTP c" "undefined\<lparr>gs_lastGeneration := e\<rparr>" evc evu]]
    by (simp add: d deployment_key_def desired_names)
qed

lemma deployment_repeats:
  assumes "proper_owner cm"
  shows "repeats {deployment_key cm} (\<lambda>x. deployment_generation (the x)) (deploy_expecting c cm e)
    (\<lambda>g. deploy_expecting c cm (gs_lastGeneration g))"
proof (cases "rec_deploymentHash c (dep_spec (desired_deployment (rec_targetImage c) (rec_insecureHTTP c) cm))")
  case (Inl e)
  then show ?thesis by (simp add: deploy_unhashed repeats_def)
next
  case (Inr h)
  then obtain evc evu where d: "\<forall>e. deploy_expecting c cm e =
    checked (apply_skeleton (fake_client deployment_gvr KDeployment as_deployment) (om_namespace (cm_meta cm))
      (om_name (dep_meta (hashed_deployment c cm h)))
      (hashed_deployment c cm h)
      (deployment_plan e (hashed_deployment c cm h)) evc evu)"
    using deploy_expecting_hashed by blast
  show ?thesis
    using deployment_tracked.repeats_apply [OF desired_wf(10) [OF assms],
        of "om_namespace (cm_meta cm)" h "rec_targetImage c" "rec_insecureHTTP c" "undefined\<lparr>gs_lastGeneration := e\<rparr>" evc evu]
    by (simp add: d deployment_key_def desired_names)
qed

text \<open>The entry remembered is the one of the key the next run looks up.\<close>

lemma deployment_remembered:
  assumes "proper_owner cm" and ok: "tracker_ok (env_world s)" and run: "deploy_expecting c cm e s = (Inr x, s')"
  shows "\<exists>d. x = Some d \<and> om_namespace (dep_meta d) = om_namespace (cm_meta cm) \<and> om_name (dep_meta d) = OperandName"
proof (cases "rec_deploymentHash c (dep_spec (desired_deployment (rec_targetImage c) (rec_insecureHTTP c) cm))")
  case (Inl e)
  then show ?thesis using run by (simp add: deploy_unhashed)
next
  case (Inr h)
  from Inr obtain evc evu where d: "\<forall>e. deploy_expecting c cm e =
    checked (apply_skeleton (fake_client deployment_gvr KDeployment as_deployment) (om_namespace (cm_meta cm))
      (om_name (dep_meta (hashed_deployment c cm h))) (hashed_deployment c cm h) (deployment_plan e (hashed_deployment c cm h)) evc evu)"
    using deploy_expecting_hashed by blast
  from run obtain ch where r: "apply_skeleton (fake_client deployment_gvr KDeployment as_deployment)
      (om_namespace (cm_meta cm)) (om_name (dep_meta (hashed_deployment c cm h))) (hashed_deployment c cm h) (deployment_plan e (hashed_deployment c cm h)) evc evu s = ((x, ch, None), s')"
    by (auto simp: d checked_Inr)
  then obtain a where a: "x = Some a" using deployment_tracked.apply_result_some by blast
  note st = deployment_tracked.apply_settled [OF desired_wf(10) [OF assms(1)] ok,
      of "om_namespace (cm_meta cm)" h "rec_targetImage c" "rec_insecureHTTP c" "undefined\<lparr>gs_lastGeneration := e\<rparr>" evc evu a ch s']
  have "deployment_tracked.settled (om_namespace (cm_meta cm)) (hashed_deployment c cm h) (deployment_generation a) (env_world s')"
    using r by (intro st) (simp add: a)
  then obtain b where b: "trackerGet deployment_gvr (om_namespace (cm_meta cm)) (om_name (dep_meta (hashed_deployment c cm h))) (env_world s') =
      Inr (KDeployment b)" and g: "deployment_generation b = deployment_generation a"
    by (auto simp: deployment_tracked.settled_def)
  have "tracker_ok (env_world s')" using confinedD(1) [OF deployment_confined [OF assms(1)] ok run] .
  from trackerGet_key [OF this b] g show ?thesis
    by (simp add: a deployment_generation_def desired_names)
qed

section \<open>All steps\<close>

lemmas gvr_defs = role_gvr_def roleBinding_gvr_def clusterRole_gvr_def clusterRoleBinding_gvr_def
  serviceAccount_gvr_def service_gvr_def networkPolicy_gvr_def deployment_gvr_def route_gvr_def
  serviceMonitorGVR_def cliManager_gvr_def

definition rest_keys :: "cli_manager \<Rightarrow> object_key set" where
  "rest_keys cm = (let ns = om_namespace (cm_meta cm) in
     {(route_gvr, ns, OperandName), (service_gvr, ns, OperandName), (service_gvr, ns, metrics_name),
      (serviceAccount_gvr, ns, OperandName), (serviceMonitorGVR, ns, OperandName)})"

definition rbac_keys :: "object_key set" where
  "rbac_keys = {(clusterRole_gvr, [], OperandName), (clusterRoleBinding_gvr, [], OperandName),
     (role_gvr, OperatorNamespace, OperandName), (roleBinding_gvr, OperatorNamespace, OperandName)}"

text \<open>The eleven objects \<open>sync\<close> applies.\<close>

definition operand_keys :: "cli_manager \<Rightarrow> object_key set" where
  "operand_keys cm = insert (networkPolicy_gvr, om_namespace (cm_meta cm), policy_name)
     (insert (deployment_key cm) (rbac_keys \<union> rest_keys cm))"

lemma rest_good:
  assumes "proper_owner cm" and "om_namespace (cm_meta cm) \<noteq> []"
  shows "good_step (rest_keys cm) (rest_steps (on_tracker c sm pm) cm)"
proof -
  let ?ns = "om_namespace (cm_meta cm)"
  have "good_step ({(route_gvr, ?ns, OperandName)} \<union> ({(service_gvr, ?ns, OperandName)} \<union>
      ({(service_gvr, ?ns, metrics_name)} \<union> ({(serviceAccount_gvr, ?ns, OperandName)} \<union>
       {(serviceMonitorGVR, ?ns, OperandName)})))) (rest_steps (on_tracker c sm pm) cm)"
    unfolding rest_steps_def
    by (intro good_step_bind route_step service_step serviceAccount_step monitor_good_step assms)
      (simp_all add: gvr_defs)
  then show ?thesis unfolding rest_keys_def Let_def by (simp add: insert_commute)
qed

text \<open>The steps with the deployment expected at a given generation.\<close>

definition steps_expecting :: "tracker reconciler \<Rightarrow> cli_manager \<Rightarrow> int \<Rightarrow> (tracker, go_error + deployment option) go" where
  "steps_expecting c cm expected =
     bindE (checked (manageOperandNetworkPolicyAllow c cm)) (\<lambda>_.
     bindE (checked (manageClusterRole c cm)) (\<lambda>_.
     bindE (checked (manageClusterRoleBinding c cm)) (\<lambda>_.
     bindE (checked (manageRole c cm)) (\<lambda>_.
     bindE (checked (manageRoleBinding c cm)) (\<lambda>_.
     bindE (deploy_expecting c cm expected) (\<lambda>d.
     bindE (rest_steps c cm) (\<lambda>_. returnE d)))))))"

lemma deploy_expecting_tracker [simp]: "deploy_expecting (on_tracker c sm pm) = deploy_expecting c"
  by (simp add: deploy_expecting_def fun_eq_iff on_tracker_def)

lemma operand_steps_expecting:
  "operand_steps (on_tracker c sm pm) cm = steps_expecting (on_tracker c sm pm) cm (expected_generation cm)"
  by (simp add: operand_steps_def steps_expecting_def manageDeployments_expecting)

lemma good_before:
  assumes "good_step K f" and "confined L g \<and> repeats L mem g G" and "K \<inter> L = {}"
  shows "confined (K \<union> L) (bindE f (\<lambda>_. g)) \<and>
    repeats (K \<union> L) mem (bindE f (\<lambda>_. g)) (\<lambda>m. bindE f (\<lambda>_. G m))"
  using assms confined_bindE [of K f L "\<lambda>_. g"] repeats_before [of K f "\<lambda>_. ()" f L g mem G]
  by (simp add: good_step_def)

lemma good_after:
  assumes "confined K f \<and> repeats K mem f F" and "good_step L g" and "K \<inter> L = {}"
  shows "confined (K \<union> L) (bindE f (\<lambda>x. bindE g (\<lambda>_. returnE x))) \<and>
    repeats (K \<union> L) mem (bindE f (\<lambda>x. bindE g (\<lambda>_. returnE x)))
      (\<lambda>m. bindE (F m) (\<lambda>x. bindE g (\<lambda>_. returnE x)))"
proof -
  have "confined L (bindE g (\<lambda>_. returnE x))" for x :: 'a
    using assms(2) confined_bindE [of L g "{}" "\<lambda>_. returnE x"] confined_returnE [of x]
    by (simp add: good_step_def)
  then show ?thesis
    using assms confined_bindE [of K f L "\<lambda>x. bindE g (\<lambda>_. returnE x)"]
      repeats_after [of K f mem F L g "\<lambda>_. ()" g]
    by (simp add: good_step_def)
qed

lemma operand_good:
  assumes "proper_owner cm" and "om_namespace (cm_meta cm) \<noteq> []"
  shows "confined (operand_keys cm) (steps_expecting (on_tracker c sm pm) cm e) \<and>
    repeats (operand_keys cm) (\<lambda>x. deployment_generation (the x)) (steps_expecting (on_tracker c sm pm) cm e)
      (\<lambda>g. steps_expecting (on_tracker c sm pm) cm (gs_lastGeneration g))"
proof -
  let ?ns = "om_namespace (cm_meta cm)"
  let ?K = "{(networkPolicy_gvr, ?ns, policy_name)} \<union> ({(clusterRole_gvr, [], OperandName)} \<union>
      ({(clusterRoleBinding_gvr, [], OperandName)} \<union> ({(role_gvr, OperatorNamespace, OperandName)} \<union>
      ({(roleBinding_gvr, OperatorNamespace, OperandName)} \<union> ({deployment_key cm} \<union> rest_keys cm)))))"
  have K: "?K = operand_keys cm" by (auto simp: operand_keys_def rbac_keys_def)
  have "confined ?K (steps_expecting (on_tracker c sm pm) cm e) \<and>
    repeats ?K (\<lambda>x. deployment_generation (the x)) (steps_expecting (on_tracker c sm pm) cm e)
      (\<lambda>g. steps_expecting (on_tracker c sm pm) cm (gs_lastGeneration g))"
    unfolding steps_expecting_def deploy_expecting_tracker
    by (intro good_before good_after networkPolicy_step clusterRole_step clusterRoleBinding_step role_step
        roleBinding_step rest_good conjI deployment_confined deployment_repeats assms)
      (simp_all add: gvr_defs deployment_key_def rest_keys_def Let_def)
  then show ?thesis unfolding K .
qed

section \<open>The status\<close>

definition config_key :: object_key where
  "config_key = (cliManager_gvr, OperatorNamespace, OperatorConfigName)"

text \<open>The tracker holds the operator's configuration object \<open>cm\<close>.\<close>

definition configured :: "tracker \<Rightarrow> cli_manager \<Rightarrow> bool" where
  "configured t cm \<longleftrightarrow> trackerGet cliManager_gvr OperatorNamespace OperatorConfigName t = Inr (KCliManager cm)"

definition with_generations :: "cli_manager \<Rightarrow> generation_status list \<Rightarrow> cli_manager" where
  "with_generations cm gs = cm\<lparr>cm_status := (cm_status cm)\<lparr>cmst_operatorStatus :=
     (cmst_operatorStatus (cm_status cm))\<lparr>ost_generations := gs\<rparr>\<rparr>\<rparr>"

abbreviation generations_of :: "cli_manager \<Rightarrow> generation_status list" where
  "generations_of cm \<equiv> ost_generations (cmst_operatorStatus (cm_status cm))"

lemma with_generations_simps [simp]:
  "cm_meta (with_generations cm gs) = cm_meta cm" "cm_spec (with_generations cm gs) = cm_spec cm"
  "generations_of (with_generations cm gs) = gs" "with_generations cm (generations_of cm) = cm"
  by (simp_all add: with_generations_def)

lemma configured_key: "tracker_ok t \<Longrightarrow> configured t cm \<Longrightarrow> om_namespace (cm_meta cm) = OperatorNamespace"
  using trackerGet_key [of t cliManager_gvr OperatorNamespace OperatorConfigName "KCliManager cm"]
  by (simp add: configured_def)

lemma configured_cong: "object_at t' config_key = object_at t config_key \<Longrightarrow> configured t' cm = configured t cm"
  by (simp add: configured_def config_key_def trackerGet_def)

lemma call_config:
  assumes "configured (env_world s) cm"
  shows "call (ca_get (fake_climanagers sm pm) OperatorNamespace OperatorConfigName) s = (Inr cm, s)"
proof -
  have "ca_get (fake_climanagers sm pm) OperatorNamespace OperatorConfigName (env_world s) = (Inr cm, env_world s)"
    using assms by (simp add: fake_climanagers_def Let_def fake_client_def configured_def typed_result_def)
  then show ?thesis by (rule call_read)
qed

lemma call_store_status:
  assumes "tracker_ok (env_world s)" and "configured (env_world s) cm"
  obtains s' where "call (ca_updateStatus (fake_climanagers sm pm) OperatorNamespace (with_generations cm gs)) s =
      (Inr (with_generations cm gs), s')"
    and "tracker_ok (env_world s')" and "configured (env_world s') (with_generations cm gs)"
    and "unchanged_off {config_key} (env_world s) (env_world s')"
proof -
  let ?new = "KCliManager (with_generations cm gs)"
  have n: "om_name (cm_meta cm) = OperatorConfigName" "om_namespace (cm_meta cm) = OperatorNamespace"
    using trackerGet_key [OF assms(1), of cliManager_gvr OperatorNamespace OperatorConfigName "KCliManager cm"] assms(2)
    by (simp_all add: configured_def)
  obtain res t' where add: "trackerAdd cliManager_gvr ?new OperatorNamespace True (env_world s) = (res, t')"
    by (cases "trackerAdd cliManager_gvr ?new OperatorNamespace True (env_world s)")
  have res: "res = None"
    using add assms(2) n by (auto simp: trackerAdd_def Let_def configured_def trackerGet_def split: option.splits)
  have g: "trackerGet cliManager_gvr OperatorNamespace OperatorConfigName t' = Inr ?new"
    using trackerAdd_stores [OF add [unfolded res]] n by simp
  have "call (ca_updateStatus (fake_climanagers sm pm) OperatorNamespace (with_generations cm gs)) s =
      (Inr (with_generations cm gs), s\<lparr>env_world := t'\<rparr>)"
    using add g n by (simp add: call_def fake_climanagers_def Let_def fake_client_def reactUpdate_def trackerUpdate_def
        res typed_result_def)
  moreover have "tracker_ok t'" using trackerAdd_ok [OF assms(1) add] .
  moreover have "unchanged_off {config_key} (env_world s) t'"
    using trackerAdd_other [OF add] n by (simp add: unchanged_off_def config_key_def)
  ultimately show ?thesis using that [of "s\<lparr>env_world := t'\<rparr>"] g by (simp add: configured_def)
qed

lemma record_update: "run_updates [record_generation d] (cmst_operatorStatus (cm_status cm)) =
    Inr (cmst_operatorStatus (cm_status (with_generations cm (SetDeploymentGeneration (generations_of cm) d))))"
  by (simp add: record_generation_def with_generations_def)

text \<open>Recording stores the generations and nothing else; recording what is there stores nothing.\<close>

lemma record_status_stores:
  assumes "tracker_ok (env_world s)" and "configured (env_world s) cm"
  obtains s' where "record_status (on_tracker c sm pm) d s = (Inr (), s')" and "tracker_ok (env_world s')"
    and "configured (env_world s') (with_generations cm (SetDeploymentGeneration (generations_of cm) d))"
    and "unchanged_off {config_key} (env_world s) (env_world s')"
proof (cases "SetDeploymentGeneration (generations_of cm) d = generations_of cm")
  case True
  then have "run_updates [record_generation d] (cmst_operatorStatus (cm_status cm)) = Inr (cmst_operatorStatus (cm_status cm))"
    by (simp add: record_generation_def)
  from UpdateStatus_unchanged [OF call_config [OF assms(2)] this]
  have "record_status (on_tracker c sm pm) d s = (Inr (), s)" by (simp add: record_status_def on_tracker_def)
  with that [of s] assms True show ?thesis by simp
next
  case False
  let ?cm' = "with_generations cm (SetDeploymentGeneration (generations_of cm) d)"
  from call_store_status [OF assms] obtain s' where
    st: "call (ca_updateStatus (fake_climanagers sm pm) OperatorNamespace ?cm') s = (Inr ?cm', s')"
    and s': "tracker_ok (env_world s')" "configured (env_world s') ?cm'"
      "unchanged_off {config_key} (env_world s) (env_world s')" by blast
  have ne: "cmst_operatorStatus (cm_status ?cm') \<noteq> cmst_operatorStatus (cm_status cm)"
    using False by (metis with_generations_simps(3))
  have eq: "cm\<lparr>cm_status := (cm_status cm)\<lparr>cmst_operatorStatus := cmst_operatorStatus (cm_status ?cm')\<rparr>\<rparr> = ?cm'"
    by (simp add: with_generations_def)
  from UpdateStatus_written [OF call_config [OF assms(2)] record_update ne, unfolded eq, OF st]
  have "UpdateStatus (fake_climanagers sm pm) [record_generation d] s =
      ((Some (cmst_operatorStatus (cm_status ?cm')), True, None), s')" .
  then have "record_status (on_tracker c sm pm) d s = (Inr (), s')" by (simp add: record_status_def on_tracker_def)
  with that s' show ?thesis by blast
qed

lemma record_status_again:
  assumes "configured (env_world s) cm" and "SetDeploymentGeneration (generations_of cm) d = generations_of cm"
  shows "record_status (on_tracker c sm pm) d s = (Inr (), s)"
  using UpdateStatus_unchanged [OF call_config [OF assms(1)], of "[record_generation d]"] assms(2)
  by (simp add: record_status_def on_tracker_def record_generation_def)

section \<open>Convergence\<close>

lemma desired_cong:
  assumes "cm_meta cm' = cm_meta cm" and "cm_spec cm' = cm_spec cm"
  shows "steps_expecting c cm' e = steps_expecting c cm e"
proof -
  have o: "operator_owner cm' = operator_owner cm" by (simp add: operator_owner_def assms)
  have m: "operand_meta cm' m = operand_meta cm m" "namespaced_operand_meta cm' m = namespaced_operand_meta cm m" for m
    by (simp_all add: operand_meta_def namespaced_operand_meta_def o assms)
  have d: "desired_deployment img ins cm' = desired_deployment img ins cm" for img ins
    by (simp add: desired_deployment_def m assms)
  have sm: "applyOperandServiceMonitor c cm' = applyOperandServiceMonitor c cm"
    by (simp add: applyOperandServiceMonitor_def o assms metrics_server_name_def)
  have np: "manageOperandNetworkPolicyAllow c cm' = manageOperandNetworkPolicyAllow c cm"
    by (simp add: fun_eq_iff manageOperandNetworkPolicyAllow_eq desired_networkPolicy_def m)
  show ?thesis
    by (simp add: steps_expecting_def rest_steps_def deploy_expecting_def manageClusterRole_eq manageClusterRoleBinding_eq
        manageRole_eq manageRoleBinding_eq manageRoute_eq manageService_eq manageServiceMetrics_eq
        manageServiceAccount_eq desired_role_def desired_roleBinding_def desired_clusterRole_def
        desired_clusterRoleBinding_def desired_serviceAccount_def desired_service_def desired_serviceMetrics_def
        desired_route_def m d sm np)
qed

lemma sync_None: "sync c s = (None, s') \<longleftrightarrow> reconcile c s = (Inr (), s')"
  by (auto simp: sync_def split: prod.splits sum.splits)

lemma reconcile_tracker:
  assumes "configured (env_world s) cm"
  shows "reconcile (on_tracker c sm pm) s =
    bindE (steps_expecting (on_tracker c sm pm) cm (expected_generation cm)) (record_status (on_tracker c sm pm)) s"
proof -
  have "rec_operatorClient (on_tracker c sm pm) = fake_climanagers sm pm" by (simp add: on_tracker_def)
  then show ?thesis
    using call_config [OF assms] by (simp add: reconcile_steps bindE_def operand_steps_expecting)
qed

lemma config_not_operand: "config_key \<notin> operand_keys cm"
  by (simp add: config_key_def operand_keys_def rbac_keys_def rest_keys_def deployment_key_def gvr_defs Let_def)

lemma good_through:
  assumes "good_step K f" and "tracker_ok (env_world s) \<and> bindE f (\<lambda>_. g) s = (Inr y, s')"
  obtains s1 where "tracker_ok (env_world s1) \<and> g s1 = (Inr y, s')"
  using assms by (auto simp: good_step_def elim!: bindE_InrE dest: confinedD)

text \<open>The deployment a run of the steps returns is in the namespace the next run looks up.\<close>

lemma steps_deployment:
  assumes "proper_owner cm" and "om_namespace (cm_meta cm) \<noteq> []" and "tracker_ok (env_world s)"
    and "steps_expecting (on_tracker c sm pm) cm e s = (Inr x, s')"
  shows "\<exists>d. x = Some d \<and> om_namespace (dep_meta d) = om_namespace (cm_meta cm) \<and> om_name (dep_meta d) = OperandName"
proof -
  note run = conjI [OF assms(3) assms(4) [unfolded steps_expecting_def]]
  obtain s1 where 1: "tracker_ok (env_world s1) \<and>
      bindE (deploy_expecting (on_tracker c sm pm) cm e)
        (\<lambda>d. bindE (rest_steps (on_tracker c sm pm) cm) (\<lambda>_. returnE d)) s1 = (Inr x, s')"
    by (rule good_through [OF networkPolicy_step [OF assms(1,2)] run], erule good_through [OF clusterRole_step [OF assms(1)]],
        erule good_through [OF clusterRoleBinding_step [OF assms(1)]], erule good_through [OF role_step [OF assms(1)]],
        erule good_through [OF roleBinding_step [OF assms(1)]]) blast
  then obtain s2 where "deploy_expecting c cm e s1 = (Inr x, s2)"
    by (auto elim!: bindE_InrE simp: returnE_def)
  with 1 show ?thesis using deployment_remembered [OF assms(1)] by blast
qed

lemma expected_next:
  assumes "om_namespace (dep_meta d) = om_namespace (cm_meta cm)" and "om_name (dep_meta d) = OperandName"
  shows "expected_generation (with_generations cm (SetDeploymentGeneration gs (Some d))) =
    gs_lastGeneration (deployment_generation d)"
  unfolding expected_generation_def with_generations_simps
  by (simp add: Expected_after_Set assms desired_names desired_namespaces)

lemma record_same:
  "deployment_generation y = deployment_generation d \<Longrightarrow>
    SetDeploymentGeneration (SetDeploymentGeneration gs (Some d)) (Some y) = SetDeploymentGeneration gs (Some d)"
  by (simp add: SetDeploymentGeneration_def SetGeneration_idem)

text \<open>A run that succeeds leaves a state on which the next run succeeds and changes nothing.\<close>

lemma reconcile_converges:
  assumes ok: "tracker_ok (env_world s)" and cm: "configured (env_world s) cm" and own: "proper_owner cm"
    and run: "reconcile (on_tracker c sm pm) s = (Inr (), s')"
  shows "reconcile (on_tracker c sm pm) s' = (Inr (), s')"
proof -
  let ?c = "on_tracker c sm pm"
  have ns: "om_namespace (cm_meta cm) \<noteq> []" using configured_key [OF ok cm] by simp
  note good = operand_good [OF own ns, of c sm pm "expected_generation cm"]
  from run obtain x s1 where st: "steps_expecting ?c cm (expected_generation cm) s = (Inr x, s1)"
    and rec: "record_status ?c x s1 = (Inr (), s')"
    by (auto simp: reconcile_tracker [OF cm] elim: bindE_InrE)
  from steps_deployment [OF own ns ok st] obtain d where d: "x = Some d"
    "om_namespace (dep_meta d) = om_namespace (cm_meta cm)" "om_name (dep_meta d) = OperandName" by blast
  note s1 = confinedD [OF conjunct1 [OF good] ok st]
  have cm1: "configured (env_world s1) cm"
    using configured_cong [OF unchanged_offD [OF s1(2) config_not_operand]] cm by blast
  let ?cm' = "with_generations cm (SetDeploymentGeneration (generations_of cm) (Some d))"
  have cm': "configured (env_world s') ?cm'" and off: "unchanged_off {config_key} (env_world s1) (env_world s')"
    using record_status_stores [OF s1(1) cm1, of c sm pm x] rec d(1) by (metis prod.inject)+
  have "agree_on (operand_keys cm) (env_world s1) (env_world s')"
    using off config_not_operand [of cm] by (intro agree_unchanged) auto
  from repeatsD [OF conjunct2 [OF good] ok st this] obtain y where
    again: "steps_expecting ?c cm (gs_lastGeneration (deployment_generation d)) s' = (Inr y, s')"
    and y: "deployment_generation (the y) = deployment_generation d"
    by (auto simp: d(1))
  have ok': "tracker_ok (env_world s')"
    using record_status_stores [OF s1(1) cm1, of c sm pm x] rec by (metis prod.inject)
  from steps_deployment [OF own ns ok' again] obtain d' where d': "y = Some d'" by blast
  have "steps_expecting ?c ?cm' (expected_generation ?cm') s' = (Inr y, s')"
    using again by (simp add: desired_cong [of ?cm' cm] expected_next [OF d(2,3)])
  moreover have "record_status ?c y s' = (Inr (), s')"
    by (rule record_status_again [OF cm']) (use y in \<open>simp add: d' record_same\<close>)
  ultimately show ?thesis by (simp add: reconcile_tracker [OF cm'] bindE_def)
qed

end
