(* ===== verification/Sync_Progress.thy ===== *)
theory Sync_Progress
  imports Sync_Convergence
begin

text \<open>
  When \<open>sync\<close> succeeds on the tracker: the keys of its objects are free or hold objects of their
  kind, the configuration object is there and the hash functions succeed. No such state makes
  it fail, so on a server that stores what it is sent the operator always gets to a state that
  \<open>Sync_Convergence\<close> shows to be stable.
\<close>

text \<open>The key is free or holds an object of the kind.\<close>

definition free_or :: "(kobject \<Rightarrow> 'o option) \<Rightarrow> object_key \<Rightarrow> tracker \<Rightarrow> bool" where
  "free_or proj key t \<longleftrightarrow> (case object_at t key of None \<Rightarrow> True | Some vo \<Rightarrow> proj (vo_object vo) \<noteq> None)"

context tracked_apply begin

lemma free_or_place: "free_or proj (r, ns, name_of req) t \<Longrightarrow> (\<And>b e. plan c req b \<noteq> Refuse e) \<Longrightarrow> place ns req c t"
  using proj_inj by (auto simp: free_or_def place_def trackerGet_def split: option.splits)

lemma enabled_free:
  assumes "wf req" and "knamespace (emb (created req)) = ns"
    and "\<And>b ob. knamespace (emb b) = ns \<Longrightarrow> plan c req b = Write ob \<Longrightarrow> knamespace (emb ob) = ns"
    and "\<And>b e. plan c req b \<noteq> Refuse e"
    and "\<And>s. f s = apply_skeleton (fake_client r emb proj) ns (name_of req) (created req) (plan c req) evc evu s"
  shows "enabled {(r, ns, name_of req)} (free_or proj (r, ns, name_of req)) (checked f)"
proof -
  have f: "f = apply_skeleton (fake_client r emb proj) ns (name_of req) (created req) (plan c req) evc evu"
    using assms(5) by (rule ext)
  have "agree_on {(r, ns, name_of req)} t t' \<Longrightarrow> free_or proj (r, ns, name_of req) t \<Longrightarrow>
      free_or proj (r, ns, name_of req) t'" for t t'
    by (simp add: agree_on_def free_or_def)
  moreover have "enabled {(r, ns, name_of req)} (place ns req c) (checked f)"
    unfolding f by (rule enabled_apply [OF assms(1,2)]) (rule assms(3))
  moreover have "free_or proj (r, ns, name_of req) t \<Longrightarrow> place ns req c t" for t
    by (rule free_or_place [OF _ assms(4)])
  ultimately show ?thesis unfolding enabled_def by blast
qed

end

section \<open>The steps\<close>

lemma role_enabled:
  assumes "proper_owner cm"
  shows "enabled {(role_gvr, OperatorNamespace, OperandName)} (free_or as_role (role_gvr, OperatorNamespace, OperandName))
    (checked (manageRole (on_tracker c sm pm) cm))"
  using role_tracked.enabled_free [OF desired_wf(1) [OF assms] _ _ role_kind.plan_accepts fun_cong [OF ApplyRole_skeleton],
      unfolded desired_names desired_namespaces]
  by (simp add: manageRole_eq on_tracker_def role_kind.created_namespace desired_namespaces role_kind.plan_write_namespace)

lemma roleBinding_enabled:
  assumes "proper_owner cm"
  shows "enabled {(roleBinding_gvr, OperatorNamespace, OperandName)} (free_or as_roleBinding (roleBinding_gvr, OperatorNamespace, OperandName))
    (checked (manageRoleBinding (on_tracker c sm pm) cm))"
  using roleBinding_tracked.enabled_free [OF desired_wf(2) [OF assms] _ _ binding_kind.plan_accepts fun_cong [OF ApplyRoleBinding_skeleton],
      unfolded desired_names desired_namespaces]
  by (simp add: manageRoleBinding_eq on_tracker_def binding_kind.created_namespace desired_namespaces binding_kind.plan_write_namespace)

lemma clusterRole_enabled:
  assumes "proper_owner cm"
  shows "enabled {(clusterRole_gvr, [], OperandName)} (free_or as_clusterRole (clusterRole_gvr, [], OperandName))
    (checked (manageClusterRole (on_tracker c sm pm) cm))"
  using clusterRole_tracked.enabled_free [OF desired_wf(3) [OF assms] _ _ crole_kind.plan_accepts fun_cong [OF ApplyClusterRole_skeleton],
      unfolded desired_names desired_namespaces]
  by (simp add: manageClusterRole_eq on_tracker_def crole_kind.created_namespace desired_namespaces crole_kind.plan_write_namespace)

lemma clusterRoleBinding_enabled:
  assumes "proper_owner cm"
  shows "enabled {(clusterRoleBinding_gvr, [], OperandName)} (free_or as_clusterRoleBinding (clusterRoleBinding_gvr, [], OperandName))
    (checked (manageClusterRoleBinding (on_tracker c sm pm) cm))"
  using clusterRoleBinding_tracked.enabled_free [OF desired_wf(4) [OF assms] _ _ binding_kind.plan_accepts fun_cong [OF ApplyClusterRoleBinding_skeleton],
      unfolded desired_names desired_namespaces]
  by (simp add: manageClusterRoleBinding_eq on_tracker_def binding_kind.created_namespace desired_namespaces binding_kind.plan_write_namespace)

lemma serviceAccount_enabled:
  assumes "proper_owner cm"
  shows "enabled {(serviceAccount_gvr, om_namespace (cm_meta cm), OperandName)} (free_or as_serviceAccount (serviceAccount_gvr, om_namespace (cm_meta cm), OperandName))
    (checked (manageServiceAccount (on_tracker c sm pm) cm))"
  using serviceAccount_tracked.enabled_free [OF desired_wf(5) [OF assms] _ _ sa_kind.plan_accepts fun_cong [OF ApplyServiceAccount_skeleton],
      unfolded desired_names desired_namespaces]
  by (simp add: manageServiceAccount_eq on_tracker_def sa_kind.created_namespace desired_namespaces sa_kind.plan_write_namespace)

lemma route_enabled:
  assumes "proper_owner cm"
  shows "enabled {(route_gvr, om_namespace (cm_meta cm), OperandName)} (free_or as_route (route_gvr, om_namespace (cm_meta cm), OperandName))
    (checked (manageRoute (on_tracker c sm pm) cm))"
  using route_tracked.enabled_free [OF desired_wf(9) [OF assms] _ _ route_kind.plan_accepts fun_cong [OF applyRoute_skeleton],
      unfolded desired_names desired_namespaces]
  by (simp add: manageRoute_eq on_tracker_def route_kind.created_namespace desired_namespaces route_kind.plan_write_namespace)

lemma service_enabled_for:
  assumes "\<And>h. service_kind.wf (with_spec_hash h req)" and "spec_hash (svc_spec req) = Inr h"
  shows "enabled {(service_gvr, om_namespace (svc_meta req), om_name (svc_meta req))}
    (free_or as_service (service_gvr, om_namespace (svc_meta req), om_name (svc_meta req)))
    (checked (ApplyService spec_hash hashOf (fake_client service_gvr KService as_service) req))"
proof -
  have "ApplyService spec_hash hashOf (fake_client service_gvr KService as_service) req s =
      apply_skeleton (fake_client service_gvr KService as_service) (om_namespace (svc_meta req))
        (om_name (svc_meta (with_spec_hash h req))) (service_kind.created (with_spec_hash h req))
        (service_kind.merge_plan () (with_spec_hash h req))
        (\<lambda>e. [create_event ''Service'' [] (svc_meta req) e]) (\<lambda>_ e. [update_event ''Service'' [] (svc_meta req) e]) s" for s
    by (simp add: ApplyService_skeleton [of spec_hash, OF assms(2)])
  from service_tracked.enabled_free [OF assms(1) _ _ service_kind.plan_accepts this] show ?thesis
    by (simp add: service_kind.created_namespace service_kind.plan_write_namespace)
qed

text \<open>The hash functions of the libraries marshal plain structs and do not fail.\<close>

definition hashes_succeed :: "tracker reconciler \<Rightarrow> bool" where
  "hashes_succeed c \<longleftrightarrow> (\<forall>sp. \<exists>h. rec_serviceHash c sp = Inr h) \<and> (\<forall>sp. \<exists>h. rec_deploymentHash c sp = Inr h)"

lemma service_enabled:
  assumes "proper_owner cm" and "hashes_succeed c"
  shows "enabled {(service_gvr, om_namespace (cm_meta cm), OperandName)}
      (free_or as_service (service_gvr, om_namespace (cm_meta cm), OperandName))
      (checked (manageService (on_tracker c sm pm) cm))"
    and "enabled {(service_gvr, om_namespace (cm_meta cm), metrics_name)}
      (free_or as_service (service_gvr, om_namespace (cm_meta cm), metrics_name))
      (checked (manageServiceMetrics (on_tracker c sm pm) cm))"
proof -
  obtain h1 h2 where "rec_serviceHash c (svc_spec (desired_service cm)) = Inr h1"
    and "rec_serviceHash c (svc_spec (desired_serviceMetrics cm)) = Inr h2"
    using assms(2) unfolding hashes_succeed_def by blast
  then show "enabled {(service_gvr, om_namespace (cm_meta cm), OperandName)}
      (free_or as_service (service_gvr, om_namespace (cm_meta cm), OperandName))
      (checked (manageService (on_tracker c sm pm) cm))"
    and "enabled {(service_gvr, om_namespace (cm_meta cm), metrics_name)}
      (free_or as_service (service_gvr, om_namespace (cm_meta cm), metrics_name))
      (checked (manageServiceMetrics (on_tracker c sm pm) cm))"
    using service_enabled_for [OF desired_wf(6) [OF assms(1)], of "rec_serviceHash c" h1 "rec_serviceSum c"]
      service_enabled_for [OF desired_wf(7) [OF assms(1)], of "rec_serviceHash c" h2 "rec_serviceSum c"]
    by (simp_all add: manageService_eq manageServiceMetrics_eq on_tracker_def desired_names desired_namespaces)
qed

lemma networkPolicy_enabled:
  assumes "proper_owner cm" and "om_namespace (cm_meta cm) \<noteq> []"
  shows "enabled {(networkPolicy_gvr, om_namespace (cm_meta cm), policy_name)}
    (free_or as_networkPolicy (networkPolicy_gvr, om_namespace (cm_meta cm), policy_name))
    (checked (manageOperandNetworkPolicyAllow (on_tracker c sm pm) cm))"
  using networkPolicy_tracked.enabled_free [OF desired_wf(8) [OF assms(1)],
      of "om_namespace (np_meta (desired_networkPolicy cm))" "()"
        "manageOperandNetworkPolicyAllow (on_tracker c sm pm) cm",
      unfolded desired_names desired_namespaces] assms(2)
  by (simp add: manageOperandNetworkPolicyAllow_eq ApplyNetworkPolicy_skeleton desired_namespaces desired_names
      on_tracker_def policy_kind.created_namespace policy_kind.plan_accepts policy_kind.plan_write_namespace)

lemma deployment_plan_accepts: "deployment_plan e req ex \<noteq> Refuse err"
  by (simp add: deployment_plan_def case_prod_beta)

lemma deployment_plan_namespace:
  "deployment_plan e req ex = Write ob \<Longrightarrow> om_namespace (dep_meta ex) = om_namespace (dep_meta req) \<Longrightarrow>
    om_namespace (dep_meta ob) = om_namespace (dep_meta req)"
  by (auto simp: deployment_plan_def case_prod_beta EnsureObjectMeta_name(2) split: if_splits)

lemma deployment_enabled:
  assumes "proper_owner cm" and "hashes_succeed c"
  shows "enabled {deployment_key cm} (free_or as_deployment (deployment_key cm)) (deploy_expecting c cm e)"
proof -
  obtain h where "rec_deploymentHash c (dep_spec (desired_deployment (rec_targetImage c) (rec_insecureHTTP c) cm)) = Inr h"
    using assms(2) unfolding hashes_succeed_def by blast
  then have eq: "ApplyDeployment (rec_deploymentHash c) (rec_uuid c) (fake_client deployment_gvr KDeployment as_deployment)
      (desired_deployment (rec_targetImage c) (rec_insecureHTTP c) cm) e s =
    apply_skeleton (fake_client deployment_gvr KDeployment as_deployment) (om_namespace (cm_meta cm))
      (om_name (dep_meta (hashed_deployment c cm h))) (hashed_deployment c cm h)
      (deployment_plan (gs_lastGeneration (undefined\<lparr>gs_lastGeneration := e\<rparr>)) (hashed_deployment c cm h))
      (\<lambda>e. [create_event ''Deployment'' ''apps'' (dep_meta (desired_deployment (rec_targetImage c) (rec_insecureHTTP c) cm)) e])
      (\<lambda>_ e. [update_event ''Deployment'' ''apps'' (dep_meta (desired_deployment (rec_targetImage c) (rec_insecureHTTP c) cm)) e]) s" for s
    by (simp add: ApplyDeployment_skeleton [of "rec_deploymentHash c"] desired_namespaces)
  from deployment_tracked.enabled_free [OF desired_wf(10) [OF assms(1)] _ _ deployment_plan_accepts eq] show ?thesis
    by (simp add: deploy_expecting_def deployment_key_def desired_names desired_namespaces deployment_plan_namespace)
qed

text \<open>For the monitor the object found must also decode.\<close>

definition monitor_place :: "cli_manager \<Rightarrow> tracker \<Rightarrow> bool" where
  "monitor_place cm t \<longleftrightarrow>
     (case object_at t (serviceMonitorGVR, om_namespace (cm_meta cm), OperandName) of
        None \<Rightarrow> True
      | Some vo \<Rightarrow> (case as_unstructured (vo_object vo) of None \<Rightarrow> False
          | Some u \<Rightarrow> (case unstructured_plan () (desired_serviceMonitor cm) u of Refuse _ \<Rightarrow> False | _ \<Rightarrow> True)))"

lemma monitor_place_tracked:
  "monitor_place cm t \<longleftrightarrow> monitor_tracked.place (om_namespace (cm_meta cm)) (desired_serviceMonitor cm) () t"
  by (auto simp: monitor_place_def monitor_tracked.place_def desired_monitor_names trackerGet_def
      unstructured_store.proj_inj split: option.splits decision.splits)

lemma monitor_enabled:
  assumes "proper_owner cm" and "om_namespace (cm_meta cm) \<noteq> []"
  shows "enabled {(serviceMonitorGVR, om_namespace (cm_meta cm), OperandName)} (monitor_place cm)
    (checked (applyOperandServiceMonitor (on_tracker c sm pm) cm))"
proof -
  have ns: "knamespace (KUnstructured ob) = om_namespace (cm_meta cm)"
    if n: "knamespace (KUnstructured b) = om_namespace (cm_meta cm)"
      and w: "unstructured_plan () (desired_serviceMonitor cm) b = Write ob" for b ob
  proof -
    from w obtain me mr where "typed_meta b = Inr me" "typed_meta (desired_serviceMonitor cm) = Inr mr"
      "typed_meta ob = Inr (snd (EnsureObjectMeta False me mr))"
      using unstructured_plan_shape [OF disjI2 desired_monitor_wf [OF assms(1)]] by metis
    with n desired_monitor_names(2) [of cm] show ?thesis
      by (simp add: GetNamespace_typed EnsureObjectMeta_name(2))
  qed
  have "monitor_place cm = monitor_tracked.place (om_namespace (cm_meta cm)) (desired_serviceMonitor cm) ()"
    by (rule ext) (rule monitor_place_tracked)
  moreover have "enabled {(serviceMonitorGVR, om_namespace (cm_meta cm), GetName (desired_serviceMonitor cm))}
      (monitor_tracked.place (om_namespace (cm_meta cm)) (desired_serviceMonitor cm) ())
      (checked (apply_skeleton (fake_client serviceMonitorGVR KUnstructured as_unstructured) (om_namespace (cm_meta cm))
        (GetName (desired_serviceMonitor cm)) (desired_serviceMonitor cm) (unstructured_plan () (desired_serviceMonitor cm))
        (unstructured_create_event (desired_serviceMonitor cm)) unstructured_update_event))"
    by (rule monitor_tracked.enabled_apply [OF desired_monitor_wf [OF assms(1)]])
      (simp add: desired_monitor_names, rule ns)
  ultimately show ?thesis
    by (simp add: applyOperandServiceMonitor_eq [OF assms(2)] ApplyServiceMonitor_def on_tracker_def
        ApplyMonitoringResource_skeleton desired_monitor_names)
qed

section \<open>All steps\<close>

definition rest_placed :: "cli_manager \<Rightarrow> tracker \<Rightarrow> bool" where
  "rest_placed cm t \<longleftrightarrow> (let ns = om_namespace (cm_meta cm) in
     free_or as_route (route_gvr, ns, OperandName) t \<and>
     free_or as_service (service_gvr, ns, OperandName) t \<and>
     free_or as_service (service_gvr, ns, metrics_name) t \<and>
     free_or as_serviceAccount (serviceAccount_gvr, ns, OperandName) t \<and>
     monitor_place cm t)"

definition operands_placed :: "cli_manager \<Rightarrow> tracker \<Rightarrow> bool" where
  "operands_placed cm t \<longleftrightarrow>
     free_or as_networkPolicy (networkPolicy_gvr, om_namespace (cm_meta cm), policy_name) t \<and>
     free_or as_clusterRole (clusterRole_gvr, [], OperandName) t \<and>
     free_or as_clusterRoleBinding (clusterRoleBinding_gvr, [], OperandName) t \<and>
     free_or as_role (role_gvr, OperatorNamespace, OperandName) t \<and>
     free_or as_roleBinding (roleBinding_gvr, OperatorNamespace, OperandName) t \<and>
     free_or as_deployment (deployment_key cm) t \<and> rest_placed cm t"

lemma good_enabled_bind:
  assumes "good_step K f" and "enabled K P f" and "enabled L Q g" and "K \<inter> L = {}"
  shows "enabled (K \<union> L) (\<lambda>t. P t \<and> Q t) (bindE f (\<lambda>_. g))"
  using assms by (intro enabled_bindE) (simp_all add: good_step_def)

lemma enabled_return_after: "enabled L Q g \<Longrightarrow> enabled L Q (bindE g (\<lambda>_. returnE x))"
  unfolding enabled_def bindE_def returnE_def by (metis (no_types, lifting) case_prod_conv sum.case(2))

lemma rest_enabled:
  assumes "proper_owner cm" and "om_namespace (cm_meta cm) \<noteq> []" and "hashes_succeed c"
  shows "enabled (rest_keys cm) (rest_placed cm) (rest_steps (on_tracker c sm pm) cm)"
proof -
  let ?ns = "om_namespace (cm_meta cm)"
  have "enabled ({(route_gvr, ?ns, OperandName)} \<union> ({(service_gvr, ?ns, OperandName)} \<union>
      ({(service_gvr, ?ns, metrics_name)} \<union> ({(serviceAccount_gvr, ?ns, OperandName)} \<union>
       {(serviceMonitorGVR, ?ns, OperandName)}))))
     (\<lambda>t. free_or as_route (route_gvr, ?ns, OperandName) t \<and>
       free_or as_service (service_gvr, ?ns, OperandName) t \<and>
       free_or as_service (service_gvr, ?ns, metrics_name) t \<and>
       free_or as_serviceAccount (serviceAccount_gvr, ?ns, OperandName) t \<and>
       monitor_place cm t) (rest_steps (on_tracker c sm pm) cm)"
    unfolding rest_steps_def
    by (intro good_enabled_bind route_step service_step serviceAccount_step monitor_enabled route_enabled
        service_enabled serviceAccount_enabled assms) (simp_all add: gvr_defs)
  moreover have "rest_placed cm = (\<lambda>t. free_or as_route (route_gvr, ?ns, OperandName) t \<and>
       free_or as_service (service_gvr, ?ns, OperandName) t \<and>
       free_or as_service (service_gvr, ?ns, metrics_name) t \<and>
       free_or as_serviceAccount (serviceAccount_gvr, ?ns, OperandName) t \<and> monitor_place cm t)"
    by (simp add: fun_eq_iff rest_placed_def Let_def)
  ultimately show ?thesis unfolding rest_keys_def Let_def by (simp add: insert_commute)
qed

lemma steps_succeed:
  assumes "proper_owner cm" and "om_namespace (cm_meta cm) \<noteq> []" and "hashes_succeed c"
    and "tracker_ok (env_world s)" and "operands_placed cm (env_world s)"
  shows "\<exists>x s'. steps_expecting (on_tracker c sm pm) cm e s = (Inr x, s')"
proof -
  let ?ns = "om_namespace (cm_meta cm)"
  have "enabled ({(networkPolicy_gvr, ?ns, policy_name)} \<union> ({(clusterRole_gvr, [], OperandName)} \<union>
      ({(clusterRoleBinding_gvr, [], OperandName)} \<union> ({(role_gvr, OperatorNamespace, OperandName)} \<union>
      ({(roleBinding_gvr, OperatorNamespace, OperandName)} \<union> ({deployment_key cm} \<union> rest_keys cm))))))
     (\<lambda>t. free_or as_networkPolicy (networkPolicy_gvr, ?ns, policy_name) t \<and>
       free_or as_clusterRole (clusterRole_gvr, [], OperandName) t \<and>
       free_or as_clusterRoleBinding (clusterRoleBinding_gvr, [], OperandName) t \<and>
       free_or as_role (role_gvr, OperatorNamespace, OperandName) t \<and>
       free_or as_roleBinding (roleBinding_gvr, OperatorNamespace, OperandName) t \<and>
       free_or as_deployment (deployment_key cm) t \<and> rest_placed cm t)
     (steps_expecting (on_tracker c sm pm) cm e)"
    unfolding steps_expecting_def deploy_expecting_tracker
    by (intro good_enabled_bind enabled_bindE enabled_return_after networkPolicy_step clusterRole_step
        clusterRoleBinding_step role_step roleBinding_step networkPolicy_enabled clusterRole_enabled
        clusterRoleBinding_enabled role_enabled roleBinding_enabled deployment_confined deployment_enabled
        rest_enabled assms) (simp_all add: gvr_defs deployment_key_def rest_keys_def Let_def)
  then show ?thesis using assms(4,5) unfolding enabled_def operands_placed_def by blast
qed

lemma reconcile_succeeds:
  assumes ok: "tracker_ok (env_world s)" and cm: "configured (env_world s) cm" and own: "proper_owner cm"
    and "hashes_succeed c" and "operands_placed cm (env_world s)"
  shows "\<exists>s'. reconcile (on_tracker c sm pm) s = (Inr (), s')"
proof -
  have ns: "om_namespace (cm_meta cm) \<noteq> []" using configured_key [OF ok cm] by simp
  obtain x s1 where st: "steps_expecting (on_tracker c sm pm) cm (expected_generation cm) s = (Inr x, s1)"
    using steps_succeed [OF own ns assms(4) ok assms(5)] by blast
  note s1 = confinedD [OF conjunct1 [OF operand_good [OF own ns]] ok st]
  have "configured (env_world s1) cm"
    using configured_cong [OF unchanged_offD [OF s1(2) config_not_operand]] cm by blast
  from record_status_stores [OF s1(1) this, of c sm pm x] obtain s' where "record_status (on_tracker c sm pm) x s1 = (Inr (), s')"
    by blast
  with st show ?thesis by (simp add: reconcile_tracker [OF cm] bindE_def)
qed

end
