(* ===== verification/Sync_Delivery.thy ===== *)
theory Sync_Delivery
  imports Sync_Progress
begin

text \<open>
  What a successful \<open>sync\<close> has put on the tracker: the eleven objects are stored, their metadata
  is in sync with what the operator wants, their content is the desired one, and the operator
  status records the generation of the stored deployment.
\<close>

text \<open>After a success of the step the state satisfies \<open>P\<close>, which looks at the keys \<open>K\<close> only.\<close>

definition delivers :: "object_key set \<Rightarrow> (tracker \<Rightarrow> bool) \<Rightarrow> (tracker, go_error + 'x) go \<Rightarrow> bool" where
  "delivers K P f \<longleftrightarrow> (\<forall>t t'. agree_on K t t' \<longrightarrow> P t \<longrightarrow> P t') \<and>
     (\<forall>s x s'. tracker_ok (env_world s) \<longrightarrow> f s = (Inr x, s') \<longrightarrow> P (env_world s'))"

lemma delivers_bindE:
  assumes "confined K f" and "delivers K P f" and "\<And>x. confined L (g x)" and "\<And>x. delivers L Q (g x)" and "K \<inter> L = {}"
  shows "delivers (K \<union> L) (\<lambda>t. P t \<and> Q t) (bindE f g)"
proof -
  have "P (env_world s') \<and> Q (env_world s')"
    if ok: "tracker_ok (env_world s)" and run: "bindE f g s = (Inr y, s')" for s s' :: "tracker env" and y
  proof -
    from run obtain x s1 where 1: "f s = (Inr x, s1)" and 2: "g x s1 = (Inr y, s')" by (rule bindE_InrE)
    have ok1: "tracker_ok (env_world s1)" using assms(1) ok 1 by (rule confinedD)
    have "P (env_world s1)" using assms(2) ok 1 unfolding delivers_def by blast
    moreover have "agree_on K (env_world s1) (env_world s')"
      using confinedD(2) [OF assms(3) ok1 2] assms(5) by (rule agree_unchanged)
    ultimately have "P (env_world s')" using assms(2) unfolding delivers_def by blast
    moreover have "Q (env_world s')" using assms(4) ok1 2 unfolding delivers_def by blast
    ultimately show ?thesis ..
  qed
  moreover have "agree_on (K \<union> L) t t' \<Longrightarrow> P t \<and> Q t \<Longrightarrow> P t' \<and> Q t'" for t t'
    using assms(2) assms(4) agree_on_mono [of "K \<union> L" t t'] unfolding delivers_def by blast
  ultimately show ?thesis unfolding delivers_def by blast
qed

lemma delivers_failing: "(\<And>s. f s = (apply_fail e, s)) \<Longrightarrow> (\<And>t t'. agree_on K t t' \<Longrightarrow> P t \<Longrightarrow> P t') \<Longrightarrow>
    delivers K P (checked f)"
  unfolding delivers_def by (auto simp: checked_def apply_fail_def)

lemma delivers_before:
  "good_step K f \<Longrightarrow> delivers K P f \<Longrightarrow> confined L g \<and> delivers L Q g \<Longrightarrow> K \<inter> L = {} \<Longrightarrow>
    confined (K \<union> L) (bindE f (\<lambda>_. g)) \<and> delivers (K \<union> L) (\<lambda>t. P t \<and> Q t) (bindE f (\<lambda>_. g))"
  by (simp add: good_step_def delivers_bindE confined_bindE)

lemma delivers_return_after:
  assumes "confined L g \<and> delivers L Q g"
  shows "confined L (bindE g (\<lambda>_. returnE x)) \<and> delivers L Q (bindE g (\<lambda>_. returnE x))"
proof
  show "confined L (bindE g (\<lambda>_. returnE x))"
    using assms confined_bindE [of L g "{}" "\<lambda>_. returnE x"] confined_returnE [of x] by simp
  have "\<exists>y. g s = (Inr y, s')" if "bindE g (\<lambda>_. returnE x) s = (Inr z, s')" for s s' z
    using that by (auto elim!: bindE_InrE simp: returnE_def)
  then show "delivers L Q (bindE g (\<lambda>_. returnE x))"
    using assms unfolding delivers_def by blast
qed

text \<open>The object stored at a key, if it is of the kind.\<close>

definition stored_with :: "(kobject \<Rightarrow> 'o option) \<Rightarrow> object_key \<Rightarrow> ('o \<Rightarrow> bool) \<Rightarrow> tracker \<Rightarrow> bool" where
  "stored_with proj key R t \<longleftrightarrow> (case object_at t key of None \<Rightarrow> False
     | Some vo \<Rightarrow> (case proj (vo_object vo) of None \<Rightarrow> False | Some x \<Rightarrow> R x))"

lemma stored_with_cong: "agree_on {key} t t' \<Longrightarrow> stored_with proj key R t \<Longrightarrow> stored_with proj key R t'"
  by (simp add: agree_on_def stored_with_def)

context tracked_apply begin

lemma settled_stored:
  "settled ns req c t \<Longrightarrow> (\<And>b. is_Keep (plan c req b) \<Longrightarrow> R b) \<Longrightarrow> stored_with proj (r, ns, name_of req) R t"
  by (auto simp: settled_def stored_with_def trackerGet_def split: option.splits)

lemma delivers_apply:
  assumes "wf req" and "\<And>c b. is_Keep (plan c req b) \<Longrightarrow> R b"
    and "\<And>s. f s = apply_skeleton (fake_client r emb proj) ns (name_of req) (created req) (plan c req) evc evu s"
  shows "delivers {(r, ns, name_of req)} (stored_with proj (r, ns, name_of req) R) (checked f)"
  unfolding delivers_def
proof (intro conjI allI impI)
  show "agree_on {(r, ns, name_of req)} t t' \<Longrightarrow> stored_with proj (r, ns, name_of req) R t \<Longrightarrow>
    stored_with proj (r, ns, name_of req) R t'" for t t' by (rule stored_with_cong)
  fix s s' :: "tracker env" and x
  assume ok: "tracker_ok (env_world s)" and "checked f s = (Inr x, s')"
  then obtain ch where run: "apply_skeleton (fake_client r emb proj) ns (name_of req) (created req) (plan c req) evc evu s =
      ((x, ch, None), s')" by (auto simp: checked_Inr assms(3))
  then obtain a where a: "x = Some a" using apply_result_some by blast
  from apply_settled [OF assms(1) ok run [unfolded a]]
  show "stored_with proj (r, ns, name_of req) R (env_world s')" using assms(2) by (rule settled_stored)
qed

end

section \<open>The steps\<close>

definition role_delivered :: "cli_manager \<Rightarrow> tracker \<Rightarrow> bool" where
  "role_delivered cm = stored_with as_role (role_gvr, OperatorNamespace, OperandName)
     (\<lambda>x. role_same (desired_role cm) x \<and> meta_in_sync (role_meta x) (role_meta (desired_role cm)))"

lemma role_delivers:
  assumes "proper_owner cm"
  shows "delivers {(role_gvr, OperatorNamespace, OperandName)} (role_delivered cm) (checked (manageRole (on_tracker c sm pm) cm))"
  using role_tracked.delivers_apply [OF desired_wf(1) [OF assms] role_kind.keep_plan [OF desired_wf(1) [OF assms]]
      fun_cong [OF ApplyRole_skeleton], unfolded desired_names desired_namespaces]
  by (simp add: manageRole_eq on_tracker_def role_delivered_def)

definition roleBinding_delivered :: "cli_manager \<Rightarrow> tracker \<Rightarrow> bool" where
  "roleBinding_delivered cm = stored_with as_roleBinding (roleBinding_gvr, OperatorNamespace, OperandName)
     (\<lambda>x. binding_same (desired_roleBinding cm) x \<and> meta_in_sync (rb_meta x) (rb_meta (desired_roleBinding cm)))"

lemma roleBinding_delivers:
  assumes "proper_owner cm"
  shows "delivers {(roleBinding_gvr, OperatorNamespace, OperandName)} (roleBinding_delivered cm) (checked (manageRoleBinding (on_tracker c sm pm) cm))"
  using roleBinding_tracked.delivers_apply [OF desired_wf(2) [OF assms] binding_kind.keep_plan [OF desired_wf(2) [OF assms]]
      fun_cong [OF ApplyRoleBinding_skeleton], unfolded desired_names desired_namespaces]
  by (simp add: manageRoleBinding_eq on_tracker_def roleBinding_delivered_def)

definition clusterRole_delivered :: "cli_manager \<Rightarrow> tracker \<Rightarrow> bool" where
  "clusterRole_delivered cm = stored_with as_clusterRole (clusterRole_gvr, [], OperandName)
     (\<lambda>x. crole_same (desired_clusterRole cm) x \<and> meta_in_sync (crole_meta x) (crole_meta (desired_clusterRole cm)))"

lemma clusterRole_delivers:
  assumes "proper_owner cm"
  shows "delivers {(clusterRole_gvr, [], OperandName)} (clusterRole_delivered cm) (checked (manageClusterRole (on_tracker c sm pm) cm))"
  using clusterRole_tracked.delivers_apply [OF desired_wf(3) [OF assms] crole_kind.keep_plan [OF desired_wf(3) [OF assms]]
      fun_cong [OF ApplyClusterRole_skeleton], unfolded desired_names desired_namespaces]
  by (simp add: manageClusterRole_eq on_tracker_def clusterRole_delivered_def)

definition clusterRoleBinding_delivered :: "cli_manager \<Rightarrow> tracker \<Rightarrow> bool" where
  "clusterRoleBinding_delivered cm = stored_with as_clusterRoleBinding (clusterRoleBinding_gvr, [], OperandName)
     (\<lambda>x. binding_same (desired_clusterRoleBinding cm) x \<and> meta_in_sync (rb_meta x) (rb_meta (desired_clusterRoleBinding cm)))"

lemma clusterRoleBinding_delivers:
  assumes "proper_owner cm"
  shows "delivers {(clusterRoleBinding_gvr, [], OperandName)} (clusterRoleBinding_delivered cm) (checked (manageClusterRoleBinding (on_tracker c sm pm) cm))"
  using clusterRoleBinding_tracked.delivers_apply [OF desired_wf(4) [OF assms] binding_kind.keep_plan [OF desired_wf(4) [OF assms]]
      fun_cong [OF ApplyClusterRoleBinding_skeleton], unfolded desired_names desired_namespaces]
  by (simp add: manageClusterRoleBinding_eq on_tracker_def clusterRoleBinding_delivered_def)

definition serviceAccount_delivered :: "cli_manager \<Rightarrow> tracker \<Rightarrow> bool" where
  "serviceAccount_delivered cm = stored_with as_serviceAccount (serviceAccount_gvr, om_namespace (cm_meta cm), OperandName)
     (\<lambda>x. meta_in_sync (sa_meta x) (sa_meta (desired_serviceAccount cm)))"

lemma serviceAccount_delivers:
  assumes "proper_owner cm"
  shows "delivers {(serviceAccount_gvr, om_namespace (cm_meta cm), OperandName)} (serviceAccount_delivered cm) (checked (manageServiceAccount (on_tracker c sm pm) cm))"
  using serviceAccount_tracked.delivers_apply [OF desired_wf(5) [OF assms] sa_kind.keep_plan [OF desired_wf(5) [OF assms]]
      fun_cong [OF ApplyServiceAccount_skeleton], unfolded desired_names desired_namespaces]
  by (simp add: manageServiceAccount_eq on_tracker_def serviceAccount_delivered_def)

definition route_delivered :: "tracker reconciler \<Rightarrow> cli_manager \<Rightarrow> tracker \<Rightarrow> bool" where
  "route_delivered c cm = stored_with as_route (route_gvr, om_namespace (cm_meta cm), OperandName)
     (\<lambda>x. route_same (desired_route (rec_insecureHTTP c) cm) x \<and> meta_in_sync (route_meta x) (route_meta (desired_route (rec_insecureHTTP c) cm)))"

lemma route_delivers:
  assumes "proper_owner cm"
  shows "delivers {(route_gvr, om_namespace (cm_meta cm), OperandName)} (route_delivered c cm) (checked (manageRoute (on_tracker c sm pm) cm))"
  using route_tracked.delivers_apply [OF desired_wf(9) [OF assms] route_kind.keep_plan [OF desired_wf(9) [OF assms]]
      fun_cong [OF applyRoute_skeleton], unfolded desired_names desired_namespaces]
  by (simp add: manageRoute_eq on_tracker_def route_delivered_def)

text \<open>The content of a service is what is compared and, through the hash annotation, the whole spec.\<close>

definition service_delivered_as :: "tracker reconciler \<Rightarrow> service \<Rightarrow> tracker \<Rightarrow> bool" where
  "service_delivered_as c req = stored_with as_service (service_gvr, om_namespace (svc_meta req), om_name (svc_meta req))
     (\<lambda>x. \<exists>h. rec_serviceHash c (svc_spec req) = Inr h \<and> service_same req x \<and>
       meta_in_sync (svc_meta x) (svc_meta (with_spec_hash h req)))"

lemma service_delivers_for:
  assumes "\<And>h. service_kind.wf (with_spec_hash h req)"
  shows "delivers {(service_gvr, om_namespace (svc_meta req), om_name (svc_meta req))} (service_delivered_as c req)
    (checked (ApplyService (rec_serviceHash c) hashOf (fake_client service_gvr KService as_service) req))"
proof (cases "rec_serviceHash c (svc_spec req)")
  case (Inl e)
  show ?thesis
    by (rule delivers_failing [OF ApplyService_unhashed [of "rec_serviceHash c", OF Inl]])
      (unfold service_delivered_as_def, rule stored_with_cong)
next
  case (Inr h)
  have eq: "ApplyService (rec_serviceHash c) hashOf (fake_client service_gvr KService as_service) req s =
      apply_skeleton (fake_client service_gvr KService as_service) (om_namespace (svc_meta req))
        (om_name (svc_meta (with_spec_hash h req))) (service_kind.created (with_spec_hash h req))
        (service_kind.merge_plan () (with_spec_hash h req))
        (\<lambda>e. [create_event ''Service'' [] (svc_meta req) e]) (\<lambda>_ e. [update_event ''Service'' [] (svc_meta req) e]) s" for s
    by (simp add: ApplyService_skeleton [of "rec_serviceHash c", OF Inr])
  have "service_same (with_spec_hash h req) = service_same req"
    by (simp add: fun_eq_iff service_same_def)
  with service_tracked.delivers_apply [OF assms service_kind.keep_plan [OF assms [of h]] eq] Inr show ?thesis
    by (simp add: service_delivered_as_def)
qed

lemma service_delivers:
  assumes "proper_owner cm"
  shows "delivers {(service_gvr, om_namespace (cm_meta cm), OperandName)} (service_delivered_as c (desired_service cm))
      (checked (manageService (on_tracker c sm pm) cm))"
    and "delivers {(service_gvr, om_namespace (cm_meta cm), metrics_name)} (service_delivered_as c (desired_serviceMetrics cm))
      (checked (manageServiceMetrics (on_tracker c sm pm) cm))"
  using service_delivers_for [OF desired_wf(6) [OF assms], of c "rec_serviceSum c"]
    service_delivers_for [OF desired_wf(7) [OF assms], of c "rec_serviceSum c"]
  by (simp_all add: manageService_eq manageServiceMetrics_eq on_tracker_def desired_names desired_namespaces)

definition networkPolicy_delivered :: "cli_manager \<Rightarrow> tracker \<Rightarrow> bool" where
  "networkPolicy_delivered cm = stored_with as_networkPolicy (networkPolicy_gvr, om_namespace (cm_meta cm), policy_name)
     (\<lambda>x. policy_same (desired_networkPolicy cm) x \<and> meta_in_sync (np_meta x) (np_meta (desired_networkPolicy cm)))"

lemma networkPolicy_delivers:
  assumes "proper_owner cm" and "om_namespace (cm_meta cm) \<noteq> []"
  shows "delivers {(networkPolicy_gvr, om_namespace (cm_meta cm), policy_name)} (networkPolicy_delivered cm)
    (checked (manageOperandNetworkPolicyAllow (on_tracker c sm pm) cm))"
proof -
  have keep: "is_Keep (policy_kind.merge_plan v (desired_networkPolicy cm) x) \<Longrightarrow>
      policy_same (desired_networkPolicy cm) x \<and> meta_in_sync (np_meta x) (np_meta (desired_networkPolicy cm))" for v x
    by (rule policy_kind.keep_plan [OF desired_wf(8) [OF assms(1)]])
  have eq: "manageOperandNetworkPolicyAllow (on_tracker c sm pm) cm s =
      apply_skeleton (fake_client networkPolicy_gvr KNetworkPolicy as_networkPolicy) (om_namespace (cm_meta cm))
        (om_name (np_meta (desired_networkPolicy cm))) (policy_kind.created (desired_networkPolicy cm))
        (policy_kind.merge_plan () (desired_networkPolicy cm))
        (\<lambda>e. [create_event ''NetworkPolicy'' ''networking.k8s.io'' (np_meta (desired_networkPolicy cm)) e])
        (\<lambda>_ e. [update_event ''NetworkPolicy'' ''networking.k8s.io'' (np_meta (desired_networkPolicy cm)) e]) s" for s
    using assms(2)
    by (simp add: manageOperandNetworkPolicyAllow_eq ApplyNetworkPolicy_skeleton desired_namespaces on_tracker_def)
  from networkPolicy_tracked.delivers_apply [OF desired_wf(8) [OF assms(1)] keep eq]
  show ?thesis by (simp add: networkPolicy_delivered_def desired_names)
qed

definition deployment_delivered :: "tracker reconciler \<Rightarrow> cli_manager \<Rightarrow> tracker \<Rightarrow> bool" where
  "deployment_delivered c cm = stored_with as_deployment (deployment_key cm)
     (\<lambda>d. \<exists>h. rec_deploymentHash c (dep_spec (desired_deployment (rec_targetImage c) (rec_insecureHTTP c) cm)) = Inr h \<and>
       meta_in_sync (dep_meta d) (dep_meta (hashed_deployment c cm h)))"

lemma keep_deployment:
  "deployment_wf req \<Longrightarrow> is_Keep (deployment_plan e req d) \<Longrightarrow> meta_in_sync (dep_meta d) (dep_meta req)"
  by (auto simp: deployment_plan_def deployment_wf_def meta_in_sync_iff case_prod_beta split: if_splits)

lemma deployment_delivers:
  assumes "proper_owner cm"
  shows "delivers {deployment_key cm} (deployment_delivered c cm) (deploy_expecting c cm e)"
proof (cases "rec_deploymentHash c (dep_spec (desired_deployment (rec_targetImage c) (rec_insecureHTTP c) cm))")
  case (Inl e')
  have "agree_on {deployment_key cm} t t' \<Longrightarrow> deployment_delivered c cm t \<Longrightarrow> deployment_delivered c cm t'" for t t'
    unfolding deployment_delivered_def by (rule stored_with_cong)
  with Inl show ?thesis unfolding delivers_def by (auto simp: deploy_unhashed)
next
  case (Inr h)
  have eq: "ApplyDeployment (rec_deploymentHash c) (rec_uuid c) (fake_client deployment_gvr KDeployment as_deployment)
      (desired_deployment (rec_targetImage c) (rec_insecureHTTP c) cm) e s =
    apply_skeleton (fake_client deployment_gvr KDeployment as_deployment) (om_namespace (cm_meta cm))
      (om_name (dep_meta (hashed_deployment c cm h))) (hashed_deployment c cm h)
      (deployment_plan (gs_lastGeneration (undefined\<lparr>gs_lastGeneration := e\<rparr>)) (hashed_deployment c cm h))
      (\<lambda>e. [create_event ''Deployment'' ''apps'' (dep_meta (desired_deployment (rec_targetImage c) (rec_insecureHTTP c) cm)) e])
      (\<lambda>_ e. [update_event ''Deployment'' ''apps'' (dep_meta (desired_deployment (rec_targetImage c) (rec_insecureHTTP c) cm)) e]) s" for s
    by (simp add: ApplyDeployment_skeleton [of "rec_deploymentHash c", OF Inr] desired_namespaces)
  from deployment_tracked.delivers_apply [OF desired_wf(10) [OF assms] keep_deployment [OF desired_wf(10) [OF assms]] eq] Inr
  show ?thesis
    by (simp add: deploy_expecting_def deployment_delivered_def deployment_key_def desired_names)
qed

definition serviceMonitor_delivered :: "cli_manager \<Rightarrow> tracker \<Rightarrow> bool" where
  "serviceMonitor_delivered cm = stored_with as_unstructured (serviceMonitorGVR, om_namespace (cm_meta cm), OperandName)
     (\<lambda>u. nested_spec u = Inr (monitor_spec (metrics_server_name cm)) \<and>
       (\<exists>m. typed_meta u = Inr m \<and> meta_in_sync m (monitor_meta cm)))"

lemma keep_monitor:
  assumes "proper_owner cm" and "is_Keep (unstructured_plan () (desired_serviceMonitor cm) u)"
  shows "nested_spec u = Inr (monitor_spec (metrics_server_name cm)) \<and>
    (\<exists>m. typed_meta u = Inr m \<and> meta_in_sync m (monitor_meta cm))"
proof -
  obtain u' where k: "unstructured_plan () (desired_serviceMonitor cm) u = Keep u'" using assms(2) by (auto simp: is_Keep_def)
  then obtain c1 where e: "EnsureObjectMetaForUnstructured u (desired_serviceMonitor cm) = Inr (False, c1)"
    and g: "ensureGenericSpec (desired_serviceMonitor cm) c1 noDefaulting (=) = Inr (False, u')"
    by (auto simp: unstructured_plan_def split: sum.splits prod.splits if_splits)
  from e obtain me mr where t: "typed_meta u = Inr me" "typed_meta (desired_serviceMonitor cm) = Inr mr"
    "\<not> fst (EnsureObjectMeta False me mr)" "c1 = u"
    by (auto elim: EnsureObjectMetaForUnstructured_Inr)
  have "mergeable_meta (monitor_meta cm)"
    using desired_monitor_wf [OF assms(1)] desired_monitor_typed [of cm] by (auto simp: unstructured_wf_def)
  with t desired_monitor_typed [of cm] have "meta_in_sync me (monitor_meta cm)" by (simp add: EnsureObjectMeta_unmodified)
  moreover have "nested_spec u = nested_spec (desired_serviceMonitor cm)"
    using ensureGenericSpec_Inr [OF g] t(4) by auto
  ultimately show ?thesis
    using t(1) by (simp add: nested_spec_def NestedMap_single desired_serviceMonitor_def)
qed

lemma serviceMonitor_delivers:
  assumes "proper_owner cm" and "om_namespace (cm_meta cm) \<noteq> []"
  shows "delivers {(serviceMonitorGVR, om_namespace (cm_meta cm), OperandName)} (serviceMonitor_delivered cm)
    (checked (applyOperandServiceMonitor (on_tracker c sm pm) cm))"
proof -
  have keep: "is_Keep (unstructured_plan v (desired_serviceMonitor cm) u) \<Longrightarrow>
      nested_spec u = Inr (monitor_spec (metrics_server_name cm)) \<and>
      (\<exists>m. typed_meta u = Inr m \<and> meta_in_sync m (monitor_meta cm))" for v u
    using keep_monitor [OF assms(1)] by simp
  from monitor_tracked.delivers_apply [OF desired_monitor_wf [OF assms(1)] keep
      fun_cong [OF ApplyMonitoringResource_skeleton [where dyn = "\<lambda>r. fake_client r KUnstructured as_unstructured"
        and resource = serviceMonitorGVR and required = "desired_serviceMonitor cm"]],
      unfolded desired_monitor_names]
  show ?thesis
    by (simp add: applyOperandServiceMonitor_eq [OF assms(2)] ApplyServiceMonitor_def on_tracker_def
        serviceMonitor_delivered_def)
qed

section \<open>All steps\<close>

definition rest_delivered :: "tracker reconciler \<Rightarrow> cli_manager \<Rightarrow> tracker \<Rightarrow> bool" where
  "rest_delivered c cm t \<longleftrightarrow>
     route_delivered c cm t \<and> service_delivered_as c (desired_service cm) t \<and>
     service_delivered_as c (desired_serviceMetrics cm) t \<and> serviceAccount_delivered cm t \<and>
     serviceMonitor_delivered cm t"

definition operands_delivered :: "tracker reconciler \<Rightarrow> cli_manager \<Rightarrow> tracker \<Rightarrow> bool" where
  "operands_delivered c cm t \<longleftrightarrow>
     networkPolicy_delivered cm t \<and> clusterRole_delivered cm t \<and> clusterRoleBinding_delivered cm t \<and>
     role_delivered cm t \<and> roleBinding_delivered cm t \<and> deployment_delivered c cm t \<and> rest_delivered c cm t"

lemma rest_delivers:
  assumes "proper_owner cm" and "om_namespace (cm_meta cm) \<noteq> []"
  shows "confined (rest_keys cm) (rest_steps (on_tracker c sm pm) cm) \<and>
    delivers (rest_keys cm) (rest_delivered c cm) (rest_steps (on_tracker c sm pm) cm)"
proof -
  let ?ns = "om_namespace (cm_meta cm)"
  let ?K = "{(route_gvr, ?ns, OperandName)} \<union> ({(service_gvr, ?ns, OperandName)} \<union>
      ({(service_gvr, ?ns, metrics_name)} \<union> ({(serviceAccount_gvr, ?ns, OperandName)} \<union>
       {(serviceMonitorGVR, ?ns, OperandName)})))"
  have K: "?K = rest_keys cm" by (auto simp: rest_keys_def Let_def)
  have "confined ?K (rest_steps (on_tracker c sm pm) cm) \<and>
     delivers ?K (\<lambda>t. route_delivered c cm t \<and> service_delivered_as c (desired_service cm) t \<and>
     service_delivered_as c (desired_serviceMetrics cm) t \<and> serviceAccount_delivered cm t \<and>
     serviceMonitor_delivered cm t) (rest_steps (on_tracker c sm pm) cm)"
    unfolding rest_steps_def
    by (intro delivers_before conjI route_step service_step serviceAccount_step route_delivers service_delivers
        serviceAccount_delivers serviceMonitor_delivers assms
        good_step_def [THEN iffD1, OF monitor_good_step, THEN conjunct1]) (simp_all add: gvr_defs)
  then show ?thesis unfolding K rest_delivered_def .
qed

lemma steps_deliver:
  assumes "proper_owner cm" and "om_namespace (cm_meta cm) \<noteq> []"
  shows "delivers (operand_keys cm) (operands_delivered c cm) (steps_expecting (on_tracker c sm pm) cm e)"
proof -
  let ?ns = "om_namespace (cm_meta cm)"
  let ?K = "{(networkPolicy_gvr, ?ns, policy_name)} \<union> ({(clusterRole_gvr, [], OperandName)} \<union>
      ({(clusterRoleBinding_gvr, [], OperandName)} \<union> ({(role_gvr, OperatorNamespace, OperandName)} \<union>
      ({(roleBinding_gvr, OperatorNamespace, OperandName)} \<union> ({deployment_key cm} \<union> rest_keys cm)))))"
  have K: "?K = operand_keys cm" by (auto simp: operand_keys_def rbac_keys_def)
  have dep: "confined ({deployment_key cm} \<union> rest_keys cm)
        (bindE (deploy_expecting c cm e) (\<lambda>d. bindE (rest_steps (on_tracker c sm pm) cm) (\<lambda>_. returnE d))) \<and>
      delivers ({deployment_key cm} \<union> rest_keys cm) (\<lambda>t. deployment_delivered c cm t \<and> rest_delivered c cm t)
        (bindE (deploy_expecting c cm e) (\<lambda>d. bindE (rest_steps (on_tracker c sm pm) cm) (\<lambda>_. returnE d)))"
    by (intro conjI confined_bindE delivers_bindE deployment_confined deployment_delivers assms
        delivers_return_after [OF rest_delivers [OF assms], THEN conjunct1]
        delivers_return_after [OF rest_delivers [OF assms], THEN conjunct2])
      (simp add: deployment_key_def rest_keys_def Let_def gvr_defs)
  have "confined ?K (steps_expecting (on_tracker c sm pm) cm e) \<and>
     delivers ?K (\<lambda>t. networkPolicy_delivered cm t \<and> clusterRole_delivered cm t \<and> clusterRoleBinding_delivered cm t \<and>
     role_delivered cm t \<and> roleBinding_delivered cm t \<and> deployment_delivered c cm t \<and> rest_delivered c cm t)
     (steps_expecting (on_tracker c sm pm) cm e)"
    unfolding steps_expecting_def deploy_expecting_tracker
    by (intro delivers_before networkPolicy_step clusterRole_step clusterRoleBinding_step role_step roleBinding_step
        networkPolicy_delivers clusterRole_delivers clusterRoleBinding_delivers role_delivers roleBinding_delivers
        dep assms) (simp_all add: gvr_defs deployment_key_def rest_keys_def Let_def)
  then show ?thesis unfolding K operands_delivered_def [abs_def] by blast
qed

text \<open>The deployment the steps return has the generation of the stored one.\<close>

lemma deployment_result_stored:
  assumes "proper_owner cm" and ok: "tracker_ok (env_world s)" and run: "deploy_expecting c cm e s = (Inr x, s')"
  shows "stored_with as_deployment (deployment_key cm) (\<lambda>d. om_generation (dep_meta d) = om_generation (dep_meta (the x)))
    (env_world s')"
proof (cases "rec_deploymentHash c (dep_spec (desired_deployment (rec_targetImage c) (rec_insecureHTTP c) cm))")
  case (Inl e)
  then show ?thesis using run by (simp add: deploy_unhashed)
next
  case (Inr h)
  then obtain evc evu where d: "\<forall>e. deploy_expecting c cm e =
    checked (apply_skeleton (fake_client deployment_gvr KDeployment as_deployment) (om_namespace (cm_meta cm))
      (om_name (dep_meta (hashed_deployment c cm h))) (hashed_deployment c cm h)
      (deployment_plan e (hashed_deployment c cm h)) evc evu)"
    using deploy_expecting_hashed by blast
  from run obtain ch where r: "apply_skeleton (fake_client deployment_gvr KDeployment as_deployment)
      (om_namespace (cm_meta cm)) (om_name (dep_meta (hashed_deployment c cm h))) (hashed_deployment c cm h)
      (deployment_plan e (hashed_deployment c cm h)) evc evu s = ((x, ch, None), s')"
    by (auto simp: d checked_Inr)
  then obtain a where a: "x = Some a" using deployment_tracked.apply_result_some by blast
  note st = deployment_tracked.apply_settled [OF desired_wf(10) [OF assms(1)] ok,
      of "om_namespace (cm_meta cm)" h "rec_targetImage c" "rec_insecureHTTP c" "undefined\<lparr>gs_lastGeneration := e\<rparr>" evc evu a ch s']
  have "deployment_tracked.settled (om_namespace (cm_meta cm)) (hashed_deployment c cm h) (deployment_generation a) (env_world s')"
    using r by (intro st) (simp add: a)
  then obtain b where b: "trackerGet deployment_gvr (om_namespace (cm_meta cm)) OperandName (env_world s') =
      Inr (KDeployment b)" and g: "deployment_generation b = deployment_generation a"
    by (auto simp: deployment_tracked.settled_def desired_names)
  have "om_generation (dep_meta b) = om_generation (dep_meta a)" using arg_cong [OF g, of gs_lastGeneration] by simp
  with b show ?thesis
    by (auto simp: a stored_with_def deployment_key_def trackerGet_def split: option.splits)
qed

lemma steps_result_stored:
  assumes "proper_owner cm" and "om_namespace (cm_meta cm) \<noteq> []" and "tracker_ok (env_world s)"
    and "steps_expecting (on_tracker c sm pm) cm e s = (Inr x, s')"
  shows "stored_with as_deployment (deployment_key cm) (\<lambda>d. om_generation (dep_meta d) = om_generation (dep_meta (the x)))
    (env_world s')"
proof -
  note run = conjI [OF assms(3) assms(4) [unfolded steps_expecting_def]]
  obtain s1 where 1: "tracker_ok (env_world s1) \<and>
      bindE (deploy_expecting (on_tracker c sm pm) cm e)
        (\<lambda>d. bindE (rest_steps (on_tracker c sm pm) cm) (\<lambda>_. returnE d)) s1 = (Inr x, s')"
    by (rule good_through [OF networkPolicy_step [OF assms(1,2)] run], erule good_through [OF clusterRole_step [OF assms(1)]],
        erule good_through [OF clusterRoleBinding_step [OF assms(1)]], erule good_through [OF role_step [OF assms(1)]],
        erule good_through [OF roleBinding_step [OF assms(1)]]) blast
  then obtain s2 y where d: "deploy_expecting c cm e s1 = (Inr x, s2)"
    and r: "rest_steps (on_tracker c sm pm) cm s2 = (Inr y, s')"
    by (auto elim!: bindE_InrE simp: returnE_def)
  have "tracker_ok (env_world s2)" using confinedD(1) [OF deployment_confined [OF assms(1)] _ d] 1 by blast
  then have "unchanged_off (rest_keys cm) (env_world s2) (env_world s')"
    using confinedD(2) [OF conjunct1 [OF rest_delivers [OF assms(1,2)]] _ r] by blast
  then have "agree_on {deployment_key cm} (env_world s2) (env_world s')"
    by (rule agree_unchanged) (simp add: deployment_key_def rest_keys_def Let_def gvr_defs)
  with deployment_result_stored [OF assms(1) conjunct1 [OF 1] d] show ?thesis by (blast intro: stored_with_cong)
qed

text \<open>A successful run delivers the operands and records the generation of the stored deployment.\<close>

lemma reconcile_delivers:
  assumes ok: "tracker_ok (env_world s)" and cm: "configured (env_world s) cm" and own: "proper_owner cm"
    and run: "reconcile (on_tracker c sm pm) s = (Inr (), s')"
  shows "operands_delivered c cm (env_world s') \<and> (\<exists>cm'. configured (env_world s') cm' \<and>
    cm_meta cm' = cm_meta cm \<and> cm_spec cm' = cm_spec cm \<and>
    stored_with as_deployment (deployment_key cm) (\<lambda>d. om_generation (dep_meta d) = expected_generation cm') (env_world s'))"
proof -
  let ?c = "on_tracker c sm pm"
  have ns: "om_namespace (cm_meta cm) \<noteq> []" using configured_key [OF ok cm] by simp
  from run obtain x s1 where st: "steps_expecting ?c cm (expected_generation cm) s = (Inr x, s1)"
    and rec: "record_status ?c x s1 = (Inr (), s')"
    by (auto simp: reconcile_tracker [OF cm] elim: bindE_InrE)
  from steps_deployment [OF own ns ok st] obtain d where d: "x = Some d"
    "om_namespace (dep_meta d) = om_namespace (cm_meta cm)" "om_name (dep_meta d) = OperandName" by blast
  note s1 = confinedD [OF conjunct1 [OF operand_good [OF own ns]] ok st]
  have cm1: "configured (env_world s1) cm"
    using configured_cong [OF unchanged_offD [OF s1(2) config_not_operand]] cm by blast
  let ?cm' = "with_generations cm (SetDeploymentGeneration (generations_of cm) (Some d))"
  have cm': "configured (env_world s') ?cm'" and off: "unchanged_off {config_key} (env_world s1) (env_world s')"
    using record_status_stores [OF s1(1) cm1, of c sm pm x] rec d(1) by (metis prod.inject)+
  have agree: "agree_on (operand_keys cm) (env_world s1) (env_world s')"
    using off config_not_operand [of cm] by (intro agree_unchanged) auto
  have "operands_delivered c cm (env_world s1)"
    using steps_deliver [OF own ns] ok st unfolding delivers_def by blast
  with agree have "operands_delivered c cm (env_world s')"
    using steps_deliver [OF own ns] unfolding delivers_def by blast
  moreover have "stored_with as_deployment (deployment_key cm) (\<lambda>b. om_generation (dep_meta b) = om_generation (dep_meta d))
      (env_world s')"
    using steps_result_stored [OF own ns ok st] d(1) agree
    by (auto intro!: stored_with_cong [of _ "env_world s1"] elim: agree_on_mono simp: operand_keys_def)
  moreover have "expected_generation ?cm' = om_generation (dep_meta d)" using expected_next [OF d(2,3)] by simp
  ultimately show ?thesis
    using cm' by (intro conjI exI [of _ ?cm']) simp_all
qed

end
