(* ===== verification/Sample_Cluster.thy ===== *)
theory Sample_Cluster
  imports Sync_Delivery
begin

text \<open>A server that holds the configuration object and nothing else, and a reconciler for it.\<close>

definition sample_config :: cli_manager where
  "sample_config =
     \<lparr>cm_meta = \<lparr>om_name = OperatorConfigName, om_namespace = OperatorNamespace, om_uid = ''u1'',
        om_resourceVersion = ''7'', om_generation = 1, om_labels = fmempty, om_annotations = fmempty,
        om_ownerReferences = [], om_server = fmempty\<rparr>,
      cm_spec = \<lparr>cms_operatorSpec = \<lparr>os_managementState = ''Managed'', os_logLevel = Normal,
        os_operatorLogLevel = Normal, os_unsupportedConfigOverrides = JNull, os_observedConfig = JNull\<rparr>\<rparr>,
      cm_status = \<lparr>cmst_operatorStatus = \<lparr>ost_observedGeneration = 0, ost_conditions = [], ost_version = [],
        ost_readyReplicas = 0, ost_latestAvailableRevision = 0, ost_generations = []\<rparr>\<rparr>\<rparr>"

definition sample_tracker :: tracker where
  "sample_tracker = NewObjectTracker
     \<lparr>trk_objects := fmupd config_key \<lparr>vo_resourceVersion = 1, vo_object = KCliManager sample_config\<rparr> fmempty\<rparr>"

definition sample_reconciler :: "tracker reconciler" where
  "sample_reconciler =
     \<lparr>rec_targetImage = ''quay.io/openshift/cli-manager:latest'',
      rec_operatorClient = fake_climanagers (\<lambda>cm _. Inr cm) (\<lambda>_ _ cm. Inr cm),
      rec_cliManagerClient = fake_climanagers (\<lambda>cm _. Inr cm) (\<lambda>_ _ cm. Inr cm),
      rec_dynamicClient = (\<lambda>r. fake_client r KUnstructured as_unstructured),
      rec_routes = fake_client route_gvr KRoute as_route,
      rec_roles = fake_client role_gvr KRole as_role,
      rec_roleBindings = fake_client roleBinding_gvr KRoleBinding as_roleBinding,
      rec_clusterRoles = fake_client clusterRole_gvr KClusterRole as_clusterRole,
      rec_clusterRoleBindings = fake_client clusterRoleBinding_gvr KClusterRoleBinding as_clusterRoleBinding,
      rec_serviceAccounts = fake_client serviceAccount_gvr KServiceAccount as_serviceAccount,
      rec_services = fake_client service_gvr KService as_service,
      rec_networkPolicies = fake_client networkPolicy_gvr KNetworkPolicy as_networkPolicy,
      rec_deployments = fake_client deployment_gvr KDeployment as_deployment,
      rec_insecureHTTP = False, rec_serviceHash = (\<lambda>_. Inr ''h1''), rec_deploymentHash = (\<lambda>_. Inr ''h2''),
      rec_serviceSum = (\<lambda>_. []), rec_serviceAccountSum = (\<lambda>_. []), rec_policySum = (\<lambda>_. []),
      rec_unstructuredSum = (\<lambda>_. []), rec_uuid = []\<rparr>"

definition sample_start :: "tracker env" where
  "sample_start = \<lparr>env_world = sample_tracker, env_events = []\<rparr>"

abbreviation sample_operator :: "tracker reconciler" where
  "sample_operator \<equiv> on_tracker sample_reconciler (\<lambda>cm _. Inr cm) (\<lambda>_ _ cm. Inr cm)"

lemma sample_tracker_ok: "tracker_ok (env_world sample_start)"
  by (auto simp: sample_start_def sample_tracker_def tracker_ok_def NewObjectTracker_def config_key_def
      sample_config_def fmpred_iff split: if_splits)

lemma sample_configured: "configured (env_world sample_start) sample_config"
  by (simp add: sample_start_def sample_tracker_def configured_def config_key_def trackerGet_def)

lemma sample_owner: "proper_owner sample_config"
  by (simp add: proper_owner_def sample_config_def HasSuffixDash_def)

lemma sample_hashes: "hashes_succeed sample_reconciler"
  by (simp add: hashes_succeed_def sample_reconciler_def)

lemma sample_free: "key \<noteq> config_key \<Longrightarrow> object_at (env_world sample_start) key = None"
  by (auto simp: sample_start_def sample_tracker_def NewObjectTracker_def)

lemma sample_placed: "operands_placed sample_config (env_world sample_start)"
proof -
  have "\<forall>key\<in>operand_keys sample_config. object_at (env_world sample_start) key = None"
    using sample_free config_not_operand [of sample_config] by metis
  then show ?thesis
    by (simp add: operands_placed_def rest_placed_def free_or_def monitor_place_def operand_keys_def
        rbac_keys_def rest_keys_def Let_def)
qed

lemma sample_run: "\<exists>s'. sync sample_operator sample_start = (None, s')"
  using reconcile_succeeds [OF sample_tracker_ok sample_configured sample_owner sample_hashes sample_placed]
  by (simp add: sync_None)

end
