(* ===== verification/Event_Sync.thy ===== *)
theory Event_Sync
  imports Controller_Loop Sample_Cluster
begin

text \<open>
  The control loop and the sync together: what the operator does to the cluster when events
  arrive, and why it comes to rest. The API server is the object tracker; other clients act
  only in \<open>Outside\<close> steps.
\<close>

section \<open>Rest\<close>

text \<open>A cluster is settled for an operator if a sync succeeds on it and changes nothing.\<close>

definition settled :: "'w reconciler \<Rightarrow> 'w env \<Rightarrow> bool" where
  "settled c e \<longleftrightarrow> sync c e = (None, e)"

definition phase_settled :: "phase \<Rightarrow> bool" where
  "phase_settled p \<longleftrightarrow> (\<forall>k err. p = Settling k err \<longrightarrow> err = None)"

lemma settled_step:
  assumes "loop_step c s l s'" and "settled c (ol_env s)" and "phase_settled (ol_phase s)" and "l \<noteq> Outside"
  shows "ol_env s' = ol_env s \<and> phase_settled (ol_phase s') \<and> (\<forall>err. l = Settle err \<longrightarrow> err = None)"
  using assms(1)
proof cases
  case (take k)
  from take(3) show ?thesis by (cases rule: take_item_cases) (use take in \<open>simp_all add: phase_settled_def\<close>)
next
  case leave
  from leave(3) show ?thesis by (cases rule: take_item_cases) (use leave in \<open>simp_all add: phase_settled_def\<close>)
next
  case (settle k err bucket)
  with assms(3) have "err = None" by (simp add: phase_settled_def)
  with settle(1,3) show ?thesis by (auto simp: settle_item_def phase_settled_def)
next
  case (work k)
  with assms(2) show ?thesis by (simp add: sync_item_def settled_def phase_settled_def)
qed (use assms(3,4) in \<open>simp_all add: eventHandler_eq finish_item_def phase_settled_def\<close>)

lemma settled_run:
  "loop_run c s ls s' \<Longrightarrow> settled c (ol_env s) \<Longrightarrow> phase_settled (ol_phase s) \<Longrightarrow> Outside \<notin> set ls \<Longrightarrow>
     ol_env s' = ol_env s \<and> (\<forall>err. Settle err \<in> set ls \<longrightarrow> err = None)"
proof (induction rule: loop_run.induct)
  case (step s l s1 ls s2)
  then show ?case using settled_step [OF step(1)] by auto
qed simp

section \<open>The loop\<close>

text \<open>
  Two runs for the witnesses: an event, and a sync that fails because the server holds no
  configuration object, up to the point where its error is dealt with.
\<close>

definition empty_start :: "tracker env" where
  "empty_start = \<lparr>env_world = NewObjectTracker, env_events = []\<rparr>"

definition event_state :: "tracker operator_loop" where
  "event_state = eventHandler AddFunc (started 0 empty_start)"

text \<open>The error of the sync.\<close>

definition missing :: go_error where
  "missing = NewNotFound cliManager_gvr OperatorConfigName"

definition failed_state :: "tracker operator_loop" where
  "failed_state = event_state\<lparr>ol_queue := (ol_queue event_state)\<lparr>rq_delaying :=
     (delaying_of event_state)\<lparr>dq_typed := (typed_of event_state)\<lparr>tq_queue := [], tq_dirty := {},
       tq_processing := {workQueueKey}\<rparr>\<rparr>\<rparr>, ol_phase := Settling workQueueKey (Some missing)\<rparr>"

lemma event_run: "loop_run c (started 0 empty_start) [Notify AddFunc] event_state"
  using loop_step.notify [of "started 0 empty_start" c AddFunc]
  by (auto simp: event_state_def started_def)

lemma event_fetching: "ol_phase event_state = Fetching"
  by (simp add: event_state_def started_def)

lemma sync_unconfigured: "sync sample_operator empty_start = (Some missing, empty_start)"
proof -
  let ?api = "fake_climanagers (\<lambda>cm _. Inr cm) (\<lambda>_ _ cm. Inr cm)"
  have "ca_get ?api OperatorNamespace OperatorConfigName (env_world empty_start) = (Inl missing, env_world empty_start)"
    by (simp add: fake_climanagers_def Let_def fake_client_def trackerGet_def missing_def empty_start_def
        NewObjectTracker_def typed_result_def)
  then have "call (ca_get ?api OperatorNamespace OperatorConfigName) empty_start = (Inl missing, empty_start)"
    by (rule call_read)
  moreover have "rec_operatorClient sample_operator = ?api" by (simp add: on_tracker_def)
  ultimately show ?thesis by (simp add: sync_def reconcile_def bindE_def)
qed

lemma event_take: "take_item event_state = Some (failed_state\<lparr>ol_phase := Syncing workQueueKey\<rparr>)"
  by (simp add: take_item_def event_state_def failed_state_def started_def NewRateLimitingQueue_def
      newDelayingQueue_def newQueue_def on_typed_def on_delaying_def QueueGet_def QueueAdd_def Let_def)

lemma failed_env: "ol_env failed_state = empty_start"
  by (simp add: failed_state_def event_state_def started_def)

lemma failing_run:
  "loop_run sample_operator (started 0 empty_start) [Notify AddFunc, Take, Work] failed_state"
proof -
  let ?s = "failed_state\<lparr>ol_phase := Syncing workQueueKey\<rparr>"
  have "sync_item sample_operator workQueueKey ?s = failed_state"
    by (simp add: sync_item_def failed_env sync_unconfigured) (simp add: failed_state_def event_state_def started_def)
  then have "loop_step sample_operator ?s Work failed_state"
    using loop_step.work [of ?s workQueueKey sample_operator] by simp
  moreover have "loop_step sample_operator event_state Take ?s"
    by (rule loop_step.take [OF event_fetching event_take, of workQueueKey]) simp
  moreover have "loop_step sample_operator (started 0 empty_start) (Notify AddFunc) event_state"
    using event_run [of sample_operator] by simp
  ultimately show ?thesis by auto
qed

text \<open>The failure is dealt with: the key waits 5 ms.\<close>

definition retry_state :: "tracker operator_loop" where
  "retry_state = failed_state\<lparr>ol_queue := (ol_queue failed_state)\<lparr>rq_delaying := (delaying_of failed_state)
      \<lparr>dq_channel := [(workQueueKey, 5000000)]\<rparr>, rq_limiter := (rq_limiter (ol_queue failed_state))
      \<lparr>fl_failures := [workQueueKey \<mapsto> 1]\<rparr>\<rparr>, ol_phase := Finishing workQueueKey False\<rparr>"

lemma failed_fields:
  "LimiterWhen 0 workQueueKey (rq_limiter (ol_queue failed_state)) = (5000000,
      (rq_limiter (ol_queue failed_state))\<lparr>fl_failures := [workQueueKey \<mapsto> 1]\<rparr>)"
  "NumRequeues workQueueKey (ol_queue failed_state) = 0" "dq_now (delaying_of failed_state) = 0"
  "dq_channel (delaying_of failed_state) = []" "\<not> tq_shuttingDown (typed_of failed_state)"
  by (simp_all add: failed_state_def event_state_def started_def NewRateLimitingQueue_def newDelayingQueue_def
      newQueue_def on_typed_def on_delaying_def LimiterWhen_def FailureWhen_def failures_of_def
      DefaultControllerRateLimiter_def Let_def NumRequeues_def)

lemma missing_no_panic: "\<not> is_panic missing"
  by (simp add: missing_def NewNotFound_def)

lemma failed_phase: "ol_phase failed_state = Settling workQueueKey (Some missing)"
  by (simp add: failed_state_def)

lemma retry_settle: "settle_item 0 workQueueKey (Some missing) failed_state = Some retry_state"
  by (simp add: failed_fields settle_item_def missing_no_panic AddRateLimited_def AddAfter_def channelSize_def
      retry_state_def)

lemma retry_run:
  "loop_run sample_operator (started 0 empty_start) ([Notify AddFunc, Take, Work] @ [Settle (Some missing)]) retry_state"
  unfolding loop_run_append using failing_run loop_step.settle [OF failed_phase retry_settle, of sample_operator] by auto

text \<open>C15: no event is lost. After an informer event, delivered in any state of an operator that has
  not been told to stop (also in the middle of a sync), the key stays pending until the worker
  takes it again, and a worker that is free can take it at once.\<close>

theorem no_event_lost:
  assumes "loop_run c (started now e) (before @ Notify ev # after) s"
    and "Stop \<notin> set before" and "Take \<notin> set after"
  shows "workQueueKey \<in> tq_dirty (typed_of s) \<and>
    (ol_phase s = Fetching \<longrightarrow> (\<exists>s'. loop_step c s Take s' \<and> ol_phase s' = Syncing workQueueKey))"
  using event_pending [OF assms] pending_taken [OF loop_run_ok [OF assms(1) started_ok]] by blast

theorem no_event_lost_witness:
  "workQueueKey \<in> tq_dirty (typed_of event_state)"
  using no_event_lost [of sample_operator 0 empty_start "[]" AddFunc "[]" event_state] event_run by simp

text \<open>C16: a failed sync is tried again. Whatever happens meanwhile, as soon as the clock has passed the
  delay of the limiter (the longer of the bucket's and \<open>min (5 ms * 2 ^ n, 1000 s)\<close> after \<open>n\<close> earlier
  failures) and the waiting loop has run, the key is pending again, unless the worker has taken it
  before or the operator was stopped.\<close>

theorem failed_sync_retried:
  assumes "loop_run c (started now e) before s1" and "ol_phase s1 = Settling k (Some err)"
    and "\<not> is_panic err" and "settle_item bucket k (Some err) s1 = Some s2"
    and "loop_run c s2 after s3" and "Stop \<notin> set before" and "Stop \<notin> set after" and "Take \<notin> set after"
    and "dq_now (delaying_of s1) + max bucket (backoff_delay (NumRequeues k (ol_queue s1))) \<le> dq_now (delaying_of s3)"
  shows "workQueueKey \<in> tq_dirty (dq_typed (waitingLoop_pass (delaying_of s3)))"
proof -
  let ?d = "max bucket (backoff_delay (NumRequeues k (ol_queue s1)))"
  note ok1 = loop_run_ok [OF assms(1) started_ok]
  have st: "loop_step c s1 (Settle (Some err)) s2" using assms(2,4) by (rule loop_step.settle)
  note ok2 = loop_step_ok [OF st ok1]
  note ok3 = loop_run_ok [OF assms(5) ok2]
  have op1: "open_loop s1" using loop_run_closed [OF assms(1) started_ok] started_open assms(6) by blast
  have op3: "open_loop s3"
    using loop_run_closed [OF assms(5) ok2] loop_step_closed [OF st ok1] op1 assms(7) by simp
  have k: "k = workQueueKey" using loop_okD(6) [OF ok1] assms(2) by simp
  have nn: "max ?d 0 = ?d" using backoff_nonneg [of "NumRequeues k (ol_queue s1)"] by linarith
  from assms(4) have "due k (dq_now (delaying_of s1) + ?d) (delaying_of s2)"
  proof (cases rule: settle_item_cases)
    case (failure e' q)
    from AddAfter_due [OF op1 [unfolded open_loop_def] AddRateLimited_Some(1) [OF failure(3) loop_okD(3) [OF ok1]]]
      failure(4) nn show ?thesis by simp
  qed (use assms(3) in simp_all)
  from loop_run_due [OF assms(5) ok2 assms(8) this] k assms(9) op3 show ?thesis
    by (intro waitingLoop_fires [OF loop_okD(1) [OF ok3]]) (simp_all add: open_loop_def)
qed

theorem failed_sync_retried_witness:
  "workQueueKey \<in> tq_dirty (dq_typed (waitingLoop_pass
     ((delaying_of retry_state)\<lparr>dq_now := dq_now (delaying_of retry_state) + 5000000\<rparr>)))"
proof -
  let ?tick = "on_delaying (\<lambda>q. q\<lparr>dq_now := dq_now q + 5000000\<rparr>)"
  have "loop_step sample_operator retry_state Tick (?tick retry_state)"
    by (rule loop_step.tick) simp
  then have tick: "loop_run sample_operator retry_state [Tick] (?tick retry_state)" by simp
  have now: "dq_now (delaying_of retry_state) = 0" by (simp add: retry_state_def failed_fields)
  have "workQueueKey \<in> tq_dirty (dq_typed (waitingLoop_pass (delaying_of (?tick retry_state))))"
    by (rule failed_sync_retried [OF failing_run failed_phase missing_no_panic retry_settle tick])
      (simp_all add: failed_fields now backoff_delay_def)
  then show ?thesis by simp
qed

text \<open>C19: the count behind the delays. In every run \<open>NumRequeues\<close> is the number of syncs that failed
  since the last one without error (a panic is not counted).\<close>

theorem requeues_count_failures:
  assumes "loop_run c (started now e) ls s"
  shows "NumRequeues workQueueKey (ol_queue s) = count_failures 0 ls"
  using loop_run_failures [OF assms started_ok]
  by (simp add: started_def NewRateLimitingQueue_def DefaultControllerRateLimiter_def NumRequeues_def failures_of_def)

theorem requeues_count_failures_witness: "NumRequeues workQueueKey (ol_queue retry_state) = 1"
  using requeues_count_failures [OF retry_run] by (simp add: missing_no_panic)

text \<open>C18: the worker ends. After the queue is shut down the worker makes at most eight more steps, so at
  most one further sync begins, whatever events still arrive; and as long as it has not ended it
  can make one.\<close>

theorem shutdown_ends_worker:
  assumes "loop_run c (started now e) (before @ Stop # after) s"
  shows "length (filter worker_label after) \<le> 8 \<and> length (filter (\<lambda>l. l = Take) after) \<le> 1 \<and>
    (ol_phase s = Exited \<or> ol_phase s = Crashed \<or> (\<exists>l s'. worker_label l \<and> loop_step c s l s'))"
proof -
  from assms obtain s1 s2 where run: "loop_run c (started now e) before s1"
    "loop_step c s1 Stop s2" "loop_run c s2 after s"
    by (auto simp: loop_run_append)
  note ok1 = loop_run_ok [OF run(1) started_ok]
  note ok2 = loop_step_ok [OF run(2) ok1]
  have closed: "\<not> open_loop s2" using loop_step_closed [OF run(2) ok1] by simp
  have "card (tq_dirty (typed_of s2)) \<le> 1"
    using card_mono [OF _ loop_okD(7) [OF ok2]] by simp
  moreover have "phase_rank (ol_phase s2) \<le> 4" by (cases "ol_phase s2") simp_all
  moreover note closed_run_left [OF run(3) ok2 closed]
  moreover have "\<not> open_loop s" using loop_run_closed [OF run(3) ok2] closed by blast
  note closed_worker_goes_on [OF this]
  ultimately show ?thesis by (auto simp: work_left_def)
qed

theorem shutdown_ends_worker_witness:
  "\<exists>l s'. worker_label l \<and> loop_step sample_operator (on_delaying delayingShutDown event_state) l s'"
proof -
  have "loop_step sample_operator event_state Stop (on_delaying delayingShutDown event_state)"
    by (rule loop_step.stop) (simp add: event_fetching)
  then have "loop_run sample_operator (started 0 empty_start) ([Notify AddFunc] @ Stop # [])
      (on_delaying delayingShutDown event_state)"
    using event_run [of sample_operator] by (auto simp: loop_run_append)
  from shutdown_ends_worker [OF this] show ?thesis by (simp add: event_fetching)
qed

text \<open>C17: in every state that the operator can reach, the key is queued at most once, never while a sync
  runs, and exactly when it is pending and no sync runs; no sync begins before the last one finished.\<close>

theorem one_sync_at_a_time:
  assumes "loop_run c (started now e) ls s"
  shows "alternating False ls \<and>
    tq_queue (typed_of s) = (if workQueueKey \<in> tq_dirty (typed_of s) \<and> \<not> running s then [workQueueKey] else [])"
proof
  show "alternating False ls" using alternating_run [OF assms] by (simp add: running_def started_def)
  note ok = loop_okD [OF loop_run_ok [OF assms started_ok]]
  let ?q = "tq_queue (typed_of s)"
  have set: "set ?q = tq_dirty (typed_of s) - working_on (ol_phase s)" and "distinct ?q"
    using ok(2,4) by (simp_all add: queue_ok_def)
  show "?q = (if workQueueKey \<in> tq_dirty (typed_of s) \<and> \<not> running s then [workQueueKey] else [])"
  proof (cases "workQueueKey \<in> tq_dirty (typed_of s) \<and> \<not> running s")
    case True
    with set ok(7) have "set ?q = {workQueueKey}" by (auto simp: running_def)
    with distinct_singleton_set [OF \<open>distinct ?q\<close>] True show ?thesis by simp
  next
    case False
    with set ok(6,7) have "set ?q = {}" by (auto simp: running_def)
    with False show ?thesis by auto
  qed
qed

theorem one_sync_at_a_time_witness:
  "tq_queue (typed_of failed_state) = [] \<and> running failed_state"
proof -
  have "running failed_state" by (simp add: running_def failed_state_def)
  with one_sync_at_a_time [OF failing_run] show ?thesis by simp
qed

section \<open>Events\<close>

lemma process_success:
  assumes "loop_ok s" and "ol_phase s = Fetching" and "workQueueKey \<in> tq_dirty (typed_of s)"
    and "sync c (ol_env s) = (None, e)"
  obtains s' where "processNextWorkItem c bucket s = Some (True, s')" "ol_env s' = e" "ol_phase s' = Fetching"
    "tq_dirty (typed_of s') = {}" "NumRequeues workQueueKey (ol_queue s') = 0"
proof -
  from fetch_pending [OF assms(1-3)] obtain q where
    q: "tq_dirty q = {}" "take_item s = Some ((on_typed (\<lambda>_. q) s)\<lparr>ol_phase := Syncing workQueueKey\<rparr>)" by blast
  let ?s1 = "(on_typed (\<lambda>_. q) s)\<lparr>ol_phase := Syncing workQueueKey\<rparr>"
  let ?s2 = "?s1\<lparr>ol_env := e, ol_phase := Settling workQueueKey None\<rparr>"
  let ?s3 = "?s2\<lparr>ol_queue := Forget workQueueKey (ol_queue ?s2), ol_phase := Finishing workQueueKey False\<rparr>"
  have s2: "sync_item c workQueueKey ?s1 = ?s2" by (simp add: sync_item_def assms(4))
  have s3: "settle_item bucket workQueueKey None ?s2 = Some ?s3" by (simp add: settle_item_def)
  have d: "tq_dirty (typed_of ?s3) = {}" using q(1) by (simp add: Forget_def)
  have n: "NumRequeues workQueueKey (ol_queue ?s3) = 0" by simp
  show ?thesis
  proof (rule that)
    show "processNextWorkItem c bucket s = Some (True, finish_item workQueueKey False ?s3)"
      using q(2) s2 s3 by (simp add: processNextWorkItem_def)
  qed (use d n in \<open>simp_all add: finish_item_def\<close>)
qed

lemma success_settles:
  assumes "tracker_ok (env_world e)" and "configured (env_world e) cm" and "proper_owner cm"
    and "sync (on_tracker c strategicMerge patchMerge) e = (None, e')"
  shows "settled (on_tracker c strategicMerge patchMerge) e'"
  using reconcile_converges [OF assms(1-3)] assms(4) by (simp add: sync_None settled_def)



text \<open>C14: the operator comes to rest. Once a sync has succeeded and as long as no other client writes,
  no event, retry, tick or shutdown makes the operator change an object or report an event, and no
  later sync fails; its own writes cannot start a cycle.\<close>

theorem operator_rests:
  assumes "tracker_ok (env_world (ol_env s))" and "configured (env_world (ol_env s)) cm" and "proper_owner cm"
    and "ol_phase s = Syncing k"
    and "fst (sync (on_tracker c strategicMerge patchMerge) (ol_env s)) = None"
    and "loop_run (on_tracker c strategicMerge patchMerge)
      (sync_item (on_tracker c strategicMerge patchMerge) k s) ls s'"
    and "Outside \<notin> set ls"
  shows "ol_env s' = snd (sync (on_tracker c strategicMerge patchMerge) (ol_env s)) \<and>
    (\<forall>err. Settle err \<in> set ls \<longrightarrow> err = None)"
proof -
  let ?c = "on_tracker c strategicMerge patchMerge"
  obtain e' where e': "sync ?c (ol_env s) = (None, e')"
    using assms(5) by (metis prod.collapse)
  have "settled ?c (ol_env (sync_item ?c k s))" "phase_settled (ol_phase (sync_item ?c k s))"
    using success_settles [OF assms(1-3) e'] by (simp_all add: sync_item_def e' phase_settled_def)
  from settled_run [OF assms(6) this assms(7)] show ?thesis by (simp add: sync_item_def e')
qed

theorem operator_rests_witness:
  "\<exists>e'. sync sample_operator sample_start = (None, e') \<and>
     (\<forall>s'. loop_step sample_operator (sync_item sample_operator workQueueKey
        ((started 0 sample_start)\<lparr>ol_phase := Syncing workQueueKey\<rparr>)) (Notify UpdateFunc) s' \<longrightarrow> ol_env s' = e')"
proof -
  let ?s = "(started 0 sample_start)\<lparr>ol_phase := Syncing workQueueKey\<rparr>"
  obtain e' where e': "sync sample_operator sample_start = (None, e')" using sample_run by blast
  have env: "ol_env ?s = sample_start" by (simp add: started_def)
  note rests = operator_rests [of ?s sample_config workQueueKey sample_reconciler "\<lambda>cm _. Inr cm" "\<lambda>_ _ cm. Inr cm",
      unfolded env, OF sample_tracker_ok sample_configured sample_owner]
  have "loop_step sample_operator (sync_item sample_operator workQueueKey ?s) (Notify UpdateFunc) s' \<Longrightarrow> ol_env s' = e'" for s'
    using rests [of "[Notify UpdateFunc]" s'] e' by simp
  with e' show ?thesis by blast
qed

end
