(* ===== verification/Store_Index.thy ===== *)
theory Store_Index
  imports Object_Meta
begin

text \<open>
  The store behind an informer (\<^verbatim>\<open>client-go/tools/cache/thread_safe_store.go\<close>): objects by
  key, and for each indexer the set of keys per indexed value, kept up to date by every write.
  An index function lists the indexed values of an object; those of the operator's informers do
  not fail. Loops over maps run in key order, and the results are stated as sets.
\<close>

section \<open>State\<close>

type_synonym index = "(string, string fset) fmap"

record 'o store =
  st_items :: "(string, 'o) fmap"
  st_indexers :: "(string, 'o \<Rightarrow> string list) fmap"
  st_indices :: "(string, index) fmap"

definition NewIndexer :: "(string, 'o \<Rightarrow> string list) fmap \<Rightarrow> 'o store" where
  "NewIndexer indexers = \<lparr>st_items = fmempty, st_indexers = indexers, st_indices = fmempty\<rparr>"

definition NamespaceIndex :: string where "NamespaceIndex = ''namespace''"

definition index_at :: "index \<Rightarrow> string \<Rightarrow> string fset" where
  "index_at idx v = (case fmlookup idx v of Some ks \<Rightarrow> ks | None \<Rightarrow> {||})"

definition index_named :: "'o store \<Rightarrow> string \<Rightarrow> index" where
  "index_named c name = (case fmlookup (st_indices c) name of Some idx \<Rightarrow> idx | None \<Rightarrow> fmempty)"

section \<open>Writes\<close>

definition addKeyToIndex :: "string \<Rightarrow> string \<Rightarrow> index \<Rightarrow> index" where
  "addKeyToIndex key indexValue idx = fmupd indexValue (finsert key (index_at idx indexValue)) idx"

definition deleteKeyFromIndex :: "string \<Rightarrow> string \<Rightarrow> index \<Rightarrow> index" where
  "deleteKeyFromIndex key indexValue idx =
     (case fmlookup idx indexValue of
        None \<Rightarrow> idx
      | Some ks \<Rightarrow> let ks' = ks |-| {|key|} in
          if ks' = {||} then fmdrop indexValue idx else fmupd indexValue ks' idx)"

definition updateSingleIndex ::
  "string \<Rightarrow> ('o \<Rightarrow> string list) \<Rightarrow> 'o option \<Rightarrow> 'o option \<Rightarrow> string \<Rightarrow> 'o store \<Rightarrow> 'o store" where
  "updateSingleIndex name indexFunc oldObj newObj key c =
     (let oldIndexValues = (case oldObj of Some ob \<Rightarrow> indexFunc ob | None \<Rightarrow> []);
          indexValues = (case newObj of Some ob \<Rightarrow> indexFunc ob | None \<Rightarrow> []);
          idx = index_named c name;
          c1 = c\<lparr>st_indices := fmupd name idx (st_indices c)\<rparr> in
      if length indexValues = 1 \<and> length oldIndexValues = 1 \<and> indexValues ! 0 = oldIndexValues ! 0 then c1
      else c1\<lparr>st_indices := fmupd name
        (fold (addKeyToIndex key) indexValues (fold (deleteKeyFromIndex key) oldIndexValues idx))
        (st_indices c1)\<rparr>)"

definition updateIndices :: "'o option \<Rightarrow> 'o option \<Rightarrow> string \<Rightarrow> 'o store \<Rightarrow> 'o store" where
  "updateIndices oldObj newObj key c =
     fold (\<lambda>(name, indexFunc). updateSingleIndex name indexFunc oldObj newObj key)
       (range_entries (st_indexers c)) c"

definition storeUpdate :: "string \<Rightarrow> 'o \<Rightarrow> 'o store \<Rightarrow> 'o store" where
  "storeUpdate key ob c =
     (let oldObject = fmlookup (st_items c) key in
      updateIndices oldObject (Some ob) key (c\<lparr>st_items := fmupd key ob (st_items c)\<rparr>))"

definition storeDelete :: "string \<Rightarrow> 'o store \<Rightarrow> 'o store" where
  "storeDelete key c =
     (case fmlookup (st_items c) key of
        None \<Rightarrow> c
      | Some ob \<Rightarrow> (let c1 = updateIndices (Some ob) None key c in
          c1\<lparr>st_items := fmdrop key (st_items c1)\<rparr>))"

definition storeReplace :: "(string, 'o) fmap \<Rightarrow> 'o store \<Rightarrow> 'o store" where
  "storeReplace items c =
     fold (\<lambda>(key, item). updateIndices None (Some item) key) (range_entries items)
       (c\<lparr>st_items := items, st_indices := fmempty\<rparr>)"

section \<open>Reads\<close>

definition storeGet :: "string \<Rightarrow> 'o store \<Rightarrow> 'o option" where
  "storeGet key c = fmlookup (st_items c) key"

definition storeList :: "'o store \<Rightarrow> 'o list" where
  "storeList c = map snd (range_entries (st_items c))"

definition no_index :: "string \<Rightarrow> go_error" where
  "no_index indexName = ErrorString (''Index with name '' @ indexName @ '' does not exist'')"

definition getKeysFromIndex :: "string \<Rightarrow> 'o \<Rightarrow> 'o store \<Rightarrow> go_error + string fset" where
  "getKeysFromIndex indexName ob c =
     (case fmlookup (st_indexers c) indexName of
        None \<Rightarrow> Inl (no_index indexName)
      | Some indexFunc \<Rightarrow>
          (let indexedValues = indexFunc ob; idx = index_named c indexName in
           Inr (if length indexedValues = 1 then index_at idx (indexedValues ! 0)
                else fold (\<lambda>v ks. ks |\<union>| index_at idx v) indexedValues {||})))"

text \<open>A key of an index that is no key of the store would yield nil.\<close>

definition storeIndex :: "string \<Rightarrow> 'o \<Rightarrow> 'o store \<Rightarrow> go_error + 'o option list" where
  "storeIndex indexName ob c =
     (case getKeysFromIndex indexName ob c of
        Inl err \<Rightarrow> Inl err
      | Inr ks \<Rightarrow> Inr (map (fmlookup (st_items c)) (sorted_list_of_fset ks)))"

section \<open>The index is right\<close>

text \<open>
  In an index for \<open>f\<close> the set of a value is the set of keys whose object has it, and no value
  has an empty set.
\<close>

definition index_right :: "('o \<Rightarrow> string list) \<Rightarrow> (string, 'o) fmap \<Rightarrow> index \<Rightarrow> bool" where
  "index_right f items idx \<longleftrightarrow>
     (\<forall>v k. k |\<in>| index_at idx v \<longleftrightarrow> (\<exists>ob. fmlookup items k = Some ob \<and> v \<in> set (f ob))) \<and>
     {||} \<notin> fmran' idx"

definition store_ok :: "'o store \<Rightarrow> bool" where
  "store_ok c \<longleftrightarrow> (\<forall>name f. fmlookup (st_indexers c) name = Some f \<longrightarrow>
     index_right f (st_items c) (index_named c name))"

lemma index_at_add:
  "k |\<in>| index_at (addKeyToIndex key v idx) w \<longleftrightarrow> k |\<in>| index_at idx w \<or> k = key \<and> w = v"
  by (auto simp: index_at_def addKeyToIndex_def)

lemma index_at_delete:
  "k |\<in>| index_at (deleteKeyFromIndex key v idx) w \<longleftrightarrow> k |\<in>| index_at idx w \<and> (k \<noteq> key \<or> w \<noteq> v)"
  by (auto simp: index_at_def deleteKeyFromIndex_def Let_def split: option.splits if_splits)

lemma index_at_adds:
  "k |\<in>| index_at (fold (addKeyToIndex key) vs idx) w \<longleftrightarrow> k |\<in>| index_at idx w \<or> k = key \<and> w \<in> set vs"
  by (induction vs arbitrary: idx) (auto simp: index_at_add)

lemma index_at_deletes:
  "k |\<in>| index_at (fold (deleteKeyFromIndex key) vs idx) w \<longleftrightarrow> k |\<in>| index_at idx w \<and> (k \<noteq> key \<or> w \<notin> set vs)"
  by (induction vs arbitrary: idx) (auto simp: index_at_delete)

lemma no_empty_add: "{||} \<notin> fmran' idx \<Longrightarrow> {||} \<notin> fmran' (addKeyToIndex key v idx)"
  by (auto simp: addKeyToIndex_def fmran'_alt_def fmlookup_ran_iff fmran'I elim!: fmran'E split: if_splits)

lemma no_empty_delete: "{||} \<notin> fmran' idx \<Longrightarrow> {||} \<notin> fmran' (deleteKeyFromIndex key v idx)"
  by (auto simp: deleteKeyFromIndex_def Let_def elim!: fmran'E intro: fmran'I split: option.splits if_splits)

lemma no_empty_fold:
  "{||} \<notin> fmran' idx \<Longrightarrow>
     {||} \<notin> fmran' (fold (addKeyToIndex key) vs (fold (deleteKeyFromIndex key) us idx))"
proof -
  assume a: "{||} \<notin> fmran' idx"
  have "{||} \<notin> fmran' i \<Longrightarrow> {||} \<notin> fmran' (fold (deleteKeyFromIndex key) us i)" for i
    by (induction us arbitrary: i) (simp_all add: no_empty_delete)
  moreover have "{||} \<notin> fmran' i \<Longrightarrow> {||} \<notin> fmran' (fold (addKeyToIndex key) vs i)" for i
    by (induction vs arbitrary: i) (simp_all add: no_empty_add)
  ultimately show ?thesis using a by blast
qed

lemma updateSingleIndex_fields [simp]:
  "st_items (updateSingleIndex name f old new key c) = st_items c"
  "st_indexers (updateSingleIndex name f old new key c) = st_indexers c"
  by (simp_all add: updateSingleIndex_def Let_def)

lemma updateSingleIndex_other:
  "name' \<noteq> name \<Longrightarrow> index_named (updateSingleIndex name f old new key c) name' = index_named c name'"
  by (simp add: updateSingleIndex_def Let_def index_named_def)

text \<open>
  The one place an index changes: from the map of objects before the write, in which \<open>key\<close> has
  the object \<open>old\<close>, to the one after it, in which it has \<open>new\<close>.
\<close>

lemma updateSingleIndex_right:
  assumes "index_right f items (index_named c name)"
    and "fmlookup items key = old" and "fmlookup items' key = new"
    and "\<And>k. k \<noteq> key \<Longrightarrow> fmlookup items' k = fmlookup items k"
  shows "index_right f items' (index_named (updateSingleIndex name f old new key c) name)"
proof -
  let ?us = "case old of Some ob \<Rightarrow> f ob | None \<Rightarrow> []" and ?vs = "case new of Some ob \<Rightarrow> f ob | None \<Rightarrow> []"
  let ?idx = "index_named c name"
  have right: "k |\<in>| index_at ?idx v \<longleftrightarrow> (\<exists>ob. fmlookup items k = Some ob \<and> v \<in> set (f ob))"
    and empty: "{||} \<notin> fmran' ?idx" for k v
    using assms(1) by (simp_all add: index_right_def)
  have us: "(\<exists>ob. fmlookup items key = Some ob \<and> v \<in> set (f ob)) \<longleftrightarrow> v \<in> set ?us"
    and vs: "(\<exists>ob. fmlookup items' key = Some ob \<and> v \<in> set (f ob)) \<longleftrightarrow> v \<in> set ?vs" for v
    using assms(2,3) by (cases old; cases new; simp)+
  show ?thesis
  proof (cases "length ?vs = 1 \<and> length ?us = 1 \<and> ?vs ! 0 = ?us ! 0")
    case True
    then have "?us = ?vs" by (metis length_0_conv length_Suc_conv nth_Cons_0 One_nat_def)
    have "(\<exists>ob. fmlookup items' k = Some ob \<and> v \<in> set (f ob)) \<longleftrightarrow>
        (\<exists>ob. fmlookup items k = Some ob \<and> v \<in> set (f ob))" for k v
      using us vs assms(4) \<open>?us = ?vs\<close> by (cases "k = key") simp_all
    moreover have "index_named (updateSingleIndex name f old new key c) name = ?idx"
      using True by (simp add: updateSingleIndex_def Let_def index_named_def)
    ultimately show ?thesis using right empty by (simp add: index_right_def)
  next
    case False
    then have idx: "index_named (updateSingleIndex name f old new key c) name =
        fold (addKeyToIndex key) ?vs (fold (deleteKeyFromIndex key) ?us ?idx)"
      unfolding updateSingleIndex_def Let_def if_not_P [OF False] by (simp add: index_named_def)
    have "k |\<in>| index_at (fold (addKeyToIndex key) ?vs (fold (deleteKeyFromIndex key) ?us ?idx)) v \<longleftrightarrow>
        (\<exists>ob. fmlookup items' k = Some ob \<and> v \<in> set (f ob))" for k v
    proof (cases "k = key")
      case True
      then show ?thesis using us vs right by (simp add: index_at_adds index_at_deletes) blast
    next
      case False
      then show ?thesis using right assms(4) by (simp add: index_at_adds index_at_deletes)
    qed
    with idx no_empty_fold [OF empty] show ?thesis by (simp add: index_right_def)
  qed
qed

lemma updateIndices_fields [simp]:
  "st_items (updateIndices old new key c) = st_items c"
  "st_indexers (updateIndices old new key c) = st_indexers c"
proof -
  have "st_items (fold (\<lambda>(name, f). updateSingleIndex name f old new key) es c) = st_items c \<and>
      st_indexers (fold (\<lambda>(name, f). updateSingleIndex name f old new key) es c) = st_indexers c" for es
    by (induction es arbitrary: c) (auto split: prod.splits)
  then show "st_items (updateIndices old new key c) = st_items c"
    "st_indexers (updateIndices old new key c) = st_indexers c" by (simp_all add: updateIndices_def)
qed

text \<open>Each index is visited once.\<close>

lemma fold_updates_other:
  "name \<notin> fst ` set es \<Longrightarrow>
     index_named (fold (\<lambda>(name, f). updateSingleIndex name f old new key) es c) name = index_named c name"
  by (induction es arbitrary: c) (auto simp: updateSingleIndex_other)

lemma updateIndices_right:
  assumes "fmlookup (st_indexers c) name = Some f" and "index_right f items (index_named c name)"
    and "fmlookup items key = old" and "fmlookup items' key = new"
    and "\<And>k. k \<noteq> key \<Longrightarrow> fmlookup items' k = fmlookup items k"
  shows "index_right f items' (index_named (updateIndices old new key c) name)"
proof -
  have visited: "(name, f) \<in> set es \<Longrightarrow> distinct (map fst es) \<Longrightarrow>
      index_right f items (index_named d name) \<Longrightarrow>
      index_right f items' (index_named (fold (\<lambda>(name, f). updateSingleIndex name f old new key) es d) name)" for es d
  proof (induction es arbitrary: d)
    case (Cons e es)
    show ?case
    proof (cases "e = (name, f)")
      case True
      have "name \<notin> fst ` set es" using Cons.prems(2) True by simp
      then show ?thesis
        using True updateSingleIndex_right [OF Cons.prems(3) assms(3-5)] by (simp add: fold_updates_other)
    next
      case False
      then have "(name, f) \<in> set es" using Cons.prems(1) by auto
      moreover from this Cons.prems(2) have "fst e \<noteq> name" by (metis distinct.simps(2) fst_conv image_eqI list.simps(9) set_map)
      then have "index_named ((\<lambda>(name, f). updateSingleIndex name f old new key) e d) name = index_named d name"
        by (cases e) (simp add: updateSingleIndex_other)
      ultimately show ?thesis using Cons by simp
    qed
  qed simp
  have "(name, f) \<in> set (range_entries (st_indexers c))"
    using assms(1) by (metis map_of_SomeD map_of_range_entries)
  from visited [OF this distinct_range_entries assms(2)] show ?thesis by (simp add: updateIndices_def)
qed

section \<open>Every write keeps it right\<close>

lemma index_named_items [simp]: "index_named (c\<lparr>st_items := m\<rparr>) name = index_named c name"
  by (simp add: index_named_def)

lemma NewIndexer_ok: "store_ok (NewIndexer indexers)"
  by (simp add: store_ok_def NewIndexer_def index_right_def index_named_def index_at_def fmran'_alt_def)

lemma storeUpdate_ok:
  assumes "store_ok c"
  shows "store_ok (storeUpdate key ob c)"
proof -
  have "index_right f (fmupd key ob (st_items c))
      (index_named (updateIndices (fmlookup (st_items c) key) (Some ob) key (c\<lparr>st_items := fmupd key ob (st_items c)\<rparr>)) name)"
    if "fmlookup (st_indexers c) name = Some f" for name f
    by (rule updateIndices_right [where items = "st_items c"]) (use assms that in \<open>simp_all add: store_ok_def\<close>)
  then show ?thesis by (simp add: store_ok_def storeUpdate_def Let_def)
qed

lemma storeDelete_ok:
  assumes "store_ok c"
  shows "store_ok (storeDelete key c)"
proof (cases "fmlookup (st_items c) key")
  case None
  with assms show ?thesis by (simp add: storeDelete_def)
next
  case (Some ob)
  have "index_right f (fmdrop key (st_items c)) (index_named (updateIndices (Some ob) None key c) name)"
    if "fmlookup (st_indexers c) name = Some f" for name f
    by (rule updateIndices_right [where items = "st_items c"]) (use assms that Some in \<open>simp_all add: store_ok_def\<close>)
  with Some show ?thesis by (simp add: store_ok_def storeDelete_def Let_def)
qed

lemma storeUpdate_items: "st_items (storeUpdate key ob c) = fmupd key ob (st_items c)"
  and storeUpdate_indexers: "st_indexers (storeUpdate key ob c) = st_indexers c"
  by (simp_all add: storeUpdate_def Let_def)

lemma storeDelete_items: "st_items (storeDelete key c) = fmdrop key (st_items c)"
  and storeDelete_indexers: "st_indexers (storeDelete key c) = st_indexers c"
proof -
  have "fmlookup (st_items c) key = None \<Longrightarrow> fmdrop key (st_items c) = st_items c"
    by (rule fmap_ext) (auto simp: fmlookup_drop)
  then show "st_items (storeDelete key c) = fmdrop key (st_items c)"
    "st_indexers (storeDelete key c) = st_indexers c"
    by (auto simp: storeDelete_def Let_def split: option.splits)
qed

text \<open>Rebuilding the indices adds the objects one by one.\<close>

lemma replace_step:
  assumes "\<forall>name f. fmlookup (st_indexers c) name = Some f \<longrightarrow> index_right f items (index_named c name)"
    and "fmlookup items key = None"
    and "fmlookup (st_indexers c) name = Some f"
  shows "index_right f (fmupd key item items) (index_named (updateIndices None (Some item) key c) name)"
  by (rule updateIndices_right [where items = items]) (use assms in simp_all)

lemma replace_entries:
  "distinct (map fst es) \<Longrightarrow> fst ` set es \<inter> fmdom' items = {} \<Longrightarrow>
   \<forall>name f. fmlookup (st_indexers c) name = Some f \<longrightarrow> index_right f items (index_named c name) \<Longrightarrow>
   (let c' = fold (\<lambda>(key, item). updateIndices None (Some item) key) es c in
    st_items c' = st_items c \<and> st_indexers c' = st_indexers c \<and>
    (\<forall>name f. fmlookup (st_indexers c) name = Some f \<longrightarrow>
       index_right f (fold (\<lambda>(key, item). fmupd key item) es items) (index_named c' name)))"
proof (induction es arbitrary: c items)
  case (Cons e es)
  obtain key item where e: "e = (key, item)" by (cases e)
  let ?c = "updateIndices None (Some item) key c"
  have "fmlookup items key = None" using Cons.prems(2) e by (auto simp: fmlookup_dom'_iff)
  then have "\<forall>name f. fmlookup (st_indexers ?c) name = Some f \<longrightarrow>
      index_right f (fmupd key item items) (index_named ?c name)"
    using replace_step [OF Cons.prems(3)] by simp
  moreover have "fst ` set es \<inter> fmdom' (fmupd key item items) = {}" using Cons.prems(1,2) e by auto
  ultimately show ?case using Cons.IH [of "fmupd key item items" ?c] Cons.prems(1) e by (simp add: Let_def)
qed simp

lemma fold_fmupd_entries: "distinct (map fst es) \<Longrightarrow>
    fmlookup (fold (\<lambda>(key, item). fmupd key item) es items) = fmlookup items ++ map_of es"
proof (induction es arbitrary: items)
  case (Cons e es)
  obtain key item where e: "e = (key, item)" by (cases e)
  have "key \<notin> dom (map_of es)" using Cons.prems e by (simp add: dom_map_of_conv_image_fst)
  then show ?case using Cons e by (auto simp: fun_eq_iff map_add_def split: option.splits)
qed simp

lemma storeReplace_ok:
  shows "store_ok (storeReplace items c)" and "st_items (storeReplace items c) = items"
    and "st_indexers (storeReplace items c) = st_indexers c"
proof -
  let ?c = "c\<lparr>st_items := items, st_indices := fmempty\<rparr>"
  have start: "\<forall>name f. fmlookup (st_indexers ?c) name = Some f \<longrightarrow> index_right f fmempty (index_named ?c name)"
    by (simp add: index_right_def index_named_def index_at_def fmran'_alt_def)
  have all: "fold (\<lambda>(key, item). fmupd key item) (range_entries items) fmempty = items"
    by (rule fmap_ext) (simp add: fold_fmupd_entries map_add_def split: option.split)
  have "fst ` set (range_entries items) \<inter> fmdom' (fmempty :: (string, 'a) fmap) = {}" by simp
  from replace_entries [OF distinct_range_entries this start]
  show "store_ok (storeReplace items c)" "st_items (storeReplace items c) = items"
    "st_indexers (storeReplace items c) = st_indexers c"
    by (simp_all add: store_ok_def storeReplace_def Let_def all)
qed

section \<open>Looking up\<close>

definition matches_value :: "('o \<Rightarrow> string list) \<Rightarrow> 'o \<Rightarrow> 'o \<Rightarrow> bool" where
  "matches_value f ob ob' \<longleftrightarrow> (\<exists>v\<in>set (f ob). v \<in> set (f ob'))"

text \<open>What a search through all objects finds, in key order.\<close>

definition search_entries :: "('o \<Rightarrow> bool) \<Rightarrow> 'o store \<Rightarrow> (string \<times> 'o) list" where
  "search_entries P c = filter (P \<circ> snd) (range_entries (st_items c))"

lemma in_fold_union: "k |\<in>| fold (\<lambda>v ks. ks |\<union>| g v) vs ks \<longleftrightarrow> k |\<in>| ks \<or> (\<exists>v\<in>set vs. k |\<in>| g v)"
  by (induction vs arbitrary: ks) auto

lemma getKeysFromIndex_right:
  assumes "store_ok c" and "fmlookup (st_indexers c) name = Some f"
  shows "\<exists>ks. getKeysFromIndex name ob c = Inr ks \<and>
    (\<forall>k. k |\<in>| ks \<longleftrightarrow> (\<exists>ob'. fmlookup (st_items c) k = Some ob' \<and> matches_value f ob ob'))"
proof -
  have right: "k |\<in>| index_at (index_named c name) v \<longleftrightarrow> (\<exists>ob. fmlookup (st_items c) k = Some ob \<and> v \<in> set (f ob))" for k v
    using assms by (simp add: store_ok_def index_right_def)
  show ?thesis
  proof (cases "length (f ob) = 1")
    case True
    then obtain v where "f ob = [v]" by (metis One_nat_def length_0_conv length_Suc_conv)
    then show ?thesis using assms(2) right by (simp add: getKeysFromIndex_def Let_def matches_value_def)
  next
    case False
    then show ?thesis using assms(2) right
      by (simp add: getKeysFromIndex_def Let_def matches_value_def in_fold_union) blast
  qed
qed

lemma range_entries_map:
  "range_entries m = map (\<lambda>k. (k, the (fmlookup m k))) (sorted_list_of_fset (fmdom m))"
  by (simp add: range_entries_def sorted_list_of_fmap_def)

lemma filter_entries_keys:
  assumes "\<And>k. k |\<in>| ks \<longleftrightarrow> (\<exists>v. fmlookup m k = Some v \<and> P v)"
  shows "map fst (filter (P \<circ> snd) (range_entries m)) = sorted_list_of_fset ks"
proof (rule sorted_distinct_set_unique)
  have eq: "map fst (filter (P \<circ> snd) (range_entries m)) =
      filter (\<lambda>k. P (the (fmlookup m k))) (sorted_list_of_fset (fmdom m))"
    by (simp add: range_entries_map filter_map comp_def)
  show "sorted (map fst (filter (P \<circ> snd) (range_entries m)))"
    "distinct (map fst (filter (P \<circ> snd) (range_entries m)))"
    unfolding eq by (simp_all add: sorted_list_of_fset.rep_eq sorted_filter [of "\<lambda>x. x", simplified])
  show "set (map fst (filter (P \<circ> snd) (range_entries m))) = set (sorted_list_of_fset ks)"
    unfolding eq using assms by (auto simp: sorted_list_of_fset.rep_eq fmlookup_dom_iff)
qed (simp_all add: sorted_list_of_fset.rep_eq)

lemma storeIndex_search:
  assumes "store_ok c" and "fmlookup (st_indexers c) name = Some f"
  shows "storeIndex name ob c = Inr (map (Some \<circ> snd) (search_entries (matches_value f ob) c))"
proof -
  from getKeysFromIndex_right [OF assms] obtain ks where ks: "getKeysFromIndex name ob c = Inr ks"
    "\<And>k. k |\<in>| ks \<longleftrightarrow> (\<exists>ob'. fmlookup (st_items c) k = Some ob' \<and> matches_value f ob ob')" by blast
  have "map (fmlookup (st_items c)) (sorted_list_of_fset ks) =
      map (fmlookup (st_items c) \<circ> fst) (search_entries (matches_value f ob) c)"
    using filter_entries_keys [OF ks(2)] by (metis list.map_comp search_entries_def)
  also have "\<dots> = map (Some \<circ> snd) (search_entries (matches_value f ob) c)"
    by (auto simp: search_entries_def range_entries_map fmlookup_dom_iff sorted_list_of_fset.rep_eq)
  finally show ?thesis by (simp add: storeIndex_def ks(1))
qed

datatype 'o store_op = Put string 'o | Remove string | Refill "(string, 'o) fmap"

fun run_store :: "'o store_op list \<Rightarrow> 'o store \<Rightarrow> 'o store" where
  "run_store [] c = c"
| "run_store (Put k ob # ops) c = run_store ops (storeUpdate k ob c)"
| "run_store (Remove k # ops) c = run_store ops (storeDelete k c)"
| "run_store (Refill items # ops) c = run_store ops (storeReplace items c)"

text \<open>The same writes on a plain map.\<close>

fun run_map :: "'o store_op list \<Rightarrow> (string, 'o) fmap \<Rightarrow> (string, 'o) fmap" where
  "run_map [] m = m"
| "run_map (Put k ob # ops) m = run_map ops (fmupd k ob m)"
| "run_map (Remove k # ops) m = run_map ops (fmdrop k m)"
| "run_map (Refill items # ops) m = run_map ops items"

lemma run_store_ok:
  "store_ok c \<Longrightarrow> store_ok (run_store ops c) \<and> st_indexers (run_store ops c) = st_indexers c \<and>
     st_items (run_store ops c) = run_map ops (st_items c)"
  by (induction ops c rule: run_store.induct)
    (simp_all add: storeUpdate_ok storeDelete_ok storeReplace_ok storeUpdate_items storeUpdate_indexers
      storeDelete_items storeDelete_indexers)

text \<open>C25: the store with its indices is a plain map with a search through all objects. After any sequence
  of writes on a new store, a lookup by key finds what the map has, and a lookup in an index returns
  exactly the objects that share an indexed value with the given one; a name without an index is an error.\<close>

theorem index_equals_search:
  "let c = run_store ops (NewIndexer indexers); m = run_map ops fmempty in
   storeGet key c = fmlookup m key \<and>
   storeIndex name ob c =
     (case fmlookup indexers name of
        None \<Rightarrow> Inl (no_index name)
      | Some f \<Rightarrow> Inr (map (Some \<circ> snd) (filter (matches_value f ob \<circ> snd) (range_entries m))))"
proof -
  let ?c = "run_store ops (NewIndexer indexers)" and ?m = "run_map ops fmempty"
  have ok: "store_ok ?c" "st_indexers ?c = indexers" "st_items ?c = ?m"
    using run_store_ok [OF NewIndexer_ok, of ops indexers] by (simp_all add: NewIndexer_def)
  have get: "storeGet key ?c = fmlookup ?m key" by (simp add: storeGet_def ok)
  show ?thesis
  proof (cases "fmlookup indexers name")
    case None
    then show ?thesis by (simp add: get storeIndex_def getKeysFromIndex_def ok Let_def)
  next
    case (Some f)
    with storeIndex_search [OF ok(1), of name f ob] ok show ?thesis
      by (simp add: get search_entries_def Let_def)
  qed
qed

end
