(* ===== verification/Informer_Factory.thy ===== *)
theory Informer_Factory
  imports Store_Index Object_Tracker
begin

text \<open>
  The generated informers (\<^verbatim>\<open>pkg/generated/informers/externalversions\<close>): the informer for
  climanagers, built from a client, and the factory that shares one informer per type, starts
  them and waits for them. Of client-go's \<^verbatim>\<open>sharedIndexInformer\<close> the model keeps the
  fields its constructor sets, the store, the registered handlers and the flags started,
  stopped and synced. The factory's lock makes each operation one step. The typed wrappers of an
  informer are views of it and left out, and so are contexts, of which only the cause of
  cancellation matters.
\<close>

section \<open>Clients and informers\<close>

record list_options =
  lo_labelSelector :: string
  lo_fieldSelector :: string
  lo_resourceVersion :: string

type_synonym tweak_list_options = "(list_options \<Rightarrow> list_options) option"

text \<open>\<^verbatim>\<open>CliManagerList\<close>, of whose metadata only the resource version is kept.\<close>

record cli_manager_list =
  cml_resourceVersion :: string
  cml_items :: "cli_manager list"

text \<open>\<^verbatim>\<open>versioned.Interface\<close>, as far as an informer uses it: list and watch in a namespace.
  A watch is a handle.\<close>

record 'w versioned =
  ver_list :: "string \<Rightarrow> list_options \<Rightarrow> 'w \<Rightarrow> (go_error + cli_manager_list) \<times> 'w"
  ver_watch :: "string \<Rightarrow> list_options \<Rightarrow> 'w \<Rightarrow> (go_error + nat) \<times> 'w"
  ver_watchListUnsupported :: bool

text \<open>\<^verbatim>\<open>cache.InformerName\<close>: the resources registered under a name.\<close>

record informer_name =
  inn_name :: string
  inn_reserved :: bool
  inn_gvrs :: "gvr list"

record informer_id =
  iid_name :: string
  iid_gvr :: gvr
  iid_reserved :: bool

definition WithResource :: "gvr \<Rightarrow> informer_name option \<Rightarrow> informer_id \<times> informer_name option" where
  "WithResource g n =
     (case n of
        None \<Rightarrow> (\<lparr>iid_name = [], iid_gvr = g, iid_reserved = False\<rparr>, None)
      | Some nm \<Rightarrow>
          if inn_reserved nm \<and> g \<notin> set (inn_gvrs nm)
          then (\<lparr>iid_name = inn_name nm, iid_gvr = g, iid_reserved = True\<rparr>, Some (nm\<lparr>inn_gvrs := g # inn_gvrs nm\<rparr>))
          else (\<lparr>iid_name = inn_name nm, iid_gvr = g, iid_reserved = False\<rparr>, Some nm))"

definition ReleaseName :: "informer_name option \<Rightarrow> informer_name option" where
  "ReleaseName n = map_option (\<lambda>nm. nm\<lparr>inn_gvrs := [], inn_reserved := False\<rparr>) n"

record 'w list_watch =
  lw_list :: "list_options \<Rightarrow> 'w \<Rightarrow> (go_error + cli_manager_list) \<times> 'w"
  lw_watch :: "list_options \<Rightarrow> 'w \<Rightarrow> (go_error + nat) \<times> 'w"
  lw_watchListUnsupported :: bool

record 'w informer =
  in_listerWatcher :: "'w list_watch"
  in_objectType :: string
  in_resyncCheckPeriod :: int
  in_identifier :: informer_id
  in_transform :: "(cli_manager \<Rightarrow> go_error + cli_manager) option"
  in_indexer :: "cli_manager store"
  in_handlers :: "nat list"
  in_started :: bool
  in_stopped :: bool
  in_synced :: bool

definition SetTransform ::
  "(cli_manager \<Rightarrow> go_error + cli_manager) option \<Rightarrow> 'w informer \<Rightarrow> go_error option \<times> 'w informer" where
  "SetTransform handler i =
     (if in_started i then (Some (ErrorString ''informer has already started''), i)
      else (None, i\<lparr>in_transform := handler\<rparr>))"

definition AddEventHandler :: "nat \<Rightarrow> 'w informer \<Rightarrow> go_error option \<times> 'w informer" where
  "AddEventHandler handler i =
     (if in_stopped i
      then (Some (ErrorString ''handler was not added to shared informer because it has stopped already''), i)
      else (None, i\<lparr>in_handlers := in_handlers i @ [handler]\<rparr>))"

text \<open>The start of \<open>RunWithContext\<close>; a second call only warns.\<close>

definition RunInformer :: "'w informer \<Rightarrow> bool \<times> 'w informer" where
  "RunInformer i = (if in_started i then (False, i) else (True, i\<lparr>in_started := True\<rparr>))"

section \<open>The informer for climanagers\<close>

record informer_options =
  io_ResyncPeriod :: int
  io_Indexers :: "(string, cli_manager \<Rightarrow> string list) fmap"
  io_InformerName :: "informer_name option"
  io_TweakListOptions :: tweak_list_options

definition SchemeGroupVersion :: "string \<times> string" where
  "SchemeGroupVersion = (''operator.openshift.io'', ''v1'')"

definition tweaked :: "tweak_list_options \<Rightarrow> list_options \<Rightarrow> list_options" where
  "tweaked tweakListOptions opts = (case tweakListOptions of Some t \<Rightarrow> t opts | None \<Rightarrow> opts)"

definition CliManagerType :: string where "CliManagerType = ''*v1.CliManager''"

text \<open>The registration under the informer name is a side effect on the name.\<close>

definition NewTypedCliManagerInformerWithOptions ::
  "'w versioned \<Rightarrow> string \<Rightarrow> informer_options \<Rightarrow> 'w informer \<times> informer_name option" where
  "NewTypedCliManagerInformerWithOptions client namespace options =
     (let (identifier, n) = WithResource cliManager_gvr (io_InformerName options);
          tweakListOptions = io_TweakListOptions options in
      (\<lparr>in_listerWatcher =
          \<lparr>lw_list = (\<lambda>opts. ver_list client namespace (tweaked tweakListOptions opts)),
           lw_watch = (\<lambda>opts. ver_watch client namespace (tweaked tweakListOptions opts)),
           lw_watchListUnsupported = ver_watchListUnsupported client\<rparr>,
        in_objectType = CliManagerType,
        in_resyncCheckPeriod = io_ResyncPeriod options,
        in_identifier = identifier,
        in_transform = None,
        in_indexer = NewIndexer (io_Indexers options),
        in_handlers = [], in_started = False, in_stopped = False, in_synced = False\<rparr>, n))"

definition NewCliManagerInformerWithOptions ::
  "'w versioned \<Rightarrow> string \<Rightarrow> informer_options \<Rightarrow> 'w informer \<times> informer_name option" where
  "NewCliManagerInformerWithOptions = NewTypedCliManagerInformerWithOptions"

definition NewFilteredCliManagerInformer ::
  "'w versioned \<Rightarrow> string \<Rightarrow> int \<Rightarrow> (string, cli_manager \<Rightarrow> string list) fmap \<Rightarrow> tweak_list_options \<Rightarrow> 'w informer" where
  "NewFilteredCliManagerInformer client namespace resyncPeriod indexers tweakListOptions =
     fst (NewTypedCliManagerInformerWithOptions client namespace
       \<lparr>io_ResyncPeriod = resyncPeriod, io_Indexers = indexers, io_InformerName = None,
        io_TweakListOptions = tweakListOptions\<rparr>)"

definition NewCliManagerInformer ::
  "'w versioned \<Rightarrow> string \<Rightarrow> int \<Rightarrow> (string, cli_manager \<Rightarrow> string list) fmap \<Rightarrow> 'w informer" where
  "NewCliManagerInformer client namespace resyncPeriod indexers =
     fst (NewCliManagerInformerWithOptions client namespace
       \<lparr>io_ResyncPeriod = resyncPeriod, io_Indexers = indexers, io_InformerName = None,
        io_TweakListOptions = None\<rparr>)"

definition MetaNamespaceIndexFunc :: "cli_manager \<Rightarrow> string list" where
  "MetaNamespaceIndexFunc cm = [om_namespace (cm_meta cm)]"

section \<open>The factory\<close>

text \<open>
  \<open>fa_launched\<close> lists the types whose informer a goroutine was started for, \<open>fa_running\<close> those
  whose goroutine has not returned yet (the wait group).
\<close>

record 'w factory =
  fa_client :: "'w versioned"
  fa_namespace :: string
  fa_tweakListOptions :: tweak_list_options
  fa_defaultResync :: int
  fa_customResync :: "(string, int) fmap"
  fa_transform :: "(cli_manager \<Rightarrow> go_error + cli_manager) option"
  fa_informerName :: "informer_name option"
  fa_informers :: "(string, 'w informer) fmap"
  fa_startedInformers :: "(string, bool) fmap"
  fa_launched :: "string list"
  fa_running :: "string list"
  fa_shuttingDown :: bool

type_synonym 'w factory_option = "'w factory \<Rightarrow> 'w factory"

text \<open>The objects of the map count by their type; the list is the map in the order of its visit.\<close>

definition WithCustomResyncConfig :: "(string \<times> int) list \<Rightarrow> 'w factory_option" where
  "WithCustomResyncConfig resyncConfig f =
     f\<lparr>fa_customResync := fold (\<lambda>(k, v). fmupd k v) resyncConfig (fa_customResync f)\<rparr>"

definition WithTweakListOptions :: "tweak_list_options \<Rightarrow> 'w factory_option" where
  "WithTweakListOptions t f = f\<lparr>fa_tweakListOptions := t\<rparr>"

definition WithFactoryNamespace :: "string \<Rightarrow> 'w factory_option" where
  "WithFactoryNamespace namespace f = f\<lparr>fa_namespace := namespace\<rparr>"

definition WithTransform :: "(cli_manager \<Rightarrow> go_error + cli_manager) option \<Rightarrow> 'w factory_option" where
  "WithTransform transform f = f\<lparr>fa_transform := transform\<rparr>"

definition WithInformerName :: "informer_name option \<Rightarrow> 'w factory_option" where
  "WithInformerName informerName f = f\<lparr>fa_informerName := informerName\<rparr>"

definition InformerName :: "'w factory \<Rightarrow> informer_name option" where
  "InformerName f = fa_informerName f"

definition NewSharedInformerFactoryWithOptions ::
  "'w versioned \<Rightarrow> int \<Rightarrow> 'w factory_option list \<Rightarrow> 'w factory" where
  "NewSharedInformerFactoryWithOptions client defaultResync options =
     fold (\<lambda>opt. opt) options
       \<lparr>fa_client = client, fa_namespace = [], fa_tweakListOptions = None, fa_defaultResync = defaultResync,
        fa_customResync = fmempty, fa_transform = None, fa_informerName = None, fa_informers = fmempty,
        fa_startedInformers = fmempty, fa_launched = [], fa_running = [], fa_shuttingDown = False\<rparr>"

definition NewSharedInformerFactory :: "'w versioned \<Rightarrow> int \<Rightarrow> 'w factory" where
  "NewSharedInformerFactory client defaultResync = NewSharedInformerFactoryWithOptions client defaultResync []"

definition NewFilteredSharedInformerFactory ::
  "'w versioned \<Rightarrow> int \<Rightarrow> string \<Rightarrow> tweak_list_options \<Rightarrow> 'w factory" where
  "NewFilteredSharedInformerFactory client defaultResync namespace tweakListOptions =
     NewSharedInformerFactoryWithOptions client defaultResync
       [WithFactoryNamespace namespace, WithTweakListOptions tweakListOptions]"

definition is_started :: "'w factory \<Rightarrow> string \<Rightarrow> bool" where
  "is_started f t = (case fmlookup (fa_startedInformers f) t of Some b \<Rightarrow> b | None \<Rightarrow> False)"

definition start_informer :: "string \<Rightarrow> 'w factory \<Rightarrow> 'w factory" where
  "start_informer t f =
     (if is_started f t then f
      else f\<lparr>fa_launched := fa_launched f @ [t], fa_running := fa_running f @ [t],
             fa_startedInformers := fmupd t True (fa_startedInformers f)\<rparr>)"

definition StartWithContext :: "'w factory \<Rightarrow> 'w factory" where
  "StartWithContext f =
     (if fa_shuttingDown f then f
      else fold start_informer (map fst (range_entries (fa_informers f))) f)"

definition Start :: "'w factory \<Rightarrow> 'w factory" where
  "Start = StartWithContext"

text \<open>\<open>Shutdown\<close> marks the factory, then waits: it can finish once no goroutine runs.\<close>

definition ShutdownMark :: "'w factory \<Rightarrow> 'w factory" where
  "ShutdownMark f = f\<lparr>fa_shuttingDown := True\<rparr>"

definition release_id :: "informer_name option \<Rightarrow> 'w informer \<Rightarrow> 'w informer" where
  "release_id n i =
     (case n of
        None \<Rightarrow> i
      | Some nm \<Rightarrow>
          if iid_name (in_identifier i) = inn_name nm \<and> iid_gvr (in_identifier i) \<in> set (inn_gvrs nm)
          then i\<lparr>in_identifier := (in_identifier i)\<lparr>iid_reserved := False\<rparr>\<rparr> else i)"

definition ShutdownFinish :: "'w factory \<Rightarrow> 'w factory option" where
  "ShutdownFinish f =
     (if fa_running f = []
      then Some (f\<lparr>fa_informerName := ReleaseName (fa_informerName f),
                   fa_informers := fmmap (release_id (fa_informerName f)) (fa_informers f)\<rparr>)
      else None)"

text \<open>\<open>newFunc\<close> takes the client and the resync period, and may register under the informer name.\<close>

type_synonym 'w new_informer =
  "'w versioned \<Rightarrow> int \<Rightarrow> informer_name option \<Rightarrow> 'w informer \<times> informer_name option"

definition InformerFor :: "string \<Rightarrow> 'w new_informer \<Rightarrow> 'w factory \<Rightarrow> 'w informer \<times> 'w factory" where
  "InformerFor informerType newFunc f =
     (case fmlookup (fa_informers f) informerType of
        Some informer \<Rightarrow> (informer, f)
      | None \<Rightarrow>
          (let resyncPeriod = (case fmlookup (fa_customResync f) informerType of
                 Some r \<Rightarrow> r | None \<Rightarrow> fa_defaultResync f);
               (informer, n) = newFunc (fa_client f) resyncPeriod (fa_informerName f);
               informer = (case fa_transform f of
                 None \<Rightarrow> informer | Some _ \<Rightarrow> snd (SetTransform (fa_transform f) informer)) in
           (informer, f\<lparr>fa_informerName := n, fa_informers := fmupd informerType informer (fa_informers f)\<rparr>)))"

section \<open>Access to the informer of climanagers\<close>

text \<open>\<open>Climanagers()\<close>, \<open>V1()\<close> and \<open>CliManagers()\<close> hand the factory's settings down.\<close>

record informer_group =
  grp_namespace :: string
  grp_tweakListOptions :: tweak_list_options

definition Climanagers :: "'w factory \<Rightarrow> informer_group" where
  "Climanagers f = \<lparr>grp_namespace = fa_namespace f, grp_tweakListOptions = fa_tweakListOptions f\<rparr>"

record informer_version =
  vrs_namespace :: string
  vrs_tweakListOptions :: tweak_list_options

definition V1 :: "informer_group \<Rightarrow> informer_version" where
  "V1 g = \<lparr>vrs_namespace = grp_namespace g, vrs_tweakListOptions = grp_tweakListOptions g\<rparr>"

record climanager_informer =
  cmi_tweakListOptions :: tweak_list_options
  cmi_namespace :: string

definition CliManagers :: "informer_version \<Rightarrow> climanager_informer" where
  "CliManagers v = \<lparr>cmi_tweakListOptions = vrs_tweakListOptions v, cmi_namespace = vrs_namespace v\<rparr>"

definition defaultInformer :: "climanager_informer \<Rightarrow> 'w new_informer" where
  "defaultInformer i client resyncPeriod name =
     NewTypedCliManagerInformerWithOptions client (cmi_namespace i)
       \<lparr>io_ResyncPeriod = resyncPeriod, io_Indexers = fmupd NamespaceIndex MetaNamespaceIndexFunc fmempty,
        io_InformerName = name, io_TweakListOptions = cmi_tweakListOptions i\<rparr>"

definition TypedInformer :: "climanager_informer \<Rightarrow> 'w factory \<Rightarrow> 'w informer \<times> 'w factory" where
  "TypedInformer i f = InformerFor CliManagerType (defaultInformer i) f"

definition Informer :: "climanager_informer \<Rightarrow> 'w factory \<Rightarrow> 'w informer \<times> 'w factory" where
  "Informer i f = TypedInformer i f"

definition gvr_text :: "gvr \<Rightarrow> string" where
  "gvr_text r = (case r of (g, v, res) \<Rightarrow> g @ ''/'' @ v @ '', Resource='' @ res)"

text \<open>\<open>genericInformer\<close> pairs the informer with the group and resource.\<close>

definition ForResource ::
  "gvr \<Rightarrow> 'w factory \<Rightarrow> (go_error + 'w informer \<times> (string \<times> string)) \<times> 'w factory" where
  "ForResource resource f =
     (if resource = (fst SchemeGroupVersion, snd SchemeGroupVersion, ''climanagers'')
      then (let (i, f') = Informer (CliManagers (V1 (Climanagers f))) f
            in (Inr (i, (fst resource, snd (snd resource))), f'))
      else (Inl (ErrorString (''no informer found for '' @ gvr_text resource)), f))"

section \<open>Waiting\<close>

record sync_result =
  sr_Err :: "go_error option"
  sr_Synced :: "(string, bool) fmap"

definition started_types :: "'w factory \<Rightarrow> (string, 'w informer) fmap" where
  "started_types f = fmfilter (is_started f) (fa_informers f)"

text \<open>
  \<open>None\<close> waits: some started informer has not synced and the context is not done. \<open>cause\<close> is the
  cause of a context that is done.
\<close>

definition WaitForCacheSyncWithContext :: "go_error option \<Rightarrow> 'w factory \<Rightarrow> sync_result option" where
  "WaitForCacheSyncWithContext cause f =
     (let informers = started_types f;
          synced = fmmap in_synced informers;
          failed = (\<exists>e\<in>set (range_entries synced). \<not> snd e) in
      if failed \<and> cause = None then None
      else Some \<lparr>sr_Err = (if failed then cause else None), sr_Synced = synced\<rparr>)"

definition WaitForCacheSync :: "go_error option \<Rightarrow> 'w factory \<Rightarrow> (string, bool) fmap option" where
  "WaitForCacheSync cause f = map_option sr_Synced (WaitForCacheSyncWithContext cause f)"

section \<open>Each informer is started once\<close>

text \<open>What can happen to a factory; \<open>Returned\<close> is the end of an informer's goroutine.\<close>

datatype 'w factory_op = GetInformer string "'w new_informer" | StartAll | Returned string | MarkShutdown | TryFinish

fun factory_step :: "'w factory_op \<Rightarrow> 'w factory \<Rightarrow> 'w factory" where
  "factory_step (GetInformer t newFunc) f = snd (InformerFor t newFunc f)"
| "factory_step StartAll f = StartWithContext f"
| "factory_step (Returned t) f = f\<lparr>fa_running := remove1 t (fa_running f)\<rparr>"
| "factory_step MarkShutdown f = ShutdownMark f"
| "factory_step TryFinish f = (case ShutdownFinish f of Some f' \<Rightarrow> f' | None \<Rightarrow> f)"

definition factory_ok :: "'w factory \<Rightarrow> bool" where
  "factory_ok f \<longleftrightarrow> distinct (fa_launched f) \<and> set (fa_running f) \<subseteq> set (fa_launched f) \<and> distinct (fa_running f) \<and>
     set (fa_launched f) \<subseteq> fmdom' (fa_informers f) \<and> (\<forall>t. is_started f t \<longleftrightarrow> t \<in> set (fa_launched f))"

lemma is_started_simps [simp]:
  "is_started (f\<lparr>fa_informers := m\<rparr>) t = is_started f t" "is_started (f\<lparr>fa_informerName := n\<rparr>) t = is_started f t"
  "is_started (f\<lparr>fa_running := r\<rparr>) t = is_started f t" "is_started (f\<lparr>fa_shuttingDown := b\<rparr>) t = is_started f t"
  by (simp_all add: is_started_def)

lemma start_informer_started: "is_started (start_informer t f) u \<longleftrightarrow> is_started f u \<or> u = t"
  by (auto simp: start_informer_def is_started_def)

lemma start_informer_ok: "factory_ok f \<Longrightarrow> t \<in> fmdom' (fa_informers f) \<Longrightarrow> factory_ok (start_informer t f)"
  unfolding factory_ok_def start_informer_started
  by (auto simp: start_informer_def)

lemma start_informer_informers [simp]:
  "fa_informers (start_informer t f) = fa_informers f" "fa_shuttingDown (start_informer t f) = fa_shuttingDown f"
  by (simp_all add: start_informer_def)

lemma start_all:
  "factory_ok f \<Longrightarrow> set ts \<subseteq> fmdom' (fa_informers f) \<Longrightarrow>
     factory_ok (fold start_informer ts f) \<and> fa_informers (fold start_informer ts f) = fa_informers f \<and>
     (\<forall>u. is_started (fold start_informer ts f) u \<longleftrightarrow> is_started f u \<or> u \<in> set ts)"
proof (induction ts arbitrary: f)
  case (Cons t ts)
  then have "factory_ok (start_informer t f)" by (simp add: start_informer_ok)
  from Cons.IH [OF this] Cons.prems(2) show ?case by (auto simp: start_informer_started)
qed simp

lemma range_entries_dom: "fst ` set (range_entries m) = fmdom' m"
  by (metis enumerates_keys enumerates_range_entries)

lemma StartWithContext_all:
  assumes "factory_ok f"
  shows "factory_ok (StartWithContext f) \<and> fa_informers (StartWithContext f) = fa_informers f \<and>
    (\<not> fa_shuttingDown f \<longrightarrow> (\<forall>t. is_started (StartWithContext f) t \<longleftrightarrow> t \<in> fmdom' (fa_informers f)))"
proof (cases "fa_shuttingDown f")
  case True
  with assms show ?thesis by (simp add: StartWithContext_def)
next
  case False
  have "is_started f t \<Longrightarrow> t \<in> fmdom' (fa_informers f)" for t
    using assms by (auto simp: factory_ok_def)
  with start_all [OF assms, of "map fst (range_entries (fa_informers f))"] False show ?thesis
    by (auto simp: StartWithContext_def range_entries_dom)
qed

lemma InformerFor_fields:
  "fa_launched (snd (InformerFor t nf f)) = fa_launched f" "fa_running (snd (InformerFor t nf f)) = fa_running f"
  "fa_startedInformers (snd (InformerFor t nf f)) = fa_startedInformers f"
  "fmdom' (fa_informers (snd (InformerFor t nf f))) = insert t (fmdom' (fa_informers f))"
  by (auto simp: InformerFor_def Let_def case_prod_beta fmlookup_dom'_iff split: option.splits)

lemma factory_step_ok: "factory_ok f \<Longrightarrow> factory_ok (factory_step op f)"
proof (cases op)
  case (GetInformer t nf)
  assume "factory_ok f"
  with GetInformer show ?thesis
    by (auto simp: factory_ok_def InformerFor_fields is_started_def)
next
  case (Returned t)
  assume "factory_ok f"
  with Returned show ?thesis
    by (auto simp: factory_ok_def distinct_remove1 dest: notin_set_remove1)
next
  case TryFinish
  assume "factory_ok f"
  with TryFinish show ?thesis
    by (auto simp: factory_ok_def ShutdownFinish_def fmdom'_alt_def is_started_def split: option.splits if_splits)
next
  case MarkShutdown
  assume "factory_ok f"
  with MarkShutdown show ?thesis by (simp add: factory_ok_def ShutdownMark_def)
qed (simp add: StartWithContext_all)

lemma options_start:
  assumes "fa_launched f = [] \<and> fa_running f = [] \<and> fa_startedInformers f = fmempty"
    and "\<And>opt f. opt \<in> set options \<Longrightarrow> fa_launched (opt f) = fa_launched f \<and> fa_running (opt f) = fa_running f \<and>
      fa_startedInformers (opt f) = fa_startedInformers f"
  shows "factory_ok (fold (\<lambda>opt. opt) options f)"
proof -
  have "fa_launched (fold (\<lambda>opt. opt) options f) = [] \<and> fa_running (fold (\<lambda>opt. opt) options f) = [] \<and>
      fa_startedInformers (fold (\<lambda>opt. opt) options f) = fmempty"
    using assms by (induction options arbitrary: f) simp_all
  then show ?thesis by (simp add: factory_ok_def is_started_def)
qed

text \<open>The options of the package.\<close>

definition package_options :: "'w factory_option set" where
  "package_options = range WithCustomResyncConfig \<union> range WithTweakListOptions \<union> range WithFactoryNamespace \<union>
     range WithTransform \<union> range WithInformerName"

lemma new_factory_ok:
  assumes "set options \<subseteq> package_options"
  shows "factory_ok (NewSharedInformerFactoryWithOptions client defaultResync options)"
  unfolding NewSharedInformerFactoryWithOptions_def
  by (rule options_start) (use assms in \<open>auto simp: package_options_def WithCustomResyncConfig_def
      WithTweakListOptions_def WithFactoryNamespace_def WithTransform_def WithInformerName_def\<close>)

lemma steps_ok: "factory_ok f \<Longrightarrow> factory_ok (fold factory_step ops f)"
  by (induction ops arbitrary: f) (simp_all add: factory_step_ok)


definition sample_client :: "unit versioned" where
  "sample_client = \<lparr>ver_list = (\<lambda>_ _ w. (Inr \<lparr>cml_resourceVersion = [], cml_items = []\<rparr>, w)), ver_watch = (\<lambda>_ _ w. (Inr 0, w)),
     ver_watchListUnsupported = False\<rparr>"

definition sample_informer :: climanager_informer where
  "sample_informer = \<lparr>cmi_tweakListOptions = None, cmi_namespace = []\<rparr>"


section \<open>The informer of climanagers and its settings\<close>

text \<open>the informer that a filtered factory gives for climanagers lists and watches in the factory's
  namespace with its tweak applied to every request, has the factory's resync period and an index by
  namespace; and every later request for that type, whatever constructor it brings, gets the same
  informer and leaves the factory as it is.\<close>

theorem filtered_informer_shared:
  "let f = NewFilteredSharedInformerFactory client resync ns tweak; (r, f1) = ForResource cliManager_gvr f in
   \<exists>i. r = Inr (i, ''operator.openshift.io'', ''climanagers'') \<and>
     lw_list (in_listerWatcher i) = (\<lambda>opts. ver_list client ns (tweaked tweak opts)) \<and>
     lw_watch (in_listerWatcher i) = (\<lambda>opts. ver_watch client ns (tweaked tweak opts)) \<and>
     in_resyncCheckPeriod i = resync \<and> fmlookup (st_indexers (in_indexer i)) NamespaceIndex = Some MetaNamespaceIndexFunc \<and>
     InformerFor CliManagerType newFunc f1 = (i, f1) \<and> ForResource cliManager_gvr f1 = (r, f1)"
  by (simp add: NewFilteredSharedInformerFactory_def NewSharedInformerFactoryWithOptions_def WithFactoryNamespace_def
      WithTweakListOptions_def ForResource_def cliManager_gvr_def SchemeGroupVersion_def Informer_def TypedInformer_def
      InformerFor_def defaultInformer_def NewTypedCliManagerInformerWithOptions_def WithResource_def CliManagers_def V1_def
      Climanagers_def NewIndexer_def Let_def)

text \<open>\<open>ForResource\<close> knows climanagers and nothing else; an unknown resource is an error that names it,
  and leaves the factory as it is.\<close>

theorem ForResource_errors:
  "(case fst (ForResource r f) of
      Inr (_, gr) \<Rightarrow> r = cliManager_gvr \<and> gr = (''operator.openshift.io'', ''climanagers'')
    | Inl e \<Rightarrow> r \<noteq> cliManager_gvr \<and> ErrorText e = ''no informer found for '' @ gvr_text r \<and> snd (ForResource r f) = f)"
  by (auto simp: ForResource_def cliManager_gvr_def SchemeGroupVersion_def case_prod_beta)

text \<open>waiting for the caches. The result names exactly the requested informers that were started, it has
  no error exactly if all of them have synced, and waiting ends as soon as they have or the context is done.\<close>

theorem WaitForCacheSync_result:
  "case WaitForCacheSyncWithContext cause f of
     None \<Rightarrow> cause = None \<and> (\<exists>t i. fmlookup (fa_informers f) t = Some i \<and> is_started f t \<and> \<not> in_synced i)
   | Some r \<Rightarrow>
       (\<forall>t b. fmlookup (sr_Synced r) t = Some b \<longleftrightarrow>
          (\<exists>i. fmlookup (fa_informers f) t = Some i \<and> is_started f t \<and> in_synced i = b)) \<and>
       (sr_Err r = None \<longleftrightarrow> fmran' (sr_Synced r) \<subseteq> {True})"
proof -
  let ?s = "fmmap in_synced (started_types f)"
  have entry: "(t, b) \<in> set (range_entries ?s) \<longleftrightarrow>
      (\<exists>i. fmlookup (fa_informers f) t = Some i \<and> is_started f t \<and> in_synced i = b)" for t b
    using map_of_eq_Some_iff [OF distinct_range_entries, of ?s t b]
    by (auto simp: started_types_def split: if_splits)
  have lookup: "fmlookup ?s t = Some b \<longleftrightarrow>
      (\<exists>i. fmlookup (fa_informers f) t = Some i \<and> is_started f t \<and> in_synced i = b)" for t b
    using entry map_of_eq_Some_iff [OF distinct_range_entries, of ?s t b] by simp
  have failed: "(\<exists>e\<in>set (range_entries ?s). \<not> snd e) \<longleftrightarrow>
      (\<exists>t i. fmlookup (fa_informers f) t = Some i \<and> is_started f t \<and> \<not> in_synced i)"
    using entry [of _ False] by force
  have ran: "fmran' ?s \<subseteq> {True} \<longleftrightarrow> \<not> (\<exists>t i. fmlookup (fa_informers f) t = Some i \<and> is_started f t \<and> \<not> in_synced i)"
    using lookup [of _ False] by (auto elim!: fmran'E intro: fmran'I)
  show ?thesis
    using failed ran lookup by (auto simp: WaitForCacheSyncWithContext_def Let_def split: if_splits)
qed

end
