(* ===== verification/Clientset.thy ===== *)
theory Clientset
  imports Fake_Cluster Informer_Factory Complex_Main
begin

text \<open>
  The generated clientset (\<^verbatim>\<open>pkg/generated/clientset/versioned\<close>): its constructors from a
  client configuration, the client of the group, and the fake clientset over an object tracker.
  The transport of \<^verbatim>\<open>net/http\<close> and the parsing of the server address are parameters
  (\<open>net\<close>). A nil pointer is \<open>None\<close>.
\<close>

section \<open>Configurations\<close>

text \<open>A limiter is an object with a state of its own, so two buckets of the same rate differ. A bucket carries
  the function that made it, which tells the buckets of one run of a constructor apart.\<close>

datatype limiter_maker = ByClientset | ByRESTClient | ByUnversionedClient

datatype rate_limiter = TokenBucket limiter_maker rat int | GivenLimiter nat

text \<open>The fields of \<^verbatim>\<open>rest.Config\<close> the constructors read or set; \<open>rc_transport\<close> stands for the
  host, credentials and TLS settings that only \<open>net\<close> reads. A serializer is named.\<close>

record rest_config =
  rc_transport :: string
  rc_userAgent :: string
  rc_QPS :: rat
  rc_Burst :: int
  rc_RateLimiter :: "rate_limiter option"
  rc_GroupVersion :: "(string \<times> string) option"
  rc_APIPath :: string
  rc_NegotiatedSerializer :: "string option"
  rc_Timeout :: int

text \<open>\<open>net_urlFor\<close> is \<^verbatim>\<open>rest.DefaultServerUrlFor\<close>: the address and the versioned path.\<close>

record 'h net =
  net_userAgent :: string
  net_HTTPClientFor :: "rest_config \<Rightarrow> go_error + 'h"
  net_urlFor :: "rest_config \<Rightarrow> go_error + string \<times> string"

record 'h rest_client =
  rcl_base :: string
  rcl_versionedAPIPath :: string
  rcl_groupVersion :: "string \<times> string"
  rcl_serializer :: string
  rcl_rateLimiter :: "rate_limiter option"
  rcl_client :: 'h

definition DefaultQPS :: rat where "DefaultQPS = 5"
definition DefaultBurst :: int where "DefaultBurst = 10"

definition limiter_of :: "limiter_maker \<Rightarrow> rest_config \<Rightarrow> rate_limiter option" where
  "limiter_of mk config =
     (case rc_RateLimiter config of
        Some l \<Rightarrow> Some l
      | None \<Rightarrow>
          (let qps = (if rc_QPS config = 0 then DefaultQPS else rc_QPS config);
               burst = (if rc_Burst config = 0 then DefaultBurst else rc_Burst config) in
           if qps > 0 then Some (TokenBucket mk qps burst) else None))"

definition RESTClientForConfigAndClient :: "'h net \<Rightarrow> rest_config \<Rightarrow> 'h \<Rightarrow> go_error + 'h rest_client" where
  "RESTClientForConfigAndClient n config httpClient =
     (case rc_GroupVersion config of
        None \<Rightarrow> Inl (ErrorString ''GroupVersion is required when initializing a RESTClient'')
      | Some gv \<Rightarrow>
          (case rc_NegotiatedSerializer config of
             None \<Rightarrow> Inl (ErrorString ''NegotiatedSerializer is required when initializing a RESTClient'')
           | Some ser \<Rightarrow>
               sum_bind (net_urlFor n config) (\<lambda>(base, path).
                 Inr \<lparr>rcl_base = base, rcl_versionedAPIPath = path, rcl_groupVersion = gv, rcl_serializer = ser,
                      rcl_rateLimiter = limiter_of ByRESTClient config, rcl_client = httpClient\<rparr>)))"

definition UnversionedRESTClientForConfigAndClient ::
  "'h net \<Rightarrow> rest_config \<Rightarrow> 'h \<Rightarrow> go_error + 'h rest_client" where
  "UnversionedRESTClientForConfigAndClient n config httpClient =
     (case rc_NegotiatedSerializer config of
        None \<Rightarrow> Inl (ErrorString ''NegotiatedSerializer is required when initializing a RESTClient'')
      | Some ser \<Rightarrow>
          sum_bind (net_urlFor n config) (\<lambda>(base, path).
            Inr \<lparr>rcl_base = base, rcl_versionedAPIPath = path,
                 rcl_groupVersion = (case rc_GroupVersion config of Some gv \<Rightarrow> gv | None \<Rightarrow> ([], ''v1'')),
                 rcl_serializer = ser, rcl_rateLimiter = limiter_of ByUnversionedClient config, rcl_client = httpClient\<rparr>))"

text \<open>The pointer returned next to an error is dropped by the one caller.\<close>

definition discovery_defaults :: "'h net \<Rightarrow> rest_config \<Rightarrow> rest_config" where
  "discovery_defaults n config =
     config\<lparr>rc_APIPath := [], rc_GroupVersion := None,
       rc_Timeout := (if rc_Timeout config = 0 then 32000000000 else rc_Timeout config),
       rc_Burst := (if rc_Burst config = 0 then 300 else rc_Burst config),
       rc_NegotiatedSerializer := Some ''discovery'',
       rc_userAgent := (if rc_userAgent config = [] then net_userAgent n else rc_userAgent config)\<rparr>"

definition NewDiscoveryClientForConfigAndClient :: "'h net \<Rightarrow> rest_config \<Rightarrow> 'h \<Rightarrow> go_error + 'h rest_client" where
  "NewDiscoveryClientForConfigAndClient n c httpClient =
     UnversionedRESTClientForConfigAndClient n (discovery_defaults n c) httpClient"

section \<open>The client of the group\<close>

type_synonym 'h climanagersV1_client = "'h rest_client option"

definition setConfigDefaults :: "'h net \<Rightarrow> rest_config \<Rightarrow> rest_config" where
  "setConfigDefaults n config =
     config\<lparr>rc_GroupVersion := Some SchemeGroupVersion, rc_APIPath := ''/apis'',
       rc_NegotiatedSerializer := Some ''generated'',
       rc_userAgent := (if rc_userAgent config = [] then net_userAgent n else rc_userAgent config)\<rparr>"

definition groupNewForConfigAndClient :: "'h net \<Rightarrow> rest_config \<Rightarrow> 'h \<Rightarrow> go_error + 'h climanagersV1_client" where
  "groupNewForConfigAndClient n c h =
     sum_bind (RESTClientForConfigAndClient n (setConfigDefaults n c) h) (\<lambda>client. Inr (Some client))"

definition groupNewForConfig :: "'h net \<Rightarrow> rest_config \<Rightarrow> go_error + 'h climanagersV1_client" where
  "groupNewForConfig n c =
     (let config = setConfigDefaults n c in
      sum_bind (net_HTTPClientFor n config) (groupNewForConfigAndClient n config))"

definition or_die :: "go_error + 'a \<Rightarrow> go_error + 'a" where
  "or_die r = (case r of Inl err \<Rightarrow> Inl (Panic (ErrorText err)) | Inr x \<Rightarrow> Inr x)"

definition groupNewForConfigOrDie :: "'h net \<Rightarrow> rest_config \<Rightarrow> go_error + 'h climanagersV1_client" where
  "groupNewForConfigOrDie n c = or_die (groupNewForConfig n c)"

definition groupNew :: "'h rest_client \<Rightarrow> 'h climanagersV1_client" where
  "groupNew c = Some c"

definition RESTClient :: "'h climanagersV1_client \<Rightarrow> 'h rest_client option" where
  "RESTClient c = (case c of None \<Rightarrow> None | Some r \<Rightarrow> Some r)"

record 'h cli_managers =
  cmc_resource :: string
  cmc_client :: "'h rest_client option"
  cmc_namespace :: string

definition newCliManagers :: "'h climanagersV1_client \<Rightarrow> string \<Rightarrow> 'h cli_managers" where
  "newCliManagers c namespace =
     \<lparr>cmc_resource = ''climanagers'', cmc_client = RESTClient c, cmc_namespace = namespace\<rparr>"

definition groupCliManagers :: "'h climanagersV1_client \<Rightarrow> string \<Rightarrow> 'h cli_managers" where
  "groupCliManagers c namespace = newCliManagers c namespace"

section \<open>The clientset\<close>

record 'h clientset =
  cs_DiscoveryClient :: "'h rest_client option"
  cs_climanagersV1 :: "'h climanagersV1_client"

definition ClimanagersV1 :: "'h clientset \<Rightarrow> 'h climanagersV1_client" where
  "ClimanagersV1 c = cs_climanagersV1 c"

definition Discovery :: "'h clientset option \<Rightarrow> 'h rest_client option" where
  "Discovery c = (case c of None \<Rightarrow> None | Some cs \<Rightarrow> cs_DiscoveryClient cs)"

definition burst_required :: go_error where
  "burst_required = ErrorString
     ''burst is required to be greater than 0 when RateLimiter is not set and QPS is set to greater than 0''"

definition NewForConfigAndClient :: "'h net \<Rightarrow> rest_config \<Rightarrow> 'h \<Rightarrow> go_error + 'h clientset" where
  "NewForConfigAndClient n c httpClient =
     (if rc_RateLimiter c = None \<and> rc_QPS c > 0 \<and> rc_Burst c \<le> 0 then Inl burst_required
      else
        (let config = (if rc_RateLimiter c = None \<and> rc_QPS c > 0
                       then c\<lparr>rc_RateLimiter := Some (TokenBucket ByClientset (rc_QPS c) (rc_Burst c))\<rparr> else c) in
         sum_bind (groupNewForConfigAndClient n config httpClient) (\<lambda>group.
         sum_bind (NewDiscoveryClientForConfigAndClient n config httpClient) (\<lambda>discovery.
         Inr \<lparr>cs_DiscoveryClient = Some discovery, cs_climanagersV1 = group\<rparr>))))"

definition NewForConfig :: "'h net \<Rightarrow> rest_config \<Rightarrow> go_error + 'h clientset" where
  "NewForConfig n c =
     (let config = (if rc_userAgent c = [] then c\<lparr>rc_userAgent := net_userAgent n\<rparr> else c) in
      sum_bind (net_HTTPClientFor n config) (NewForConfigAndClient n config))"

definition NewForConfigOrDie :: "'h net \<Rightarrow> rest_config \<Rightarrow> go_error + 'h clientset" where
  "NewForConfigOrDie n c = or_die (NewForConfig n c)"

definition NewClientsetFor :: "'h rest_client \<Rightarrow> 'h clientset" where
  "NewClientsetFor c = \<lparr>cs_DiscoveryClient = Some c, cs_climanagersV1 = groupNew c\<rparr>"

section \<open>What the constructors give\<close>

text \<open>The configuration both clients of a clientset are built from.\<close>

definition effective_config :: "rest_config \<Rightarrow> rest_config" where
  "effective_config c =
     (if rc_RateLimiter c = None \<and> rc_QPS c > 0
      then c\<lparr>rc_RateLimiter := Some (TokenBucket ByClientset (rc_QPS c) (rc_Burst c))\<rparr> else c)"

lemma defaults_rates:
  "rc_RateLimiter (setConfigDefaults n c) = rc_RateLimiter c" "rc_QPS (setConfigDefaults n c) = rc_QPS c"
  "rc_Burst (setConfigDefaults n c) = rc_Burst c"
  by (simp_all add: setConfigDefaults_def)

lemma limiter_of_defaults [simp]: "limiter_of mk (setConfigDefaults n c) = limiter_of mk c"
  by (simp only: limiter_of_def defaults_rates)

lemma defaults_fields [simp]:
  "rc_GroupVersion (setConfigDefaults n c) = Some (''operator.openshift.io'', ''v1'')"
  "rc_NegotiatedSerializer (setConfigDefaults n c) = Some ''generated''"
  "rc_GroupVersion (discovery_defaults n c) = None"
  "rc_NegotiatedSerializer (discovery_defaults n c) = Some ''discovery''"
  by (simp_all add: setConfigDefaults_def discovery_defaults_def limiter_of_def SchemeGroupVersion_def Let_def)

lemma group_client:
  "groupNewForConfigAndClient n c h =
     (case net_urlFor n (setConfigDefaults n c) of
        Inl e \<Rightarrow> Inl e
      | Inr (base, path) \<Rightarrow> Inr (Some \<lparr>rcl_base = base, rcl_versionedAPIPath = path,
          rcl_groupVersion = (''operator.openshift.io'', ''v1''), rcl_serializer = ''generated'',
          rcl_rateLimiter = limiter_of ByRESTClient c, rcl_client = h\<rparr>))"
  by (auto simp: groupNewForConfigAndClient_def RESTClientForConfigAndClient_def split: sum.splits)

lemma discovery_client:
  "NewDiscoveryClientForConfigAndClient n c h =
     (case net_urlFor n (discovery_defaults n c) of
        Inl e \<Rightarrow> Inl e
      | Inr (base, path) \<Rightarrow> Inr \<lparr>rcl_base = base, rcl_versionedAPIPath = path,
          rcl_groupVersion = ([], ''v1''), rcl_serializer = ''discovery'',
          rcl_rateLimiter = limiter_of ByUnversionedClient (discovery_defaults n c), rcl_client = h\<rparr>)"
  by (auto simp: NewDiscoveryClientForConfigAndClient_def UnversionedRESTClientForConfigAndClient_def
      split: sum.splits)

definition with_agent :: "'h net \<Rightarrow> rest_config \<Rightarrow> rest_config" where
  "with_agent n c = (if rc_userAgent c = [] then c\<lparr>rc_userAgent := net_userAgent n\<rparr> else c)"

lemma effective_fields:
  "rc_RateLimiter c \<noteq> None \<or> rc_QPS c > 0 \<Longrightarrow>
     limiter_of mk (effective_config c) = rc_RateLimiter (effective_config c) \<and>
     limiter_of mk' (discovery_defaults n (effective_config c)) = rc_RateLimiter (effective_config c) \<and>
     rc_RateLimiter (effective_config c) \<noteq> None"
  by (auto simp: effective_config_def limiter_of_def discovery_defaults_def)

lemma NewForConfigAndClient_eq:
  "NewForConfigAndClient n c h =
     (if rc_RateLimiter c = None \<and> rc_QPS c > 0 \<and> rc_Burst c \<le> 0 then Inl burst_required
      else sum_bind (groupNewForConfigAndClient n (effective_config c) h) (\<lambda>group.
           sum_bind (NewDiscoveryClientForConfigAndClient n (effective_config c) h) (\<lambda>discovery.
           Inr \<lparr>cs_DiscoveryClient = Some discovery, cs_climanagersV1 = group\<rparr>)))"
  by (simp add: NewForConfigAndClient_def effective_config_def Let_def)

text \<open>C29: which configurations give a clientset. The first of these is the error: the transport cannot be
  built, the rate is limited without a positive burst and without a limiter, the address of the server
  does not parse for the group's client, or for the discovery client; without any of them there is none.\<close>

theorem NewForConfig_errors:
  "(case NewForConfig n c of
      Inr _ \<Rightarrow> (\<exists>h. net_HTTPClientFor n (with_agent n c) = Inr h) \<and>
        \<not> (rc_RateLimiter c = None \<and> rc_QPS c > 0 \<and> rc_Burst c \<le> 0) \<and>
        (\<exists>u. net_urlFor n (setConfigDefaults n (effective_config (with_agent n c))) = Inr u) \<and>
        (\<exists>u. net_urlFor n (discovery_defaults n (effective_config (with_agent n c))) = Inr u)
    | Inl e \<Rightarrow>
        (case net_HTTPClientFor n (with_agent n c) of
           Inl e' \<Rightarrow> e = e'
         | Inr _ \<Rightarrow>
             if rc_RateLimiter c = None \<and> rc_QPS c > 0 \<and> rc_Burst c \<le> 0 then e = burst_required
             else (case net_urlFor n (setConfigDefaults n (effective_config (with_agent n c))) of
                 Inl e' \<Rightarrow> e = e'
               | Inr _ \<Rightarrow> net_urlFor n (discovery_defaults n (effective_config (with_agent n c))) = Inl e)))"
proof -
  have agent: "rc_RateLimiter (with_agent n c) = rc_RateLimiter c" "rc_QPS (with_agent n c) = rc_QPS c"
    "rc_Burst (with_agent n c) = rc_Burst c" by (simp_all add: with_agent_def)
  have eq: "NewForConfig n c = sum_bind (net_HTTPClientFor n (with_agent n c)) (NewForConfigAndClient n (with_agent n c))"
    by (simp add: NewForConfig_def with_agent_def Let_def)
  show ?thesis
  proof (cases "net_HTTPClientFor n (with_agent n c)")
    case (Inr h)
    let ?e = "effective_config (with_agent n c)"
    show ?thesis
      by (cases "rc_RateLimiter c = None \<and> rc_QPS c > 0 \<and> rc_Burst c \<le> 0"; cases "net_urlFor n (setConfigDefaults n ?e)";
          cases "net_urlFor n (discovery_defaults n ?e)")
        (auto simp: eq Inr NewForConfigAndClient_eq agent group_client discovery_client case_prod_beta)
  qed (simp add: eq)
qed

text \<open>the two clients of a clientset share one transport, and share one limiter whenever the
  configuration has a limiter or a positive rate, so the configured rate bounds both together; requests
  for climanagers go to group \<open>operator.openshift.io/v1\<close>.\<close>

theorem NewForConfig_shares:
  assumes "NewForConfig n c = Inr cs"
  shows "\<exists>h g d. net_HTTPClientFor n (with_agent n c) = Inr h \<and> Discovery (Some cs) = Some d \<and>
    cmc_client (groupCliManagers (ClimanagersV1 cs) ns) = Some g \<and>
    rcl_client g = h \<and> rcl_client d = h \<and> rcl_groupVersion g = (''operator.openshift.io'', ''v1'') \<and>
    (if rc_RateLimiter c \<noteq> None then rcl_rateLimiter g = rc_RateLimiter c \<and> rcl_rateLimiter d = rc_RateLimiter c
     else if rc_QPS c > 0 then rcl_rateLimiter g = Some (TokenBucket ByClientset (rc_QPS c) (rc_Burst c)) \<and>
       rcl_rateLimiter d = rcl_rateLimiter g
     else True)"
proof -
  have agent: "rc_RateLimiter (with_agent n c) = rc_RateLimiter c" "rc_QPS (with_agent n c) = rc_QPS c"
    "rc_Burst (with_agent n c) = rc_Burst c" by (simp_all add: with_agent_def)
  have "sum_bind (net_HTTPClientFor n (with_agent n c)) (NewForConfigAndClient n (with_agent n c)) = Inr cs"
    using assms by (simp add: NewForConfig_def with_agent_def Let_def)
  then obtain h where h: "net_HTTPClientFor n (with_agent n c) = Inr h"
    "NewForConfigAndClient n (with_agent n c) h = Inr cs" by (auto simp: sum_bind_Inr)
  let ?e = "effective_config (with_agent n c)"
  from h(2) obtain group disc where
    g: "groupNewForConfigAndClient n ?e h = Inr group" and d: "NewDiscoveryClientForConfigAndClient n ?e h = Inr disc"
    and cs: "cs = \<lparr>cs_DiscoveryClient = Some disc, cs_climanagersV1 = group\<rparr>"
    by (auto simp: NewForConfigAndClient_eq sum_bind_Inr split: if_splits)
  from g obtain gc where gc: "group = Some gc" "rcl_client gc = h"
      "rcl_groupVersion gc = (''operator.openshift.io'', ''v1'')" "rcl_rateLimiter gc = limiter_of ByRESTClient ?e"
    by (auto simp: group_client split: sum.splits)
  from d have dc: "rcl_client disc = h" "rcl_rateLimiter disc = limiter_of ByUnversionedClient (discovery_defaults n ?e)"
    by (auto simp: discovery_client split: sum.splits)
  have lim: "if rc_RateLimiter c \<noteq> None then limiter_of ByRESTClient ?e = rc_RateLimiter c \<and> limiter_of ByUnversionedClient (discovery_defaults n ?e) = rc_RateLimiter c
     else if rc_QPS c > 0 then limiter_of ByRESTClient ?e = Some (TokenBucket ByClientset (rc_QPS c) (rc_Burst c)) \<and>
       limiter_of ByUnversionedClient (discovery_defaults n ?e) = limiter_of ByRESTClient ?e
     else True"
    using effective_fields [of "with_agent n c" ByRESTClient ByUnversionedClient n] agent by (auto simp: effective_config_def)
  show ?thesis
    using h(1) gc dc lim
    by (simp add: cs Discovery_def ClimanagersV1_def groupCliManagers_def newCliManagers_def RESTClient_def)
qed

definition sample_net :: "unit net" where
  "sample_net = \<lparr>net_userAgent = ''agent'', net_HTTPClientFor = (\<lambda>_. Inr ()),
     net_urlFor = (\<lambda>c. Inr (''https://localhost'', rc_APIPath c))\<rparr>"

definition sample_rest :: rest_config where
  "sample_rest = \<lparr>rc_transport = [], rc_userAgent = [], rc_QPS = 50, rc_Burst = 100, rc_RateLimiter = None,
     rc_GroupVersion = None, rc_APIPath = [], rc_NegotiatedSerializer = None, rc_Timeout = 0\<rparr>"

theorem NewForConfig_shares_witness:
  "\<exists>cs d. NewForConfig sample_net sample_rest = Inr cs \<and> Discovery (Some cs) = Some d \<and>
     rcl_rateLimiter d = Some (TokenBucket ByClientset 50 100)"
proof -
  have "\<exists>cs. NewForConfig sample_net sample_rest = Inr cs"
    by (simp add: NewForConfig_def NewForConfigAndClient_def group_client discovery_client sample_net_def sample_rest_def
        Let_def)
  then obtain cs where cs: "NewForConfig sample_net sample_rest = Inr cs" ..
  have "rc_RateLimiter sample_rest = None" "rc_QPS sample_rest = 50" "rc_Burst sample_rest = 100"
    by (simp_all add: sample_rest_def)
  with NewForConfig_shares [OF cs, of "''ns''"] cs show ?thesis by auto
qed

end
