(* ===== verification/Scheme_Types.thy ===== *)
theory Scheme_Types
  imports Informer_Factory
begin

text \<open>
  The type registry (apimachinery \<^verbatim>\<open>runtime/scheme.go\<close> and \<^verbatim>\<open>scheme_builder.go\<close>) and
  what the program registers in it: \<^verbatim>\<open>pkg/apis/climanager/v1/register.go\<close> and the
  \<^verbatim>\<open>register.go\<close> of the clientset and of its fake. A registration function returns its
  error with the scheme as it left it; a panic is an error too. The conversion, defaulting and
  validation functions a scheme also holds are not modelled.
\<close>

section \<open>The scheme\<close>

text \<open>A named Go type is known by its package and its name.\<close>

datatype go_type = StructType string string | NamedType string string | PointerType go_type

type_synonym gv = "string \<times> string"
type_synonym gvk = "string \<times> string \<times> string"

fun TypeName :: "go_type \<Rightarrow> string" where
  "TypeName (StructType _ name) = name"
| "TypeName (NamedType _ name) = name"
| "TypeName (PointerType _) = []"

text \<open>What \<^verbatim>\<open>%v\<close> prints of a type: the last part of the package path and the name.\<close>

fun TypeString :: "go_type \<Rightarrow> string" where
  "TypeString (StructType pkg name) = rev (takeWhile (\<lambda>c. c \<noteq> CHR ''/'') (rev pkg)) @ ''.'' @ name"
| "TypeString (NamedType pkg name) = rev (takeWhile (\<lambda>c. c \<noteq> CHR ''/'') (rev pkg)) @ ''.'' @ name"
| "TypeString (PointerType t) = ''*'' @ TypeString t"

definition gvWithKind :: "gv \<Rightarrow> string \<Rightarrow> gvk" where
  "gvWithKind gv kind = (fst gv, snd gv, kind)"

definition GroupVersion :: "gvk \<Rightarrow> gv" where
  "GroupVersion k = (case k of (grp, version, _) \<Rightarrow> (grp, version))"

definition GroupVersionString :: "gv \<Rightarrow> string" where
  "GroupVersionString gv = (if fst gv = [] then snd gv else fst gv @ ''/'' @ snd gv)"

definition GVKString :: "gvk \<Rightarrow> string" where
  "GVKString k = (case k of (grp, version, kind) \<Rightarrow> grp @ ''/'' @ version @ '', Kind='' @ kind)"

definition APIVersionInternal :: string where "APIVersionInternal = ''__internal''"

record type_scheme =
  sc_gvkToType :: "(gvk, go_type) fmap"
  sc_typeToGVK :: "(go_type, gvk list) fmap"
  sc_unversionedTypes :: "(go_type, gvk) fmap"
  sc_unversionedKinds :: "(string, go_type) fmap"
  sc_observedVersions :: "gv list"
  sc_schemeName :: string

definition NewScheme :: "string \<Rightarrow> type_scheme" where
  "NewScheme name =
     \<lparr>sc_gvkToType = fmempty, sc_typeToGVK = fmempty, sc_unversionedTypes = fmempty,
      sc_unversionedKinds = fmempty, sc_observedVersions = [], sc_schemeName = name\<rparr>"

type_synonym registration_func = "type_scheme \<Rightarrow> go_error option \<times> type_scheme"

definition addObservedVersion :: "gv \<Rightarrow> type_scheme \<Rightarrow> type_scheme" where
  "addObservedVersion version s =
     (if snd version = [] \<or> snd version = APIVersionInternal then s
      else if version \<in> set (sc_observedVersions s) then s
      else s\<lparr>sc_observedVersions := sc_observedVersions s @ [version]\<rparr>)"

definition kinds_of :: "type_scheme \<Rightarrow> go_type \<Rightarrow> gvk list" where
  "kinds_of s t = (case fmlookup (sc_typeToGVK s) t of None \<Rightarrow> [] | Some ks \<Rightarrow> ks)"

text \<open>The struct a pointer points to.\<close>

fun struct_of :: "go_type \<Rightarrow> go_type option" where
  "struct_of (PointerType (StructType pkg name)) = Some (StructType pkg name)"
| "struct_of _ = None"

definition AddKnownTypeWithName :: "gvk \<Rightarrow> go_type \<Rightarrow> registration_func" where
  "AddKnownTypeWithName k obj s =
     (let s1 = addObservedVersion (GroupVersion k) s in
      if snd (GroupVersion k) = [] then
        (Some (Panic (''version is required on all types: '' @ GVKString k @ '' '' @ TypeString obj)), s1)
      else case struct_of obj of
        None \<Rightarrow> (Some (Panic ''All types must be pointers to structs.''), s1)
      | Some t \<Rightarrow>
          (case fmlookup (sc_gvkToType s1) k of
             Some oldT \<Rightarrow>
               if oldT \<noteq> t then
                 (Some (Panic (''Double registration of different types for '' @ GVKString k)), s1)
               else if k \<in> set (kinds_of s1 t) then (None, s1)
               else (None, s1\<lparr>sc_typeToGVK := fmupd t (kinds_of s1 t @ [k]) (sc_typeToGVK s1)\<rparr>)
           | None \<Rightarrow>
               (let s2 = s1\<lparr>sc_gvkToType := fmupd k t (sc_gvkToType s1)\<rparr> in
                if k \<in> set (kinds_of s2 t) then (None, s2)
                else (None, s2\<lparr>sc_typeToGVK := fmupd t (kinds_of s2 t @ [k]) (sc_typeToGVK s2)\<rparr>))))"

text \<open>Two registrations one after the other; the first error ends them.\<close>

definition then_register :: "registration_func \<Rightarrow> registration_func \<Rightarrow> registration_func" where
  "then_register f g s = (case f s of (Some err, s') \<Rightarrow> (Some err, s') | (None, s') \<Rightarrow> g s')"

fun register_all :: "registration_func list \<Rightarrow> registration_func" where
  "register_all [] s = (None, s)"
| "register_all (f # fs) s = then_register f (register_all fs) s"

definition addKnownType :: "gv \<Rightarrow> go_type \<Rightarrow> registration_func" where
  "addKnownType gv obj s =
     (case obj of
        PointerType t \<Rightarrow> AddKnownTypeWithName (gvWithKind gv (TypeName t)) obj s
      | _ \<Rightarrow> (Some (Panic ''All types must be pointers to structs.''), s))"

definition AddKnownTypes :: "gv \<Rightarrow> go_type list \<Rightarrow> registration_func" where
  "AddKnownTypes gv types s = register_all (map (addKnownType gv) types) (addObservedVersion gv s)"

definition addUnversionedType :: "gv \<Rightarrow> go_type \<Rightarrow> registration_func" where
  "addUnversionedType version obj s =
     (case struct_of obj of
        None \<Rightarrow> (Some (Panic ''All types must be pointers to structs.''), s)
      | Some t \<Rightarrow>
          (let k = gvWithKind version (TypeName t);
               s1 = s\<lparr>sc_unversionedTypes := fmupd t k (sc_unversionedTypes s)\<rparr> in
           if (case fmlookup (sc_unversionedKinds s1) (TypeName t) of Some old \<Rightarrow> t \<noteq> old | None \<Rightarrow> False) then
             (Some (Panic (TypeString t @ '' has already been registered as unversioned kind'')), s1)
           else (None, s1\<lparr>sc_unversionedKinds := fmupd (TypeName t) t (sc_unversionedKinds s1)\<rparr>)))"

definition AddUnversionedTypes :: "gv \<Rightarrow> go_type list \<Rightarrow> registration_func" where
  "AddUnversionedTypes version types s =
     then_register (AddKnownTypes version types) (register_all (map (addUnversionedType version) types))
       (addObservedVersion version s)"

section \<open>Reading a scheme\<close>

definition Recognizes :: "type_scheme \<Rightarrow> gvk \<Rightarrow> bool" where
  "Recognizes s k = (fmlookup (sc_gvkToType s) k \<noteq> None)"

definition NewNotRegisteredErrForType :: "string \<Rightarrow> go_type \<Rightarrow> go_error" where
  "NewNotRegisteredErrForType name t =
     ErrorString (''no kind is registered for the type '' @ TypeString t @ '' in scheme '' @
       [CHR 0x22] @ name @ [CHR 0x22])"

definition NewNotRegisteredErrForKind :: "string \<Rightarrow> gvk \<Rightarrow> go_error" where
  "NewNotRegisteredErrForKind name k =
     (case k of (grp, version, kind) \<Rightarrow> ErrorString
       (if kind = [] then ''no version '' @ [CHR 0x22] @ GroupVersionString (grp, version) @ [CHR 0x22] @
            '' has been registered in scheme '' @ [CHR 0x22] @ name @ [CHR 0x22]
        else if version = APIVersionInternal then ''no kind '' @ [CHR 0x22] @ kind @ [CHR 0x22] @
            '' is registered for the internal version of group '' @ [CHR 0x22] @ grp @ [CHR 0x22] @
            '' in scheme '' @ [CHR 0x22] @ name @ [CHR 0x22]
        else ''no kind '' @ [CHR 0x22] @ kind @ [CHR 0x22] @ '' is registered for version '' @
            [CHR 0x22] @ GroupVersionString (grp, version) @ [CHR 0x22] @
            '' in scheme '' @ [CHR 0x22] @ name @ [CHR 0x22]))"

text \<open>The type of the object \<^verbatim>\<open>New\<close> makes: a zero value of it.\<close>

definition SchemeNew :: "type_scheme \<Rightarrow> gvk \<Rightarrow> go_error + go_type" where
  "SchemeNew s k =
     (case fmlookup (sc_gvkToType s) k of
        Some t \<Rightarrow> Inr (PointerType t)
      | None \<Rightarrow>
          (case fmlookup (sc_unversionedKinds s) (snd (snd k)) of
             Some t \<Rightarrow> Inr (PointerType t)
           | None \<Rightarrow> Inl (NewNotRegisteredErrForKind (sc_schemeName s) k)))"

text \<open>\<open>ObjectKinds\<close> of an object that is not unstructured, by its type.\<close>

definition TypeKinds :: "type_scheme \<Rightarrow> go_type \<Rightarrow> go_error + gvk list \<times> bool" where
  "TypeKinds s obj =
     (case obj of
        PointerType t \<Rightarrow>
          (case fmlookup (sc_typeToGVK s) t of
             None \<Rightarrow> Inl (NewNotRegisteredErrForType (sc_schemeName s) t)
           | Some ks \<Rightarrow> Inr (ks, fmlookup (sc_unversionedTypes s) t \<noteq> None))
      | _ \<Rightarrow> Inl (ErrorString (''expected pointer, but got '' @ TypeString obj)))"

section \<open>Builders\<close>

type_synonym scheme_builder = "registration_func list"

definition builderRegister :: "registration_func list \<Rightarrow> scheme_builder \<Rightarrow> scheme_builder" where
  "builderRegister funcs sb = sb @ funcs"

definition NewSchemeBuilder :: "registration_func list \<Rightarrow> scheme_builder" where
  "NewSchemeBuilder funcs = builderRegister funcs []"

definition builderAddToScheme :: "scheme_builder \<Rightarrow> registration_func" where
  "builderAddToScheme sb s = register_all sb s"

text \<open>\<^verbatim>\<open>utilruntime.Must\<close>: a panic passes through, an error becomes one.\<close>

definition must :: "go_error option \<times> type_scheme \<Rightarrow> go_error option \<times> type_scheme" where
  "must r = (case r of
     (Some (Panic msg), s) \<Rightarrow> (Some (Panic msg), s)
   | (Some err, s) \<Rightarrow> (Some (Panic (ErrorText err)), s)
   | (None, s) \<Rightarrow> (None, s))"

section \<open>What the program registers\<close>

definition metav1_type :: "string \<Rightarrow> go_type" where
  "metav1_type name = PointerType (StructType ''k8s.io/apimachinery/pkg/apis/meta/v1'' name)"

definition climanager_type :: "string \<Rightarrow> go_type" where
  "climanager_type name =
     PointerType (StructType ''github.com/openshift/cli-manager-operator/pkg/apis/climanager/v1'' name)"

definition optionsTypes :: "go_type list" where
  "optionsTypes = map metav1_type
     [''ListOptions'', ''GetOptions'', ''DeleteOptions'', ''CreateOptions'', ''UpdateOptions'', ''PatchOptions'']"

definition Unversioned :: gv where "Unversioned = ([], ''v1'')"

definition unversioned_types :: "go_type list" where
  "unversioned_types = map metav1_type
     [''Status'', ''APIVersions'', ''APIGroupList'', ''APIGroup'', ''APIResourceList'']"

definition AddToGroupVersion :: "gv \<Rightarrow> registration_func" where
  "AddToGroupVersion groupVersion =
     register_all
       [AddKnownTypeWithName (gvWithKind groupVersion ''WatchEvent'') (metav1_type ''WatchEvent''),
        AddKnownTypeWithName (gvWithKind (fst groupVersion, APIVersionInternal) ''WatchEvent'') (metav1_type ''InternalEvent''),
        AddKnownTypes groupVersion optionsTypes,
        AddUnversionedTypes Unversioned unversioned_types]"

definition addKnownTypes :: registration_func where
  "addKnownTypes =
     then_register (AddKnownTypes SchemeGroupVersion (map climanager_type [''CliManager'', ''CliManagerList'']))
       (AddToGroupVersion SchemeGroupVersion)"

text \<open>The package variable after \<^verbatim>\<open>init\<close>, which registers the same function once more.\<close>

definition climanagerSchemeBuilder :: scheme_builder where
  "climanagerSchemeBuilder = builderRegister [addKnownTypes] (NewSchemeBuilder [addKnownTypes])"

definition climanagerAddToScheme :: registration_func where
  "climanagerAddToScheme = builderAddToScheme climanagerSchemeBuilder"

definition RegisterDefaults :: registration_func where
  "RegisterDefaults s = (None, s)"

definition localSchemeBuilder :: scheme_builder where
  "localSchemeBuilder = [climanagerAddToScheme]"

definition AddToScheme :: registration_func where
  "AddToScheme = builderAddToScheme localSchemeBuilder"

text \<open>The \<^verbatim>\<open>init\<close> of the clientset's scheme package and, line by line the same, of the fake's.\<close>

definition init_scheme :: registration_func where
  "init_scheme = then_register (AddToGroupVersion ([], ''v1'')) (\<lambda>s. must (AddToScheme s))"

definition fakeLocalSchemeBuilder :: scheme_builder where
  "fakeLocalSchemeBuilder = [climanagerAddToScheme]"

definition fakeAddToScheme :: registration_func where
  "fakeAddToScheme = builderAddToScheme fakeLocalSchemeBuilder"

definition init_fake_scheme :: registration_func where
  "init_fake_scheme = then_register (AddToGroupVersion ([], ''v1'')) (\<lambda>s. must (fakeAddToScheme s))"

section \<open>Registrations\<close>

text \<open>The two tables agree: a type has exactly the kinds that lead to it.\<close>

definition scheme_ok :: "type_scheme \<Rightarrow> bool" where
  "scheme_ok s \<longleftrightarrow> (\<forall>k t. fmlookup (sc_gvkToType s) k = Some t \<longleftrightarrow> k \<in> set (kinds_of s t)) \<and>
     (\<forall>t ks. fmlookup (sc_typeToGVK s) t = Some ks \<longrightarrow> ks \<noteq> [] \<and> distinct ks)"

lemma NewScheme_ok: "scheme_ok (NewScheme name)"
  by (simp add: scheme_ok_def NewScheme_def kinds_of_def)

text \<open>What a scheme has learned it keeps.\<close>

definition extends :: "type_scheme \<Rightarrow> type_scheme \<Rightarrow> bool" where
  "extends s s' \<longleftrightarrow>
     (\<forall>k t. fmlookup (sc_gvkToType s) k = Some t \<longrightarrow> fmlookup (sc_gvkToType s') k = Some t) \<and>
     (\<forall>t. set (kinds_of s t) \<subseteq> set (kinds_of s' t)) \<and>
     (\<forall>t. fmlookup (sc_unversionedTypes s) t = Some (gvWithKind Unversioned (TypeName t)) \<longrightarrow>
        fmlookup (sc_unversionedTypes s') t = Some (gvWithKind Unversioned (TypeName t))) \<and>
     (\<forall>kind t. fmlookup (sc_unversionedKinds s) kind = Some t \<longrightarrow> fmlookup (sc_unversionedKinds s') kind = Some t) \<and>
     set (sc_observedVersions s) \<subseteq> set (sc_observedVersions s')"

lemma extends_refl [simp]: "extends s s"
  by (simp add: extends_def)

lemma extendsD:
  assumes "extends s s'"
  shows "fmlookup (sc_gvkToType s) k = Some t \<Longrightarrow> fmlookup (sc_gvkToType s') k = Some t"
    and "k \<in> set (kinds_of s t) \<Longrightarrow> k \<in> set (kinds_of s' t)"
    and "fmlookup (sc_unversionedTypes s) t = Some (gvWithKind Unversioned (TypeName t)) \<Longrightarrow>
      fmlookup (sc_unversionedTypes s') t = Some (gvWithKind Unversioned (TypeName t))"
    and "fmlookup (sc_unversionedKinds s) kind = Some t \<Longrightarrow> fmlookup (sc_unversionedKinds s') kind = Some t"
    and "v \<in> set (sc_observedVersions s) \<Longrightarrow> v \<in> set (sc_observedVersions s')"
  using assms unfolding extends_def by blast+

lemma extends_trans [trans]: "extends s s' \<Longrightarrow> extends s' s'' \<Longrightarrow> extends s s''"
  unfolding extends_def by blast

text \<open>The contract of a registration function. It keeps the tables consistent and what was registered, and once it
  has succeeded it does nothing any more, whatever else is registered in between.\<close>

locale registration =
  fixes f :: registration_func
  assumes keeps: "scheme_ok s \<Longrightarrow> scheme_ok (snd (f s))"
    and grows: "extends s (snd (f s))"
    and settles: "f s = (None, s') \<Longrightarrow> extends s' s'' \<Longrightarrow> f s'' = (None, s'')"
    and panics: "fst (f s) = Some err \<Longrightarrow> \<exists>msg. err = Panic msg"
begin

lemma again: "f s = (None, s') \<Longrightarrow> f s' = (None, s')"
  using settles [of s s' s'] by simp

end

lemma registration_then:
  assumes "registration f" "registration g"
  shows "registration (then_register f g)"
proof (rule registration.intro)
  fix s
  show "scheme_ok (snd (then_register f g s))" if "scheme_ok s"
    using registration.keeps [OF assms(1) that] registration.keeps [OF assms(2), of "snd (f s)"]
    by (cases "f s") (auto simp: then_register_def split: option.split)
  show "extends s (snd (then_register f g s))"
    using registration.grows [OF assms(1), of s] registration.grows [OF assms(2), of "snd (f s)"]
    by (cases "f s") (auto simp: then_register_def split: option.split intro: extends_trans)
  fix s' s''
  assume run: "then_register f g s = (None, s')" and ext: "extends s' s''"
  then obtain s1 where s1: "f s = (None, s1)" "g s1 = (None, s')"
    by (auto simp: then_register_def split: prod.splits option.splits)
  then have "extends s1 s''" using registration.grows [OF assms(2), of s1] ext by (auto intro: extends_trans)
  then show "then_register f g s'' = (None, s'')"
    using registration.settles [OF assms(1) s1(1)] registration.settles [OF assms(2) s1(2) ext]
    by (simp add: then_register_def)
next
  fix s err
  assume "fst (then_register f g s) = Some err"
  then show "\<exists>msg. err = Panic msg"
    using registration.panics [OF assms(1), of s err] registration.panics [OF assms(2), of "snd (f s)" err]
    by (cases "f s") (auto simp: then_register_def split: option.splits)
qed

lemma registration_all: "list_all registration fs \<Longrightarrow> registration (register_all fs)"
proof (induction fs)
  case Nil
  show ?case by unfold_locales simp_all
next
  case (Cons f fs)
  then have "registration (then_register f (register_all fs))" by (simp add: registration_then)
  moreover have "register_all (f # fs) = then_register f (register_all fs)" by (rule ext) simp
  ultimately show ?case by simp
qed

lemma observed_simps [simp]:
  "sc_gvkToType (addObservedVersion v s) = sc_gvkToType s"
  "sc_typeToGVK (addObservedVersion v s) = sc_typeToGVK s"
  "sc_unversionedTypes (addObservedVersion v s) = sc_unversionedTypes s"
  "sc_unversionedKinds (addObservedVersion v s) = sc_unversionedKinds s"
  "kinds_of (addObservedVersion v s) = kinds_of s"
  by (simp_all add: addObservedVersion_def kinds_of_def fun_eq_iff)

lemma observed_grows: "extends s (addObservedVersion v s)"
  by (auto simp: extends_def addObservedVersion_def kinds_of_def)

lemma observed_ok [simp]: "scheme_ok (addObservedVersion v s) = scheme_ok s"
  by (simp add: scheme_ok_def)

lemma observed_known:
  "(snd v \<noteq> [] \<Longrightarrow> snd v \<noteq> APIVersionInternal \<Longrightarrow> v \<in> set (sc_observedVersions s)) \<Longrightarrow> addObservedVersion v s = s"
  by (auto simp: addObservedVersion_def)

lemma observed_settles: "extends (addObservedVersion v s) s'' \<Longrightarrow> addObservedVersion v s'' = s''"
  by (auto simp: addObservedVersion_def extends_def split: if_splits)

lemma registration_observed:
  assumes "registration f"
  shows "registration (\<lambda>s. f (addObservedVersion v s))"
proof (rule registration.intro)
  fix s s' s''
  show "scheme_ok s \<Longrightarrow> scheme_ok (snd (f (addObservedVersion v s)))"
    by (rule registration.keeps [OF assms]) simp
  show "extends s (snd (f (addObservedVersion v s)))"
    by (rule extends_trans [OF observed_grows registration.grows [OF assms]])
  assume f: "f (addObservedVersion v s) = (None, s')" and ext: "extends s' s''"
  have "extends (addObservedVersion v s) s''"
    using registration.grows [OF assms, of "addObservedVersion v s"] f ext by (auto intro: extends_trans)
  then show "f (addObservedVersion v s'') = (None, s'')"
    using registration.settles [OF assms f ext] by (simp add: observed_settles)
qed (rule registration.panics [OF assms])

text \<open>One type under one kind.\<close>

lemma AddKnownTypeWithName_cases:
  assumes "AddKnownTypeWithName k obj s = (r, s')"
  obtains err where "r = Some err" "s' = addObservedVersion (GroupVersion k) s"
  | t where "r = None" "snd (GroupVersion k) \<noteq> []" "struct_of obj = Some t"
      "fmlookup (sc_gvkToType s) k = None \<or> fmlookup (sc_gvkToType s) k = Some t"
      "s' = (addObservedVersion (GroupVersion k) s)
        \<lparr>sc_gvkToType := fmupd k t (sc_gvkToType s),
         sc_typeToGVK := (if k \<in> set (kinds_of s t) then sc_typeToGVK s
           else fmupd t (kinds_of s t @ [k]) (sc_typeToGVK s))\<rparr>"
proof (cases "struct_of obj")
  case None
  with assms that(1) show thesis by (auto simp: AddKnownTypeWithName_def Let_def split: if_splits)
next
  case (Some t)
  have kinds: "kinds_of (addObservedVersion v s\<lparr>sc_gvkToType := m\<rparr>) = kinds_of s" for v m
    by (simp add: kinds_of_def fun_eq_iff)
  show thesis
    using assms that Some
    by (auto simp: AddKnownTypeWithName_def Let_def kinds fmupd_same split: if_splits option.splits)
qed

lemma kinds_upd: "kinds_of (s\<lparr>sc_gvkToType := m, sc_typeToGVK := fmupd t ks n\<rparr>) u =
    (if u = t then ks else kinds_of (s\<lparr>sc_typeToGVK := n\<rparr>) u)"
  by (simp add: kinds_of_def)

lemma kinds_same [simp]:
  "kinds_of (s\<lparr>sc_gvkToType := m\<rparr>) = kinds_of s"
  "kinds_of (s\<lparr>sc_typeToGVK := sc_typeToGVK s\<rparr>) = kinds_of s"
  "kinds_of (s\<lparr>sc_unversionedTypes := u\<rparr>) = kinds_of s"
  "kinds_of (s\<lparr>sc_unversionedKinds := v\<rparr>) = kinds_of s"
  by (simp_all add: kinds_of_def fun_eq_iff)

interpretation known_type: registration "AddKnownTypeWithName k obj" for k obj
proof unfold_locales
  fix s s' s''
  obtain r s1 where run: "AddKnownTypeWithName k obj s = (r, s1)" by fastforce
  show "extends s (snd (AddKnownTypeWithName k obj s))"
    using run
  proof (rule AddKnownTypeWithName_cases)
    fix err assume "s1 = addObservedVersion (GroupVersion k) s"
    then show ?thesis using run observed_grows by simp
  next
    fix t assume t: "fmlookup (sc_gvkToType s) k = None \<or> fmlookup (sc_gvkToType s) k = Some t"
      "s1 = (addObservedVersion (GroupVersion k) s)
        \<lparr>sc_gvkToType := fmupd k t (sc_gvkToType s),
         sc_typeToGVK := (if k \<in> set (kinds_of s t) then sc_typeToGVK s
           else fmupd t (kinds_of s t @ [k]) (sc_typeToGVK s))\<rparr>"
    have "set (kinds_of s u) \<subseteq> set (kinds_of s1 u)" for u
      by (auto simp: t(2) kinds_of_def)
    moreover have "extends s (addObservedVersion (GroupVersion k) s)" by (rule observed_grows)
    ultimately show ?thesis using t by (auto simp: run extends_def)
  qed
  show "scheme_ok (snd (AddKnownTypeWithName k obj s))" if ok: "scheme_ok s"
    using run
  proof (rule AddKnownTypeWithName_cases)
    fix err assume "s1 = addObservedVersion (GroupVersion k) s"
    then show ?thesis using run ok by simp
  next
    fix t assume t: "fmlookup (sc_gvkToType s) k = None \<or> fmlookup (sc_gvkToType s) k = Some t"
      "s1 = (addObservedVersion (GroupVersion k) s)
        \<lparr>sc_gvkToType := fmupd k t (sc_gvkToType s),
         sc_typeToGVK := (if k \<in> set (kinds_of s t) then sc_typeToGVK s
           else fmupd t (kinds_of s t @ [k]) (sc_typeToGVK s))\<rparr>"
    have kinds: "set (kinds_of s1 u) = (if u = t then insert k (set (kinds_of s t)) else set (kinds_of s u))" for u
      by (auto simp: t(2) kinds_of_def)
    have types: "fmlookup (sc_gvkToType s1) l = (if l = k then Some t else fmlookup (sc_gvkToType s) l)" for l
      by (simp add: t(2))
    have agree: "fmlookup (sc_gvkToType s) l = Some u \<longleftrightarrow> l \<in> set (kinds_of s u)" for l u
      using ok unfolding scheme_ok_def by blast
    have "fmlookup (sc_gvkToType s1) l = Some u \<longleftrightarrow> l \<in> set (kinds_of s1 u)" for l u
      using t(1) agree [of l u] agree [of l t] by (auto simp: kinds types)
    moreover have "ks \<noteq> [] \<and> distinct ks" if "fmlookup (sc_typeToGVK s1) u = Some ks" for u ks
    proof (cases "u = t \<and> k \<notin> set (kinds_of s t)")
      case True
      then have "ks = kinds_of s t @ [k]" using that t(2) by simp
      moreover have "distinct (kinds_of s t)"
        using ok by (auto simp: scheme_ok_def kinds_of_def split: option.split)
      ultimately show ?thesis using True by simp
    next
      case False
      then have "fmlookup (sc_typeToGVK s) u = Some ks" using that t(2) by (auto split: if_splits)
      then show ?thesis using ok by (simp add: scheme_ok_def)
    qed
    ultimately show ?thesis unfolding run snd_conv scheme_ok_def by blast
  qed
  assume added: "AddKnownTypeWithName k obj s = (None, s')" and ext: "extends s' s''"
  show "AddKnownTypeWithName k obj s'' = (None, s'')"
    using added
  proof (rule AddKnownTypeWithName_cases)
    fix t assume t: "snd (GroupVersion k) \<noteq> []" "struct_of obj = Some t"
      "s' = (addObservedVersion (GroupVersion k) s)
        \<lparr>sc_gvkToType := fmupd k t (sc_gvkToType s),
         sc_typeToGVK := (if k \<in> set (kinds_of s t) then sc_typeToGVK s
           else fmupd t (kinds_of s t @ [k]) (sc_typeToGVK s))\<rparr>"
    have "k \<in> set (kinds_of s' t)" by (auto simp: t(3) kinds_of_def)
    then have k: "fmlookup (sc_gvkToType s'') k = Some t" "k \<in> set (kinds_of s'' t)"
      using ext by (auto intro: extendsD(1,2) simp: t(3))
    have "addObservedVersion (GroupVersion k) s'' = s''"
      by (rule observed_known) (auto intro!: extendsD(5) [OF ext] simp: t(3) addObservedVersion_def)
    then show ?thesis using t(1,2) k by (simp add: AddKnownTypeWithName_def Let_def)
  qed simp
next
  fix s err
  assume "fst (AddKnownTypeWithName k obj s) = Some err"
  then show "\<exists>msg. err = Panic msg"
    by (auto simp: AddKnownTypeWithName_def Let_def split: if_splits option.splits)
qed

interpretation known_pointer: registration "addKnownType gv obj" for gv obj
proof (cases obj)
  case (PointerType t)
  then have "addKnownType gv obj = AddKnownTypeWithName (gvWithKind gv (TypeName t)) obj"
    by (simp add: addKnownType_def fun_eq_iff)
  then show "registration (addKnownType gv obj)" by (simp add: known_type.registration_axioms)
qed (unfold_locales, auto simp: addKnownType_def)

interpretation known_types: registration "AddKnownTypes gv types" for gv types
proof -
  have "registration (register_all (map (addKnownType gv) types))"
    by (rule registration_all) (simp add: list_all_iff known_pointer.registration_axioms)
  then have "registration (\<lambda>s. register_all (map (addKnownType gv) types) (addObservedVersion gv s))"
    by (rule registration_observed)
  then show "registration (AddKnownTypes gv types)" by (simp add: AddKnownTypes_def [abs_def])
qed

interpretation unversioned_type: registration "addUnversionedType Unversioned obj" for obj
proof unfold_locales
  fix s s' s''
  show "scheme_ok s \<Longrightarrow> scheme_ok (snd (addUnversionedType Unversioned obj s))"
    by (simp add: addUnversionedType_def Let_def scheme_ok_def split: option.split)
  show "extends s (snd (addUnversionedType Unversioned obj s))"
    by (auto simp: addUnversionedType_def Let_def extends_def split: option.split)
  assume run: "addUnversionedType Unversioned obj s = (None, s')" and ext: "extends s' s''"
  from run obtain t where t: "struct_of obj = Some t"
    "s' = s\<lparr>sc_unversionedTypes := fmupd t (gvWithKind Unversioned (TypeName t)) (sc_unversionedTypes s),
            sc_unversionedKinds := fmupd (TypeName t) t (sc_unversionedKinds s)\<rparr>"
    by (auto simp: addUnversionedType_def Let_def split: option.splits if_splits)
  then have "fmlookup (sc_unversionedTypes s'') t = Some (gvWithKind Unversioned (TypeName t))"
    "fmlookup (sc_unversionedKinds s'') (TypeName t) = Some t"
    using extendsD(3,4) [OF ext] by simp_all
  then show "addUnversionedType Unversioned obj s'' = (None, s'')"
    by (simp add: addUnversionedType_def t(1) fmupd_same)
next
  fix s err
  assume "fst (addUnversionedType Unversioned obj s) = Some err"
  then show "\<exists>msg. err = Panic msg"
    by (auto simp: addUnversionedType_def Let_def split: if_splits option.splits)
qed

interpretation unversioned_types: registration "AddUnversionedTypes Unversioned types" for types
proof -
  have "registration (then_register (AddKnownTypes Unversioned types)
      (register_all (map (addUnversionedType Unversioned) types)))"
    by (intro registration_then known_types.registration_axioms registration_all)
      (simp add: list_all_iff unversioned_type.registration_axioms)
  then have "registration (\<lambda>s. then_register (AddKnownTypes Unversioned types)
      (register_all (map (addUnversionedType Unversioned) types)) (addObservedVersion Unversioned s))"
    by (rule registration_observed)
  then show "registration (AddUnversionedTypes Unversioned types)" by (simp add: AddUnversionedTypes_def [abs_def])
qed

interpretation group_version: registration "AddToGroupVersion gv" for gv
  unfolding AddToGroupVersion_def
  by (rule registration_all) (simp add: known_type.registration_axioms known_types.registration_axioms
      unversioned_types.registration_axioms)

interpretation climanager_types: registration addKnownTypes
  unfolding addKnownTypes_def
  by (rule registration_then) (simp_all add: known_types.registration_axioms group_version.registration_axioms)

lemma registration_builder: "list_all registration sb \<Longrightarrow> registration (builderAddToScheme sb)"
  by (simp add: builderAddToScheme_def [abs_def] registration_all)

interpretation climanager_scheme: registration climanagerAddToScheme
  unfolding climanagerAddToScheme_def
  by (rule registration_builder)
    (simp add: climanagerSchemeBuilder_def builderRegister_def NewSchemeBuilder_def climanager_types.registration_axioms)

interpretation client_scheme: registration AddToScheme
  unfolding AddToScheme_def
  by (rule registration_builder) (simp add: localSchemeBuilder_def climanager_scheme.registration_axioms)

text \<open>Registering a function twice, as the package of the types does, is registering it once.\<close>

lemma then_register_twice:
  assumes "registration f"
  shows "then_register f f = f"
proof
  fix s
  show "then_register f f s = f s"
    using registration.again [OF assms, of s "snd (f s)"]
    by (cases "f s") (simp add: then_register_def split: option.split)
qed

lemma then_register_none [simp]: "then_register f (\<lambda>s. (None, s)) = f"
  by (auto simp: then_register_def fun_eq_iff split: prod.split option.split)

lemma climanagerAddToScheme_once: "climanagerAddToScheme = addKnownTypes"
proof -
  have "register_all [] = (\<lambda>s. (None, s))" by (simp add: fun_eq_iff)
  then have "register_all [addKnownTypes, addKnownTypes] = then_register addKnownTypes addKnownTypes"
    by (simp add: fun_eq_iff then_register_def split: prod.split option.split)
  then show ?thesis
    by (simp add: climanagerAddToScheme_def builderAddToScheme_def [abs_def] climanagerSchemeBuilder_def
        NewSchemeBuilder_def builderRegister_def then_register_twice climanager_types.registration_axioms)
qed

lemma AddToScheme_once: "AddToScheme = addKnownTypes"
proof
  fix s
  show "AddToScheme s = addKnownTypes s"
    by (simp add: AddToScheme_def builderAddToScheme_def localSchemeBuilder_def climanagerAddToScheme_once
        then_register_def split: prod.split option.split)
qed

section \<open>The schemes of the program\<close>

lemma must_registration: "registration f \<Longrightarrow> must (f s) = f s"
  using registration.panics [of f s] by (cases "f s") (auto simp: must_def split: option.split)

lemma init_scheme_once:
  "init_scheme = then_register (AddToGroupVersion ([], ''v1'')) addKnownTypes"
  by (simp add: init_scheme_def AddToScheme_once must_registration climanager_types.registration_axioms)

lemma init_fake_scheme_same: "init_fake_scheme = init_scheme"
  by (simp add: init_fake_scheme_def init_scheme_def fakeAddToScheme_def AddToScheme_def
      fakeLocalSchemeBuilder_def localSchemeBuilder_def)

interpretation scheme_init: registration init_scheme
  unfolding init_scheme_once
  by (simp add: registration_then group_version.registration_axioms climanager_types.registration_axioms)

text \<open>The variables \<^verbatim>\<open>Scheme\<close> and \<^verbatim>\<open>scheme\<close> of the two packages once the program runs; a scheme is
  named after the line that made it.\<close>

definition client_type_scheme :: type_scheme where
  "client_type_scheme = snd (init_scheme (NewScheme ''pkg/generated/clientset/versioned/scheme/register.go:14''))"

definition fake_type_scheme :: type_scheme where
  "fake_type_scheme = snd (init_fake_scheme (NewScheme ''pkg/generated/clientset/versioned/fake/register.go:14''))"

text \<open>The registrations of \<open>addKnownTypes\<close> that a success leaves behind.\<close>

lemma known_type_registered:
  "AddKnownTypeWithName k (PointerType (StructType pkg name)) s = (None, s') \<Longrightarrow>
     fmlookup (sc_gvkToType s') k = Some (StructType pkg name)"
  by (erule AddKnownTypeWithName_cases) simp_all

lemma then_registerE:
  assumes "then_register f g s = (None, s')"
  obtains s1 where "f s = (None, s1)" "g s1 = (None, s')"
  using assms by (auto simp: then_register_def split: prod.splits option.splits)

lemma AddKnownTypes_registers:
  assumes "AddKnownTypes gv types s = (None, s')" "PointerType (StructType pkg name) \<in> set types"
  shows "fmlookup (sc_gvkToType s') (gvWithKind gv name) = Some (StructType pkg name)"
proof -
  have "register_all (map (addKnownType gv) types) s1 = (None, s') \<Longrightarrow> ?thesis" for s1
    using assms(2)
  proof (induction types arbitrary: s1)
    case (Cons obj types)
    from Cons.prems(1) obtain s2 where s2: "addKnownType gv obj s1 = (None, s2)"
      "register_all (map (addKnownType gv) types) s2 = (None, s')"
      by (auto elim: then_registerE)
    have grows: "extends s2 s'"
      using registration.grows [OF registration_all, of "map (addKnownType gv) types" s2] s2(2)
      by (simp add: list_all_iff known_pointer.registration_axioms)
    show ?case
    proof (cases "obj = PointerType (StructType pkg name)")
      case True
      then have "fmlookup (sc_gvkToType s2) (gvWithKind gv name) = Some (StructType pkg name)"
        using s2(1) by (simp add: addKnownType_def known_type_registered)
      then show ?thesis by (rule extendsD(1) [OF grows])
    next
      case False
      then show ?thesis using Cons.IH [OF s2(2)] Cons.prems(2) by simp
    qed
  qed simp
  then show ?thesis using assms(1) unfolding AddKnownTypes_def by blast
qed

lemma ok_kinds:
  assumes "scheme_ok s" "fmlookup (sc_gvkToType s) k = Some t"
  obtains ks where "fmlookup (sc_typeToGVK s) t = Some ks" "k \<in> set ks"
proof -
  have "k \<in> set (kinds_of s t)" using assms unfolding scheme_ok_def by blast
  then show thesis using that by (cases "fmlookup (sc_typeToGVK s) t") (simp_all add: kinds_of_def)
qed

lemma AddToScheme_makes:
  assumes "scheme_ok s'" "AddToScheme s = (None, s')" "name = ''CliManager'' \<or> name = ''CliManagerList''"
  shows "SchemeNew s' (gvWithKind SchemeGroupVersion name) = Inr (climanager_type name) \<and>
    (\<exists>ks u. TypeKinds s' (climanager_type name) = Inr (ks, u) \<and> gvWithKind SchemeGroupVersion name \<in> set ks)"
proof -
  from assms(2) obtain s1 where
    s1: "AddKnownTypes SchemeGroupVersion (map climanager_type [''CliManager'', ''CliManagerList'']) s = (None, s1)"
    "AddToGroupVersion SchemeGroupVersion s1 = (None, s')"
    by (auto simp: AddToScheme_once addKnownTypes_def elim: then_registerE)
  have "fmlookup (sc_gvkToType s1) (gvWithKind SchemeGroupVersion name) =
      Some (StructType ''github.com/openshift/cli-manager-operator/pkg/apis/climanager/v1'' name)"
    by (rule AddKnownTypes_registers [OF s1(1)]) (use assms(3) in \<open>auto simp: climanager_type_def\<close>)
  moreover have "extends s1 s'" using group_version.grows [of s1 SchemeGroupVersion] s1(2) by simp
  ultimately have new: "fmlookup (sc_gvkToType s') (gvWithKind SchemeGroupVersion name) =
      Some (StructType ''github.com/openshift/cli-manager-operator/pkg/apis/climanager/v1'' name)"
    by (rule extendsD(1) [rotated])
  from ok_kinds [OF assms(1) new] obtain ks where
    ks: "fmlookup (sc_typeToGVK s') (StructType ''github.com/openshift/cli-manager-operator/pkg/apis/climanager/v1'' name) = Some ks"
    "gvWithKind SchemeGroupVersion name \<in> set ks" .
  have "TypeKinds s' (climanager_type name) =
      Inr (ks, fmlookup (sc_unversionedTypes s') (StructType ''github.com/openshift/cli-manager-operator/pkg/apis/climanager/v1'' name) \<noteq> None)"
    by (simp add: TypeKinds_def climanager_type_def ks(1))
  with new ks(2) show ?thesis by (auto simp: SchemeNew_def climanager_type_def)
qed

text \<open>C40: types and kinds. Registering the climanager types in a scheme whose tables agree leaves them agreeing: an
  object has a kind exactly if objects of that kind are made with its type. If it fails it panics. If it succeeds,
  the two climanager kinds make the two climanager types and are among their kinds, everything the scheme knew is
  still there, and registering again (as the package itself does) changes nothing.\<close>

theorem AddToScheme_types:
  assumes "scheme_ok s" and "AddToScheme s = (r, s')"
  shows "(\<forall>k t. fmlookup (sc_gvkToType s') k = Some t \<longleftrightarrow> k \<in> set (kinds_of s' t)) \<and>
    (case r of
      Some err \<Rightarrow> \<exists>msg. err = Panic msg
    | None \<Rightarrow> AddToScheme s' = (None, s') \<and>
        (\<forall>k t. fmlookup (sc_gvkToType s) k = Some t \<longrightarrow> fmlookup (sc_gvkToType s') k = Some t) \<and>
        (\<forall>name. name = ''CliManager'' \<or> name = ''CliManagerList'' \<longrightarrow>
          SchemeNew s' (''operator.openshift.io'', ''v1'', name) = Inr (climanager_type name) \<and>
          (\<exists>ks u. TypeKinds s' (climanager_type name) = Inr (ks, u) \<and> (''operator.openshift.io'', ''v1'', name) \<in> set ks)))"
proof (intro conjI)
  have ok: "scheme_ok s'" using client_scheme.keeps [OF assms(1)] assms(2) by simp
  then show "\<forall>k t. fmlookup (sc_gvkToType s') k = Some t \<longleftrightarrow> k \<in> set (kinds_of s' t)"
    unfolding scheme_ok_def by blast
  show "case r of
      Some err \<Rightarrow> \<exists>msg. err = Panic msg
    | None \<Rightarrow> AddToScheme s' = (None, s') \<and>
        (\<forall>k t. fmlookup (sc_gvkToType s) k = Some t \<longrightarrow> fmlookup (sc_gvkToType s') k = Some t) \<and>
        (\<forall>name. name = ''CliManager'' \<or> name = ''CliManagerList'' \<longrightarrow>
          SchemeNew s' (''operator.openshift.io'', ''v1'', name) = Inr (climanager_type name) \<and>
          (\<exists>ks u. TypeKinds s' (climanager_type name) = Inr (ks, u) \<and> (''operator.openshift.io'', ''v1'', name) \<in> set ks))"
  proof (cases r)
    case (Some err)
    then show ?thesis using client_scheme.panics [of s err] assms(2) by simp
  next
    case None
    then have run: "AddToScheme s = (None, s')" using assms(2) by simp
    have ext: "extends s s'" using client_scheme.grows [of s] run by simp
    have "AddToScheme s' = (None, s')" by (rule client_scheme.again [OF run])
    moreover note AddToScheme_makes [OF ok run, unfolded gvWithKind_def SchemeGroupVersion_def, simplified]
    ultimately show ?thesis using extendsD(1) [OF ext] by (simp add: None)
  qed
qed

theorem AddToScheme_types_witness:
  "\<exists>s'. AddToScheme (NewScheme ''fake'') = (None, s') \<and>
     SchemeNew s' (''operator.openshift.io'', ''v1'', ''CliManager'') = Inr (climanager_type ''CliManager'') \<and>
     AddToScheme s' = (None, s')"
proof -
  have "fst (AddToScheme (NewScheme ''fake'')) = None"
    unfolding AddToScheme_once by code_simp
  then obtain s' where s': "AddToScheme (NewScheme ''fake'') = (None, s')" by (cases "AddToScheme (NewScheme ''fake'')") auto
  from AddToScheme_types [OF NewScheme_ok s'] s' show ?thesis by simp
qed

text \<open>Types of other APIs the operator uses; none of them is in the scheme of the clientsets.\<close>

definition operand_types :: "go_type list" where
  "operand_types =
     map (\<lambda>(pkg, name). StructType pkg name)
       [(''k8s.io/api/rbac/v1'', ''Role''), (''k8s.io/api/rbac/v1'', ''RoleBinding''),
        (''k8s.io/api/rbac/v1'', ''ClusterRole''), (''k8s.io/api/rbac/v1'', ''ClusterRoleBinding''),
        (''k8s.io/api/core/v1'', ''ServiceAccount''), (''k8s.io/api/core/v1'', ''Service''),
        (''k8s.io/api/networking/v1'', ''NetworkPolicy''), (''k8s.io/api/apps/v1'', ''Deployment''),
        (''github.com/openshift/api/route/v1'', ''Route'')]"

lemma init_scheme_facts:
  "fst (init_scheme (NewScheme name)) = None \<and>
   (let s = snd (init_scheme (NewScheme name)) in
    TypeKinds s (climanager_type ''CliManager'') = Inr ([(''operator.openshift.io'', ''v1'', ''CliManager'')], False) \<and>
    SchemeNew s (''operator.openshift.io'', ''v1'', ''CliManagerList'') = Inr (climanager_type ''CliManagerList'') \<and>
    list_all (\<lambda>t. fmlookup (sc_typeToGVK s) t = None) operand_types)"
  unfolding init_scheme_once by code_simp

lemma fake_type_scheme_facts:
  "TypeKinds fake_type_scheme (climanager_type ''CliManager'') =
     Inr ([(''operator.openshift.io'', ''v1'', ''CliManager'')], False)"
  "SchemeNew fake_type_scheme (''operator.openshift.io'', ''v1'', ''CliManagerList'') =
     Inr (climanager_type ''CliManagerList'')"
  "t \<in> set operand_types \<Longrightarrow> TypeKinds fake_type_scheme (PointerType t) =
     Inl (NewNotRegisteredErrForType (sc_schemeName fake_type_scheme) t)"
  using init_scheme_facts [of "''pkg/generated/clientset/versioned/fake/register.go:14''"]
  by (simp_all add: fake_type_scheme_def init_fake_scheme_same Let_def list_all_iff TypeKinds_def)

end
