(* ===== verification/Fake_Clientset.thy ===== *)
theory Fake_Clientset
  imports Clientset Scheme_Types Sample_Cluster
begin

text \<open>
  What the constructors of the fake clientset
  (\<^verbatim>\<open>pkg/generated/clientset/versioned/fake\<close>) put into their object tracker: given objects,
  whose resource is guessed from their kind; and the table of apply configurations. The clientset
  itself is in \<open>Fake_Client\<close>.
\<close>

section \<open>From kinds to resources\<close>

text \<open>\<^verbatim>\<open>strings.ToLower\<close> on ASCII strings.\<close>

definition to_lower_char :: "char \<Rightarrow> char" where
  "to_lower_char c =
     (case map_of (zip ''ABCDEFGHIJKLMNOPQRSTUVWXYZ'' ''abcdefghijklmnopqrstuvwxyz'') c of
        Some l \<Rightarrow> l
      | None \<Rightarrow> c)"

definition ToLower :: "string \<Rightarrow> string" where
  "ToLower s = map to_lower_char s"

definition has_suffix :: "string \<Rightarrow> string \<Rightarrow> bool" where
  "has_suffix s t = suffix t s"

text \<open>The plural, of the two results of \<open>UnsafeGuessKindToResource\<close>.\<close>

definition UnsafeGuessKindToResource :: "gvk \<Rightarrow> gvr" where
  "UnsafeGuessKindToResource kind =
     (case kind of (grp, version, kindName) \<Rightarrow>
        if kindName = [] then ([], [], [])
        else let singularName = ToLower kindName in
          if has_suffix singularName ''endpoints'' then (grp, version, singularName)
          else if last singularName = CHR ''s'' then (grp, version, singularName @ ''es'')
          else if last singularName = CHR ''y'' then (grp, version, butlast singularName @ ''ies'')
          else (grp, version, singularName @ ''s''))"

definition cliManager_gvk :: gvk where
  "cliManager_gvk = (fst SchemeGroupVersion, snd SchemeGroupVersion, ''CliManager'')"

lemma guess_climanagers [simp]: "UnsafeGuessKindToResource cliManager_gvk = cliManager_gvr"
  by (simp add: UnsafeGuessKindToResource_def cliManager_gvk_def cliManager_gvr_def SchemeGroupVersion_def
      ToLower_def to_lower_char_def has_suffix_def suffix_def)

section \<open>Filling the tracker\<close>

text \<open>Objects as the constructors take them: single ones and lists of climanagers. Unstructured lists
  are not modelled.\<close>

datatype fake_object = Single kobject | CliManagerList "cli_manager list"

text \<open>The Go type of an object, and its kinds: those its type has in the scheme of the fake, or the one an
  unstructured object declares.\<close>

fun object_type :: "kobject \<Rightarrow> go_type" where
  "object_type (KRole _) = PointerType (StructType ''k8s.io/api/rbac/v1'' ''Role'')"
| "object_type (KRoleBinding _) = PointerType (StructType ''k8s.io/api/rbac/v1'' ''RoleBinding'')"
| "object_type (KClusterRole _) = PointerType (StructType ''k8s.io/api/rbac/v1'' ''ClusterRole'')"
| "object_type (KClusterRoleBinding _) = PointerType (StructType ''k8s.io/api/rbac/v1'' ''ClusterRoleBinding'')"
| "object_type (KServiceAccount _) = PointerType (StructType ''k8s.io/api/core/v1'' ''ServiceAccount'')"
| "object_type (KService _) = PointerType (StructType ''k8s.io/api/core/v1'' ''Service'')"
| "object_type (KNetworkPolicy _) = PointerType (StructType ''k8s.io/api/networking/v1'' ''NetworkPolicy'')"
| "object_type (KDeployment _) = PointerType (StructType ''k8s.io/api/apps/v1'' ''Deployment'')"
| "object_type (KRoute _) = PointerType (StructType ''github.com/openshift/api/route/v1'' ''Route'')"
| "object_type (KUnstructured _) =
     PointerType (StructType ''k8s.io/apimachinery/pkg/apis/meta/v1/unstructured'' ''Unstructured'')"
| "object_type (KCliManager _) = climanager_type ''CliManager''"

definition ObjectKinds :: "kobject \<Rightarrow> go_error + gvk list" where
  "ObjectKinds obj =
     (case obj of
        KUnstructured u \<Rightarrow>
          (case GroupVersionKind u of (grp, version, kind) \<Rightarrow>
             if kind = [] then Inl (ErrorString ''unstructured object has no kind'')
             else if version = [] then Inl (ErrorString ''unstructured object has no version'')
             else Inr [(grp, version, kind)])
      | _ \<Rightarrow> map_sum id fst (TypeKinds fake_type_scheme (object_type obj)))"

lemma ObjectKinds_climanager [simp]: "ObjectKinds (KCliManager cm) = Inr [cliManager_gvk]"
  by (simp add: ObjectKinds_def fake_type_scheme_facts(1) cliManager_gvk_def SchemeGroupVersion_def)

lemma ObjectKinds_other:
  assumes "object_type obj = PointerType t" "t \<in> set operand_types"
  shows "ObjectKinds obj = Inl (NewNotRegisteredErrForType (sc_schemeName fake_type_scheme) t)"
  using assms fake_type_scheme_facts(3) [OF assms(2)]
  by (cases obj) (auto simp: ObjectKinds_def operand_types_def)

definition guessed_resource :: "gvk \<Rightarrow> gvr" where
  "guessed_resource k =
     (case UnsafeGuessKindToResource k of (grp, version, resource) \<Rightarrow>
        (grp, if version = ''__internal'' then [] else version, resource))"

fun add_kinds :: "gvk list \<Rightarrow> kobject \<Rightarrow> tracker \<Rightarrow> go_error option \<times> tracker" where
  "add_kinds [] obj t = (None, t)"
| "add_kinds (k # ks) obj t =
     (case trackerAdd (guessed_resource k) obj (knamespace obj) False t of
        (Some err, t') \<Rightarrow> (Some err, t')
      | (None, t') \<Rightarrow> add_kinds ks obj t')"

definition addSingle :: "kobject \<Rightarrow> tracker \<Rightarrow> go_error option \<times> tracker" where
  "addSingle obj t =
     (case ObjectKinds obj of
        Inl err \<Rightarrow> (Some err, t)
      | Inr gvks \<Rightarrow>
          if gvks = [] then (Some (ErrorString ''no registered kinds''), t) else add_kinds gvks obj t)"

fun add_all :: "kobject list \<Rightarrow> tracker \<Rightarrow> go_error option \<times> tracker" where
  "add_all [] t = (None, t)"
| "add_all (ob # obs) t = (case addSingle ob t of (Some err, t') \<Rightarrow> (Some err, t') | (None, t') \<Rightarrow> add_all obs t')"

fun trackerAddObject :: "fake_object \<Rightarrow> tracker \<Rightarrow> go_error option \<times> tracker" where
  "trackerAddObject (Single obj) t = addSingle obj t"
| "trackerAddObject (CliManagerList items) t = add_all (map KCliManager items) t"

fun fill_tracker :: "fake_object list \<Rightarrow> tracker \<Rightarrow> go_error + tracker" where
  "fill_tracker [] t = Inr t"
| "fill_tracker (obj # objects) t =
     (case trackerAddObject obj t of
        (Some err, _) \<Rightarrow> Inl (Panic (ErrorText err))
      | (None, t') \<Rightarrow> fill_tracker objects t')"

text \<open>The fake's \<open>RESTClient\<close> is an interface that holds a nil pointer; the real one on a nil client is nil.\<close>

definition fakeRESTClient :: "'h rest_client iface" where
  "fakeRESTClient = Holding None"

section \<open>Apply configurations by kind\<close>

datatype apply_configuration = CliManagerAC | CliManagerSpecAC | CliManagerStatusAC

definition ForKind :: "gvk \<Rightarrow> apply_configuration option" where
  "ForKind kind =
     (if kind = (fst SchemeGroupVersion, snd SchemeGroupVersion, ''CliManager'') then Some CliManagerAC
      else if kind = (fst SchemeGroupVersion, snd SchemeGroupVersion, ''CliManagerSpec'') then Some CliManagerSpecAC
      else if kind = (fst SchemeGroupVersion, snd SchemeGroupVersion, ''CliManagerStatus'') then Some CliManagerStatusAC
      else None)"

fun is_panic_error :: "go_error \<Rightarrow> bool" where
  "is_panic_error (Panic _) = True"
| "is_panic_error _ = False"

section \<open>What the fake holds\<close>

fun flatten :: "fake_object \<Rightarrow> kobject list" where
  "flatten (Single obj) = [obj]"
| "flatten (CliManagerList items) = map KCliManager items"

lemma add_all_append: "add_all (xs @ ys) t =
    (case add_all xs t of (Some err, t') \<Rightarrow> (Some err, t') | (None, t') \<Rightarrow> add_all ys t')"
  by (induction xs arbitrary: t) (auto split: prod.splits option.splits)

lemma trackerAddObject_flat: "trackerAddObject obj t = add_all (flatten obj) t"
  by (cases obj) (auto split: prod.splits option.splits)

lemma fill_tracker_flat:
  "fill_tracker objects t =
     (case add_all (concat (map flatten objects)) t of
        (Some err, _) \<Rightarrow> Inl (Panic (ErrorText err)) | (None, t') \<Rightarrow> Inr t')"
proof (induction objects arbitrary: t)
  case (Cons obj objects)
  then show ?case
    by (auto simp: trackerAddObject_flat add_all_append split: prod.splits option.splits)
qed simp

lemma add_climanager:
  "trackerAdd cliManager_gvr (KCliManager cm) (om_namespace (cm_meta cm)) False t =
     (let key = (cliManager_gvr, om_namespace (cm_meta cm), om_name (cm_meta cm));
          rv = (case fmlookup (trk_resourceVersions t) cliManager_gvr of None \<Rightarrow> 1 | Some v \<Rightarrow> v) + 1 in
      case fmlookup (trk_objects t) key of
        Some _ \<Rightarrow> (Some (NewAlreadyExists cliManager_gvr (om_name (cm_meta cm))), t)
      | None \<Rightarrow> (None, t\<lparr>trk_resourceVersions := fmupd cliManager_gvr rv (trk_resourceVersions t),
          trk_objects := fmupd key \<lparr>vo_resourceVersion = rv, vo_object = KCliManager cm\<rparr> (trk_objects t)\<rparr>))"
proof -
  let ?ns = "om_namespace (cm_meta cm)"
  have own: "(if knamespace (KCliManager cm) = [] then kset_namespace ?ns (KCliManager cm) else KCliManager cm) =
      KCliManager cm"
    by (simp add: put_namespace_def)
  show ?thesis
    unfolding trackerAdd_def own by (simp add: Let_def split: option.split)
qed

lemma guessed_climanagers: "guessed_resource cliManager_gvk = cliManager_gvr"
  by (simp add: guessed_resource_def) (simp add: cliManager_gvr_def SchemeGroupVersion_def)

lemma addSingle_climanager:
  "addSingle (KCliManager cm) t =
     trackerAdd cliManager_gvr (KCliManager cm) (om_namespace (cm_meta cm)) False t"
  by (auto simp: addSingle_def guessed_climanagers split: prod.splits option.splits)

fun typed_object :: "kobject \<Rightarrow> bool" where
  "typed_object (KUnstructured _) = False"
| "typed_object _ = True"

lemma addSingle_other:
  "typed_object obj \<Longrightarrow> as_cliManager obj = None \<Longrightarrow> \<exists>err. addSingle obj t = (Some err, t)"
  by (cases obj) (simp_all add: addSingle_def ObjectKinds_other operand_types_def)

definition cm_key :: "cli_manager \<Rightarrow> object_key" where
  "cm_key cm = (cliManager_gvr, om_namespace (cm_meta cm), om_name (cm_meta cm))"

definition held :: "tracker \<Rightarrow> object_key \<Rightarrow> kobject option" where
  "held t key = map_option vo_object (fmlookup (trk_objects t) key)"

definition keyed :: "cli_manager list \<Rightarrow> (object_key \<times> kobject) list" where
  "keyed cms = map (\<lambda>cm. (cm_key cm, KCliManager cm)) cms"

lemma addSingle_adds:
  assumes "held t (cm_key cm) = None"
  obtains t1 where "addSingle (KCliManager cm) t = (None, t1)" "held t1 = (held t)(cm_key cm \<mapsto> KCliManager cm)"
proof -
  have free: "fmlookup (trk_objects t) (cliManager_gvr, om_namespace (cm_meta cm), om_name (cm_meta cm)) = None"
    using assms by (simp add: held_def cm_key_def)
  show ?thesis
    by (rule that) (use free in \<open>simp add: addSingle_climanager add_climanager Let_def\<close>,
        rule ext, simp add: held_def cm_key_def)
qed

lemma addSingle_taken: "held t (cm_key cm) \<noteq> None \<Longrightarrow> \<exists>err. addSingle (KCliManager cm) t = (Some err, t)"
  by (auto simp: addSingle_climanager add_climanager held_def cm_key_def Let_def)

text \<open>A list of objects goes in exactly if all are climanagers with distinct keys that are free.\<close>

lemma add_all_climanagers:
  "add_all obs t = (None, t') \<Longrightarrow> list_all typed_object obs \<Longrightarrow>
   \<exists>cms. obs = map KCliManager cms \<and> distinct (map cm_key cms) \<and>
     (\<forall>cm\<in>set cms. held t (cm_key cm) = None) \<and> held t' = held t ++ map_of (keyed cms)"
proof (induction obs arbitrary: t)
  case Nil
  then show ?case by (intro exI [of _ "[]"]) (simp add: keyed_def)
next
  case (Cons ob obs)
  then obtain t1 where t1: "addSingle ob t = (None, t1)" "add_all obs t1 = (None, t')"
    by (auto split: prod.splits option.splits)
  then obtain cm where cm: "ob = KCliManager cm"
    using addSingle_other [of ob t] Cons.prems(2) by (cases ob) auto
  have free: "held t (cm_key cm) = None" using addSingle_taken [of t cm] t1(1) cm by fastforce
  then have t1': "held t1 = (held t)(cm_key cm \<mapsto> KCliManager cm)"
    using t1(1) cm addSingle_adds [OF free] by (metis prod.inject)
  from Cons.IH [OF t1(2)] Cons.prems(2) obtain cms where cms: "obs = map KCliManager cms" "distinct (map cm_key cms)"
    "\<forall>cm\<in>set cms. held t1 (cm_key cm) = None" "held t' = held t1 ++ map_of (keyed cms)" by auto
  have new: "cm_key c \<noteq> cm_key cm \<and> held t (cm_key c) = None" if "c \<in> set cms" for c
    using cms(3) that by (auto simp: t1' split: if_splits)
  then have notin: "cm_key cm \<notin> cm_key ` set cms" by (metis imageE)
  then have "cm_key cm \<notin> dom (map_of (keyed cms))"
    by (simp add: dom_map_of_conv_image_fst keyed_def image_image)
  then have "held t' = held t ++ map_of (keyed (cm # cms))"
    by (simp add: cms(4) t1' keyed_def map_add_upd_left)
  moreover have "distinct (map cm_key (cm # cms))" using cms(2) notin by simp
  ultimately show ?case
    using new free by (intro exI [of _ "cm # cms"]) (simp add: cm cms(1))
qed

lemma add_all_succeeds:
  "distinct (map cm_key cms) \<Longrightarrow> \<forall>cm\<in>set cms. held t (cm_key cm) = None \<Longrightarrow>
     \<exists>t'. add_all (map KCliManager cms) t = (None, t')"
proof (induction cms arbitrary: t)
  case (Cons cm cms)
  obtain t1 where t1: "addSingle (KCliManager cm) t = (None, t1)" "held t1 = (held t)(cm_key cm \<mapsto> KCliManager cm)"
    using addSingle_adds [of t cm] Cons.prems(2) by auto
  have notin: "cm_key cm \<notin> cm_key ` set cms" using Cons.prems(1) by simp
  have "held t1 (cm_key c) = None" if "c \<in> set cms" for c
  proof -
    have "cm_key c \<noteq> cm_key cm" using notin that by (metis imageI)
    with Cons.prems(2) t1(2) that show ?thesis by simp
  qed
  then have "\<forall>c\<in>set cms. held t1 (cm_key c) = None" by blast
  with Cons t1(1) show ?case by fastforce
qed simp

lemma get_held:
  "ca_get (fake_climanagers sm pm) ns name t = (Inr cm, t) \<longleftrightarrow> held t (cliManager_gvr, ns, name) = Some (KCliManager cm)"
  by (auto simp: held_def fake_climanagers_def Let_def fake_client_def trackerGet_def typed_result_def
      split: option.splits elim!: as_cliManager.elims)

definition other_config :: cli_manager where
  "other_config = sample_config\<lparr>cm_meta := (cm_meta sample_config)\<lparr>om_name := ''other''\<rparr>\<rparr>"

end
