(* ===== verification/Tracker_Watch.thy ===== *)
theory Tracker_Watch
  imports Fake_Clientset "HOL-Library.Product_Lexorder"
begin

text \<open>
  Lists and watches of the in-memory API server (client-go \<^verbatim>\<open>testing/fixture.go\<close> and
  apimachinery \<^verbatim>\<open>watch/watch.go\<close>): the tracker of \<open>Object_Tracker\<close> with its watchers, each
  a bounded channel of events. A watcher is known by its position in the list of all watchers.
  The tracker's lock makes each operation one step.
\<close>

section \<open>Watchers\<close>

datatype event_type = EvAdded | EvModified | EvDeleted

datatype watch_event = WatchEvent event_type kobject

record watcher =
  wa_events :: "watch_event list"
  wa_stopped :: bool

definition DefaultChanSize :: nat where "DefaultChanSize = 100"

definition NewRaceFreeFake :: watcher where
  "NewRaceFreeFake = \<lparr>wa_events = [], wa_stopped = False\<rparr>"

text \<open>\<open>Add\<close>, \<open>Modify\<close> and \<open>Delete\<close> of a watcher differ in the type of the event.\<close>

definition watcherSend :: "watch_event \<Rightarrow> watcher \<Rightarrow> go_error + watcher" where
  "watcherSend e f =
     (if wa_stopped f then Inr f
      else if length (wa_events f) < DefaultChanSize then Inr (f\<lparr>wa_events := wa_events f @ [e]\<rparr>)
      else Inl (Panic ''channel full''))"

definition watcherStop :: "watcher \<Rightarrow> watcher" where
  "watcherStop f = f\<lparr>wa_stopped := True\<rparr>"

text \<open>A receive on the channel: the oldest event, the end of a closed channel, or nothing yet.\<close>

datatype received = Received watch_event | ChannelClosed | WouldBlock

definition watcherReceive :: "watcher \<Rightarrow> received \<times> watcher" where
  "watcherReceive f =
     (case wa_events f of
        e # es \<Rightarrow> (Received e, f\<lparr>wa_events := es\<rparr>)
      | [] \<Rightarrow> (if wa_stopped f then ChannelClosed else WouldBlock, f))"

section \<open>The tracker with its watchers\<close>

record watched_tracker =
  wt_tracker :: tracker
  wt_all :: "watcher list"
  wt_watchers :: "(gvr \<times> string, nat list) fmap"

definition NewWatchedTracker :: watched_tracker where
  "NewWatchedTracker = \<lparr>wt_tracker = NewObjectTracker, wt_all = [], wt_watchers = fmempty\<rparr>"

definition watchers_at :: "gvr \<Rightarrow> string \<Rightarrow> watched_tracker \<Rightarrow> nat list" where
  "watchers_at r ns t = (case fmlookup (wt_watchers t) (r, ns) of None \<Rightarrow> [] | Some ws \<Rightarrow> ws)"

definition getWatches :: "gvr \<Rightarrow> string \<Rightarrow> watched_tracker \<Rightarrow> nat list" where
  "getWatches r ns t = watchers_at r ns t @ (if ns \<noteq> [] then watchers_at r [] t else [])"

fun notify :: "watch_event \<Rightarrow> nat list \<Rightarrow> watched_tracker \<Rightarrow> go_error option \<times> watched_tracker" where
  "notify e [] t = (None, t)"
| "notify e (i # is) t =
     (case watcherSend e (wt_all t ! i) of
        Inl err \<Rightarrow> (Some err, t)
      | Inr f \<Rightarrow> notify e is (t\<lparr>wt_all := (wt_all t)[i := f]\<rparr>))"

definition stored_form :: "string \<Rightarrow> kobject \<Rightarrow> kobject" where
  "stored_form ns obj = (if knamespace obj = [] then kset_namespace ns obj else obj)"

definition watchedAdd ::
  "gvr \<Rightarrow> kobject \<Rightarrow> string \<Rightarrow> bool \<Rightarrow> watched_tracker \<Rightarrow> go_error option \<times> watched_tracker" where
  "watchedAdd r obj ns replaceExisting t =
     (case trackerAdd r obj ns replaceExisting (wt_tracker t) of
        (Some err, _) \<Rightarrow> (Some err, t)
      | (None, t') \<Rightarrow>
          notify (WatchEvent (if replaceExisting then EvModified else EvAdded) (stored_form ns obj))
            (getWatches r ns t) (t\<lparr>wt_tracker := t'\<rparr>))"

definition watchedDelete :: "gvr \<Rightarrow> string \<Rightarrow> string \<Rightarrow> watched_tracker \<Rightarrow> go_error option \<times> watched_tracker" where
  "watchedDelete r ns name t =
     (case fmlookup (trk_objects (wt_tracker t)) (r, ns, name) of
        None \<Rightarrow> (Some (NewNotFound r name), t)
      | Some vo \<Rightarrow>
          notify (WatchEvent EvDeleted (vo_object vo)) (getWatches r ns t)
            (t\<lparr>wt_tracker := snd (trackerDelete r ns name (wt_tracker t))\<rparr>))"

section \<open>Lists\<close>

text \<open>\<^verbatim>\<open>strconv.ParseInt\<close> in base 10 and 64 bits, which reads the digits with \<^verbatim>\<open>ParseUint\<close> first.\<close>

definition num_error :: "string \<Rightarrow> string \<Rightarrow> go_error" where
  "num_error s msg = ErrorString (''strconv.ParseInt: parsing '' @ [CHR 0x22] @ s @ [CHR 0x22] @ '': '' @ msg)"

definition digit_value :: "char \<Rightarrow> int option" where
  "digit_value c = (if CHR ''0'' \<le> c \<and> c \<le> CHR ''9'' then Some (int (of_char c) - 48) else None)"

fun digits_value :: "string \<Rightarrow> int \<Rightarrow> string \<Rightarrow> go_error + int" where
  "digits_value s n [] = Inr n"
| "digits_value s n (c # cs) =
     (case digit_value c of
        None \<Rightarrow> Inl (num_error s ''invalid syntax'')
      | Some d \<Rightarrow> if 10 * n + d \<ge> 2 ^ 64 then Inl (num_error s ''value out of range'')
          else digits_value s (10 * n + d) cs)"

definition sign_and_digits :: "string \<Rightarrow> bool \<times> string" where
  "sign_and_digits s =
     (case s of
        [] \<Rightarrow> (False, [])
      | c # cs \<Rightarrow> if c = CHR ''-'' then (True, cs) else if c = CHR ''+'' then (False, cs) else (False, s))"

definition ParseInt64 :: "string \<Rightarrow> go_error + int" where
  "ParseInt64 s =
     (case sign_and_digits s of (neg, digits) \<Rightarrow>
        if digits = [] then Inl (num_error s ''invalid syntax'')
        else sum_bind (digits_value s 0 digits) (\<lambda>un.
          if \<not> neg \<and> un \<ge> 2 ^ 63 \<or> neg \<and> un > 2 ^ 63 then Inl (num_error s ''value out of range'')
          else Inr (if neg then - un else un)))"

definition object_order :: "versioned_object \<Rightarrow> string \<times> string" where
  "object_order vo = (knamespace (vo_object vo), kname (vo_object vo))"

text \<open>The objects of a resource, as a loop over the map of the tracker meets them.\<close>

definition objects_of :: "gvr \<Rightarrow> tracker \<Rightarrow> versioned_object list" where
  "objects_of r t =
     map (\<lambda>k. the (fmlookup (trk_objects t) (r, k)))
       (sorted_list_of_fset (snd |`| ffilter (\<lambda>k. fst k = r) (fmdom (trk_objects t))))"

definition filterByNamespace :: "versioned_object list \<Rightarrow> string \<Rightarrow> versioned_object list" where
  "filterByNamespace objs ns =
     sort_key object_order (filter (\<lambda>vo. ns = [] \<or> knamespace (vo_object vo) = ns) objs)"

text \<open>Of the types in the scheme of the fake only one has a field \<^verbatim>\<open>Items\<close>.\<close>

definition IsListType :: "go_type \<Rightarrow> bool" where
  "IsListType t = (t = climanager_type ''CliManagerList'')"

fun elem_type :: "go_type \<Rightarrow> go_type" where
  "elem_type (PointerType t) = t"
| "elem_type t = t"

fun SetList :: "nat \<Rightarrow> kobject list \<Rightarrow> go_error + cli_manager list" where
  "SetList i [] = Inr []"
| "SetList i (obj # objects) =
     (case obj of
        KCliManager cm \<Rightarrow> sum_bind (SetList (i + 1) objects) (\<lambda>items. Inr (cm # items))
      | _ \<Rightarrow> Inl (ErrorString (''item['' @ decimal i @ '']: can't assign or convert '' @
          TypeString (elem_type (object_type obj)) @ '' into v1.CliManager'')))"

definition list_kind :: "gvk \<Rightarrow> gvk" where
  "list_kind k = (case k of (grp, version, kind) \<Rightarrow>
     (grp, if version = [] then APIVersionInternal else version, kind @ ''List''))"

definition trackerList :: "gvr \<Rightarrow> gvk \<Rightarrow> string \<Rightarrow> watched_tracker \<Rightarrow> go_error + cli_manager_list" where
  "trackerList r k ns t =
     sum_bind (SchemeNew fake_type_scheme (list_kind k)) (\<lambda>list_type.
       if \<not> IsListType list_type then
         Inl (ErrorString ([CHR 0x22] @ snd (snd (list_kind k)) @ [CHR 0x22] @ '' is not a list type''))
       else
         (let rv = (case fmlookup (trk_resourceVersions (wt_tracker t)) r of None \<Rightarrow> 1 | Some v \<Rightarrow> v) in
          sum_bind (SetList 0 (map vo_object (filterByNamespace (objects_of r (wt_tracker t)) ns))) (\<lambda>items.
            Inr \<lparr>cml_resourceVersion = decimal (nat rv), cml_items = items\<rparr>)))"

section \<open>Starting a watch\<close>

text \<open>Objects newer than the requested version are delivered at once.\<close>

fun deliver_existing :: "int \<Rightarrow> versioned_object list \<Rightarrow> watcher \<Rightarrow> go_error + watcher" where
  "deliver_existing addFromRV [] f = Inr f"
| "deliver_existing addFromRV (obj # objs) f =
     (if addFromRV < vo_resourceVersion obj then
        sum_bind (watcherSend (WatchEvent EvAdded (vo_object obj)) f) (deliver_existing addFromRV objs)
      else deliver_existing addFromRV objs f)"

text \<open>With options, as the generated client calls it. The new watcher is registered before it is filled.\<close>

definition trackerWatch ::
  "gvr \<Rightarrow> string \<Rightarrow> list_options \<Rightarrow> watched_tracker \<Rightarrow> (go_error + nat) \<times> watched_tracker" where
  "trackerWatch r ns opts t =
     (case (if lo_resourceVersion opts = [] then Inr 0 else ParseInt64 (lo_resourceVersion opts)) of
        Inl err \<Rightarrow> (Inl (WrappedError (''invalid ResourceVersion '' @ [CHR 0x22] @ lo_resourceVersion opts @ [CHR 0x22] @
            '' in ListOptions, must be int64'') err), t)
      | Inr addFromRV \<Rightarrow>
          (let i = length (wt_all t);
               t1 = t\<lparr>wt_all := wt_all t @ [NewRaceFreeFake],
                      wt_watchers := fmupd (r, ns) (watchers_at r ns t @ [i]) (wt_watchers t)\<rparr> in
           case deliver_existing addFromRV (filterByNamespace (objects_of r (wt_tracker t)) ns) NewRaceFreeFake of
             Inl err \<Rightarrow> (Inl err, t1)
           | Inr f \<Rightarrow> (Inr i, t1\<lparr>wt_all := wt_all t @ [f]\<rparr>)))"

section \<open>Printed versions are read back\<close>

lemma decimal_digit: "n < 10 \<Longrightarrow> digit_value (char_of (48 + n)) = Some (int n)" for n :: nat
proof -
  assume n: "n < 10"
  then have "of_char (char_of (48 + n) :: char) = 48 + n" by (simp add: of_char_of)
  with n show ?thesis by (simp add: digit_value_def less_eq_char_def)
qed

lemma digits_value_append:
  "digits_value s n (xs @ ys) = sum_bind (digits_value s n xs) (\<lambda>m. digits_value s m ys)"
  by (induction xs arbitrary: n) (simp_all split: option.split)

lemma digits_value_decimal: "int n < 2 ^ 64 \<Longrightarrow> digits_value s 0 (decimal n) = Inr (int n)"
proof (induction n rule: decimal.induct)
  case (1 n)
  show ?case
  proof (cases "n < 10")
    case True
    then show ?thesis by (subst decimal.simps) (simp add: decimal_digit)
  next
    case False
    then have "digits_value s 0 (decimal (n div 10)) = Inr (int (n div 10))"
      using 1 by (simp add: zdiv_int)
    moreover have "10 * int (n div 10) + int (n mod 10) = int n"
      by (metis mult_div_mod_eq of_nat_add of_nat_mult of_nat_numeral)
    ultimately show ?thesis
      using False 1(2) by (subst decimal.simps) (simp add: digits_value_append decimal_digit del: of_nat_div)
  qed
qed

lemma decimal_head: "\<exists>c cs. decimal n = c # cs \<and> digit_value c \<noteq> None"
proof (induction n rule: decimal.induct)
  case (1 n)
  show ?case
  proof (cases "n < 10")
    case True
    then show ?thesis by (subst decimal.simps) (simp add: decimal_digit)
  next
    case False
    with 1 show ?thesis by (subst decimal.simps) auto
  qed
qed

lemma ParseInt64_decimal: "int n < 2 ^ 63 \<Longrightarrow> ParseInt64 (decimal n) = Inr (int n)"
proof -
  assume n: "int n < 2 ^ 63"
  obtain c cs where d: "decimal n = c # cs" "digit_value c \<noteq> None" using decimal_head by blast
  then have "c \<noteq> CHR ''-''" "c \<noteq> CHR ''+''" by (auto simp: digit_value_def less_eq_char_def)
  then have "sign_and_digits (decimal n) = (False, decimal n)" by (simp add: sign_and_digits_def d(1))
  then show ?thesis using n d(1) digits_value_decimal [of n "decimal n"] by (simp add: ParseInt64_def)
qed

section \<open>Who is told what\<close>

text \<open>Every watcher is registered once, and every object is stored under its own name.\<close>

definition watched_ok :: "watched_tracker \<Rightarrow> bool" where
  "watched_ok t \<longleftrightarrow> tracker_ok (wt_tracker t) \<and>
     (\<forall>r ns. distinct (watchers_at r ns t) \<and> (\<forall>i\<in>set (watchers_at r ns t). i < length (wt_all t))) \<and>
     (\<forall>r ns r' ns' i. i \<in> set (watchers_at r ns t) \<longrightarrow> i \<in> set (watchers_at r' ns' t) \<longrightarrow> r = r' \<and> ns = ns')"

lemma NewWatchedTracker_ok: "watched_ok NewWatchedTracker"
  by (simp add: watched_ok_def NewWatchedTracker_def watchers_at_def NewObjectTracker_ok)

lemma watched_okD:
  assumes "watched_ok t"
  shows "tracker_ok (wt_tracker t)" and "distinct (watchers_at r ns t)"
    and "i \<in> set (watchers_at r ns t) \<Longrightarrow> i < length (wt_all t)"
    and "i \<in> set (watchers_at r ns t) \<Longrightarrow> i \<in> set (watchers_at r' ns' t) \<Longrightarrow> r = r' \<and> ns = ns'"
  using assms unfolding watched_ok_def by blast+

lemma watched_ok_cong:
  assumes "watched_ok t" "wt_watchers t' = wt_watchers t" "length (wt_all t') = length (wt_all t)"
    "tracker_ok (wt_tracker t')"
  shows "watched_ok t'"
  using assms by (simp add: watched_ok_def watchers_at_def)

lemma distinct_getWatches: "watched_ok t \<Longrightarrow> distinct (getWatches r ns t)"
  by (auto simp: getWatches_def watched_okD(2) dest: watched_okD(4))

lemma getWatches_bound: "watched_ok t \<Longrightarrow> i \<in> set (getWatches r ns t) \<Longrightarrow> i < length (wt_all t)"
  by (auto simp: getWatches_def split: if_splits dest: watched_okD(3))

lemma in_getWatches:
  "watched_ok t \<Longrightarrow> i \<in> set (watchers_at r n t) \<Longrightarrow>
     i \<in> set (getWatches r' ns t) \<longleftrightarrow> r' = r \<and> (n = [] \<or> n = ns)"
  by (auto simp: getWatches_def dest: watched_okD(4))

lemma notify_frame:
  "notify e is t = (res, t') \<Longrightarrow>
     wt_tracker t' = wt_tracker t \<and> wt_watchers t' = wt_watchers t \<and> length (wt_all t') = length (wt_all t) \<and>
     (res = None \<or> res = Some (Panic ''channel full''))"
  by (induction "is" arbitrary: t) (fastforce simp: watcherSend_def split: sum.splits if_splits)+

lemma notify_other:
  "notify e is t = (res, t') \<Longrightarrow> i \<notin> set is \<Longrightarrow> wt_all t' ! i = wt_all t ! i"
  by (induction "is" arbitrary: t) (fastforce split: sum.splits)+

lemma notify_told:
  "notify e is t = (None, t') \<Longrightarrow> distinct is \<Longrightarrow> \<forall>i\<in>set is. i < length (wt_all t) \<Longrightarrow> i \<in> set is \<Longrightarrow>
     watcherSend e (wt_all t ! i) = Inr (wt_all t' ! i)"
proof (induction "is" arbitrary: t)
  case (Cons j js)
  from Cons.prems(1) obtain f where f: "watcherSend e (wt_all t ! j) = Inr f"
    "notify e js (t\<lparr>wt_all := (wt_all t)[j := f]\<rparr>) = (None, t')"
    by (auto split: sum.splits)
  show ?case
  proof (cases "i = j")
    case True
    then have "wt_all t' ! i = f" using notify_other [OF f(2), of j] Cons.prems by simp
    with True f(1) show ?thesis by simp
  next
    case False
    then show ?thesis using Cons.IH [OF f(2)] Cons.prems by auto
  qed
qed simp

section \<open>Operations and their events\<close>

datatype tracker_op = OpAdd gvr kobject string bool | OpDelete gvr string string

fun run_op :: "tracker_op \<Rightarrow> watched_tracker \<Rightarrow> go_error option \<times> watched_tracker" where
  "run_op (OpAdd r obj ns replaceExisting) t = watchedAdd r obj ns replaceExisting t"
| "run_op (OpDelete r ns name) t = watchedDelete r ns name t"

definition panicked :: "go_error option \<Rightarrow> bool" where
  "panicked res \<longleftrightarrow> (\<exists>err. res = Some err \<and> is_panic_error err)"

text \<open>What a watch of the resource \<open>r0\<close> in the namespace \<open>n0\<close> (all of them for the empty one) is to see.\<close>

definition concerns :: "gvr \<Rightarrow> string \<Rightarrow> gvr \<Rightarrow> string \<Rightarrow> bool" where
  "concerns r0 n0 r ns \<longleftrightarrow> r = r0 \<and> (n0 = [] \<or> n0 = ns)"

fun op_events :: "gvr \<Rightarrow> string \<Rightarrow> tracker_op \<Rightarrow> tracker \<Rightarrow> watch_event list" where
  "op_events r0 n0 (OpAdd r obj ns replaceExisting) t =
     (if concerns r0 n0 r ns \<and> fst (trackerAdd r obj ns replaceExisting t) = None
      then [WatchEvent (if replaceExisting then EvModified else EvAdded) (stored_form ns obj)] else [])"
| "op_events r0 n0 (OpDelete r ns name) t =
     (case fmlookup (trk_objects t) (r, ns, name) of
        Some vo \<Rightarrow> if concerns r0 n0 r ns then [WatchEvent EvDeleted (vo_object vo)] else []
      | None \<Rightarrow> [])"

text \<open>The objects of a resource in a namespace, and what an event says about them.\<close>

definition tracked :: "gvr \<Rightarrow> string \<Rightarrow> tracker \<Rightarrow> string \<times> string \<Rightarrow> kobject option" where
  "tracked r0 n0 t k =
     (if n0 = [] \<or> n0 = fst k then map_option vo_object (fmlookup (trk_objects t) (r0, k)) else None)"

fun told :: "watch_event \<Rightarrow> (string \<times> string \<Rightarrow> kobject option) \<Rightarrow> string \<times> string \<Rightarrow> kobject option" where
  "told (WatchEvent ty obj) m =
     m((knamespace obj, kname obj) := (if ty = EvDeleted then None else Some obj))"

lemma trackerAdd_no_panic: "fst (trackerAdd r obj ns b t) = Some err \<Longrightarrow> \<not> is_panic_error err"
  by (auto simp: trackerAdd_def Let_def NewAlreadyExists_def NewNotFound_def split: if_splits option.splits)

lemma run_op_cases:
  assumes "run_op op t = (res, t')" "\<not> panicked res"
  obtains (failed) err where "res = Some err" "t' = t" "\<And>r0 n0. op_events r0 n0 op (wt_tracker t) = []"
  | (added) r obj ns b t1 where "op = OpAdd r obj ns b" "res = None"
      "trackerAdd r obj ns b (wt_tracker t) = (None, t1)"
      "notify (WatchEvent (if b then EvModified else EvAdded) (stored_form ns obj)) (getWatches r ns t)
         (t\<lparr>wt_tracker := t1\<rparr>) = (None, t')"
  | (deleted) r ns name vo where "op = OpDelete r ns name" "res = None"
      "fmlookup (trk_objects (wt_tracker t)) (r, ns, name) = Some vo"
      "notify (WatchEvent EvDeleted (vo_object vo)) (getWatches r ns t)
         (t\<lparr>wt_tracker := snd (trackerDelete r ns name (wt_tracker t))\<rparr>) = (None, t')"
proof (cases op)
  case (OpAdd r obj ns b)
  show thesis
  proof (cases "trackerAdd r obj ns b (wt_tracker t)")
    case (Pair r1 t1)
    show thesis
    proof (cases r1)
      case None
      with assms Pair have n: "notify (WatchEvent (if b then EvModified else EvAdded) (stored_form ns obj))
          (getWatches r ns t) (t\<lparr>wt_tracker := t1\<rparr>) = (res, t')"
        by (simp add: OpAdd watchedAdd_def)
      then have "res = None" using notify_frame [OF n] assms(2) by (auto simp: panicked_def)
      with n Pair None show thesis by (intro added [OF OpAdd]) simp_all
    next
      case (Some err)
      with assms Pair show thesis by (intro failed [of err]) (auto simp: OpAdd watchedAdd_def)
    qed
  qed
next
  case (OpDelete r ns name)
  show thesis
  proof (cases "fmlookup (trk_objects (wt_tracker t)) (r, ns, name)")
    case None
    with assms show thesis by (intro failed) (auto simp: OpDelete watchedDelete_def)
  next
    case (Some vo)
    with assms have n: "notify (WatchEvent EvDeleted (vo_object vo)) (getWatches r ns t)
        (t\<lparr>wt_tracker := snd (trackerDelete r ns name (wt_tracker t))\<rparr>) = (res, t')"
      by (simp add: OpDelete watchedDelete_def)
    then have "res = None" using notify_frame [OF n] assms(2) by (auto simp: panicked_def)
    with n show thesis by (intro deleted [OF OpDelete _ Some]) simp_all
  qed
qed

lemma run_op_ok:
  assumes "watched_ok t" "run_op op t = (res, t')" "\<not> panicked res"
  shows "watched_ok t'"
  using assms(2,3)
proof (cases rule: run_op_cases)
  case failed
  with assms(1) show ?thesis by simp
next
  case (added r obj ns b t1)
  have "tracker_ok t1" by (rule trackerAdd_ok [OF watched_okD(1) [OF assms(1)] added(3)])
  then show ?thesis using notify_frame [OF added(4)] by (intro watched_ok_cong [OF assms(1)]) simp_all
next
  case (deleted r ns name vo)
  have "tracker_ok (snd (trackerDelete r ns name (wt_tracker t)))"
    by (rule trackerDelete_ok [OF watched_okD(1) [OF assms(1)]]) (rule prod.collapse [symmetric])
  then show ?thesis using notify_frame [OF deleted(4)] by (intro watched_ok_cong [OF assms(1)]) simp_all
qed

text \<open>A registered watcher that was not stopped gets exactly the events of the operation, after those it has.\<close>

lemma run_op_told:
  assumes ok: "watched_ok t" and reg: "i \<in> set (watchers_at r0 n0 t)"
    and run: "run_op op t = (res, t')" "\<not> panicked res"
  shows "wt_all t' ! i = (wt_all t ! i)\<lparr>wa_events := wa_events (wt_all t ! i) @
      (if wa_stopped (wt_all t ! i) then [] else op_events r0 n0 op (wt_tracker t))\<rparr>"
  using run
proof (cases rule: run_op_cases)
  case failed
  then show ?thesis by simp
next
  case (added r obj ns b t1)
  let ?e = "WatchEvent (if b then EvModified else EvAdded) (stored_form ns obj)"
  have events: "op_events r0 n0 op (wt_tracker t) = (if concerns r0 n0 r ns then [?e] else [])"
    by (simp add: added(1,3))
  show ?thesis
  proof (cases "concerns r0 n0 r ns")
    case True
    then have "i \<in> set (getWatches r ns t)" using in_getWatches [OF ok reg] by (simp add: concerns_def)
    then have "watcherSend ?e (wt_all t ! i) = Inr (wt_all t' ! i)"
      using notify_told [OF added(4) distinct_getWatches [OF ok]] getWatches_bound [OF ok] by simp
    then show ?thesis using True events by (auto simp: watcherSend_def split: if_splits)
  next
    case False
    then have "i \<notin> set (getWatches r ns t)" using in_getWatches [OF ok reg] by (simp add: concerns_def)
    then show ?thesis using notify_other [OF added(4)] events False by simp
  qed
next
  case (deleted r ns name vo)
  let ?e = "WatchEvent EvDeleted (vo_object vo)"
  have events: "op_events r0 n0 op (wt_tracker t) = (if concerns r0 n0 r ns then [?e] else [])"
    by (simp add: deleted(1,3))
  show ?thesis
  proof (cases "concerns r0 n0 r ns")
    case True
    then have "i \<in> set (getWatches r ns t)" using in_getWatches [OF ok reg] by (simp add: concerns_def)
    then have "watcherSend ?e (wt_all t ! i) = Inr (wt_all t' ! i)"
      using notify_told [OF deleted(4) distinct_getWatches [OF ok]] getWatches_bound [OF ok] by simp
    then show ?thesis using True events by (auto simp: watcherSend_def split: if_splits)
  next
    case False
    then have "i \<notin> set (getWatches r ns t)" using in_getWatches [OF ok reg] by (simp add: concerns_def)
    then show ?thesis using notify_other [OF deleted(4)] events False by simp
  qed
qed

text \<open>The events say what happened to the objects.\<close>

lemma run_op_tracked:
  assumes ok: "watched_ok t" and run: "run_op op t = (res, t')" "\<not> panicked res"
  shows "tracked r0 n0 (wt_tracker t') = fold told (op_events r0 n0 op (wt_tracker t)) (tracked r0 n0 (wt_tracker t))"
  using run
proof (cases rule: run_op_cases)
  case failed
  then show ?thesis by simp
next
  case (added r obj ns b t1)
  then obtain rv where t1: "ns = knamespace (stored_form ns obj)"
    "t1 = (wt_tracker t)\<lparr>trk_resourceVersions := fmupd r rv (trk_resourceVersions (wt_tracker t)),
       trk_objects := fmupd (r, ns, kname obj) \<lparr>vo_resourceVersion = rv, vo_object = stored_form ns obj\<rparr>
         (trk_objects (wt_tracker t))\<rparr>"
    by (elim trackerAdd_cases) (simp_all add: stored_form_def)
  have name: "kname (stored_form ns obj) = kname obj" by (simp add: stored_form_def)
  have "wt_tracker t' = t1" using notify_frame [OF added(4)] by simp
  then show ?thesis using t1(1) by (auto simp: added(1,3) t1(2) tracked_def concerns_def name fun_eq_iff)
next
  case (deleted r ns name vo)
  have "wt_tracker t' = snd (trackerDelete r ns name (wt_tracker t))" using notify_frame [OF deleted(4)] by simp
  moreover have "knamespace (vo_object vo) = ns \<and> kname (vo_object vo) = name"
    using trackerGet_key [OF watched_okD(1) [OF ok], of r ns name "vo_object vo"] deleted(3)
    by (simp add: trackerGet_def)
  ultimately show ?thesis
    using deleted(3) by (auto simp: deleted(1) trackerDelete_def tracked_def concerns_def fun_eq_iff)
qed

end
