(* ===== verification/Cli_Lister.thy ===== *)
theory Cli_Lister
  imports Informer_Factory
begin

text \<open>
  The lister of climanagers (\<^verbatim>\<open>pkg/generated/listers\<close>) over the store of an informer, with
  client-go's \<^verbatim>\<open>ResourceIndexer\<close>, \<^verbatim>\<open>ListAll\<close> and \<^verbatim>\<open>ListAllByNamespace\<close>. A lister holds a
  pointer to the store, so a store is an argument of each read.
\<close>

section \<open>Label selectors\<close>

text \<open>
  \<^verbatim>\<open>labels.Selector\<close>: what it matches, whether it is empty and whether it is the shared
  selector of nothing. The documentation of an empty selector is that it matches everything.
\<close>

record selector =
  sel_matches :: "gomap \<Rightarrow> bool"
  sel_empty :: bool
  sel_nothing :: bool

definition selector_ok :: "selector \<Rightarrow> bool" where
  "selector_ok s \<longleftrightarrow> (sel_empty s \<longrightarrow> (\<forall>ls. sel_matches s ls)) \<and> (sel_nothing s \<longrightarrow> (\<forall>ls. \<not> sel_matches s ls))"

section \<open>Listing\<close>

definition select :: "selector \<Rightarrow> cli_manager list \<Rightarrow> cli_manager list" where
  "select s ms = (if sel_empty s then ms else filter (\<lambda>m. sel_matches s (om_labels (cm_meta m))) ms)"

definition ListAll :: "cli_manager store \<Rightarrow> selector \<Rightarrow> cli_manager list" where
  "ListAll c s = (if sel_nothing s then [] else select s (storeList c))"

text \<open>The object that is looked up in the namespace index has a namespace and nothing else.\<close>

definition of_namespace :: "string \<Rightarrow> cli_manager" where
  "of_namespace ns =
     \<lparr>cm_meta = \<lparr>om_name = [], om_namespace = ns, om_uid = [], om_resourceVersion = [], om_generation = 0,
        om_labels = fmempty, om_annotations = fmempty, om_ownerReferences = [], om_server = fmempty\<rparr>,
      cm_spec = \<lparr>cms_operatorSpec = \<lparr>os_managementState = [], os_logLevel = [], os_operatorLogLevel = [],
        os_unsupportedConfigOverrides = JNull, os_observedConfig = JNull\<rparr>\<rparr>,
      cm_status = \<lparr>cmst_operatorStatus = \<lparr>ost_observedGeneration = 0, ost_conditions = [], ost_version = [],
        ost_readyReplicas = 0, ost_latestAvailableRevision = 0, ost_generations = []\<rparr>\<rparr>\<rparr>"

text \<open>An index that yields nil for a key would make the selection panic; the theorem shows it does not.\<close>

definition ListAllByNamespace :: "cli_manager store \<Rightarrow> string \<Rightarrow> selector \<Rightarrow> go_error + cli_manager list" where
  "ListAllByNamespace c ns s =
     (if sel_nothing s then Inr []
      else if ns = [] then Inr (ListAll c s)
      else (case storeIndex NamespaceIndex (of_namespace ns) c of
          Inl _ \<Rightarrow> Inr (filter (\<lambda>m. om_namespace (cm_meta m) = ns \<and> sel_matches s (om_labels (cm_meta m))) (storeList c))
        | Inr items \<Rightarrow>
            if None \<in> set items then Inl (Panic ''interface conversion: interface {} is nil'')
            else Inr (select s (map the items))))"

section \<open>The lister\<close>

record resource_indexer =
  ri_resource :: "string \<times> string"
  ri_namespace :: string

definition Resource :: "string \<Rightarrow> string \<times> string" where
  "Resource resource = (fst SchemeGroupVersion, resource)"

definition NewCliManagerLister :: resource_indexer where
  "NewCliManagerLister = \<lparr>ri_resource = Resource ''climanager'', ri_namespace = []\<rparr>"

definition listerCliManagers :: "resource_indexer \<Rightarrow> string \<Rightarrow> resource_indexer" where
  "listerCliManagers l namespace = \<lparr>ri_resource = ri_resource l, ri_namespace = namespace\<rparr>"

definition listerList :: "resource_indexer \<Rightarrow> selector \<Rightarrow> cli_manager store \<Rightarrow> go_error + cli_manager list" where
  "listerList l s c = ListAllByNamespace c (ri_namespace l) s"

definition listerGet :: "resource_indexer \<Rightarrow> string \<Rightarrow> cli_manager store \<Rightarrow> go_error + cli_manager" where
  "listerGet l name c =
     (let key = (if ri_namespace l = [] then name else ri_namespace l @ ''/'' @ name) in
      case storeGet key c of
        None \<Rightarrow> Inl (NewNotFound (fst (ri_resource l), [], snd (ri_resource l)) name)
      | Some obj \<Rightarrow> Inr obj)"

definition Lister :: "climanager_informer \<Rightarrow> 'w factory \<Rightarrow> resource_indexer \<times> 'w informer \<times> 'w factory" where
  "Lister i f = (NewCliManagerLister, Informer i f)"

section \<open>What it finds\<close>

lemma select_filter: "selector_ok s \<Longrightarrow> select s ms = filter (\<lambda>m. sel_matches s (om_labels (cm_meta m))) ms"
  by (simp add: select_def selector_ok_def)

lemma lister_lists:
  assumes "selector_ok s" "store_ok c" "fmlookup (st_indexers c) NamespaceIndex \<in> {None, Some MetaNamespaceIndexFunc}"
  shows "listerList (listerCliManagers NewCliManagerLister ns) s c =
    Inr (filter (\<lambda>m. (ns = [] \<or> om_namespace (cm_meta m) = ns) \<and> sel_matches s (om_labels (cm_meta m))) (storeList c))"
proof -
  consider "sel_nothing s" | "\<not> sel_nothing s" "ns = []" | "\<not> sel_nothing s" "ns \<noteq> []" by blast
  then show ?thesis
  proof cases
    case 1
    with assms(1) have "\<not> sel_matches s ls" for ls by (simp add: selector_ok_def)
    with 1 show ?thesis by (simp add: listerList_def ListAllByNamespace_def)
  next
    case 2
    then show ?thesis
      by (simp add: listerList_def ListAllByNamespace_def listerCliManagers_def ListAll_def select_filter [OF assms(1)])
  next
    case 3
    show ?thesis
    proof (cases "fmlookup (st_indexers c) NamespaceIndex")
      case None
      with 3 show ?thesis
        by (simp add: listerList_def ListAllByNamespace_def listerCliManagers_def storeIndex_def getKeysFromIndex_def)
    next
      case (Some f)
      with assms(3) have f: "fmlookup (st_indexers c) NamespaceIndex = Some MetaNamespaceIndexFunc" by simp
      let ?es = "search_entries (matches_value MetaNamespaceIndexFunc (of_namespace ns)) c"
      have es: "map snd ?es = filter (\<lambda>m. om_namespace (cm_meta m) = ns) (storeList c)"
        by (simp add: search_entries_def storeList_def filter_map comp_def matches_value_def MetaNamespaceIndexFunc_def
            of_namespace_def eq_commute)
      have "map the (map (Some \<circ> snd) ?es) = map snd ?es" "None \<notin> set (map (Some \<circ> snd) ?es)" by (auto simp: comp_def)
      with 3 storeIndex_search [OF assms(2) f, of "of_namespace ns"] show ?thesis
        by (simp add: listerList_def ListAllByNamespace_def listerCliManagers_def select_filter [OF assms(1)] es
            del: map_map)
    qed
  qed
qed


definition everything :: selector where
  "everything = \<lparr>sel_matches = (\<lambda>_. True), sel_empty = True, sel_nothing = False\<rparr>"


end
