(* ===== verification/Fake_Client.thy ===== *)
theory Fake_Client
  imports Tracker_Watch Cli_Lister
begin

text \<open>
  The fake clientset (\<^verbatim>\<open>pkg/generated/clientset/versioned/fake\<close>) over a tracker with watchers:
  actions, the chains of reactors that answer them (client-go \<^verbatim>\<open>testing/fake.go\<close>), the
  reaction of the tracker (\<^verbatim>\<open>testing/fixture.go\<close>) and the typed client of climanagers
  (\<^verbatim>\<open>gentype/fake.go\<close> and the generated \<^verbatim>\<open>typed/climanager/v1/fake\<close>).
  The merges of patches are parameters (\<open>merge\<close>), as is the parsing of selectors; the reaction
  of the tracker with managed fields, which \<^verbatim>\<open>NewClientset\<close> uses, is the parameter
  \<open>managed\<close>. Options other than those of lists are not modelled.
\<close>

section \<open>Actions\<close>

datatype patch_data = ApplyPatch cli_manager_ac | RawPatch string string

datatype action =
    GetAction gvr string string
  | ListAction gvr gvk string list_options
  | CreateAction gvr string string kobject
  | UpdateAction gvr string string kobject
  | DeleteAction gvr string string
  | DeleteCollectionAction gvr string list_options
  | PatchAction gvr string string patch_data string
  | WatchAction gvr string list_options

fun GetVerb :: "action \<Rightarrow> string" where
  "GetVerb (GetAction _ _ _) = ''get''"
| "GetVerb (ListAction _ _ _ _) = ''list''"
| "GetVerb (CreateAction _ _ _ _) = ''create''"
| "GetVerb (UpdateAction _ _ _ _) = ''update''"
| "GetVerb (DeleteAction _ _ _) = ''delete''"
| "GetVerb (DeleteCollectionAction _ _ _) = ''delete-collection''"
| "GetVerb (PatchAction _ _ _ _ _) = ''patch''"
| "GetVerb (WatchAction _ _ _) = ''watch''"

fun GetResource :: "action \<Rightarrow> gvr" where
  "GetResource (GetAction r _ _) = r"
| "GetResource (ListAction r _ _ _) = r"
| "GetResource (CreateAction r _ _ _) = r"
| "GetResource (UpdateAction r _ _ _) = r"
| "GetResource (DeleteAction r _ _) = r"
| "GetResource (DeleteCollectionAction r _ _) = r"
| "GetResource (PatchAction r _ _ _ _) = r"
| "GetResource (WatchAction r _ _) = r"

fun GetSubresource :: "action \<Rightarrow> string" where
  "GetSubresource (CreateAction _ _ sub _) = sub"
| "GetSubresource (UpdateAction _ _ sub _) = sub"
| "GetSubresource (PatchAction _ _ _ _ sub) = sub"
| "GetSubresource _ = []"

fun actionNamespace :: "action \<Rightarrow> string" where
  "actionNamespace (GetAction _ ns _) = ns"
| "actionNamespace (ListAction _ _ ns _) = ns"
| "actionNamespace (CreateAction _ ns _ _) = ns"
| "actionNamespace (UpdateAction _ ns _ _) = ns"
| "actionNamespace (DeleteAction _ ns _) = ns"
| "actionNamespace (DeleteCollectionAction _ ns _) = ns"
| "actionNamespace (PatchAction _ ns _ _ _) = ns"
| "actionNamespace (WatchAction _ ns _) = ns"

definition resourceCovers :: "string \<Rightarrow> action \<Rightarrow> bool" where
  "resourceCovers resource a =
     (if resource = ''*'' then True
      else if resource = snd (snd (GetResource a)) then True
      else CHR ''/'' \<in> set resource \<and> takeWhile (\<lambda>c. c \<noteq> CHR ''/'') resource = snd (snd (GetResource a)) \<and>
        tl (dropWhile (\<lambda>c. c \<noteq> CHR ''/'') resource) = GetSubresource a)"

section \<open>Reactors\<close>

text \<open>What a reaction returns: an object, a list, or nil.\<close>

datatype reply = NilReply | ObjectReply kobject | ListReply cli_manager_list

type_synonym 'r reaction_func = "action \<Rightarrow> watched_tracker \<Rightarrow> (bool \<times> (go_error + 'r)) \<times> watched_tracker"

record 'r reactor =
  rx_verb :: string
  rx_resource :: string
  rx_react :: "'r reaction_func"

definition Handles :: "'r reactor \<Rightarrow> action \<Rightarrow> bool" where
  "Handles x a = ((rx_verb x = ''*'' \<or> rx_verb x = GetVerb a) \<and> resourceCovers (rx_resource x) a)"

record watch_reactor =
  wx_resource :: string
  wx_react :: "nat reaction_func"

definition watchHandles :: "watch_reactor \<Rightarrow> action \<Rightarrow> bool" where
  "watchHandles x a = resourceCovers (wx_resource x) a"

text \<open>The first reactor that handles the action answers it.\<close>

fun react_chain :: "reply reactor list \<Rightarrow> action \<Rightarrow> reply \<Rightarrow> watched_tracker \<Rightarrow> (go_error + reply) \<times> watched_tracker" where
  "react_chain [] a defaultReturnObj t = (Inr defaultReturnObj, t)"
| "react_chain (x # xs) a defaultReturnObj t =
     (if \<not> Handles x a then react_chain xs a defaultReturnObj t
      else case rx_react x a t of
        ((handled, ret), t') \<Rightarrow> if handled then (ret, t') else react_chain xs a defaultReturnObj t')"

fun watch_chain :: "watch_reactor list \<Rightarrow> action \<Rightarrow> watched_tracker \<Rightarrow> (go_error + nat) \<times> watched_tracker" where
  "watch_chain [] a t = (Inl (ErrorString ''unhandled watch''), t)"
| "watch_chain (x # xs) a t =
     (if \<not> watchHandles x a then watch_chain xs a t
      else case wx_react x a t of
        ((handled, ret), t') \<Rightarrow> if handled then (ret, t') else watch_chain xs a t')"

section \<open>The reaction of the tracker\<close>

definition then_get ::
  "gvr \<Rightarrow> string \<Rightarrow> string \<Rightarrow> go_error option \<times> watched_tracker \<Rightarrow> (go_error + reply) \<times> watched_tracker" where
  "then_get r ns name res =
     (case res of
        (Some err, t) \<Rightarrow> (Inl err, t)
      | (None, t) \<Rightarrow> (map_sum id ObjectReply (trackerGet r ns name (wt_tracker t)), t))"

definition createReaction ::
  "gvr \<Rightarrow> string \<Rightarrow> string \<Rightarrow> kobject \<Rightarrow> watched_tracker \<Rightarrow> (go_error + reply) \<times> watched_tracker" where
  "createReaction r ns subresource obj t =
     (if subresource = [] then then_get r ns (kname obj) (watchedAdd r obj ns False t)
      else case trackerGet r ns (kname obj) (wt_tracker t) of
        Inl err \<Rightarrow> (Inl err, t)
      | Inr oldObj \<Rightarrow>
          if object_type oldObj = object_type obj then then_get r ns (kname obj) (watchedAdd r obj ns True t)
          else (Inr (ObjectReply obj), t))"

text \<open>An apply reads the object back; the other patches return what they have sent.\<close>

definition patchReaction ::
  "(patch_data \<Rightarrow> kobject \<Rightarrow> go_error + kobject) \<Rightarrow> gvr \<Rightarrow> string \<Rightarrow> string \<Rightarrow> patch_data \<Rightarrow> watched_tracker \<Rightarrow>
   (go_error + reply) \<times> watched_tracker" where
  "patchReaction merge r ns name patch t =
     (case sum_bind (trackerGet r ns name (wt_tracker t)) (merge patch) of
        Inl err \<Rightarrow> (Inl err, t)
      | Inr obj \<Rightarrow>
          (case patch of
             ApplyPatch _ \<Rightarrow> then_get r ns name (watchedAdd r obj ns True t)
           | RawPatch _ _ \<Rightarrow>
               (case watchedAdd r obj ns True t of
                  (Some err, t') \<Rightarrow> (Inl err, t')
                | (None, t') \<Rightarrow> (Inr (ObjectReply obj), t'))))"

fun ObjectReaction :: "(patch_data \<Rightarrow> kobject \<Rightarrow> go_error + kobject) \<Rightarrow> reply reaction_func" where
  "ObjectReaction merge (ListAction r k ns opts) t = ((True, map_sum id ListReply (trackerList r k ns t)), t)"
| "ObjectReaction merge (GetAction r ns name) t =
     ((True, map_sum id ObjectReply (trackerGet r ns name (wt_tracker t))), t)"
| "ObjectReaction merge (CreateAction r ns subresource obj) t =
     (case createReaction r ns subresource obj t of (res, t') \<Rightarrow> ((True, res), t'))"
| "ObjectReaction merge (UpdateAction r ns subresource obj) t =
     (case then_get r ns (kname obj) (watchedAdd r obj ns True t) of (res, t') \<Rightarrow> ((True, res), t'))"
| "ObjectReaction merge (DeleteAction r ns name) t =
     (case watchedDelete r ns name t of
        (Some err, t') \<Rightarrow> ((True, Inl err), t')
      | (None, t') \<Rightarrow> ((True, Inr NilReply), t'))"
| "ObjectReaction merge (PatchAction r ns name patch subresource) t =
     (case patchReaction merge r ns name patch t of (res, t') \<Rightarrow> ((True, res), t'))"
| "ObjectReaction merge (DeleteCollectionAction r ns opts) t =
     ((False, Inl (ErrorString ''no reaction implemented'')), t)"
| "ObjectReaction merge (WatchAction r ns opts) t = ((False, Inl (ErrorString ''no reaction implemented'')), t)"

section \<open>The clientset\<close>

record fake_clientset =
  fcs_tracker :: watched_tracker
  fcs_actions :: "action list"
  fcs_reactionChain :: "reply reactor list"
  fcs_watchReactionChain :: "watch_reactor list"

definition AddReactor :: "string \<Rightarrow> string \<Rightarrow> reply reaction_func \<Rightarrow> fake_clientset \<Rightarrow> fake_clientset" where
  "AddReactor verb resource reaction c = c\<lparr>fcs_reactionChain := fcs_reactionChain c @
     [\<lparr>rx_verb = verb, rx_resource = resource, rx_react = reaction\<rparr>]\<rparr>"

definition AddWatchReactor :: "string \<Rightarrow> nat reaction_func \<Rightarrow> fake_clientset \<Rightarrow> fake_clientset" where
  "AddWatchReactor resource reaction c = c\<lparr>fcs_watchReactionChain := fcs_watchReactionChain c @
     [\<lparr>wx_resource = resource, wx_react = reaction\<rparr>]\<rparr>"

definition PrependReactor :: "string \<Rightarrow> string \<Rightarrow> reply reaction_func \<Rightarrow> fake_clientset \<Rightarrow> fake_clientset" where
  "PrependReactor verb resource reaction c = c\<lparr>fcs_reactionChain :=
     \<lparr>rx_verb = verb, rx_resource = resource, rx_react = reaction\<rparr> # fcs_reactionChain c\<rparr>"

definition PrependWatchReactor :: "string \<Rightarrow> nat reaction_func \<Rightarrow> fake_clientset \<Rightarrow> fake_clientset" where
  "PrependWatchReactor resource reaction c = c\<lparr>fcs_watchReactionChain :=
     \<lparr>wx_resource = resource, wx_react = reaction\<rparr> # fcs_watchReactionChain c\<rparr>"

definition Invokes :: "action \<Rightarrow> reply \<Rightarrow> fake_clientset \<Rightarrow> (go_error + reply) \<times> fake_clientset" where
  "Invokes a defaultReturnObj c =
     (case react_chain (fcs_reactionChain c) a defaultReturnObj (fcs_tracker c) of
        (res, t) \<Rightarrow> (res, c\<lparr>fcs_actions := fcs_actions c @ [a], fcs_tracker := t\<rparr>))"

definition InvokesWatch :: "action \<Rightarrow> fake_clientset \<Rightarrow> (go_error + nat) \<times> fake_clientset" where
  "InvokesWatch a c =
     (case watch_chain (fcs_watchReactionChain c) a (fcs_tracker c) of
        (res, t) \<Rightarrow> (res, c\<lparr>fcs_actions := fcs_actions c @ [a], fcs_tracker := t\<rparr>))"

definition no_options :: list_options where
  "no_options = \<lparr>lo_labelSelector = [], lo_fieldSelector = [], lo_resourceVersion = []\<rparr>"

text \<open>The function the constructors give to \<open>AddWatchReactor\<close>; a panic of the tracker passes through.\<close>

definition watchReaction :: "nat reaction_func" where
  "watchReaction a t =
     (let opts = (case a of WatchAction _ _ opts \<Rightarrow> opts | _ \<Rightarrow> no_options) in
      case trackerWatch (GetResource a) (actionNamespace a) opts t of
        (Inl err, t') \<Rightarrow> ((is_panic_error err, Inl err), t')
      | (Inr w, t') \<Rightarrow> ((True, Inr w), t'))"

definition clientset_over :: "reply reaction_func \<Rightarrow> tracker \<Rightarrow> fake_clientset" where
  "clientset_over reaction o1 =
     AddWatchReactor ''*'' watchReaction (AddReactor ''*'' ''*'' reaction
       \<lparr>fcs_tracker = NewWatchedTracker\<lparr>wt_tracker := o1\<rparr>, fcs_actions = [], fcs_reactionChain = [],
        fcs_watchReactionChain = []\<rparr>)"

definition NewSimpleClientset ::
  "(patch_data \<Rightarrow> kobject \<Rightarrow> go_error + kobject) \<Rightarrow> fake_object list \<Rightarrow> go_error + fake_clientset" where
  "NewSimpleClientset merge objects =
     sum_bind (fill_tracker objects NewObjectTracker) (\<lambda>o1. Inr (clientset_over (ObjectReaction merge) o1))"

definition NewClientset :: "reply reaction_func \<Rightarrow> fake_object list \<Rightarrow> go_error + fake_clientset" where
  "NewClientset managed objects =
     sum_bind (fill_tracker objects NewObjectTracker) (\<lambda>o1. Inr (clientset_over managed o1))"

definition Tracker :: "fake_clientset \<Rightarrow> tracker" where
  "Tracker c = wt_tracker (fcs_tracker c)"

definition IsWatchListSemanticsUnSupported :: "fake_clientset \<Rightarrow> bool" where
  "IsWatchListSemanticsUnSupported c = True"

section \<open>The typed client\<close>

record 'w cli_manager_interface =
  cmi_Create :: "cli_manager \<Rightarrow> 'w \<Rightarrow> (go_error + cli_manager) \<times> 'w"
  cmi_Update :: "cli_manager \<Rightarrow> 'w \<Rightarrow> (go_error + cli_manager) \<times> 'w"
  cmi_UpdateStatus :: "cli_manager \<Rightarrow> 'w \<Rightarrow> (go_error + cli_manager) \<times> 'w"
  cmi_Delete :: "string \<Rightarrow> 'w \<Rightarrow> go_error option \<times> 'w"
  cmi_DeleteCollection :: "list_options \<Rightarrow> 'w \<Rightarrow> go_error option \<times> 'w"
  cmi_Get :: "string \<Rightarrow> 'w \<Rightarrow> (go_error + cli_manager) \<times> 'w"
  cmi_List :: "list_options \<Rightarrow> 'w \<Rightarrow> (go_error + cli_manager_list) \<times> 'w"
  cmi_Watch :: "list_options \<Rightarrow> 'w \<Rightarrow> (go_error + nat) \<times> 'w"
  cmi_Patch :: "string \<Rightarrow> string \<Rightarrow> string \<Rightarrow> string list \<Rightarrow> 'w \<Rightarrow> (go_error + cli_manager) \<times> 'w"
  cmi_Apply :: "cli_manager_ac \<Rightarrow> 'w \<Rightarrow> (go_error + cli_manager) \<times> 'w"
  cmi_ApplyStatus :: "cli_manager_ac \<Rightarrow> 'w \<Rightarrow> (go_error + cli_manager) \<times> 'w"

text \<open>\<^verbatim>\<open>labels.Parse\<close> and \<^verbatim>\<open>fields.ParseSelector\<close>.\<close>

record selector_parsers =
  sp_labels :: "string \<Rightarrow> go_error + selector"
  sp_fields :: "string \<Rightarrow> go_error option"

definition ExtractFromListOptions :: "selector_parsers \<Rightarrow> list_options \<Rightarrow> go_error + selector" where
  "ExtractFromListOptions ps opts =
     (case sp_labels ps (lo_labelSelector opts) of
        Inl err \<Rightarrow> Inl (Panic (''invalid selector '' @ [CHR 0x22] @ lo_labelSelector opts @ [CHR 0x22] @ '': '' @ ErrorText err))
      | Inr label \<Rightarrow>
          (case sp_fields ps (lo_fieldSelector opts) of
             Some err \<Rightarrow> Inl (Panic (''invalid selector '' @ [CHR 0x22] @ lo_fieldSelector opts @ [CHR 0x22] @ '': '' @ ErrorText err))
           | None \<Rightarrow> Inr label))"

record fake_client_settings =
  fc_ns :: string
  fc_resource :: gvr
  fc_kind :: gvk

definition empty_climanager :: cli_manager where
  "empty_climanager = of_namespace []"

text \<open>The nil check and the type assertion on what \<open>Invokes\<close> returned.\<close>

definition typed_reply :: "go_error + reply \<Rightarrow> go_error + cli_manager" where
  "typed_reply r =
     sum_bind r (\<lambda>obj. case obj of
        NilReply \<Rightarrow> Inr empty_climanager
      | ObjectReply k \<Rightarrow> (case as_cliManager k of Some cm \<Rightarrow> Inr cm | None \<Rightarrow> Inl wrong_type)
      | ListReply _ \<Rightarrow> Inl wrong_type)"

definition invoke_typed :: "action \<Rightarrow> fake_clientset \<Rightarrow> (go_error + cli_manager) \<times> fake_clientset" where
  "invoke_typed a c =
     (case Invokes a (ObjectReply (KCliManager empty_climanager)) c of (r, c') \<Rightarrow> (typed_reply r, c'))"

definition fakeGet :: "fake_client_settings \<Rightarrow> string \<Rightarrow> fake_clientset \<Rightarrow> (go_error + cli_manager) \<times> fake_clientset" where
  "fakeGet f name = invoke_typed (GetAction (fc_resource f) (fc_ns f) name)"

definition fakeCreate :: "fake_client_settings \<Rightarrow> cli_manager \<Rightarrow> fake_clientset \<Rightarrow> (go_error + cli_manager) \<times> fake_clientset" where
  "fakeCreate f cm = invoke_typed (CreateAction (fc_resource f) (fc_ns f) [] (KCliManager cm))"

definition fakeUpdate :: "fake_client_settings \<Rightarrow> cli_manager \<Rightarrow> fake_clientset \<Rightarrow> (go_error + cli_manager) \<times> fake_clientset" where
  "fakeUpdate f cm = invoke_typed (UpdateAction (fc_resource f) (fc_ns f) [] (KCliManager cm))"

definition fakeUpdateStatus ::
  "fake_client_settings \<Rightarrow> cli_manager \<Rightarrow> fake_clientset \<Rightarrow> (go_error + cli_manager) \<times> fake_clientset" where
  "fakeUpdateStatus f cm = invoke_typed (UpdateAction (fc_resource f) (fc_ns f) ''status'' (KCliManager cm))"

definition fakeDelete :: "fake_client_settings \<Rightarrow> string \<Rightarrow> fake_clientset \<Rightarrow> go_error option \<times> fake_clientset" where
  "fakeDelete f name c =
     (case Invokes (DeleteAction (fc_resource f) (fc_ns f) name) (ObjectReply (KCliManager empty_climanager)) c of
        (Inl err, c') \<Rightarrow> (Some err, c') | (Inr _, c') \<Rightarrow> (None, c'))"

definition fakeDeleteCollection ::
  "selector_parsers \<Rightarrow> fake_client_settings \<Rightarrow> list_options \<Rightarrow> fake_clientset \<Rightarrow> go_error option \<times> fake_clientset" where
  "fakeDeleteCollection ps f listOpts c =
     (case ExtractFromListOptions ps listOpts of
        Inl err \<Rightarrow> (Some err, c)
      | Inr _ \<Rightarrow>
          (case Invokes (DeleteCollectionAction (fc_resource f) (fc_ns f) listOpts)
              (ListReply \<lparr>cml_resourceVersion = [], cml_items = []\<rparr>) c of
             (Inl err, c') \<Rightarrow> (Some err, c') | (Inr _, c') \<Rightarrow> (None, c')))"

definition matching_list :: "selector \<Rightarrow> cli_manager_list \<Rightarrow> cli_manager_list" where
  "matching_list label l =
     \<lparr>cml_resourceVersion = cml_resourceVersion l,
      cml_items = filter (\<lambda>item. sel_matches label (om_labels (cm_meta item))) (cml_items l)\<rparr>"

definition fakeList ::
  "selector_parsers \<Rightarrow> fake_client_settings \<Rightarrow> list_options \<Rightarrow> fake_clientset \<Rightarrow>
   (go_error + cli_manager_list) \<times> fake_clientset" where
  "fakeList ps f opts c =
     (case ExtractFromListOptions ps opts of
        Inl err \<Rightarrow> (Inl err, c)
      | Inr label \<Rightarrow>
          (case Invokes (ListAction (fc_resource f) (fc_kind f) (fc_ns f) opts)
              (ListReply \<lparr>cml_resourceVersion = [], cml_items = []\<rparr>) c of
             (r, c') \<Rightarrow>
               (sum_bind r (\<lambda>obj. case obj of
                   NilReply \<Rightarrow> Inr \<lparr>cml_resourceVersion = [], cml_items = []\<rparr>
                 | ListReply l \<Rightarrow> Inr (matching_list label l)
                 | ObjectReply _ \<Rightarrow> Inl wrong_type), c')))"

definition fakeWatch ::
  "selector_parsers \<Rightarrow> fake_client_settings \<Rightarrow> list_options \<Rightarrow> fake_clientset \<Rightarrow> (go_error + nat) \<times> fake_clientset" where
  "fakeWatch ps f opts c =
     (case ExtractFromListOptions ps opts of
        Inl err \<Rightarrow> (Inl err, c)
      | Inr _ \<Rightarrow> InvokesWatch (WatchAction (fc_resource f) (fc_ns f) opts) c)"

fun join_slash :: "string list \<Rightarrow> string" where
  "join_slash [] = []"
| "join_slash [x] = x"
| "join_slash (x # xs) = x @ ''/'' @ join_slash xs"

definition fakePatch ::
  "fake_client_settings \<Rightarrow> string \<Rightarrow> string \<Rightarrow> string \<Rightarrow> string list \<Rightarrow> fake_clientset \<Rightarrow>
   (go_error + cli_manager) \<times> fake_clientset" where
  "fakePatch f name pt patch subresources =
     invoke_typed (PatchAction (fc_resource f) (fc_ns f) name (RawPatch pt patch) (join_slash subresources))"

definition applyWith ::
  "string \<Rightarrow> fake_client_settings \<Rightarrow> cli_manager_ac \<Rightarrow> fake_clientset \<Rightarrow> (go_error + cli_manager) \<times> fake_clientset" where
  "applyWith subresource f configuration c =
     (case GetMetaNameAC configuration of
        None \<Rightarrow> (Inl (ErrorString ''configuration.Name must be provided to Apply''), c)
      | Some name \<Rightarrow>
          invoke_typed (PatchAction (fc_resource f) (fc_ns f) name (ApplyPatch configuration) subresource) c)"

definition fakeApply ::
  "fake_client_settings \<Rightarrow> cli_manager_ac \<Rightarrow> fake_clientset \<Rightarrow> (go_error + cli_manager) \<times> fake_clientset" where
  "fakeApply = applyWith []"

definition fakeApplyStatus ::
  "fake_client_settings \<Rightarrow> cli_manager_ac \<Rightarrow> fake_clientset \<Rightarrow> (go_error + cli_manager) \<times> fake_clientset" where
  "fakeApplyStatus = applyWith ''status''"

text \<open>\<^verbatim>\<open>newFakeCliManagers\<close>: the generic fake client for climanagers.\<close>

definition climanager_settings :: "string \<Rightarrow> fake_client_settings" where
  "climanager_settings namespace = \<lparr>fc_ns = namespace, fc_resource = cliManager_gvr, fc_kind = cliManager_gvk\<rparr>"

definition newFakeCliManagers :: "selector_parsers \<Rightarrow> string \<Rightarrow> fake_clientset cli_manager_interface" where
  "newFakeCliManagers ps namespace =
     (let f = climanager_settings namespace in
      \<lparr>cmi_Create = fakeCreate f, cmi_Update = fakeUpdate f, cmi_UpdateStatus = fakeUpdateStatus f,
       cmi_Delete = fakeDelete f, cmi_DeleteCollection = fakeDeleteCollection ps f, cmi_Get = fakeGet f,
       cmi_List = fakeList ps f, cmi_Watch = fakeWatch ps f, cmi_Patch = fakePatch f,
       cmi_Apply = fakeApply f, cmi_ApplyStatus = fakeApplyStatus f\<rparr>)"

text \<open>\<^verbatim>\<open>CliManagers\<close> of the fake group client, and \<^verbatim>\<open>ClimanagersV1().CliManagers\<close> of the fake clientset, whose
  group client shares the actions, reactors and tracker of the clientset.\<close>

definition FakeCliManagers :: "selector_parsers \<Rightarrow> string \<Rightarrow> fake_clientset cli_manager_interface" where
  "FakeCliManagers ps namespace = newFakeCliManagers ps namespace"

definition fakeClimanagers :: "selector_parsers \<Rightarrow> string \<Rightarrow> fake_clientset cli_manager_interface" where
  "fakeClimanagers ps namespace = FakeCliManagers ps namespace"

definition fake_versioned :: "selector_parsers \<Rightarrow> fake_clientset versioned" where
  "fake_versioned ps =
     \<lparr>ver_list = (\<lambda>ns. cmi_List (fakeClimanagers ps ns)), ver_watch = (\<lambda>ns. cmi_Watch (fakeClimanagers ps ns)),
      ver_watchListUnsupported = True\<rparr>"

section \<open>The fake clientset is the tracker\<close>

text \<open>A clientset as \<open>NewSimpleClientset\<close> makes it, to which no reactor was added.\<close>

definition simple_fake :: "(patch_data \<Rightarrow> kobject \<Rightarrow> go_error + kobject) \<Rightarrow> fake_clientset \<Rightarrow> bool" where
  "simple_fake merge c \<longleftrightarrow>
     fcs_reactionChain c = [\<lparr>rx_verb = ''*'', rx_resource = ''*'', rx_react = ObjectReaction merge\<rparr>] \<and>
     fcs_watchReactionChain c = [\<lparr>wx_resource = ''*'', wx_react = watchReaction\<rparr>]"

lemma simple_fake_over: "simple_fake merge (clientset_over (ObjectReaction merge) t)"
  by (simp add: simple_fake_def clientset_over_def AddReactor_def AddWatchReactor_def)

lemma Invokes_simple:
  "simple_fake merge c \<Longrightarrow> Invokes a d c =
     (case ObjectReaction merge a (fcs_tracker c) of
        ((handled, ret), t) \<Rightarrow>
          (if handled then ret else Inr d, c\<lparr>fcs_actions := fcs_actions c @ [a], fcs_tracker := t\<rparr>))"
  by (auto simp: Invokes_def simple_fake_def Handles_def resourceCovers_def split: prod.split)

lemma Invokes_keeps: "Invokes a d c = (r, c') \<Longrightarrow> simple_fake merge c' = simple_fake merge c"
  by (auto simp: Invokes_def simple_fake_def split: prod.splits)

text \<open>Writes of the watched tracker are writes of the tracker inside, unless a watcher overflows.\<close>

lemma watchedAdd_tracker:
  assumes "watchedAdd r obj ns b t = (res, t')" "\<not> panicked res"
  shows "trackerAdd r obj ns b (wt_tracker t) = (res, wt_tracker t')"
proof (cases "trackerAdd r obj ns b (wt_tracker t)")
  case (Pair r1 t1)
  show ?thesis
  proof (cases r1)
    case None
    with assms Pair have "notify (WatchEvent (if b then EvModified else EvAdded) (stored_form ns obj))
        (getWatches r ns t) (t\<lparr>wt_tracker := t1\<rparr>) = (res, t')"
      by (simp add: watchedAdd_def)
    from notify_frame [OF this] show ?thesis using None Pair assms(2) by (auto simp: panicked_def)
  next
    case (Some err)
    then show ?thesis using assms Pair by (auto simp: watchedAdd_def trackerAdd_def Let_def split: if_splits option.splits)
  qed
qed

definition panicking :: "go_error + 'a \<Rightarrow> bool" where
  "panicking r \<longleftrightarrow> (\<exists>err. r = Inl err \<and> is_panic_error err)"

lemma then_get_tracker:
  assumes "then_get r ns name (watchedAdd r obj ns b t) = (res, t')" "\<not> panicking res"
  shows "(case trackerAdd r obj ns b (wt_tracker t) of
      (Some err, t1) \<Rightarrow> (Inl err, t1) | (None, t1) \<Rightarrow> (map_sum id ObjectReply (trackerGet r ns name t1), t1)) =
    (res, wt_tracker t')"
proof (cases "watchedAdd r obj ns b t")
  case (Pair r1 t1)
  have "\<not> panicked r1"
    using assms(1,2) Pair by (auto simp: then_get_def panicked_def panicking_def)
  with watchedAdd_tracker [OF Pair] assms Pair show ?thesis
    by (cases r1) (auto simp: then_get_def)
qed

lemma typed_reply_object:
  "typed_reply (map_sum id ObjectReply r) = typed_result as_cliManager r"
  by (cases r) (auto simp: typed_reply_def typed_result_def split: option.split)

lemma panicking_typed_reply: "\<not> panicking (typed_reply r) \<Longrightarrow> \<not> panicking r"
  by (cases r) (auto simp: panicking_def typed_reply_def)

lemma fakeGet_tracker:
  assumes "simple_fake merge c" "fakeGet (climanager_settings ns) name c = (r, c')"
  shows "ca_get (fake_climanagers sm pm) ns name (Tracker c) = (r, Tracker c')"
  using assms
  by (auto simp: fakeGet_def invoke_typed_def Invokes_simple climanager_settings_def typed_reply_object Tracker_def
      fake_climanagers_def fake_client_def Let_def)

lemma fakeUpdate_tracker:
  assumes "simple_fake merge c"
    "fakeUpdate (climanager_settings ns) cm c = (r, c') \<or> fakeUpdateStatus (climanager_settings ns) cm c = (r, c')"
    "\<not> panicking r"
  shows "rc_update (fake_client cliManager_gvr KCliManager as_cliManager) ns cm (Tracker c) = (r, Tracker c')"
proof -
  let ?obj = "KCliManager cm"
  obtain res t' where react: "then_get cliManager_gvr ns (kname ?obj) (watchedAdd cliManager_gvr ?obj ns True (fcs_tracker c)) = (res, t')"
    by fastforce
  from assms(1,2) react have r: "r = typed_reply res" "wt_tracker (fcs_tracker c') = wt_tracker t'"
    by (auto simp: fakeUpdate_def fakeUpdateStatus_def invoke_typed_def Invokes_simple climanager_settings_def)
  have "\<not> panicking res" using assms(3) r(1) panicking_typed_reply by blast
  from then_get_tracker [OF react this]
  have "reactUpdate cliManager_gvr ns ?obj (wt_tracker (fcs_tracker c)) = (res', t1) \<Longrightarrow>
      res = map_sum id ObjectReply res' \<and> wt_tracker t' = t1" for res' t1
    by (auto simp: reactUpdate_def trackerUpdate_def split: prod.splits option.splits)
  then show ?thesis
    by (auto simp: fake_client_def r Tracker_def typed_reply_object split: prod.split)
qed

text \<open>The calls of the operator's client, over any clientset; and that interface over the fake one.\<close>

datatype api_call =
    CallGet string string
  | CallUpdate string cli_manager
  | CallUpdateStatus string cli_manager
  | CallApply string cli_manager_ac bool string
  | CallApplyStatus string cli_manager_ac bool string
  | CallPatch string string string string string

fun run_call :: "'w climanager_api \<Rightarrow> api_call \<Rightarrow> 'w \<Rightarrow> (go_error + cli_manager) \<times> 'w" where
  "run_call api (CallGet ns name) = ca_get api ns name"
| "run_call api (CallUpdate ns cm) = ca_update api ns cm"
| "run_call api (CallUpdateStatus ns cm) = ca_updateStatus api ns cm"
| "run_call api (CallApply ns b force manager) = ca_apply api ns b force manager"
| "run_call api (CallApplyStatus ns b force manager) = ca_applyStatus api ns b force manager"
| "run_call api (CallPatch ns name pt data subresource) = ca_patch api ns name pt data subresource"

fun run_calls :: "'w climanager_api \<Rightarrow> api_call list \<Rightarrow> 'w \<Rightarrow> (go_error + cli_manager) list \<times> 'w" where
  "run_calls api [] w = ([], w)"
| "run_calls api (x # xs) w =
     (case run_call api x w of (r, w') \<Rightarrow> case run_calls api xs w' of (rs, w'') \<Rightarrow> (r # rs, w''))"

definition fake_api :: "selector_parsers \<Rightarrow> fake_clientset climanager_api" where
  "fake_api ps =
     \<lparr>ca_get = (\<lambda>ns. cmi_Get (fakeClimanagers ps ns)), ca_update = (\<lambda>ns. cmi_Update (fakeClimanagers ps ns)),
      ca_updateStatus = (\<lambda>ns. cmi_UpdateStatus (fakeClimanagers ps ns)),
      ca_apply = (\<lambda>ns b _ _. cmi_Apply (fakeClimanagers ps ns) b),
      ca_applyStatus = (\<lambda>ns b _ _. cmi_ApplyStatus (fakeClimanagers ps ns) b),
      ca_patch = (\<lambda>ns name pt data subresource. cmi_Patch (fakeClimanagers ps ns) name pt data [subresource])\<rparr>"

definition climanagers_only :: "tracker \<Rightarrow> bool" where
  "climanagers_only t \<longleftrightarrow> fmpred (\<lambda>(r, _) vo. r = cliManager_gvr \<longrightarrow> as_cliManager (vo_object vo) \<noteq> None) (trk_objects t)"

definition merges_agree ::
  "(patch_data \<Rightarrow> kobject \<Rightarrow> go_error + kobject) \<Rightarrow> (cli_manager \<Rightarrow> cli_manager_ac \<Rightarrow> go_error + cli_manager) \<Rightarrow>
   (string \<Rightarrow> string \<Rightarrow> cli_manager \<Rightarrow> go_error + cli_manager) \<Rightarrow> bool" where
  "merges_agree merge sm pm \<longleftrightarrow>
     (\<forall>b cm. merge (ApplyPatch b) (KCliManager cm) = map_sum id KCliManager (sm cm b)) \<and>
     (\<forall>pt data cm. merge (RawPatch pt data) (KCliManager cm) = map_sum id KCliManager (pm pt data cm))"

lemma climanagers_only_Get:
  assumes "climanagers_only t" "trackerGet cliManager_gvr ns name t = Inr k"
  obtains cm where "k = KCliManager cm"
proof -
  have "as_cliManager k \<noteq> None"
    using assms unfolding climanagers_only_def fmpred_iff
    by (fastforce simp: trackerGet_def cliManager_gvr_def split: option.splits)
  with that show thesis by (cases k) auto
qed

lemma trackerAdd_climanagers:
  "climanagers_only t \<Longrightarrow> trackerAdd r (KCliManager cm) ns b t = (res, t') \<Longrightarrow> climanagers_only t'"
  by (erule trackerAdd_cases) (auto simp: climanagers_only_def fmpred_iff)

text \<open>Both ways to patch start with the read and the merge.\<close>

lemma read_and_merge:
  assumes "climanagers_only t" "\<And>cm. merge patch (KCliManager cm) = map_sum id KCliManager (m cm)"
  shows "sum_bind (trackerGet cliManager_gvr ns name t) (merge patch) =
    map_sum id KCliManager (sum_bind (typed_result as_cliManager (trackerGet cliManager_gvr ns name t)) m)"
proof (cases "trackerGet cliManager_gvr ns name t")
  case (Inr k)
  from climanagers_only_Get [OF assms(1) Inr] obtain cm where "k = KCliManager cm" by blast
  then show ?thesis by (simp add: Inr assms(2) typed_result_def)
qed (simp add: typed_result_def)

lemma fake_merge_bind:
  "fake_merge ns name m t =
     (case sum_bind (typed_result as_cliManager (trackerGet cliManager_gvr ns name t)) m of
        Inl e \<Rightarrow> (Inl e, t)
      | Inr new \<Rightarrow>
          (case trackerAdd cliManager_gvr (KCliManager new) ns True t of
             (Some err, t') \<Rightarrow> (Inl err, t')
           | (None, t') \<Rightarrow> (typed_result as_cliManager (trackerGet cliManager_gvr ns name t'), t')))"
  by (simp add: fake_merge_def split: sum.split)

lemma typed_reply_simps [simp]:
  "typed_reply (Inl err) = Inl err"
  "typed_reply (Inr (ObjectReply (KCliManager cm))) = Inr cm"
  by (simp_all add: typed_reply_def)

lemma fakeApply_tracker:
  assumes "simple_fake merge c" "climanagers_only (Tracker c)" "merges_agree merge sm pm"
    "applyWith sub (climanager_settings ns) b c = (r, c')" "\<not> panicking r"
  shows "fake_apply sm ns b (Tracker c) = (r, Tracker c')"
proof (cases "GetMetaNameAC b")
  case None
  with assms(4) show ?thesis by (auto simp: applyWith_def fake_apply_def)
next
  case (Some name)
  let ?get = "typed_result as_cliManager (trackerGet cliManager_gvr ns name (wt_tracker (fcs_tracker c)))"
  have agree: "merge (ApplyPatch b) (KCliManager cm) = map_sum id KCliManager (sm cm b)" for cm
    using assms(3) by (simp add: merges_agree_def)
  have read: "sum_bind (trackerGet cliManager_gvr ns name (wt_tracker (fcs_tracker c))) (merge (ApplyPatch b)) =
      map_sum id KCliManager (sum_bind ?get (\<lambda>cm. sm cm b))"
    using read_and_merge [OF assms(2), of merge "ApplyPatch b", OF agree] by (simp add: Tracker_def)
  obtain res t' where react: "patchReaction merge cliManager_gvr ns name (ApplyPatch b) (fcs_tracker c) = (res, t')"
    by fastforce
  from assms(1,4) react Some have r: "r = typed_reply res" "wt_tracker (fcs_tracker c') = wt_tracker t'"
    by (auto simp: applyWith_def invoke_typed_def Invokes_simple climanager_settings_def)
  have np: "\<not> panicking res" using assms(5) r(1) panicking_typed_reply by blast
  show ?thesis
  proof (cases "sum_bind ?get (\<lambda>cm. sm cm b)")
    case (Inl err)
    then show ?thesis using react r by (auto simp: fake_apply_def fake_merge_bind Some patchReaction_def read Tracker_def typed_reply_def)
  next
    case (Inr new)
    then have "then_get cliManager_gvr ns name (watchedAdd cliManager_gvr (KCliManager new) ns True (fcs_tracker c)) = (res, t')"
      using react by (simp add: patchReaction_def read)
    from then_get_tracker [OF this np] show ?thesis
      by (auto simp: fake_apply_def fake_merge_bind Some Inr Tracker_def r typed_reply_object split: prod.splits option.splits)
  qed
qed

lemma fakePatch_tracker:
  assumes "simple_fake merge c" "climanagers_only (Tracker c)" "merges_agree merge sm pm"
    "fakePatch (climanager_settings ns) name pt data subs c = (r, c')" "\<not> panicking r"
  shows "fake_patch ns name (pm pt data) (Tracker c) = (r, Tracker c')"
proof -
  let ?get = "typed_result as_cliManager (trackerGet cliManager_gvr ns name (wt_tracker (fcs_tracker c)))"
  have agree: "merge (RawPatch pt data) (KCliManager cm) = map_sum id KCliManager (pm pt data cm)" for cm
    using assms(3) by (simp add: merges_agree_def)
  have read: "sum_bind (trackerGet cliManager_gvr ns name (wt_tracker (fcs_tracker c))) (merge (RawPatch pt data)) =
      map_sum id KCliManager (sum_bind ?get (pm pt data))"
    using read_and_merge [OF assms(2), of merge "RawPatch pt data", OF agree] by (simp add: Tracker_def)
  obtain res t' where react: "patchReaction merge cliManager_gvr ns name (RawPatch pt data) (fcs_tracker c) = (res, t')"
    by fastforce
  from assms(1,4) react have r: "r = typed_reply res" "wt_tracker (fcs_tracker c') = wt_tracker t'"
    by (auto simp: fakePatch_def invoke_typed_def Invokes_simple climanager_settings_def)
  have np: "\<not> panicking res" using assms(5) r(1) panicking_typed_reply by blast
  show ?thesis
  proof (cases "sum_bind ?get (pm pt data)")
    case (Inl err)
    then show ?thesis using react r by (auto simp: fake_patch_def patchReaction_def read Tracker_def typed_reply_def)
  next
    case (Inr new)
    with read have both: "sum_bind (trackerGet cliManager_gvr ns name (wt_tracker (fcs_tracker c))) (merge (RawPatch pt data)) =
        Inr (KCliManager new)"
      by simp
    obtain r1 t1 where add: "watchedAdd cliManager_gvr (KCliManager new) ns True (fcs_tracker c) = (r1, t1)" by fastforce
    then have "\<not> panicked r1"
      using react np by (auto simp: patchReaction_def both panicked_def panicking_def)
    from watchedAdd_tracker [OF add this] show ?thesis
      using react by (cases r1) (auto simp: fake_patch_def patchReaction_def both Inr add Tracker_def r)
  qed
qed

lemmas fake_api_defs = fake_api_def fakeClimanagers_def FakeCliManagers_def newFakeCliManagers_def Let_def fakeApply_def fakeApplyStatus_def

lemma run_call_tracker:
  assumes "simple_fake merge c" "climanagers_only (Tracker c)" "merges_agree merge sm pm"
    and run: "run_call (fake_api ps) x c = (r, c')" and np: "\<not> panicking r"
  shows "run_call (fake_climanagers sm pm) x (Tracker c) = (r, Tracker c')"
proof (cases x)
  case (CallGet ns name)
  with run show ?thesis using fakeGet_tracker [OF assms(1)] by (simp add: fake_api_defs)
next
  case (CallUpdate ns cm)
  with run have "fakeUpdate (climanager_settings ns) cm c = (r, c')" by (simp add: fake_api_defs)
  with fakeUpdate_tracker [OF assms(1) _ np] CallUpdate show ?thesis by (simp add: fake_climanagers_def Let_def)
next
  case (CallUpdateStatus ns cm)
  with run have "fakeUpdateStatus (climanager_settings ns) cm c = (r, c')" by (simp add: fake_api_defs)
  with fakeUpdate_tracker [OF assms(1) _ np] CallUpdateStatus show ?thesis by (simp add: fake_climanagers_def Let_def)
next
  case (CallApply ns b force manager)
  with run have "applyWith [] (climanager_settings ns) b c = (r, c')" by (simp add: fake_api_defs)
  with fakeApply_tracker [OF assms(1,2,3) _ np] CallApply show ?thesis by (simp add: fake_climanagers_def Let_def)
next
  case (CallApplyStatus ns b force manager)
  with run have "applyWith ''status'' (climanager_settings ns) b c = (r, c')" by (simp add: fake_api_defs)
  with fakeApply_tracker [OF assms(1,2,3) _ np] CallApplyStatus show ?thesis by (simp add: fake_climanagers_def Let_def)
next
  case (CallPatch ns name pt data sub)
  with run have "fakePatch (climanager_settings ns) name pt data [sub] c = (r, c')" by (simp add: fake_api_defs)
  with fakePatch_tracker [OF assms(1,2,3) _ np] CallPatch show ?thesis by (simp add: fake_climanagers_def Let_def)
qed

lemma run_call_climanagers:
  assumes "climanagers_only t" "run_call (fake_climanagers sm pm) x t = (r, t')"
  shows "climanagers_only t'"
  using assms
  by (cases x) (auto simp: fake_climanagers_def Let_def fake_client_def reactUpdate_def trackerUpdate_def fake_apply_def
      fake_merge_bind fake_patch_def split: prod.splits option.splits sum.splits intro: trackerAdd_climanagers)

lemma invoke_typed_keeps: "invoke_typed a c = (r, c') \<Longrightarrow> simple_fake merge c' = simple_fake merge c"
  by (auto simp: invoke_typed_def split: prod.splits dest: Invokes_keeps)

lemma run_call_keeps: "run_call (fake_api ps) x c = (r, c') \<Longrightarrow> simple_fake merge c' = simple_fake merge c"
  by (cases x) (auto simp: fake_api_defs fakeGet_def fakeUpdate_def fakeUpdateStatus_def applyWith_def fakePatch_def
      split: option.splits dest: invoke_typed_keeps)

text \<open>C31: the fake clientset refines the in-memory store. Every sequence of calls the operator makes through the typed client
  (get, update, apply, patch, with their forms for the status) gives the replies, errors included, and leaves the
  objects that the same calls give on the tracker alone, unless a watcher's channel overflows: the chain of reactors and the
  notification of watchers add nothing to them.\<close>

theorem fake_refines_tracker:
  assumes "simple_fake merge c" "climanagers_only (Tracker c)" "merges_agree merge sm pm"
    and "run_calls (fake_api ps) calls c = (rs, c')" "\<forall>r\<in>set rs. \<not> panicking r"
  shows "run_calls (fake_climanagers sm pm) calls (Tracker c) = (rs, Tracker c') \<and> simple_fake merge c'"
  using assms(1,2,4,5)
proof (induction calls arbitrary: c rs)
  case (Cons x xs)
  obtain r c1 where x: "run_call (fake_api ps) x c = (r, c1)" by fastforce
  obtain rs1 where xs: "run_calls (fake_api ps) xs c1 = (rs1, c')" "rs = r # rs1"
    using Cons.prems(3) x by (auto split: prod.splits)
  with Cons.prems(4) have np: "\<not> panicking r" "\<forall>r\<in>set rs1. \<not> panicking r" by auto
  note step = run_call_tracker [OF Cons.prems(1,2) assms(3) x np(1)]
  have "simple_fake merge c1" using run_call_keeps [OF x] Cons.prems(1) by simp
  from Cons.IH [OF this run_call_climanagers [OF Cons.prems(2) step] xs(1) np(2)] step xs(2) show ?case by simp
qed simp

text \<open>No reaction is implemented for the deletion of a collection; the error that says so is dropped by the chain.\<close>

theorem fakeDeleteCollection_deletes_nothing:
  assumes "simple_fake merge c" "ExtractFromListOptions ps listOpts = Inr label"
  shows "fakeDeleteCollection ps f listOpts c =
    (None, c\<lparr>fcs_actions := fcs_actions c @ [DeleteCollectionAction (fc_resource f) (fc_ns f) listOpts]\<rparr>)"
  using assms(2) by (simp add: fakeDeleteCollection_def Invokes_simple [OF assms(1)])

text \<open>A clientset that holds the sample configuration, watched by nobody.\<close>

definition sample_fake :: fake_clientset where
  "sample_fake = clientset_over (ObjectReaction (\<lambda>_ obj. Inr obj)) (env_world sample_start)"

definition sample_parsers :: selector_parsers where
  "sample_parsers = \<lparr>sp_labels = (\<lambda>_. Inr \<lparr>sel_matches = (\<lambda>_. True), sel_empty = True, sel_nothing = False\<rparr>), sp_fields = (\<lambda>_. None)\<rparr>"

lemma Tracker_over [simp]: "Tracker (clientset_over reaction t) = t"
  by (simp add: Tracker_def clientset_over_def AddReactor_def AddWatchReactor_def)

abbreviation sample_calls :: "api_call list" where
  "sample_calls \<equiv> [CallGet OperatorNamespace OperatorConfigName, CallUpdate OperatorNamespace sample_config,
     CallGet OperatorNamespace ''missing'']"

lemma run_sample_calls:
  "\<exists>c'. run_calls (fake_api sample_parsers) sample_calls sample_fake =
     ([Inr sample_config, Inr sample_config, Inl (NewNotFound cliManager_gvr ''missing'')], c')"
proof -
  have names: "om_name (cm_meta sample_config) = OperatorConfigName" "om_namespace (cm_meta sample_config) = OperatorNamespace"
    "OperatorNamespace \<noteq> []" "OperatorConfigName \<noteq> ''missing''"
    by (simp_all add: sample_config_def)
  have stored: "trk_objects sample_tracker = fmupd (cliManager_gvr, OperatorNamespace, OperatorConfigName)
      \<lparr>vo_resourceVersion = 1, vo_object = KCliManager sample_config\<rparr> fmempty"
    "trk_resourceVersions sample_tracker = fmempty"
    by (simp_all add: sample_tracker_def NewObjectTracker_def config_key_def)
  show ?thesis
    by (simp add: fake_api_defs fakeGet_def fakeUpdate_def invoke_typed_def Invokes_def sample_fake_def clientset_over_def
        AddReactor_def AddWatchReactor_def Handles_def resourceCovers_def climanager_settings_def trackerGet_def stored
        sample_start_def then_get_def watchedAdd_def trackerAdd_def names getWatches_def watchers_at_def NewWatchedTracker_def)
qed

theorem fake_refines_tracker_witness:
  "\<exists>c'. run_calls (fake_climanagers (\<lambda>cm _. Inr cm) (\<lambda>_ _ cm. Inr cm)) sample_calls (env_world sample_start) =
     ([Inr sample_config, Inr sample_config, Inl (NewNotFound cliManager_gvr ''missing'')], Tracker c')"
proof -
  let ?merge = "\<lambda>(_ :: patch_data) obj. Inr obj :: go_error + kobject"
  have 1: "simple_fake ?merge sample_fake" by (simp add: sample_fake_def simple_fake_over)
  have 2: "climanagers_only (Tracker sample_fake)"
    by (simp add: sample_fake_def climanagers_only_def sample_start_def sample_tracker_def NewObjectTracker_def fmpred_iff)
  have 3: "merges_agree ?merge (\<lambda>cm _. Inr cm) (\<lambda>_ _ cm. Inr cm)" by (simp add: merges_agree_def)
  obtain c' where run: "run_calls (fake_api sample_parsers) sample_calls sample_fake =
     ([Inr sample_config, Inr sample_config, Inl (NewNotFound cliManager_gvr ''missing'')], c')"
    using run_sample_calls by blast
  from fake_refines_tracker [OF 1 2 3 this] show ?thesis
    by (auto simp: panicking_def NewNotFound_def sample_fake_def)
qed

text \<open>C30: the fake clientset holds what it was given. Given typed objects, its constructor panics exactly if an object is not a
  climanager or two of them (lists counted with their items) have one namespace and name; otherwise a read through the
  typed client finds an object exactly if it is among the given ones.\<close>

theorem NewSimpleClientset_holds:
  assumes "list_all typed_object (concat (map flatten objects))"
  shows "(case NewSimpleClientset merge objects of
      Inl err \<Rightarrow> is_panic_error err \<and>
        \<not> (\<exists>cms. concat (map flatten objects) = map KCliManager cms \<and> distinct (map cm_key cms))
    | Inr cs \<Rightarrow> \<exists>cms. concat (map flatten objects) = map KCliManager cms \<and> distinct (map cm_key cms) \<and>
        (\<forall>ns name cm. ca_get (fake_climanagers sm pm) ns name (Tracker cs) = (Inr cm, Tracker cs) \<longleftrightarrow>
           cm \<in> set cms \<and> om_namespace (cm_meta cm) = ns \<and> om_name (cm_meta cm) = name))"
proof (cases "add_all (concat (map flatten objects)) NewObjectTracker")
  case (Pair r t)
  have free: "held NewObjectTracker = Map.empty" by (rule ext) (simp add: NewObjectTracker_def held_def)
  show ?thesis
  proof (cases r)
    case (Some err)
    then have "\<not> (\<exists>cms. concat (map flatten objects) = map KCliManager cms \<and> distinct (map cm_key cms))"
      using add_all_succeeds [of _ NewObjectTracker] free Pair by fastforce
    with Pair Some show ?thesis by (simp add: NewSimpleClientset_def fill_tracker_flat)
  next
    case None
    from add_all_climanagers [OF Pair [unfolded None] assms] obtain cms where
      cms: "concat (map flatten objects) = map KCliManager cms" "distinct (map cm_key cms)"
      and held: "held t = map_of (keyed cms)"
      by (auto simp: free)
    have "distinct (map fst (keyed cms))" using cms(2) by (simp add: keyed_def comp_def)
    then have found: "held t (cliManager_gvr, ns, name) = Some (KCliManager cm) \<longleftrightarrow>
        cm \<in> set cms \<and> om_namespace (cm_meta cm) = ns \<and> om_name (cm_meta cm) = name" for ns name cm
      unfolding held by (auto simp: map_of_eq_Some_iff keyed_def cm_key_def)
    have "NewSimpleClientset merge objects = Inr (clientset_over (ObjectReaction merge) t)"
      by (simp add: NewSimpleClientset_def fill_tracker_flat Pair None)
    then show ?thesis using cms found by (auto simp: Tracker_over get_held)
  qed
qed

theorem NewSimpleClientset_holds_witness:
  "\<exists>cs. NewSimpleClientset (\<lambda>_ obj. Inr obj) [Single (KCliManager sample_config), CliManagerList [other_config]] = Inr cs \<and>
     ca_get (fake_climanagers (\<lambda>cm _. Inr cm) (\<lambda>_ _ cm. Inr cm)) OperatorNamespace ''other'' (Tracker cs) =
       (Inr other_config, Tracker cs)"
proof -
  let ?merge = "\<lambda>(_ :: patch_data) obj. Inr obj :: go_error + kobject"
  let ?objects = "[Single (KCliManager sample_config), CliManagerList [other_config]]"
  have flat: "concat (map flatten ?objects) = map KCliManager [sample_config, other_config]" by simp
  have keys: "om_name (cm_meta other_config) = ''other''" "om_namespace (cm_meta other_config) = OperatorNamespace"
    "om_name (cm_meta sample_config) = OperatorConfigName"
    by (simp_all add: other_config_def sample_config_def)
  then have "distinct (map cm_key [sample_config, other_config])" by (simp add: cm_key_def)
  moreover note NewSimpleClientset_holds [where objects = ?objects and merge = ?merge and sm = "\<lambda>cm _. Inr cm" and pm = "\<lambda>_ _ cm. Inr cm"]
  ultimately obtain cs where cs: "NewSimpleClientset ?merge ?objects = Inr cs"
    "\<forall>ns name cm. ca_get (fake_climanagers (\<lambda>cm _. Inr cm) (\<lambda>_ _ cm. Inr cm)) ns name (Tracker cs) =
       (Inr cm, Tracker cs) \<longleftrightarrow>
       (cm = sample_config \<or> cm = other_config) \<and> om_namespace (cm_meta cm) = ns \<and> om_name (cm_meta cm) = name"
    using flat by (cases "NewSimpleClientset ?merge ?objects") (auto dest: spec [of _ "[sample_config, other_config]"])
  with keys show ?thesis by blast
qed

end
