(* ===== verification/Informer_Queue.thy ===== *)
theory Informer_Queue
  imports Store_Index
begin

text \<open>
  The queue between the watch of an informer and its store (client-go
  \<^verbatim>\<open>tools/cache/the_real_fifo.go\<close>) and the processing of what it holds
  (\<^verbatim>\<open>controller.go\<close>), with the feature gates at their defaults: atomic replacements and
  batches. The key of an object is a parameter and never fails. A handler is known by the
  notifications it is given. Taking items and processing them is one step: what is queued
  meanwhile only follows them.
\<close>

section \<open>The queue\<close>

datatype 'o delta =
    ReplacedAll string "'o list"
  | SyncAll
  | Bookmark string
  | Added 'o
  | Updated 'o
  | Deleted 'o

record 'o fifo =
  rf_items :: "'o delta list"
  rf_populated :: bool
  rf_initialPopulationCount :: nat
  rf_synced :: bool
  rf_closed :: bool
  rf_transformer :: "('o \<Rightarrow> go_error + 'o) option"

definition NewRealFIFO :: "('o \<Rightarrow> go_error + 'o) option \<Rightarrow> 'o fifo" where
  "NewRealFIFO transformer =
     \<lparr>rf_items = [], rf_populated = False, rf_initialPopulationCount = 0, rf_synced = False, rf_closed = False,
      rf_transformer = transformer\<rparr>"

definition checkSynced :: "'o fifo \<Rightarrow> 'o fifo" where
  "checkSynced f = (if rf_populated f \<and> rf_initialPopulationCount f = 0 then f\<lparr>rf_synced := True\<rparr> else f)"

definition transformed :: "'o fifo \<Rightarrow> 'o \<Rightarrow> go_error + 'o" where
  "transformed f obj = (case rf_transformer f of None \<Rightarrow> Inr obj | Some t \<Rightarrow> t obj)"

definition addToItems :: "('o \<Rightarrow> 'o delta) \<Rightarrow> 'o \<Rightarrow> 'o fifo \<Rightarrow> go_error option \<times> 'o fifo" where
  "addToItems deltaActionType obj f =
     (case transformed f obj of
        Inl err \<Rightarrow> (Some err, f)
      | Inr obj' \<Rightarrow> (None, f\<lparr>rf_items := rf_items f @ [deltaActionType obj']\<rparr>))"

text \<open>\<open>Add\<close>, \<open>Update\<close> and \<open>Delete\<close>.\<close>

definition fifoAdd :: "'o \<Rightarrow> 'o fifo \<Rightarrow> go_error option \<times> 'o fifo" where
  "fifoAdd obj f = addToItems Added obj (checkSynced (f\<lparr>rf_populated := True\<rparr>))"

definition fifoUpdate :: "'o \<Rightarrow> 'o fifo \<Rightarrow> go_error option \<times> 'o fifo" where
  "fifoUpdate obj f = addToItems Updated obj (checkSynced (f\<lparr>rf_populated := True\<rparr>))"

definition fifoDelete :: "'o \<Rightarrow> 'o fifo \<Rightarrow> go_error option \<times> 'o fifo" where
  "fifoDelete obj f = addToItems Deleted obj (checkSynced (f\<lparr>rf_populated := True\<rparr>))"

fun transform_all :: "'o fifo \<Rightarrow> 'o list \<Rightarrow> go_error + 'o list" where
  "transform_all f [] = Inr []"
| "transform_all f (obj # objs) =
     sum_bind (transformed f obj) (\<lambda>obj'. sum_bind (transform_all f objs) (\<lambda>objs'. Inr (obj' # objs')))"

definition fifoReplace :: "'o list \<Rightarrow> string \<Rightarrow> 'o fifo \<Rightarrow> go_error option \<times> 'o fifo" where
  "fifoReplace newItems resourceVersion f =
     (case transform_all f newItems of
        Inl err \<Rightarrow> (Some err, f)
      | Inr objs \<Rightarrow>
          (let f1 = f\<lparr>rf_items := rf_items f @ [ReplacedAll resourceVersion objs]\<rparr> in
           (None, if rf_populated f1 then f1
                  else checkSynced (f1\<lparr>rf_populated := True, rf_initialPopulationCount := length (rf_items f1)\<rparr>))))"

definition fifoResync :: "'o fifo \<Rightarrow> 'o fifo" where
  "fifoResync f = f\<lparr>rf_items := rf_items f @ [SyncAll]\<rparr>"

definition fifoBookmark :: "string \<Rightarrow> 'o fifo \<Rightarrow> 'o fifo" where
  "fifoBookmark resourceVersion f = f\<lparr>rf_items := rf_items f @ [Bookmark resourceVersion]\<rparr>"

definition fifoClose :: "'o fifo \<Rightarrow> 'o fifo" where
  "fifoClose f = f\<lparr>rf_closed := True\<rparr>"

definition fifoHasSynced :: "'o fifo \<Rightarrow> bool" where
  "fifoHasSynced f = rf_synced f"

section \<open>Processing\<close>

text \<open>\<open>OnAdd\<close>, \<open>OnUpdate\<close> and \<open>OnDelete\<close> of a handler; an object that was missing in a new list is
  reported with its key and its last known state.\<close>

datatype 'o notification =
    OnAdd 'o bool
  | OnUpdate 'o 'o
  | OnDelete 'o
  | OnDeleteUnknown string "'o option"

definition items_of :: "('o \<Rightarrow> string) \<Rightarrow> 'o list \<Rightarrow> (string, 'o) fmap" where
  "items_of key objs = fold (\<lambda>obj. fmupd (key obj) obj) objs fmempty"

definition replacement_notes :: "('o \<Rightarrow> string) \<Rightarrow> 'o list \<Rightarrow> bool \<Rightarrow> 'o store \<Rightarrow> 'o notification list" where
  "replacement_notes key objs isInInitialList c =
     map (\<lambda>k. OnDeleteUnknown k (storeGet k c))
       (filter (\<lambda>k. k \<notin> key ` set objs) (map fst (range_entries (st_items c)))) @
     map (\<lambda>obj. case storeGet (key obj) c of Some old \<Rightarrow> OnUpdate old obj | None \<Rightarrow> OnAdd obj isInInitialList) objs"

definition processReplacedAll ::
  "('o \<Rightarrow> string) \<Rightarrow> 'o list \<Rightarrow> bool \<Rightarrow> 'o store \<Rightarrow> 'o notification list \<times> 'o store" where
  "processReplacedAll key objs isInInitialList c =
     (replacement_notes key objs isInInitialList c, storeReplace (items_of key objs) c)"

definition store_changed ::
  "('o \<Rightarrow> string) \<Rightarrow> 'o \<Rightarrow> bool \<Rightarrow> 'o store \<Rightarrow> 'o notification list \<times> 'o store" where
  "store_changed key obj isInInitialList c =
     (case storeGet (key obj) c of
        Some old \<Rightarrow> ([OnUpdate old obj], storeUpdate (key obj) obj c)
      | None \<Rightarrow> ([OnAdd obj isInInitialList], storeUpdate (key obj) obj c))"

fun processDelta ::
  "('o \<Rightarrow> string) \<Rightarrow> bool \<Rightarrow> 'o delta \<Rightarrow> 'o store \<Rightarrow> 'o notification list \<times> 'o store" where
  "processDelta key b (ReplacedAll rv objs) c = processReplacedAll key objs b c"
| "processDelta key b SyncAll c = (map (\<lambda>obj. OnUpdate obj obj) (storeList c), c)"
| "processDelta key b (Bookmark rv) c = ([], c)"
| "processDelta key b (Added obj) c = store_changed key obj b c"
| "processDelta key b (Updated obj) c = store_changed key obj b c"
| "processDelta key b (Deleted obj) c = ([OnDelete obj], storeDelete (key obj) c)"

text \<open>A \<open>SyncAll\<close> ends the loop over the deltas.\<close>

fun processDeltas ::
  "('o \<Rightarrow> string) \<Rightarrow> bool \<Rightarrow> 'o delta list \<Rightarrow> 'o store \<Rightarrow> 'o notification list \<times> 'o store" where
  "processDeltas key b [] c = ([], c)"
| "processDeltas key b (d # ds) c =
     (case processDelta key b d c of
        (ns, c') \<Rightarrow>
          if d = SyncAll then (ns, c')
          else case processDeltas key b ds c' of (ns', c'') \<Rightarrow> (ns @ ns', c''))"

datatype 'o transaction = TransactionAdd 'o | TransactionUpdate 'o | TransactionDelete 'o

text \<open>The transaction and the callback of a delta, decided on the store before the batch.\<close>

fun batch_entry :: "('o \<Rightarrow> string) \<Rightarrow> bool \<Rightarrow> 'o store \<Rightarrow> 'o delta \<Rightarrow> go_error + 'o transaction \<times> 'o notification" where
  "batch_entry key b c (Added obj) =
     (case storeGet (key obj) c of
        Some old \<Rightarrow> Inr (TransactionUpdate obj, OnUpdate old obj)
      | None \<Rightarrow> Inr (TransactionAdd obj, OnAdd obj b))"
| "batch_entry key b c (Updated obj) =
     (case storeGet (key obj) c of
        Some old \<Rightarrow> Inr (TransactionUpdate obj, OnUpdate old obj)
      | None \<Rightarrow> Inr (TransactionAdd obj, OnAdd obj b))"
| "batch_entry key b c (Deleted obj) = Inr (TransactionDelete obj, OnDelete obj)"
| "batch_entry key b c (ReplacedAll rv objs) = Inl (ErrorString ''Delta type ReplacedAll is not supported in batch processing'')"
| "batch_entry key b c SyncAll = Inl (ErrorString ''Delta type SyncAll is not supported in batch processing'')"
| "batch_entry key b c (Bookmark rv) = Inl (ErrorString ''Delta type Bookmark is not supported in batch processing'')"

fun batch_entries ::
  "('o \<Rightarrow> string) \<Rightarrow> bool \<Rightarrow> 'o store \<Rightarrow> 'o delta list \<Rightarrow> go_error + ('o transaction \<times> 'o notification) list" where
  "batch_entries key b c [] = Inr []"
| "batch_entries key b c (d # ds) =
     sum_bind (batch_entry key b c d) (\<lambda>e. sum_bind (batch_entries key b c ds) (\<lambda>es. Inr (e # es)))"

fun run_transaction :: "('o \<Rightarrow> string) \<Rightarrow> 'o transaction \<Rightarrow> 'o store \<Rightarrow> 'o store" where
  "run_transaction key (TransactionAdd obj) c = storeUpdate (key obj) obj c"
| "run_transaction key (TransactionUpdate obj) c = storeUpdate (key obj) obj c"
| "run_transaction key (TransactionDelete obj) c = storeDelete (key obj) c"

definition processDeltasInBatch ::
  "('o \<Rightarrow> string) \<Rightarrow> bool \<Rightarrow> 'o delta list \<Rightarrow> 'o store \<Rightarrow> (go_error + 'o notification list) \<times> 'o store" where
  "processDeltasInBatch key b deltas c =
     (case batch_entries key b c deltas of
        Inl err \<Rightarrow> (Inl err, c)
      | Inr es \<Rightarrow> (Inr (map snd es), fold (run_transaction key) (map fst es) c))"

section \<open>Taking items\<close>

definition defaultBatchSize :: nat where "defaultBatchSize = 1000"

fun batchable :: "'o delta \<Rightarrow> bool" where
  "batchable (Added _) = True"
| "batchable (Updated _) = True"
| "batchable (Deleted _) = True"
| "batchable _ = False"

fun delta_key :: "('o \<Rightarrow> string) \<Rightarrow> 'o delta \<Rightarrow> string" where
  "delta_key key (Added obj) = key obj"
| "delta_key key (Updated obj) = key obj"
| "delta_key key (Deleted obj) = key obj"
| "delta_key key _ = []"

text \<open>The loop that bundles the first items: \<open>i\<close> of them are taken, with the keys \<open>unique\<close>.\<close>

fun batch_from :: "('o \<Rightarrow> string) \<Rightarrow> nat \<Rightarrow> nat \<Rightarrow> string list \<Rightarrow> 'o delta list \<Rightarrow> 'o delta list" where
  "batch_from key count i unique [] = []"
| "batch_from key count i unique (item # items) =
     (if \<not> i < defaultBatchSize then []
      else if count > 0 \<and> i \<ge> count then []
      else if \<not> batchable item then (if i = 0 then [item] else [])
      else if delta_key key item \<in> set unique then []
      else item # batch_from key count (i + 1) (unique @ [delta_key key item]) items)"

definition popped :: "nat \<Rightarrow> 'o fifo \<Rightarrow> 'o fifo" where
  "popped n f =
     (let f1 = f\<lparr>rf_items := drop n (rf_items f)\<rparr> in
      if rf_initialPopulationCount f1 > 0
      then checkSynced (f1\<lparr>rf_initialPopulationCount := rf_initialPopulationCount f1 - n\<rparr>) else f1)"

text \<open>\<open>None\<close>: the queue is empty, so that the call blocks or, on a closed queue, returns.\<close>

definition Pop ::
  "('o \<Rightarrow> string) \<Rightarrow> 'o fifo \<Rightarrow> 'o store \<Rightarrow> ('o notification list \<times> 'o fifo \<times> 'o store) option" where
  "Pop key f c =
     (case rf_items f of
        [] \<Rightarrow> None
      | item # _ \<Rightarrow>
          (case processDeltas key (\<not> fifoHasSynced f) [item] c of (ns, c') \<Rightarrow> Some (ns, popped 1 f, c')))"

definition PopBatch ::
  "('o \<Rightarrow> string) \<Rightarrow> 'o fifo \<Rightarrow> 'o store \<Rightarrow> ((go_error + 'o notification list) \<times> 'o fifo \<times> 'o store) option" where
  "PopBatch key f c =
     (if rf_items f = [] then None
      else let isInInitialList = \<not> fifoHasSynced f;
               deltas = batch_from key (rf_initialPopulationCount f) 0 [] (rf_items f);
               f' = popped (length deltas) f in
        if length deltas = 1
        then (case processDeltas key isInInitialList deltas c of (ns, c') \<Rightarrow> Some (Inr ns, f', c'))
        else (case processDeltasInBatch key isInInitialList deltas c of (r, c') \<Rightarrow> Some (r, f', c')))"

section \<open>A batch is its items one by one\<close>

lemma storeGet_simps [simp]:
  "storeGet k (storeUpdate k' ob c) = (if k = k' then Some ob else storeGet k c)"
  "storeGet k (storeDelete k' c) = (if k = k' then None else storeGet k c)"
  by (simp_all add: storeGet_def storeUpdate_items storeDelete_items)

fun process_each ::
  "('o \<Rightarrow> string) \<Rightarrow> bool \<Rightarrow> 'o delta list \<Rightarrow> 'o store \<Rightarrow> 'o notification list \<times> 'o store" where
  "process_each key b [] c = ([], c)"
| "process_each key b (d # ds) c =
     (case processDelta key b d c of (ns, c') \<Rightarrow>
        (case process_each key b ds c' of (ns', c'') \<Rightarrow> (ns @ ns', c'')))"

lemma batch_entry_cong:
  "storeGet (delta_key key d) c = storeGet (delta_key key d) c' \<Longrightarrow> batch_entry key b c d = batch_entry key b c' d"
  by (cases d) (simp_all split: option.split)

lemma batch_entries_cong:
  "(\<And>d. d \<in> set ds \<Longrightarrow> storeGet (delta_key key d) c = storeGet (delta_key key d) c') \<Longrightarrow>
     batch_entries key b c ds = batch_entries key b c' ds"
proof (induction ds)
  case (Cons d ds)
  then have "batch_entry key b c d = batch_entry key b c' d" by (intro batch_entry_cong) simp
  with Cons show ?case by simp
qed simp

lemma batch_entry_process:
  "batchable d \<Longrightarrow> \<exists>x n. batch_entry key b c d = Inr (x, n) \<and> processDelta key b d c = ([n], run_transaction key x c)"
  by (cases d) (auto simp: store_changed_def split: option.split)

lemma process_other:
  "batchable d \<Longrightarrow> k \<noteq> delta_key key d \<Longrightarrow> processDelta key b d c = (ns, c') \<Longrightarrow> storeGet k c' = storeGet k c"
  by (cases d) (auto simp: store_changed_def split: option.splits)

lemma batch_is_each:
  "list_all batchable ds \<Longrightarrow> distinct (map (delta_key key) ds) \<Longrightarrow> process_each key b ds c = (ns, c') \<Longrightarrow>
     processDeltasInBatch key b ds c = (Inr ns, c')"
proof (induction ds arbitrary: c ns)
  case Nil
  then show ?case by (simp add: processDeltasInBatch_def)
next
  case (Cons d ds)
  obtain x n where e: "batch_entry key b c d = Inr (x, n)" "processDelta key b d c = ([n], run_transaction key x c)"
    using batch_entry_process [of d key b c] Cons.prems(1) by auto
  from Cons.prems(3) obtain ns' where each: "process_each key b ds (run_transaction key x c) = (ns', c')" "ns = n # ns'"
    by (auto simp: e(2) split: prod.splits)
  have same: "batch_entries key b c ds = batch_entries key b (run_transaction key x c) ds"
  proof (rule batch_entries_cong)
    fix d' assume "d' \<in> set ds"
    then have "delta_key key d' \<noteq> delta_key key d" using Cons.prems(2)
      by (metis distinct.simps(2) image_eqI list.simps(9) list.set_map)
    then show "storeGet (delta_key key d') c = storeGet (delta_key key d') (run_transaction key x c)"
      using process_other [OF _ _ e(2)] Cons.prems(1) by simp
  qed
  have "processDeltasInBatch key b ds (run_transaction key x c) = (Inr ns', c')"
    using Cons.IH [OF _ _ each(1)] Cons.prems(1,2) by simp
  then show ?case
    by (auto simp: processDeltasInBatch_def e(1) same each(2) split: sum.splits)
qed

lemma batch_from_later: "0 < i \<Longrightarrow> list_all batchable (batch_from key count i unique items)"
  by (induction key count i unique items rule: batch_from.induct) auto

lemma batch_from_batchable:
  assumes "ds = batch_from key count 0 [] items" "length ds \<noteq> 1"
  shows "list_all batchable ds"
  using assms by (cases items) (auto simp: batch_from_later split: if_splits)

lemma batch_from_prefix: "\<exists>rest. items = batch_from key count i unique items @ rest"
  by (induction key count i unique items rule: batch_from.induct) auto

lemma batch_from_keys:
  "0 < i \<Longrightarrow> distinct (map (delta_key key) (batch_from key count i unique items)) \<and>
     delta_key key ` set (batch_from key count i unique items) \<inter> set unique = {}"
proof (induction key count i unique items rule: batch_from.induct)
  case (2 key count i unique item items)
  show ?case
  proof (cases "i < defaultBatchSize \<and> \<not> (count > 0 \<and> i \<ge> count) \<and> batchable item \<and> delta_key key item \<notin> set unique")
    case True
    then have "distinct (map (delta_key key) (batch_from key count (i + 1) (unique @ [delta_key key item]) items)) \<and>
        delta_key key ` set (batch_from key count (i + 1) (unique @ [delta_key key item]) items) \<inter>
          set (unique @ [delta_key key item]) = {}"
      using 2 by simp
    with True show ?thesis by auto
  qed (use 2(2) in auto)
qed simp

lemma batch_from_distinct: "distinct (map (delta_key key) (batch_from key count 0 [] items))"
proof (cases items)
  case (Cons item rest)
  have "distinct (map (delta_key key) (batch_from key count 1 [delta_key key item] rest)) \<and>
      delta_key key ` set (batch_from key count 1 [delta_key key item] rest) \<inter> set [delta_key key item] = {}"
    by (rule batch_from_keys) simp
  then show ?thesis by (auto simp: Cons)
qed simp

lemma batch_from_some: "items \<noteq> [] \<Longrightarrow> batch_from key count 0 [] items \<noteq> []"
  by (cases items) (auto simp: defaultBatchSize_def)

lemma batch_from_count: "0 < count \<Longrightarrow> i \<le> count \<Longrightarrow> i + length (batch_from key count i unique items) \<le> count"
  by (induction key count i unique items rule: batch_from.induct) auto

text \<open>Popping one item at a time.\<close>

fun pops ::
  "('o \<Rightarrow> string) \<Rightarrow> nat \<Rightarrow> 'o fifo \<Rightarrow> 'o store \<Rightarrow> ('o notification list \<times> 'o fifo \<times> 'o store) option" where
  "pops key 0 f c = Some ([], f, c)"
| "pops key (Suc n) f c =
     (case Pop key f c of
        None \<Rightarrow> None
      | Some (ns, f', c') \<Rightarrow> map_option (\<lambda>(ns', r). (ns @ ns', r)) (pops key n f' c'))"

lemma processDeltas_single: "processDeltas key b [d] c = processDelta key b d c"
  by (simp split: prod.split)

lemma popped_simps [simp]:
  "rf_items (popped n f) = drop n (rf_items f)"
  "rf_initialPopulationCount (popped n f) = rf_initialPopulationCount f - n"
  by (simp_all add: popped_def checkSynced_def Let_def)

lemma popped_popped: "popped m (popped n f) = popped (n + m) f" if "n < rf_initialPopulationCount f \<or> rf_initialPopulationCount f = 0"
  using that by (auto simp: popped_def checkSynced_def Let_def add.commute)

lemma popped_0: "rf_initialPopulationCount f = 0 \<Longrightarrow> popped 0 f = f"
  by (simp add: popped_def)

lemma popped_synced: "n < rf_initialPopulationCount f \<or> rf_initialPopulationCount f = 0 \<Longrightarrow> rf_synced (popped n f) = rf_synced f"
  by (auto simp: popped_def checkSynced_def Let_def)

lemma pops_each:
  "rf_items f = ds @ rest \<Longrightarrow> ds \<noteq> [] \<Longrightarrow>
     length ds \<le> rf_initialPopulationCount f \<or> rf_initialPopulationCount f = 0 \<Longrightarrow>
     process_each key (\<not> rf_synced f) ds c = (ns, c') \<Longrightarrow>
     pops key (length ds) f c = Some (ns, popped (length ds) f, c')"
proof (induction ds arbitrary: f c ns)
  case (Cons d ds)
  obtain ns1 c1 where d: "processDelta key (\<not> rf_synced f) d c = (ns1, c1)" by fastforce
  then have pop: "Pop key f c = Some (ns1, popped 1 f, c1)"
    using Cons.prems(1) by (simp add: Pop_def fifoHasSynced_def split: prod.split)
  show ?case
  proof (cases "ds = []")
    case True
    with pop Cons.prems(4) d show ?thesis by simp
  next
    case False
    then have small: "1 < rf_initialPopulationCount f \<or> rf_initialPopulationCount f = 0"
      using Cons.prems(3) by (cases ds) auto
    from Cons.prems(4) obtain ns2 where "process_each key (\<not> rf_synced f) ds c1 = (ns2, c')" and ns: "ns = ns1 @ ns2"
      by (auto simp: d split: prod.splits)
    then have each: "process_each key (\<not> rf_synced (popped 1 f)) ds c1 = (ns2, c')"
      by (simp only: popped_synced [OF small])
    have "pops key (length ds) (popped 1 f) c1 = Some (ns2, popped (length ds) (popped 1 f), c')"
      by (rule Cons.IH [OF _ False _ each]) (use Cons.prems(1,3) in auto)
    then show ?thesis using popped_popped [OF small, of "length ds"] by (simp add: pop ns)
  qed
qed simp

lemma PopBatch_pops:
  assumes "PopBatch key f c = Some (r, f', c')"
  obtains n ns where "0 < n" "r = Inr ns" "pops key n f c = Some (ns, f', c')"
proof -
  have busy: "rf_items f \<noteq> []" using assms by (auto simp: PopBatch_def)
  let ?count = "rf_initialPopulationCount f"
  let ?ds = "batch_from key ?count 0 [] (rf_items f)"
  obtain rest where rest: "rf_items f = ?ds @ rest" using batch_from_prefix by blast
  have some: "?ds \<noteq> []" by (rule batch_from_some [OF busy])
  have count: "length ?ds \<le> ?count \<or> ?count = 0" using batch_from_count [of ?count 0] by auto
  obtain ns c' where each: "process_each key (\<not> rf_synced f) ?ds c = (ns, c')" by fastforce
  have pops: "pops key (length ?ds) f c = Some (ns, popped (length ?ds) f, c')"
    by (rule pops_each [OF rest some count each])
  have "PopBatch key f c = Some (Inr ns, popped (length ?ds) f, c')"
  proof (cases "length ?ds = 1")
    case True
    then obtain d where d: "?ds = [d]" by (cases ?ds) auto
    then have "processDeltas key (\<not> rf_synced f) ?ds c = (ns, c')"
      using each by (simp add: d processDeltas_single split: prod.splits)
    with True busy show ?thesis by (simp add: PopBatch_def Let_def fifoHasSynced_def)
  next
    case Many: False
    have "processDeltasInBatch key (\<not> rf_synced f) ?ds c = (Inr ns, c')"
      by (rule batch_is_each [OF batch_from_batchable [OF refl Many] batch_from_distinct each])
    with Many busy show ?thesis by (simp add: PopBatch_def Let_def fifoHasSynced_def)
  qed
  with pops some assms show thesis by (intro that [of "length ?ds" ns]) simp_all
qed

text \<open>C26: batches. Taking a batch from the queue of an informer and processing it never fails, and does what taking and
  processing that many items one at a time does: it leaves the same store and the same queue and
  gives the handlers the same notifications in the same order.\<close>

theorem PopBatch_is_Pops:
  "case PopBatch key f c of
     None \<Rightarrow> rf_items f = []
   | Some (r, f', c') \<Rightarrow> \<exists>n ns. 0 < n \<and> r = Inr ns \<and> pops key n f c = Some (ns, f', c')"
proof (cases "PopBatch key f c")
  case None
  then show ?thesis by (auto simp: PopBatch_def Let_def split: if_splits prod.splits)
next
  case (Some a)
  obtain r f' c' where a: "a = (r, f', c')" by (cases a)
  obtain n ns where "0 < n" "r = Inr ns" "pops key n f c = Some (ns, f', c')"
    by (rule PopBatch_pops [OF Some [unfolded a]])
  then show ?thesis unfolding Some a by auto
qed

end
