(* ===== verification/Queue_Content.thy ===== *)
theory Queue_Content
  imports Informer_Queue
begin

text \<open>
  What the queue of an informer says: the items it will leave in the store, and what a handler that
  follows the notifications knows. A delta is a function on the items of the store; taking a batch
  moves its effect from the queue to the store and tells the handlers of it.
\<close>

section \<open>The effect of a delta\<close>

fun delta_effect :: "('o \<Rightarrow> string) \<Rightarrow> 'o delta \<Rightarrow> (string, 'o) fmap \<Rightarrow> (string, 'o) fmap" where
  "delta_effect key (ReplacedAll rv objs) m = items_of key objs"
| "delta_effect key SyncAll m = m"
| "delta_effect key (Bookmark rv) m = m"
| "delta_effect key (Added obj) m = fmupd (key obj) obj m"
| "delta_effect key (Updated obj) m = fmupd (key obj) obj m"
| "delta_effect key (Deleted obj) m = fmdrop (key obj) m"

definition pending_items :: "('o \<Rightarrow> string) \<Rightarrow> 'o fifo \<Rightarrow> 'o store \<Rightarrow> (string, 'o) fmap" where
  "pending_items key f c = fold (delta_effect key) (rf_items f) (st_items c)"

text \<open>What a handler knows that puts and drops what it is notified of.\<close>

fun note_effect :: "('o \<Rightarrow> string) \<Rightarrow> 'o notification \<Rightarrow> (string, 'o) fmap \<Rightarrow> (string, 'o) fmap" where
  "note_effect key (OnAdd obj b) m = fmupd (key obj) obj m"
| "note_effect key (OnUpdate old obj) m = fmupd (key obj) obj m"
| "note_effect key (OnDelete obj) m = fmdrop (key obj) m"
| "note_effect key (OnDeleteUnknown k obj) m = fmdrop k m"

definition own_keys :: "('o \<Rightarrow> string) \<Rightarrow> (string, 'o) fmap \<Rightarrow> bool" where
  "own_keys key m \<longleftrightarrow> fmpred (\<lambda>k obj. key obj = k) m"

lemma own_keys_put: "own_keys key m \<Longrightarrow> own_keys key (fmupd (key obj) obj m)"
  by (auto simp: own_keys_def fmpred_iff split: if_splits)

lemma own_keys_puts: "own_keys key m \<Longrightarrow> own_keys key (fold (\<lambda>obj. fmupd (key obj) obj) objs m)"
  by (induction objs arbitrary: m) (simp_all add: own_keys_put)

lemma own_keys_items_of: "own_keys key (items_of key objs)"
  unfolding items_of_def by (rule own_keys_puts) (simp add: own_keys_def)

lemma own_keys_effect: "own_keys key m \<Longrightarrow> own_keys key (delta_effect key d m)"
  by (cases d) (auto simp: own_keys_items_of own_keys_put, simp add: own_keys_def fmpred_iff)

lemma processDelta_items: "processDelta key b d c = (ns, c') \<Longrightarrow> st_items c' = delta_effect key d (st_items c)"
  by (cases d) (auto simp: processReplacedAll_def store_changed_def storeReplace_ok storeUpdate_items storeDelete_items
      split: option.splits)

lemma processDelta_indexers: "processDelta key b d c = (ns, c') \<Longrightarrow> st_indexers c' = st_indexers c"
  by (cases d) (auto simp: processReplacedAll_def store_changed_def storeReplace_ok storeUpdate_indexers
      storeDelete_indexers split: option.splits)

lemma processDelta_ok: "processDelta key b d c = (ns, c') \<Longrightarrow> store_ok c \<Longrightarrow> store_ok c'"
  by (cases d) (auto simp: processReplacedAll_def store_changed_def storeReplace_ok storeUpdate_ok storeDelete_ok
      split: option.splits)

section \<open>The notifications of a delta\<close>

lemma drops_lookup:
  "fmlookup (fold (note_effect key) (map (\<lambda>k. OnDeleteUnknown k (old k)) ks) m) k' =
     (if k' \<in> set ks then None else fmlookup m k')"
  by (induction ks arbitrary: m) auto

lemma puts_fold:
  "fold (note_effect key) (map (\<lambda>obj. case old obj of Some x \<Rightarrow> OnUpdate x obj | None \<Rightarrow> OnAdd obj b) objs) m =
     fold (\<lambda>obj. fmupd (key obj) obj) objs m"
proof (induction objs arbitrary: m)
  case (Cons obj objs)
  then show ?case by (cases "old obj") simp_all
qed simp

lemma items_of_start:
  "(\<forall>k. k \<notin> key ` set objs \<longrightarrow> fmlookup m k = fmlookup m' k) \<Longrightarrow>
     fold (\<lambda>obj. fmupd (key obj) obj) objs m = fold (\<lambda>obj. fmupd (key obj) obj) objs m'"
proof (induction objs arbitrary: m m')
  case Nil
  then show ?case by (simp add: fmap_ext)
next
  case (Cons obj objs)
  then show ?case by auto
qed

lemma replacement_effect:
  "fold (note_effect key) (replacement_notes key objs b c) (st_items c) = items_of key objs"
proof -
  let ?gone = "filter (\<lambda>k. k \<notin> key ` set objs) (map fst (range_entries (st_items c)))"
  let ?m = "fold (note_effect key) (map (\<lambda>k. OnDeleteUnknown k (storeGet k c)) ?gone) (st_items c)"
  have "fmlookup ?m k = fmlookup fmempty k" if "k \<notin> key ` set objs" for k
  proof -
    have "fmlookup (st_items c) k = None" if "k \<notin> set (map fst (range_entries (st_items c)))"
      using that by (metis enumerates_keys enumerates_range_entries fmdom'_notD list.set_map)
    then show ?thesis using that by (auto simp: drops_lookup)
  qed
  then have "fold (\<lambda>obj. fmupd (key obj) obj) objs ?m = items_of key objs"
    unfolding items_of_def by (intro items_of_start) blast
  then show ?thesis by (simp add: replacement_notes_def puts_fold)
qed

lemma sync_effect:
  assumes "own_keys key m" "set objs \<subseteq> fmran' m"
  shows "fold (note_effect key) (map (\<lambda>obj. OnUpdate obj obj) objs) m = m"
  using assms(2)
proof (induction objs)
  case (Cons obj objs)
  then obtain k where "fmlookup m k = Some obj" by (auto elim: fmran'E)
  with assms(1) have "fmlookup m (key obj) = Some obj" by (auto simp: own_keys_def fmpred_iff)
  then have "fmupd (key obj) obj m = m" by (intro fmap_ext) auto
  with Cons show ?case by simp
qed simp

lemma storeList_ran: "set (storeList c) = fmran' (st_items c)"
proof -
  have entry: "(k, ob) \<in> set (range_entries (st_items c)) \<longleftrightarrow> fmlookup (st_items c) k = Some ob" for k ob
    using map_of_eq_Some_iff [OF distinct_range_entries, of "st_items c" k ob] by simp
  show ?thesis
  proof (rule set_eqI)
    fix ob
    have "ob \<in> set (storeList c) \<longleftrightarrow> (\<exists>k. (k, ob) \<in> set (range_entries (st_items c)))"
      by (force simp: storeList_def)
    then show "ob \<in> set (storeList c) \<longleftrightarrow> ob \<in> fmran' (st_items c)"
      unfolding entry by (simp add: fmlookup_ran'_iff)
  qed
qed

lemma processDelta_notes:
  assumes "own_keys key (st_items c)" "processDelta key b d c = (ns, c')"
  shows "fold (note_effect key) ns (st_items c) = st_items c'"
  using assms sync_effect [OF assms(1), of "storeList c"]
  by (cases d) (auto simp: processReplacedAll_def store_changed_def storeReplace_ok storeUpdate_items storeDelete_items
      replacement_effect storeList_ran split: option.splits)

section \<open>Taking a batch\<close>

lemma Pop_content:
  assumes "Pop key f c = Some (ns, f', c')"
  shows "pending_items key f' c' = pending_items key f c \<and> st_indexers c' = st_indexers c \<and>
    (store_ok c \<longrightarrow> store_ok c') \<and>
    (own_keys key (st_items c) \<longrightarrow> own_keys key (st_items c') \<and> fold (note_effect key) ns (st_items c) = st_items c')"
proof -
  from assms obtain d ds where f: "rf_items f = d # ds" and d: "processDelta key (\<not> fifoHasSynced f) d c = (ns, c')"
    and f': "f' = popped 1 f"
    by (auto simp: Pop_def split: list.splits prod.splits if_splits)
  show ?thesis
    using processDelta_items [OF d] processDelta_indexers [OF d] processDelta_ok [OF d] processDelta_notes [OF _ d]
      own_keys_effect [of key "st_items c" d]
    by (simp add: pending_items_def f f')
qed

lemma pops_content:
  "pops key n f c = Some (ns, f', c') \<Longrightarrow>
    pending_items key f' c' = pending_items key f c \<and> st_indexers c' = st_indexers c \<and>
    (store_ok c \<longrightarrow> store_ok c') \<and>
    (own_keys key (st_items c) \<longrightarrow> own_keys key (st_items c') \<and> fold (note_effect key) ns (st_items c) = st_items c')"
proof (induction n arbitrary: f c ns)
  case (Suc n)
  from Suc.prems obtain ns1 f1 c1 ns2 where 1: "Pop key f c = Some (ns1, f1, c1)"
    and 2: "pops key n f1 c1 = Some (ns2, f', c')" and ns: "ns = ns1 @ ns2"
    by (auto split: option.splits)
  from Pop_content [OF 1] Suc.IH [OF 2] show ?case by (auto simp: ns)
qed simp

text \<open>Sync: the counter of the initial items goes down with them.\<close>

definition counting :: "'o fifo \<Rightarrow> bool" where
  "counting f \<longleftrightarrow> rf_populated f \<and> (rf_synced f \<or> 0 < rf_initialPopulationCount f) \<and>
     rf_initialPopulationCount f \<le> length (rf_items f)"

lemma popped_counting: "counting f \<Longrightarrow> counting (popped n f)"
  by (auto simp: counting_def popped_def checkSynced_def Let_def)

lemma pops_counting: "pops key n f c = Some (ns, f', c') \<Longrightarrow> counting f \<Longrightarrow> counting f'"
  by (induction n arbitrary: f c ns)
    (auto simp: Pop_def popped_counting split: option.splits list.splits prod.splits)

end
