(* ===== verification/Shared_Informer.thy ===== *)
theory Shared_Informer
  imports Fake_Client Queue_Content
begin

text \<open>
  A running informer of climanagers over the fake clientset: the reflector lists and then watches
  (client-go \<^verbatim>\<open>tools/cache/reflector.go\<close>), its events pass through the queue of deltas into
  the indexed store, and the handlers are notified (\<^verbatim>\<open>controller.go\<close>, \<^verbatim>\<open>shared_informer.go\<close>).
  Writers, reflector and the processing of the queue run interleaved; every step is one of them. The watch is
  the one the fake asks for, without the streaming list. Resyncs, timeouts of the
  watch and the end of the context are left out: nobody but the reflector stops its watch. Of the
  options of a request the limits and timeouts, which the fake ignores, are left out.
\<close>

section \<open>Keys of objects\<close>

text \<open>\<open>MetaNamespaceKeyFunc\<close>, which does not fail on a climanager.\<close>

definition ObjectName_String :: "string \<times> string \<Rightarrow> string" where
  "ObjectName_String k = (case k of (ns, name) \<Rightarrow> if ns \<noteq> [] then ns @ ''/'' @ name else name)"

definition cm_object_name :: "cli_manager \<Rightarrow> string \<times> string" where
  "cm_object_name cm = (om_namespace (cm_meta cm), om_name (cm_meta cm))"

definition MetaNamespaceKeyFunc :: "cli_manager \<Rightarrow> string" where
  "MetaNamespaceKeyFunc cm = ObjectName_String (cm_object_name cm)"

section \<open>The system\<close>

text \<open>A watch propagates resource versions from its start, or once an event was no addition.\<close>

datatype reflector_phase = ToList | ToWatch | Watching nat bool | Crashed go_error

record informer_system =
  sy_clientset :: fake_clientset
  sy_informer :: "fake_clientset informer"
  sy_fifo :: "cli_manager fifo"
  sy_phase :: reflector_phase
  sy_lastSync :: string
  sy_notes :: "cli_manager notification list"

definition start_system :: "fake_clientset informer \<Rightarrow> fake_clientset \<Rightarrow> informer_system" where
  "start_system i c =
     \<lparr>sy_clientset = c, sy_informer = i, sy_fifo = NewRealFIFO (in_transform i), sy_phase = ToList, sy_lastSync = [],
      sy_notes = []\<rparr>"

definition set_tracker :: "watched_tracker \<Rightarrow> fake_clientset \<Rightarrow> fake_clientset" where
  "set_tracker t c = c\<lparr>fcs_tracker := t\<rparr>"

text \<open>An error ends \<open>ListAndWatch\<close>, which is started again; a panic ends the program.\<close>

definition after_error :: "go_error \<Rightarrow> reflector_phase" where
  "after_error err = (if is_panic_error err then Crashed err else ToList)"

definition request_options :: "string \<Rightarrow> list_options" where
  "request_options rv = \<lparr>lo_labelSelector = [], lo_fieldSelector = [], lo_resourceVersion = rv\<rparr>"

definition relistResourceVersion :: "informer_system \<Rightarrow> string" where
  "relistResourceVersion s = (if sy_lastSync s = [] then ''0'' else sy_lastSync s)"

definition reflectorList :: "informer_system \<Rightarrow> informer_system" where
  "reflectorList s =
     (case lw_list (in_listerWatcher (sy_informer s)) (request_options (relistResourceVersion s)) (sy_clientset s) of
        (Inl err, c) \<Rightarrow> s\<lparr>sy_clientset := c, sy_phase := after_error err\<rparr>
      | (Inr l, c) \<Rightarrow>
          (case fifoReplace (cml_items l) (cml_resourceVersion l) (sy_fifo s) of
             (Some err, f) \<Rightarrow> s\<lparr>sy_clientset := c, sy_fifo := f, sy_phase := after_error err\<rparr>
           | (None, f) \<Rightarrow>
               s\<lparr>sy_clientset := c, sy_fifo := f, sy_lastSync := cml_resourceVersion l, sy_phase := ToWatch\<rparr>))"

definition reflectorWatch :: "informer_system \<Rightarrow> informer_system" where
  "reflectorWatch s =
     (case lw_watch (in_listerWatcher (sy_informer s)) (request_options (sy_lastSync s)) (sy_clientset s) of
        (Inl err, c) \<Rightarrow> s\<lparr>sy_clientset := c, sy_phase := after_error err\<rparr>
      | (Inr w, c) \<Rightarrow> s\<lparr>sy_clientset := c, sy_phase := Watching w (sy_lastSync s \<notin> {[], ''0''})\<rparr>)"

text \<open>One event of \<open>handleAnyWatch\<close>; an object of another type is logged and skipped, an error of the queue
  is logged.\<close>

definition handle_event :: "nat \<Rightarrow> bool \<Rightarrow> watch_event \<Rightarrow> informer_system \<Rightarrow> informer_system" where
  "handle_event w propagate e s =
     (case e of WatchEvent ty obj \<Rightarrow>
        (case as_cliManager obj of
           None \<Rightarrow> s
         | Some cm \<Rightarrow>
             (let f = snd (case ty of EvAdded \<Rightarrow> fifoAdd cm (sy_fifo s)
                           | EvModified \<Rightarrow> fifoUpdate cm (sy_fifo s)
                           | EvDeleted \<Rightarrow> fifoDelete cm (sy_fifo s));
                  propagate' = (propagate \<or> ty \<noteq> EvAdded) in
              s\<lparr>sy_fifo := f, sy_phase := Watching w propagate',
                sy_lastSync := (if propagate' then om_resourceVersion (cm_meta cm) else sy_lastSync s)\<rparr>)))"

definition reflectorReceive :: "nat \<Rightarrow> bool \<Rightarrow> informer_system \<Rightarrow> informer_system option" where
  "reflectorReceive w propagate s =
     (let t = fcs_tracker (sy_clientset s) in
      case watcherReceive (wt_all t ! w) of
        (Received e, f) \<Rightarrow>
          Some (handle_event w propagate e
            (s\<lparr>sy_clientset := set_tracker (t\<lparr>wt_all := (wt_all t)[w := f]\<rparr>) (sy_clientset s)\<rparr>))
      | (_, _) \<Rightarrow> None)"

text \<open>One round of the controller's \<open>processLoop\<close>; an error of the processing is logged.\<close>

definition processLoop :: "informer_system \<Rightarrow> informer_system option" where
  "processLoop s =
     map_option (\<lambda>(r, f, c).
         s\<lparr>sy_fifo := f, sy_informer := (sy_informer s)\<lparr>in_indexer := c, in_synced := fifoHasSynced f\<rparr>,
           sy_notes := sy_notes s @ (case r of Inl _ \<Rightarrow> [] | Inr ns \<Rightarrow> ns)\<rparr>)
       (PopBatch MetaNamespaceKeyFunc (sy_fifo s) (in_indexer (sy_informer s)))"

datatype system_step = DoWrite tracker_op | DoList | DoWatch | DoReceive | DoProcess

text \<open>A write that panics, on the full channel of some watcher, is the end of the program and no step.\<close>

definition crashed :: "informer_system \<Rightarrow> bool" where
  "crashed s \<longleftrightarrow> (case sy_phase s of Crashed _ \<Rightarrow> True | _ \<Rightarrow> False)"

fun perform :: "system_step \<Rightarrow> informer_system \<Rightarrow> informer_system option" where
  "perform (DoWrite op) s =
     (case run_op op (fcs_tracker (sy_clientset s)) of (res, t) \<Rightarrow>
        if crashed s \<or> panicked res then None else Some (s\<lparr>sy_clientset := set_tracker t (sy_clientset s)\<rparr>))"
| "perform DoList s = (if sy_phase s = ToList then Some (reflectorList s) else None)"
| "perform DoWatch s = (if sy_phase s = ToWatch then Some (reflectorWatch s) else None)"
| "perform DoReceive s =
     (case sy_phase s of Watching w propagate \<Rightarrow> reflectorReceive w propagate s | _ \<Rightarrow> None)"
| "perform DoProcess s = (if crashed s then None else processLoop s)"

fun perform_all :: "system_step list \<Rightarrow> informer_system \<Rightarrow> informer_system option" where
  "perform_all [] s = Some s"
| "perform_all (x # xs) s = Option.bind (perform x s) (perform_all xs)"

text \<open>Nothing is under way: the channel of the watch and the queue are empty.\<close>

definition drained :: "informer_system \<Rightarrow> bool" where
  "drained s \<longleftrightarrow> rf_items (sy_fifo s) = [] \<and>
     (case sy_phase s of Watching w _ \<Rightarrow> wa_events (wt_all (fcs_tracker (sy_clientset s)) ! w) = [] | _ \<Rightarrow> False)"

text \<open>Writes store climanagers whose names have no slash, as the API server validates.\<close>

fun write_allowed :: "tracker_op \<Rightarrow> bool" where
  "write_allowed (OpAdd r obj ns b) \<longleftrightarrow>
     (r = cliManager_gvr \<longrightarrow> as_cliManager obj \<noteq> None \<and> CHR ''/'' \<notin> set (kname obj))"
| "write_allowed (OpDelete r ns name) \<longleftrightarrow> True"

fun step_allowed :: "system_step \<Rightarrow> bool" where
  "step_allowed (DoWrite op) = write_allowed op"
| "step_allowed _ = True"

text \<open>The names of the climanagers that a run deletes between a list of the informer and its watch.\<close>

fun lost_by :: "system_step \<Rightarrow> informer_system \<Rightarrow> (string \<times> string) set" where
  "lost_by (DoWrite (OpDelete r ns name)) s = (if r = cliManager_gvr \<and> sy_phase s = ToWatch then {(ns, name)} else {})"
| "lost_by _ s = {}"

fun lost_names :: "system_step list \<Rightarrow> informer_system \<Rightarrow> (string \<times> string) set" where
  "lost_names [] s = {}"
| "lost_names (x # xs) s = lost_by x s \<union> (case perform x s of None \<Rightarrow> {} | Some s' \<Rightarrow> lost_names xs s')"

end
