(* ===== verification/Watch_Mirror.thy ===== *)
theory Watch_Mirror
  imports Shared_Informer
begin

text \<open>
  What a list and a watch of the fake API server together say: a list and the events of a watch that starts
  from its version, applied one after the other, are the climanagers of the tracker. An event says what an
  operation did to them; a version tells what has changed since the list.
\<close>

section \<open>Keys identify objects\<close>

lemma ObjectName_String_inj:
  assumes "CHR ''/'' \<notin> set (snd k)" "CHR ''/'' \<notin> set (snd k')"
  shows "ObjectName_String k = ObjectName_String k' \<longleftrightarrow> k = k'"
proof
  have split: "ns @ ''/'' @ n = ns' @ ''/'' @ n' \<Longrightarrow> CHR ''/'' \<notin> set n \<Longrightarrow> CHR ''/'' \<notin> set n' \<Longrightarrow> ns = ns' \<and> n = n'"
    for ns n ns' n' :: string
  proof -
    assume eq: "ns @ ''/'' @ n = ns' @ ''/'' @ n'" and free: "CHR ''/'' \<notin> set n" "CHR ''/'' \<notin> set n'"
    have "takeWhile (\<lambda>c. c \<noteq> CHR ''/'') (rev (ns @ ''/'' @ n)) = rev n"
      "takeWhile (\<lambda>c. c \<noteq> CHR ''/'') (rev (ns' @ ''/'' @ n')) = rev n'"
      using free by (auto simp: takeWhile_tail)
    with eq have "n = n'" by simp
    with eq show ?thesis by simp
  qed
  assume eq: "ObjectName_String k = ObjectName_String k'"
  obtain ns n ns' n' where k: "k = (ns, n)" "k' = (ns', n')" by (cases k; cases k')
  consider "ns = []" "ns' = []" | "ns \<noteq> []" "ns' \<noteq> []" | "(ns = []) \<noteq> (ns' = [])" by blast
  then show "k = k'"
  proof cases
    case 1
    with eq show ?thesis by (simp add: k ObjectName_String_def)
  next
    case 2
    with eq split [of ns n ns' n'] assms show ?thesis by (simp add: k ObjectName_String_def)
  next
    case 3
    then have "n = ns' @ ''/'' @ n' \<or> ns @ ''/'' @ n = n'" using eq by (auto simp: k ObjectName_String_def split: if_splits)
    with assms show ?thesis by (auto simp: k)
  qed
qed simp

text \<open>Every climanager is stored under its own name.\<close>

definition own_climanagers :: "(string \<times> string \<Rightarrow> kobject option) \<Rightarrow> bool" where
  "own_climanagers T \<longleftrightarrow>
     (\<forall>k obj. T k = Some obj \<longrightarrow> CHR ''/'' \<notin> set (snd k) \<and> (\<exists>cm. obj = KCliManager cm \<and> cm_object_name cm = k))"

definition mirrors :: "(string, cli_manager) fmap \<Rightarrow> (string \<times> string \<Rightarrow> kobject option) \<Rightarrow> bool" where
  "mirrors m T \<longleftrightarrow>
     (\<forall>key cm. fmlookup m key = Some cm \<longleftrightarrow> (\<exists>k. key = ObjectName_String k \<and> T k = Some (KCliManager cm)))"

text \<open>An event of a climanager that can be stored, and the delta the reflector makes of it.\<close>

definition proper_event :: "watch_event \<Rightarrow> bool" where
  "proper_event e \<longleftrightarrow> (\<exists>ty cm. e = WatchEvent ty (KCliManager cm) \<and> CHR ''/'' \<notin> set (om_name (cm_meta cm)))"

fun event_deltas :: "watch_event \<Rightarrow> cli_manager delta list" where
  "event_deltas (WatchEvent ty obj) =
     (case as_cliManager obj of
        None \<Rightarrow> []
      | Some cm \<Rightarrow> [case ty of EvAdded \<Rightarrow> Added cm | EvModified \<Rightarrow> Updated cm | EvDeleted \<Rightarrow> Deleted cm])"

abbreviation cm_effect :: "cli_manager delta \<Rightarrow> (string, cli_manager) fmap \<Rightarrow> (string, cli_manager) fmap" where
  "cm_effect \<equiv> delta_effect MetaNamespaceKeyFunc"

lemma told_climanager:
  "told (WatchEvent ty (KCliManager cm)) T =
     T(cm_object_name cm := (if ty = EvDeleted then None else Some (KCliManager cm)))"
  by (simp add: cm_object_name_def)

lemma told_own: "own_climanagers T \<Longrightarrow> proper_event e \<Longrightarrow> own_climanagers (told e T)"
  by (auto simp: own_climanagers_def proper_event_def told_climanager cm_object_name_def split: if_splits)

lemma told_mirrors:
  assumes "mirrors m T" "own_climanagers T" "proper_event e"
  shows "mirrors (fold cm_effect (event_deltas e) m) (told e T)"
proof -
  obtain ty cm where e: "e = WatchEvent ty (KCliManager cm)" "CHR ''/'' \<notin> set (snd (cm_object_name cm))"
    using assms(3) by (auto simp: proper_event_def cm_object_name_def)
  have inj: "T k = Some obj \<Longrightarrow> ObjectName_String k = ObjectName_String (cm_object_name cm) \<longleftrightarrow> k = cm_object_name cm" for k obj
    using ObjectName_String_inj e(2) assms(2) unfolding own_climanagers_def by blast
  have m: "fmlookup m key = Some cm' \<longleftrightarrow> (\<exists>k. key = ObjectName_String k \<and> T k = Some (KCliManager cm'))" for key cm'
    using assms(1) unfolding mirrors_def by blast
  have "fold cm_effect (event_deltas e) m =
      (if ty = EvDeleted then fmdrop (MetaNamespaceKeyFunc cm) m else fmupd (MetaNamespaceKeyFunc cm) cm m)"
    by (cases ty) (simp_all add: e)
  moreover have "fmlookup (fold cm_effect (event_deltas e) m) key = Some cm' \<longleftrightarrow>
      (\<exists>k. key = ObjectName_String k \<and> told e T k = Some (KCliManager cm'))"
    if "fold cm_effect (event_deltas e) m =
      (if ty = EvDeleted then fmdrop (MetaNamespaceKeyFunc cm) m else fmupd (MetaNamespaceKeyFunc cm) cm m)" for key cm'
  proof (cases "key = ObjectName_String (cm_object_name cm)")
    case True
    have "told e T k = Some (KCliManager cm') \<and> key = ObjectName_String k \<longleftrightarrow>
        k = cm_object_name cm \<and> ty \<noteq> EvDeleted \<and> cm' = cm" for k
      unfolding e(1) told_climanager fun_upd_apply using inj [of k] True by auto
    then have "(\<exists>k. key = ObjectName_String k \<and> told e T k = Some (KCliManager cm')) \<longleftrightarrow> ty \<noteq> EvDeleted \<and> cm' = cm"
      by blast
    then show ?thesis unfolding that using True by (auto simp: MetaNamespaceKeyFunc_def)
  next
    case False
    have "told e T k = Some (KCliManager cm') \<and> key = ObjectName_String k \<longleftrightarrow>
        T k = Some (KCliManager cm') \<and> key = ObjectName_String k" for k
      unfolding e(1) told_climanager fun_upd_apply using False by auto
    then have "(\<exists>k. key = ObjectName_String k \<and> told e T k = Some (KCliManager cm')) \<longleftrightarrow> fmlookup m key = Some cm'"
      unfolding m by blast
    then show ?thesis unfolding that using False by (simp add: MetaNamespaceKeyFunc_def)
  qed
  ultimately show ?thesis unfolding mirrors_def by blast
qed

lemma tolds_mirror:
  "mirrors m T \<Longrightarrow> own_climanagers T \<Longrightarrow> \<forall>e\<in>set es. proper_event e \<Longrightarrow>
     mirrors (fold cm_effect (concat (map event_deltas es)) m) (fold told es T)"
  by (induction es arbitrary: m T) (simp_all add: told_mirrors told_own)

lemma tolds_own: "own_climanagers T \<Longrightarrow> \<forall>e\<in>set es. proper_event e \<Longrightarrow> own_climanagers (fold told es T)"
  by (induction es arbitrary: T) (simp_all add: told_own)

section \<open>The objects of a tracker\<close>

lemma objects_of_set: "vo \<in> set (objects_of r t) \<longleftrightarrow> (\<exists>k. fmlookup (trk_objects t) (r, k) = Some vo)"
proof -
  have "k |\<in>| snd |`| ffilter (\<lambda>k. fst k = r) (fmdom (trk_objects t)) \<longleftrightarrow> fmlookup (trk_objects t) (r, k) \<noteq> None" for k
    by (force simp: fmlookup_dom_iff)
  then have "set (sorted_list_of_fset (snd |`| ffilter (\<lambda>k. fst k = r) (fmdom (trk_objects t)))) =
      {k. fmlookup (trk_objects t) (r, k) \<noteq> None}"
    by (simp only: sorted_list_of_fset.rep_eq set_sorted_list_of_set finite_fset) blast
  then have "set (objects_of r t) =
      (\<lambda>k. the (fmlookup (trk_objects t) (r, k))) ` {k. fmlookup (trk_objects t) (r, k) \<noteq> None}"
    by (simp only: objects_of_def set_map)
  then show ?thesis by force
qed

lemma object_order_key:
  "tracker_ok t \<Longrightarrow> fmlookup (trk_objects t) (r, k) = Some vo \<Longrightarrow> object_order vo = k"
  by (cases r; cases k) (auto simp: tracker_ok_def fmpred_iff object_order_def)

lemma objects_of_distinct: 
  assumes "tracker_ok t"
  shows "distinct (map object_order (objects_of r t))"
proof -
  let ?ks = "sorted_list_of_fset (snd |`| ffilter (\<lambda>k. fst k = r) (fmdom (trk_objects t)))"
  have "map object_order (objects_of r t) = map id ?ks"
    unfolding objects_of_def map_map
    by (rule map_cong [OF refl]) (use object_order_key [OF assms] in \<open>force simp: sorted_list_of_fset.rep_eq fmlookup_dom_iff\<close>)
  then show ?thesis by (simp add: sorted_list_of_fset.rep_eq)
qed

lemma filterByNamespace_distinct:
  assumes "tracker_ok t"
  shows "distinct (map object_order (filterByNamespace (objects_of r t) ns))"
proof -
  have "distinct (map object_order (filter P (objects_of r t)))" for P
    using objects_of_distinct [OF assms] distinct_map_filter by blast
  then show ?thesis
    unfolding filterByNamespace_def by (metis distinct_map distinct_sort set_sort)
qed

lemma filterByNamespace_set:
  assumes "tracker_ok t"
  shows "vo \<in> set (filterByNamespace (objects_of r t) ns) \<longleftrightarrow>
    (\<exists>k. fmlookup (trk_objects t) (r, k) = Some vo \<and> (ns = [] \<or> fst k = ns))"
  using object_order_key [OF assms, of r] by (auto simp: filterByNamespace_def objects_of_set object_order_def)

section \<open>Versions\<close>

text \<open>The version of a resource, which its list reports; no object is newer.\<close>

definition version_of :: "gvr \<Rightarrow> tracker \<Rightarrow> int" where
  "version_of r t = (case fmlookup (trk_resourceVersions t) r of None \<Rightarrow> 1 | Some v \<Rightarrow> v)"

definition versions_ok :: "gvr \<Rightarrow> tracker \<Rightarrow> bool" where
  "versions_ok r t \<longleftrightarrow> 1 \<le> version_of r t \<and>
     (\<forall>k vo. fmlookup (trk_objects t) (r, k) = Some vo \<longrightarrow> vo_resourceVersion vo \<le> version_of r t)"

lemma trackerAdd_version:
  assumes "trackerAdd r obj ns b t = (None, t')"
  obtains vo where "trk_objects t' = fmupd (r, ns, kname obj) vo (trk_objects t)"
    "vo_resourceVersion vo = version_of r t + 1" "vo_object vo = stored_form ns obj"
    "\<And>r'. version_of r' t' = (if r' = r then version_of r t + 1 else version_of r' t)"
  using assms
  by (auto simp: trackerAdd_def Let_def version_of_def stored_form_def split: if_splits option.splits)

text \<open>What an operation does to the entry of an object: nothing, a newer version, or its removal.\<close>

lemma run_op_entries:
  assumes "watched_ok t" "run_op op t = (res, t')" "\<not> panicked res"
  shows "version_of r (wt_tracker t) \<le> version_of r (wt_tracker t') \<and>
    (fmlookup (trk_objects (wt_tracker t')) (r, k) = fmlookup (trk_objects (wt_tracker t)) (r, k) \<or>
     (\<exists>vo. fmlookup (trk_objects (wt_tracker t')) (r, k) = Some vo \<and> vo_resourceVersion vo = version_of r (wt_tracker t) + 1 \<and>
        version_of r (wt_tracker t') = version_of r (wt_tracker t) + 1) \<or>
     (fmlookup (trk_objects (wt_tracker t')) (r, k) = None \<and> (\<exists>ns name. op = OpDelete r ns name)))"
  using assms(2,3)
proof (cases rule: run_op_cases)
  case failed
  then show ?thesis by simp
next
  case (added r' obj ns b t1)
  have "wt_tracker t' = t1" using notify_frame [OF added(4)] by simp
  moreover obtain vo where "trk_objects t1 = fmupd (r', ns, kname obj) vo (trk_objects (wt_tracker t))"
    "vo_resourceVersion vo = version_of r' (wt_tracker t) + 1"
    "\<And>r. version_of r t1 = (if r = r' then version_of r' (wt_tracker t) + 1 else version_of r (wt_tracker t))"
    using trackerAdd_version [OF added(3)] by metis
  ultimately show ?thesis by simp
next
  case (deleted r' ns name vo)
  have "wt_tracker t' = (wt_tracker t)\<lparr>trk_objects := fmdrop (r', ns, name) (trk_objects (wt_tracker t))\<rparr>"
    using notify_frame [OF deleted(4)] deleted(3) by (simp add: trackerDelete_def)
  then show ?thesis using deleted(1) by (simp add: version_of_def)
qed

lemma run_op_versions:
  assumes "watched_ok t" "run_op op t = (res, t')" "\<not> panicked res" "versions_ok r (wt_tracker t)"
  shows "versions_ok r (wt_tracker t')"
proof -
  have old: "1 \<le> version_of r (wt_tracker t)"
    "\<And>k vo. fmlookup (trk_objects (wt_tracker t)) (r, k) = Some vo \<Longrightarrow> vo_resourceVersion vo \<le> version_of r (wt_tracker t)"
    using assms(4) unfolding versions_ok_def by blast+
  have "vo_resourceVersion vo \<le> version_of r (wt_tracker t')"
    if "fmlookup (trk_objects (wt_tracker t')) (r, k) = Some vo" for k vo
    using run_op_entries [OF assms(1-3), of r k] old(2) [of k vo] that by auto
  moreover have "1 \<le> version_of r (wt_tracker t')"
    using run_op_entries [OF assms(1-3), of r] old(1) by fastforce
  ultimately show ?thesis unfolding versions_ok_def by blast
qed

section \<open>Between list and watch\<close>

text \<open>The items \<open>m\<close> have what was not changed since the version \<open>L\<close>, and nothing that is no more there.\<close>

definition in_namespace :: "string \<Rightarrow> string \<times> string \<Rightarrow> bool" where
  "in_namespace n0 k \<longleftrightarrow> n0 = [] \<or> fst k = n0"

definition gap :: "string \<Rightarrow> int \<Rightarrow> (string, cli_manager) fmap \<Rightarrow> tracker \<Rightarrow> bool" where
  "gap n0 L m t \<longleftrightarrow> 1 \<le> L \<and> L \<le> version_of cliManager_gvr t \<and>
     (\<forall>k vo. in_namespace n0 k \<longrightarrow> fmlookup (trk_objects t) (cliManager_gvr, k) = Some vo \<longrightarrow> vo_resourceVersion vo \<le> L \<longrightarrow>
        (\<exists>cm. vo_object vo = KCliManager cm \<and> fmlookup m (ObjectName_String k) = Some cm)) \<and>
     (\<forall>key cm. fmlookup m key = Some cm \<longrightarrow>
        (\<exists>k vo. key = ObjectName_String k \<and> cm_object_name cm = k \<and> in_namespace n0 k \<and>
           fmlookup (trk_objects t) (cliManager_gvr, k) = Some vo))"

lemma run_op_gap:
  assumes "watched_ok t" "run_op op t = (res, t')" "\<not> panicked res"
    and "gap n0 L m (wt_tracker t)" "\<And>ns name. op \<noteq> OpDelete cliManager_gvr ns name"
  shows "gap n0 L m (wt_tracker t')"
proof -
  let ?old = "\<lambda>k. fmlookup (trk_objects (wt_tracker t)) (cliManager_gvr, k)"
  let ?new = "\<lambda>k. fmlookup (trk_objects (wt_tracker t')) (cliManager_gvr, k)"
  have gap: "1 \<le> L" "L \<le> version_of cliManager_gvr (wt_tracker t)"
    "\<And>k vo. in_namespace n0 k \<Longrightarrow> ?old k = Some vo \<Longrightarrow> vo_resourceVersion vo \<le> L \<Longrightarrow>
        (\<exists>cm. vo_object vo = KCliManager cm \<and> fmlookup m (ObjectName_String k) = Some cm)"
    "\<And>key cm. fmlookup m key = Some cm \<Longrightarrow> (\<exists>k vo. key = ObjectName_String k \<and> cm_object_name cm = k \<and> in_namespace n0 k \<and> ?old k = Some vo)"
    using assms(4) unfolding gap_def by blast+
  have step: "version_of cliManager_gvr (wt_tracker t) \<le> version_of cliManager_gvr (wt_tracker t') \<and>
      (?new k = ?old k \<or> (\<exists>vo. ?new k = Some vo \<and> vo_resourceVersion vo = version_of cliManager_gvr (wt_tracker t) + 1))" for k
    using run_op_entries [OF assms(1-3), of cliManager_gvr k] assms(5) by blast
  have "L \<le> version_of cliManager_gvr (wt_tracker t')" using step gap(2) by fastforce
  moreover have "\<exists>cm. vo_object vo = KCliManager cm \<and> fmlookup m (ObjectName_String k) = Some cm"
    if "in_namespace n0 k" "?new k = Some vo" "vo_resourceVersion vo \<le> L" for k vo
    using step [of k] that gap(2) gap(3) [of k vo] by auto
  moreover have "\<exists>k vo. key = ObjectName_String k \<and> cm_object_name cm = k \<and> in_namespace n0 k \<and> ?new k = Some vo" if "fmlookup m key = Some cm" for key cm
    using gap(4) [OF that] step by metis
  ultimately show ?thesis unfolding gap_def using gap(1) by blast
qed

lemma puts_lookup:
  "distinct (map key cms) \<Longrightarrow> fmlookup (fold (\<lambda>cm. fmupd (key cm) cm) cms m) k = Some cm \<longleftrightarrow>
     (cm \<in> set cms \<and> key cm = k) \<or> (fmlookup m k = Some cm \<and> k \<notin> key ` set cms)"
proof (induction cms arbitrary: m)
  case (Cons c cms)
  then have "key c \<notin> key ` set cms" by simp
  then show ?case using Cons by (auto split: if_splits)
qed simp

section \<open>What a list and a watch return\<close>

lemma SetList_climanagers: "SetList i objs = Inr cms \<longleftrightarrow> objs = map KCliManager cms"
proof (induction objs arbitrary: i cms)
  case (Cons obj objs)
  show ?case
  proof (cases obj)
    case (KCliManager cm)
    have "SetList i (obj # objs) = Inr cms \<longleftrightarrow> (\<exists>cms'. SetList (i + 1) objs = Inr cms' \<and> cms = cm # cms')"
      by (cases "SetList (i + 1) objs") (auto simp: KCliManager)
    then show ?thesis unfolding Cons.IH by (auto simp: KCliManager Cons_eq_map_conv)
  qed (auto simp: Cons_eq_map_conv)
qed auto

lemma trackerList_result:
  assumes "trackerList cliManager_gvr cliManager_gvk ns t = Inr l"
  shows "map KCliManager (cml_items l) = map vo_object (filterByNamespace (objects_of cliManager_gvr (wt_tracker t)) ns) \<and>
    cml_resourceVersion l = decimal (nat (version_of cliManager_gvr (wt_tracker t)))"
proof -
  let ?objs = "map vo_object (filterByNamespace (objects_of cliManager_gvr (wt_tracker t)) ns)"
  from assms obtain cms where "SetList 0 ?objs = Inr cms" "cml_items l = cms"
    "cml_resourceVersion l = decimal (nat (version_of cliManager_gvr (wt_tracker t)))"
    by (cases "SetList 0 ?objs"; cases "SchemeNew fake_type_scheme (list_kind cliManager_gvk)")
      (auto simp: trackerList_def version_of_def Let_def split: if_splits)
  then show ?thesis using SetList_climanagers by metis
qed

lemma entry_climanager:
  assumes "own_climanagers (tracked cliManager_gvr [] t)" "fmlookup (trk_objects t) (cliManager_gvr, k) = Some vo"
  obtains cm where "vo_object vo = KCliManager cm" "cm_object_name cm = k" "CHR ''/'' \<notin> set (snd k)"
proof -
  have "tracked cliManager_gvr [] t k = Some (vo_object vo)" using assms(2) by (simp add: tracked_def)
  with assms(1) that show thesis unfolding own_climanagers_def by blast
qed

lemma listed_keys:
  assumes "tracker_ok t" "own_climanagers (tracked cliManager_gvr [] t)"
    and "map KCliManager cms = map vo_object vos" "set vos \<subseteq> set (filterByNamespace (objects_of cliManager_gvr t) ns)"
    and "distinct (map object_order vos)"
  shows "distinct (map MetaNamespaceKeyFunc cms)"
    and "cm \<in> set cms \<longleftrightarrow> (\<exists>k vo. vo \<in> set vos \<and> fmlookup (trk_objects t) (cliManager_gvr, k) = Some vo \<and>
      vo_object vo = KCliManager cm \<and> cm_object_name cm = k)"
proof -
  have vo: "\<exists>k. fmlookup (trk_objects t) (cliManager_gvr, k) = Some vo" if "vo \<in> set vos" for vo
    using that assms(4) filterByNamespace_set [OF assms(1)] by blast
  have member: "cm \<in> set cms \<longleftrightarrow> (\<exists>vo\<in>set vos. vo_object vo = KCliManager cm)" for cm
  proof -
    have "cm \<in> set cms \<longleftrightarrow> KCliManager cm \<in> set (map KCliManager cms)" by auto
    then show ?thesis unfolding assms(3) by force
  qed
  show mem: "cm \<in> set cms \<longleftrightarrow> (\<exists>k vo. vo \<in> set vos \<and> fmlookup (trk_objects t) (cliManager_gvr, k) = Some vo \<and>
      vo_object vo = KCliManager cm \<and> cm_object_name cm = k)" for cm
    unfolding member using vo entry_climanager [OF assms(2)] by (metis kobject.inject(11))
  have free: "CHR ''/'' \<notin> set (snd (cm_object_name cm))" if "cm \<in> set cms" for cm
    using that mem entry_climanager [OF assms(2)] by (metis kobject.inject(11))
  have "map object_order vos = map cm_object_name cms"
  proof -
    have "map (\<lambda>obj. (knamespace obj, kname obj)) (map KCliManager cms) = map (\<lambda>obj. (knamespace obj, kname obj)) (map vo_object vos)"
      by (simp only: assms(3))
    then show ?thesis by (simp add: object_order_def [abs_def] cm_object_name_def [abs_def] comp_def)
  qed
  with assms(5) have "distinct (map cm_object_name cms)" by simp
  moreover have "inj_on ObjectName_String (cm_object_name ` set cms)"
    using free ObjectName_String_inj by (auto simp: inj_on_def)
  ultimately show "distinct (map MetaNamespaceKeyFunc cms)"
    by (simp add: MetaNamespaceKeyFunc_def [abs_def] distinct_map comp_inj_on [unfolded comp_def])
qed

lemma list_gap:
  assumes "tracker_ok (wt_tracker t)" "own_climanagers (tracked cliManager_gvr [] (wt_tracker t))"
    "versions_ok cliManager_gvr (wt_tracker t)" "trackerList cliManager_gvr cliManager_gvk n0 t = Inr l"
  shows "gap n0 (version_of cliManager_gvr (wt_tracker t)) (items_of MetaNamespaceKeyFunc (cml_items l)) (wt_tracker t)"
proof -
  let ?t = "wt_tracker t" and ?vos = "filterByNamespace (objects_of cliManager_gvr (wt_tracker t)) n0"
  note l = trackerList_result [OF assms(4)]
  note keys = listed_keys [OF assms(1,2) l [THEN conjunct1] subset_refl filterByNamespace_distinct [OF assms(1)]]
  note vos = filterByNamespace_set [OF assms(1), of _ cliManager_gvr n0]
  have m: "fmlookup (items_of MetaNamespaceKeyFunc (cml_items l)) key = Some cm \<longleftrightarrow>
      cm \<in> set (cml_items l) \<and> MetaNamespaceKeyFunc cm = key" for key cm
    by (simp add: items_of_def puts_lookup [OF keys(1)])
  have "\<exists>cm. vo_object vo = KCliManager cm \<and> fmlookup (items_of MetaNamespaceKeyFunc (cml_items l)) (ObjectName_String k) = Some cm"
    if k: "in_namespace n0 k" "fmlookup (trk_objects ?t) (cliManager_gvr, k) = Some vo" for k vo
  proof -
    obtain cm where cm: "vo_object vo = KCliManager cm" "cm_object_name cm = k"
      using entry_climanager [OF assms(2) k(2)] by blast
    have "vo \<in> set ?vos" using k vos unfolding in_namespace_def by blast
    then have "cm \<in> set (cml_items l)" using keys(2) k(2) cm by blast
    then show ?thesis using cm by (simp add: m MetaNamespaceKeyFunc_def)
  qed
  moreover have "\<exists>k vo. key = ObjectName_String k \<and> cm_object_name cm = k \<and> in_namespace n0 k \<and>
      fmlookup (trk_objects ?t) (cliManager_gvr, k) = Some vo"
    if "fmlookup (items_of MetaNamespaceKeyFunc (cml_items l)) key = Some cm" for key cm
  proof -
    from that have "cm \<in> set (cml_items l)" and key: "key = ObjectName_String (cm_object_name cm)"
      by (simp_all add: m MetaNamespaceKeyFunc_def)
    then obtain vo where "vo \<in> set ?vos" and e: "fmlookup (trk_objects ?t) (cliManager_gvr, cm_object_name cm) = Some vo"
      using keys(2) by blast
    moreover from this(1) vos obtain k where k: "fmlookup (trk_objects ?t) (cliManager_gvr, k) = Some vo" "in_namespace n0 k"
      unfolding in_namespace_def by blast
    moreover have "k = cm_object_name cm"
      using object_order_key [OF assms(1) k(1)] object_order_key [OF assms(1) e] by simp
    ultimately show ?thesis using key by blast
  qed
  moreover have "1 \<le> version_of cliManager_gvr ?t" using assms(3) by (simp add: versions_ok_def)
  ultimately show ?thesis unfolding gap_def by blast
qed

lemma deliver_existing_events:
  "deliver_existing L objs f = Inr f' \<Longrightarrow> \<not> wa_stopped f \<Longrightarrow>
     f' = f\<lparr>wa_events := wa_events f @ map (WatchEvent EvAdded \<circ> vo_object) (filter (\<lambda>vo. L < vo_resourceVersion vo) objs)\<rparr>"
proof (induction objs arbitrary: f)
  case (Cons obj objs)
  show ?case
  proof (cases "L < vo_resourceVersion obj")
    case True
    let ?f = "f\<lparr>wa_events := wa_events f @ [WatchEvent EvAdded (vo_object obj)]\<rparr>"
    have "deliver_existing L objs ?f = Inr f'"
      using Cons.prems True by (auto simp: watcherSend_def split: if_splits)
    from Cons.IH [OF this] Cons.prems(2) True show ?thesis by simp
  next
    case False
    with Cons show ?thesis by simp
  qed
qed simp

lemma trackerWatch_result:
  assumes "trackerWatch r ns opts t = (Inr w, t')"
  obtains L where "(if lo_resourceVersion opts = [] then Inr 0 else ParseInt64 (lo_resourceVersion opts)) = Inr L"
    "w = length (wt_all t)"
    "t' = t\<lparr>wt_all := wt_all t @ [\<lparr>wa_events = map (WatchEvent EvAdded \<circ> vo_object)
         (filter (\<lambda>vo. L < vo_resourceVersion vo) (filterByNamespace (objects_of r (wt_tracker t)) ns)), wa_stopped = False\<rparr>],
       wt_watchers := fmupd (r, ns) (watchers_at r ns t @ [w]) (wt_watchers t)\<rparr>"
proof -
  from assms obtain L f where L: "(if lo_resourceVersion opts = [] then Inr 0 else ParseInt64 (lo_resourceVersion opts)) = Inr L"
    and f: "deliver_existing L (filterByNamespace (objects_of r (wt_tracker t)) ns) NewRaceFreeFake = Inr f"
    and t': "w = length (wt_all t)" "t' = t\<lparr>wt_all := wt_all t @ [f],
       wt_watchers := fmupd (r, ns) (watchers_at r ns t @ [w]) (wt_watchers t)\<rparr>"
    by (auto simp: trackerWatch_def Let_def split: sum.splits)
  from deliver_existing_events [OF f] have "f = \<lparr>wa_events = map (WatchEvent EvAdded \<circ> vo_object)
      (filter (\<lambda>vo. L < vo_resourceVersion vo) (filterByNamespace (objects_of r (wt_tracker t)) ns)), wa_stopped = False\<rparr>"
    by (simp add: NewRaceFreeFake_def)
  with that [OF L t'(1)] t'(2) show thesis by simp
qed

lemma trackerWatch_error: "trackerWatch r ns opts t = (Inl err, t') \<Longrightarrow> \<not> is_panic_error err \<Longrightarrow> t' = t"
proof -
  have panics: "deliver_existing L objs f = Inl e \<Longrightarrow> is_panic_error e" for L objs f e
  proof (induction objs arbitrary: f)
    case (Cons obj objs)
    show ?case
    proof (cases "L < vo_resourceVersion obj")
      case True
      then show ?thesis using Cons
        by (cases "watcherSend (WatchEvent EvAdded (vo_object obj)) f") (auto simp: watcherSend_def split: if_splits)
    qed (use Cons in simp)
  qed simp
  assume "trackerWatch r ns opts t = (Inl err, t')" "\<not> is_panic_error err"
  then show ?thesis using panics by (auto simp: trackerWatch_def Let_def split: sum.splits)
qed

text \<open>A version that is read back is the one that was printed.\<close>

lemma digits_value_decimal_only: "digits_value s 0 (decimal n) = Inr v \<Longrightarrow> v = int n"
proof (induction n arbitrary: v rule: decimal.induct)
  case (1 n)
  show ?case
  proof (cases "n < 10")
    case True
    then show ?thesis using 1(2) by (subst (asm) decimal.simps) (simp add: decimal_digit split: if_splits)
  next
    case False
    then have d: "decimal n = decimal (n div 10) @ [char_of (48 + n mod 10)]" by (subst decimal.simps) simp
    with 1(2) obtain m where m: "digits_value s 0 (decimal (n div 10)) = Inr m" "digits_value s m [char_of (48 + n mod 10)] = Inr v"
      by (cases "digits_value s 0 (decimal (n div 10))") (auto simp: digits_value_append)
    have "m = int (n div 10)" using 1(1) [OF False m(1)] .
    moreover have "10 * int (n div 10) + int (n mod 10) = int n"
      by (metis mult_div_mod_eq of_nat_add of_nat_mult of_nat_numeral)
    ultimately show ?thesis using m(2) by (simp add: decimal_digit del: of_nat_div split: if_splits)
  qed
qed

lemma ParseInt64_decimal_only: "ParseInt64 (decimal n) = Inr v \<Longrightarrow> v = int n"
proof -
  assume parse: "ParseInt64 (decimal n) = Inr v"
  obtain c cs where d: "decimal n = c # cs" "digit_value c \<noteq> None" using decimal_head by blast
  then have "c \<noteq> CHR ''-''" "c \<noteq> CHR ''+''" by (auto simp: digit_value_def less_eq_char_def)
  then have "sign_and_digits (decimal n) = (False, decimal n)" by (simp add: sign_and_digits_def d(1))
  with parse d(1) have "digits_value (decimal n) 0 (decimal n) = Inr v"
    by (cases "digits_value (decimal n) 0 (decimal n)") (auto simp: ParseInt64_def split: if_splits)
  then show ?thesis by (rule digits_value_decimal_only)
qed

lemma puts_added: "fold cm_effect (map Added cms) m = fold (\<lambda>cm. fmupd (MetaNamespaceKeyFunc cm) cm) cms m"
  by (induction cms arbitrary: m) simp_all

lemma added_deltas:
  assumes "map KCliManager cms = map vo_object vos"
  shows "concat (map event_deltas (map (WatchEvent EvAdded \<circ> vo_object) vos)) = map Added cms"
proof -
  have "concat (map event_deltas (map (WatchEvent EvAdded) (map KCliManager cms))) = map Added cms"
    by (induction cms) simp_all
  then show ?thesis by (simp add: assms)
qed

lemma stored_climanagers:
  assumes "tracker_ok t" "own_climanagers (tracked cliManager_gvr [] t)"
    and "set vos \<subseteq> set (filterByNamespace (objects_of cliManager_gvr t) n0)"
  obtains cms where "map KCliManager cms = map vo_object vos"
proof -
  have "\<forall>vo\<in>set vos. \<exists>cm. vo_object vo = KCliManager cm"
    using filterByNamespace_set [OF assms(1)] entry_climanager [OF assms(2)] assms(3) by blast
  then have "\<forall>obj\<in>set (map vo_object vos). \<exists>cm. obj = KCliManager cm" by auto
  then show thesis using ex_map_conv [of "map vo_object vos" KCliManager] that by metis
qed

text \<open>The items of the list and the additions of the watch are all there is.\<close>

lemma watch_mirrors:
  assumes "tracker_ok t" "own_climanagers (tracked cliManager_gvr [] t)" "gap n0 L m t"
  shows "mirrors (fold cm_effect (concat (map event_deltas (map (WatchEvent EvAdded \<circ> vo_object)
       (filter (\<lambda>vo. L < vo_resourceVersion vo) (filterByNamespace (objects_of cliManager_gvr t) n0))))) m)
     (tracked cliManager_gvr n0 t)"
proof -
  let ?vos = "filter (\<lambda>vo. L < vo_resourceVersion vo) (filterByNamespace (objects_of cliManager_gvr t) n0)"
  have all: "vo \<in> set ?vos \<longleftrightarrow> (\<exists>k. fmlookup (trk_objects t) (cliManager_gvr, k) = Some vo \<and> in_namespace n0 k) \<and> L < vo_resourceVersion vo" for vo
    using filterByNamespace_set [OF assms(1), of vo cliManager_gvr n0] unfolding in_namespace_def by auto
  obtain cms where cms: "map KCliManager cms = map vo_object ?vos"
    by (rule stored_climanagers [OF assms(1,2) filter_is_subset])
  have dist: "distinct (map object_order ?vos)"
    using filterByNamespace_distinct [OF assms(1)] distinct_map_filter by blast
  note keys = listed_keys [OF assms(1,2) cms _ dist, of n0, OF filter_is_subset]
  have T: "tracked cliManager_gvr n0 t k = Some (KCliManager cm) \<longleftrightarrow>
      (\<exists>vo. fmlookup (trk_objects t) (cliManager_gvr, k) = Some vo \<and> in_namespace n0 k \<and> vo_object vo = KCliManager cm)" for k cm
    by (auto simp: tracked_def in_namespace_def)
  have gap1: "\<exists>cm. vo_object vo = KCliManager cm \<and> fmlookup m (ObjectName_String k) = Some cm"
    if "in_namespace n0 k" "fmlookup (trk_objects t) (cliManager_gvr, k) = Some vo" "\<not> L < vo_resourceVersion vo" for k vo
    using assms(3) that unfolding gap_def by fastforce
  have gap2: "\<exists>k vo. key = ObjectName_String k \<and> in_namespace n0 k \<and> fmlookup (trk_objects t) (cliManager_gvr, k) = Some vo"
    if "fmlookup m key = Some cm" for key cm
    using assms(3) that unfolding gap_def by blast
  have news: "MetaNamespaceKeyFunc cm = ObjectName_String k \<Longrightarrow> cm \<in> set cms \<Longrightarrow>
      fmlookup (trk_objects t) (cliManager_gvr, k) = Some vo \<Longrightarrow> vo \<in> set ?vos \<and> vo_object vo = KCliManager cm" for cm k vo
  proof -
    assume key: "MetaNamespaceKeyFunc cm = ObjectName_String k" and cm: "cm \<in> set cms"
      and vo: "fmlookup (trk_objects t) (cliManager_gvr, k) = Some vo"
    obtain vo' where vo': "vo' \<in> set ?vos" "fmlookup (trk_objects t) (cliManager_gvr, cm_object_name cm) = Some vo'"
      "vo_object vo' = KCliManager cm"
      using keys(2) cm by blast
    have "CHR ''/'' \<notin> set (snd k)" "CHR ''/'' \<notin> set (snd (cm_object_name cm))"
      using entry_climanager [OF assms(2) vo] entry_climanager [OF assms(2) vo'(2)] by blast+
    then have "k = cm_object_name cm" using key ObjectName_String_inj by (metis MetaNamespaceKeyFunc_def)
    with vo vo' show ?thesis by simp
  qed
  have "fmlookup (fold (\<lambda>cm. fmupd (MetaNamespaceKeyFunc cm) cm) cms m) key = Some cm \<longleftrightarrow>
      (\<exists>k. key = ObjectName_String k \<and> tracked cliManager_gvr n0 t k = Some (KCliManager cm))" (is "?l \<longleftrightarrow> ?r") for key cm
  proof
    assume ?l
    then consider "cm \<in> set cms" "MetaNamespaceKeyFunc cm = key"
      | "fmlookup m key = Some cm" "key \<notin> MetaNamespaceKeyFunc ` set cms"
      using puts_lookup [OF keys(1)] by blast
    then show ?r
    proof cases
      case 1
      then obtain vo where vo: "vo \<in> set ?vos" "fmlookup (trk_objects t) (cliManager_gvr, cm_object_name cm) = Some vo"
        "vo_object vo = KCliManager cm"
        using keys(2) by blast
      obtain k where k: "fmlookup (trk_objects t) (cliManager_gvr, k) = Some vo" "in_namespace n0 k" using vo(1) all by blast
      have "k = cm_object_name cm" using object_order_key [OF assms(1) k(1)] object_order_key [OF assms(1) vo(2)] by simp
      then show ?r unfolding T using vo k 1(2) MetaNamespaceKeyFunc_def by blast
    next
      case 2
      obtain k vo where k: "key = ObjectName_String k" "in_namespace n0 k" "fmlookup (trk_objects t) (cliManager_gvr, k) = Some vo"
        using gap2 [OF 2(1)] by blast
      have "\<not> L < vo_resourceVersion vo"
      proof
        assume "L < vo_resourceVersion vo"
        then have "vo \<in> set ?vos" using all k by blast
        moreover obtain cm' where "vo_object vo = KCliManager cm'" "cm_object_name cm' = k"
          using entry_climanager [OF assms(2) k(3)] by blast
        ultimately have "cm' \<in> set cms \<and> MetaNamespaceKeyFunc cm' = key"
          using keys(2) k by (metis MetaNamespaceKeyFunc_def)
        with 2(2) show False by blast
      qed
      then have "vo_object vo = KCliManager cm" using gap1 [OF k(2,3)] 2(1) k(1) by auto
      then show ?r unfolding T using k by blast
    qed
  next
    assume ?r
    then obtain k vo where k: "key = ObjectName_String k" "fmlookup (trk_objects t) (cliManager_gvr, k) = Some vo"
      "in_namespace n0 k" "vo_object vo = KCliManager cm"
      unfolding T by blast
    have name: "cm_object_name cm = k" using entry_climanager [OF assms(2) k(2)] k(4) by (metis kobject.inject(11))
    show ?l
    proof (cases "L < vo_resourceVersion vo")
      case True
      then have "cm \<in> set cms" using all k name keys(2) by blast
      then show ?l using puts_lookup [OF keys(1)] name k(1) by (metis MetaNamespaceKeyFunc_def)
    next
      case False
      have "fmlookup m key = Some cm" using gap1 [OF k(3,2) False] k(1,4) by auto
      moreover have "key \<notin> MetaNamespaceKeyFunc ` set cms"
      proof
        assume "key \<in> MetaNamespaceKeyFunc ` set cms"
        then obtain c where "c \<in> set cms" "MetaNamespaceKeyFunc c = ObjectName_String k" using k(1) by force
        from news [OF this(2,1) k(2)] False show False by simp
      qed
      ultimately show ?l using puts_lookup [OF keys(1)] by blast
    qed
  qed
  then show ?thesis unfolding mirrors_def added_deltas [OF cms] puts_added by blast
qed

end
