(* ===== verification/Watch_Gap.thy ===== *)
theory Watch_Gap
  imports Watch_Mirror
begin

text \<open>
  What gets lost between a list and the watch that follows it. The watch of the fake API server starts with the
  objects that are newer than the list, and says nothing of those that were deleted meanwhile: their names
  may stay behind. Everything else is as in \<open>Watch_Mirror\<close>.
\<close>

section \<open>Ghosts\<close>

text \<open>Climanagers that are kept although they were deleted, under names of \<open>D\<close>.\<close>

definition ghosts :: "(string \<times> string) set \<Rightarrow> (string, cli_manager) fmap \<Rightarrow> bool" where
  "ghosts D g \<longleftrightarrow> (\<forall>key cm. fmlookup g key = Some cm \<longrightarrow>
     key = MetaNamespaceKeyFunc cm \<and> CHR ''/'' \<notin> set (om_name (cm_meta cm)) \<and> cm_object_name cm \<in> D)"

definition lossy_gap ::
  "(string \<times> string) set \<Rightarrow> string \<Rightarrow> int \<Rightarrow> (string, cli_manager) fmap \<Rightarrow> tracker \<Rightarrow> bool" where
  "lossy_gap D n0 L m t \<longleftrightarrow> (\<exists>m0 g. m = g ++\<^sub>f m0 \<and> gap n0 L m0 t \<and> ghosts D g)"

text \<open>What is shown (\<open>T\<close>) has all there is (\<open>S\<close>), and besides only ghosts.\<close>

definition shown ::
  "(string \<times> string) set \<Rightarrow> (string \<times> string \<Rightarrow> kobject option) \<Rightarrow> (string \<times> string \<Rightarrow> kobject option) \<Rightarrow> bool" where
  "shown D T S \<longleftrightarrow> own_climanagers T \<and> S \<subseteq>\<^sub>m T \<and> dom T \<subseteq> dom S \<union> D"

lemma overlay: "fmlookup (g ++\<^sub>f m) key = (case fmlookup m key of Some x \<Rightarrow> Some x | None \<Rightarrow> fmlookup g key)"
  by (cases "key |\<in>| fmdom m") (auto simp: fmdom_notD split: option.split)

lemma ghosts_mono: "ghosts D g \<Longrightarrow> D \<subseteq> D' \<Longrightarrow> ghosts D' g"
  unfolding ghosts_def by blast

lemma lossy_gap_mono: "lossy_gap D n0 L m t \<Longrightarrow> D \<subseteq> D' \<Longrightarrow> lossy_gap D' n0 L m t"
  unfolding lossy_gap_def using ghosts_mono by blast

lemma shown_mono: "shown D T S \<Longrightarrow> D \<subseteq> D' \<Longrightarrow> shown D' T S"
  unfolding shown_def by blast

lemma gap_lossy: "gap n0 L m t \<Longrightarrow> lossy_gap D n0 L m t"
  unfolding lossy_gap_def by (intro exI [of _ m] exI [of _ fmempty]) (simp add: ghosts_def)

lemma shown_own: "shown D T S \<Longrightarrow> own_climanagers T"
  by (simp add: shown_def)

lemma shown_some: "shown D T S \<Longrightarrow> S k = Some obj \<Longrightarrow> T k = Some obj"
  unfolding shown_def map_le_def by (metis domI)

lemma shown_only: "shown D T S \<Longrightarrow> T k = Some obj \<Longrightarrow> k \<notin> D \<Longrightarrow> S k = Some obj"
  unfolding shown_def map_le_def by (metis UnE domD domI subsetD)

lemma told_shown: "shown D T S \<Longrightarrow> proper_event e \<Longrightarrow> shown D (told e T) (told e S)"
proof -
  assume T: "shown D T S" and e: "proper_event e"
  from T e have "own_climanagers (told e T)" by (simp add: shown_def told_own)
  moreover have "told e S \<subseteq>\<^sub>m told e T" "dom (told e T) \<subseteq> dom (told e S) \<union> D"
    using T by (cases e; auto simp: shown_def map_le_def)+
  ultimately show ?thesis by (simp add: shown_def)
qed

lemma tolds_shown: "shown D T S \<Longrightarrow> \<forall>e\<in>set es. proper_event e \<Longrightarrow> shown D (fold told es T) (fold told es S)"
  by (induction es arbitrary: T S) (simp_all add: told_shown)

section \<open>A deletion leaves a ghost\<close>

lemma gap_delete:
  assumes "own_climanagers (tracked cliManager_gvr [] t)" "gap n0 L m t" "fmlookup (trk_objects t) (cliManager_gvr, k) = Some vo"
  shows "gap n0 L (fmdrop (ObjectName_String k) m) (t\<lparr>trk_objects := fmdrop (cliManager_gvr, k) (trk_objects t)\<rparr>)"
proof -
  let ?old = "\<lambda>k. fmlookup (trk_objects t) (cliManager_gvr, k)"
  have gap: "1 \<le> L" "L \<le> version_of cliManager_gvr t"
    "\<And>k vo. in_namespace n0 k \<Longrightarrow> ?old k = Some vo \<Longrightarrow> vo_resourceVersion vo \<le> L \<Longrightarrow>
        (\<exists>cm. vo_object vo = KCliManager cm \<and> fmlookup m (ObjectName_String k) = Some cm)"
    "\<And>key cm. fmlookup m key = Some cm \<Longrightarrow>
        (\<exists>k vo. key = ObjectName_String k \<and> cm_object_name cm = k \<and> in_namespace n0 k \<and> ?old k = Some vo)"
    using assms(2) unfolding gap_def by blast+
  have other: "ObjectName_String k' \<noteq> ObjectName_String k" if "?old k' = Some vo'" "k' \<noteq> k" for k' vo'
    using ObjectName_String_inj entry_climanager [OF assms(1)] that assms(3) by metis
  show ?thesis unfolding gap_def
  proof (intro conjI allI impI)
    fix k' vo' assume "in_namespace n0 k'" "vo_resourceVersion vo' \<le> L"
      "fmlookup (trk_objects (t\<lparr>trk_objects := fmdrop (cliManager_gvr, k) (trk_objects t)\<rparr>)) (cliManager_gvr, k') = Some vo'"
    moreover from this(3) have "?old k' = Some vo'" "k' \<noteq> k" by (auto split: if_splits)
    ultimately show "\<exists>cm. vo_object vo' = KCliManager cm \<and>
        fmlookup (fmdrop (ObjectName_String k) m) (ObjectName_String k') = Some cm"
      using gap(3) other by simp
  next
    fix key cm assume "fmlookup (fmdrop (ObjectName_String k) m) key = Some cm"
    then have "fmlookup m key = Some cm" "key \<noteq> ObjectName_String k" by (auto split: if_splits)
    with gap(4) show "\<exists>k' vo. key = ObjectName_String k' \<and> cm_object_name cm = k' \<and> in_namespace n0 k' \<and>
        fmlookup (trk_objects (t\<lparr>trk_objects := fmdrop (cliManager_gvr, k) (trk_objects t)\<rparr>)) (cliManager_gvr, k') = Some vo"
      by fastforce
  qed (use gap(1,2) in \<open>simp_all add: version_of_def\<close>)
qed

lemma lossy_gap_delete:
  assumes "own_climanagers (tracked cliManager_gvr [] t)" "lossy_gap D n0 L m t"
    and "fmlookup (trk_objects t) (cliManager_gvr, k) = Some vo"
  shows "lossy_gap (insert k D) n0 L m (t\<lparr>trk_objects := fmdrop (cliManager_gvr, k) (trk_objects t)\<rparr>)"
proof -
  obtain m0 g where m: "m = g ++\<^sub>f m0" "gap n0 L m0 t" "ghosts D g" using assms(2) unfolding lossy_gap_def by blast
  let ?key = "ObjectName_String k"
  let ?g = "case fmlookup m0 ?key of None \<Rightarrow> g | Some cm \<Rightarrow> fmupd ?key cm g"
  have free: "CHR ''/'' \<notin> set (snd k)" using entry_climanager [OF assms(1,3)] by blast
  have "k' = k" if "?key = ObjectName_String k'" "fmlookup (trk_objects t) (cliManager_gvr, k') = Some vo'" for k' vo'
    using that ObjectName_String_inj [OF free] entry_climanager [OF assms(1) that(2)] by metis
  then have own: "cm_object_name cm = k" if "fmlookup m0 ?key = Some cm" for cm
    using m(2) that unfolding gap_def by blast
  have "ghosts (insert k D) ?g"
  proof (cases "fmlookup m0 ?key")
    case (Some cm)
    then have "cm_object_name cm = k" by (rule own)
    then have cm: "?key = MetaNamespaceKeyFunc cm" "CHR ''/'' \<notin> set (om_name (cm_meta cm))" "cm_object_name cm \<in> insert k D"
      using free by (auto simp: MetaNamespaceKeyFunc_def cm_object_name_def)
    have "fmlookup ?g key = (if key = ?key then Some cm else fmlookup g key)" for key by (simp add: Some)
    then show ?thesis using cm m(3) unfolding ghosts_def by (metis insertCI option.inject)
  qed (use ghosts_mono [OF m(3)] in auto)
  moreover have "m = ?g ++\<^sub>f fmdrop ?key m0"
  proof (rule fmap_ext)
    show "fmlookup m key = fmlookup (?g ++\<^sub>f fmdrop ?key m0) key" for key
      by (cases "fmlookup m0 ?key") (auto simp: m(1) overlay simp del: fmlookup_add split: option.split)
  qed
  ultimately show ?thesis unfolding lossy_gap_def using gap_delete [OF assms(1) m(2) assms(3)] by blast
qed

definition deletes :: "tracker_op \<Rightarrow> (string \<times> string) set" where
  "deletes op = (case op of OpDelete r ns name \<Rightarrow> if r = cliManager_gvr then {(ns, name)} else {} | _ \<Rightarrow> {})"

lemma run_op_lossy:
  assumes "watched_ok t" "own_climanagers (tracked cliManager_gvr [] (wt_tracker t))"
    and run: "run_op op t = (res, t')" "\<not> panicked res" and "lossy_gap D n0 L m (wt_tracker t)"
  shows "lossy_gap (D \<union> deletes op) n0 L m (wt_tracker t')"
proof (cases "\<exists>ns name. op = OpDelete cliManager_gvr ns name")
  case False
  obtain m0 g where m: "m = g ++\<^sub>f m0" "gap n0 L m0 (wt_tracker t)" "ghosts D g" using assms(5) unfolding lossy_gap_def by blast
  have "gap n0 L m0 (wt_tracker t')" by (rule run_op_gap [OF assms(1) run m(2)]) (use False in blast)
  with m ghosts_mono show ?thesis unfolding lossy_gap_def by blast
next
  case True
  then obtain ns name where op: "op = OpDelete cliManager_gvr ns name" by blast
  show ?thesis
    using run
  proof (cases rule: run_op_cases)
    case failed
    then show ?thesis using lossy_gap_mono [OF assms(5)] by simp
  next
    case (added r obj ns b t1)
    with op show ?thesis by simp
  next
    case (deleted r ns' name' vo)
    have "wt_tracker t' = (wt_tracker t)\<lparr>trk_objects := fmdrop (cliManager_gvr, ns, name) (trk_objects (wt_tracker t))\<rparr>"
      using notify_frame [OF deleted(4)] deleted(1,3) op by (simp add: trackerDelete_def)
    moreover have "fmlookup (trk_objects (wt_tracker t)) (cliManager_gvr, ns, name) = Some vo" using deleted(1,3) op by simp
    ultimately show ?thesis
      using lossy_gap_delete [OF assms(2,5)] by (simp add: op deletes_def)
  qed
qed

section \<open>The start of the watch\<close>

lemma puts_add: "fold cm_effect (map Added cms) (g ++\<^sub>f m) = g ++\<^sub>f fold cm_effect (map Added cms) m"
proof (induction cms arbitrary: m)
  case (Cons cm cms)
  then show ?case using Cons.IH [of "fmupd (MetaNamespaceKeyFunc cm) cm m"] by simp
qed simp

lemma ghosts_shown:
  assumes "mirrors m S" "own_climanagers S" "ghosts D g"
  shows "\<exists>T. mirrors (g ++\<^sub>f m) T \<and> shown D T S"
proof -
  define G where "G k = (case fmlookup g (ObjectName_String k) of
      Some cm \<Rightarrow> if cm_object_name cm = k then Some (KCliManager cm) else None | None \<Rightarrow> None)" for k
  have G: "G k = Some obj \<longleftrightarrow> (\<exists>cm. obj = KCliManager cm \<and> fmlookup g (ObjectName_String k) = Some cm \<and> cm_object_name cm = k)" for k obj
    by (auto simp: G_def split: option.splits)
  have g: "key = ObjectName_String (cm_object_name cm)" "CHR ''/'' \<notin> set (snd (cm_object_name cm))" "cm_object_name cm \<in> D"
    if "fmlookup g key = Some cm" for key cm
    using assms(3) that by (auto simp: ghosts_def MetaNamespaceKeyFunc_def cm_object_name_def)
  have m: "fmlookup m key = Some cm \<longleftrightarrow> (\<exists>k. key = ObjectName_String k \<and> S k = Some (KCliManager cm))" for key cm
    using assms(1) unfolding mirrors_def by blast
  have S: "CHR ''/'' \<notin> set (snd k) \<and> (\<exists>cm. obj = KCliManager cm \<and> cm_object_name cm = k)" if "S k = Some obj" for k obj
    using assms(2) that unfolding own_climanagers_def by blast
  have free: "fmlookup m (ObjectName_String k) = None" if "S k = None" "CHR ''/'' \<notin> set (snd k)" for k
  proof (rule ccontr)
    assume "fmlookup m (ObjectName_String k) \<noteq> None"
    then obtain k' cm where "ObjectName_String k = ObjectName_String k'" "S k' = Some (KCliManager cm)" using m by blast
    with S ObjectName_String_inj [OF that(2)] that(1) show False by (metis option.distinct(1))
  qed
  let ?T = "G ++ S"
  have "fmlookup (g ++\<^sub>f m) key = Some cm \<longleftrightarrow> (\<exists>k. key = ObjectName_String k \<and> ?T k = Some (KCliManager cm))" (is "?l \<longleftrightarrow> ?r") for key cm
  proof
    assume ?l
    then consider "fmlookup m key = Some cm" | "fmlookup m key = None" "fmlookup g key = Some cm"
      by (cases "fmlookup m key") (simp_all add: overlay del: fmlookup_add)
    then show ?r
    proof cases
      case 1
      with m show ?r by (metis map_add_find_right)
    next
      case 2
      have "S (cm_object_name cm) = None"
      proof (rule ccontr)
        assume "S (cm_object_name cm) \<noteq> None"
        then obtain cm' where "S (cm_object_name cm) = Some (KCliManager cm')" using S by blast
        with m 2(1) g(1) [OF 2(2)] show False by (metis option.distinct(1))
      qed
      moreover have "G (cm_object_name cm) = Some (KCliManager cm)" using G 2(2) g(1) [OF 2(2)] by metis
      ultimately have "?T (cm_object_name cm) = Some (KCliManager cm)" by (simp add: map_add_def)
      with g(1) [OF 2(2)] show ?r by (intro exI [of _ "cm_object_name cm"] conjI)
    qed
  next
    assume ?r
    then obtain k where k: "key = ObjectName_String k" "?T k = Some (KCliManager cm)" by (elim exE conjE)
    from k(2) consider "S k = Some (KCliManager cm)" | "S k = None" "G k = Some (KCliManager cm)" by (auto simp: map_add_Some_iff)
    then show ?l
    proof cases
      case 1
      with m k(1) have "fmlookup m key = Some cm" by blast
      then show ?l by (simp add: overlay del: fmlookup_add)
    next
      case 2
      from 2(2) have gk: "fmlookup g key = Some cm" "cm_object_name cm = k" using G k(1) by auto
      then have "fmlookup m key = None" using free [OF 2(1)] g(2) k(1) by metis
      with gk(1) show ?l by (simp add: overlay del: fmlookup_add)
    qed
  qed
  then have "mirrors (g ++\<^sub>f m) ?T" unfolding mirrors_def by blast
  moreover have "own_climanagers ?T" unfolding own_climanagers_def
  proof (intro allI impI)
    fix k obj assume T: "?T k = Some obj"
    show "CHR ''/'' \<notin> set (snd k) \<and> (\<exists>cm. obj = KCliManager cm \<and> cm_object_name cm = k)"
    proof (cases "S k")
      case None
      with T have "G k = Some obj" by (simp add: map_add_def)
      with g(2) show ?thesis unfolding G by metis
    next
      case (Some x)
      with T S [OF Some] show ?thesis by simp
    qed
  qed
  moreover have "k \<in> D" if "G k = Some obj" for k obj using that g(3) unfolding G by metis
  then have "dom ?T \<subseteq> dom S \<union> D" unfolding dom_map_add by (metis Un_commute Un_mono domD order_refl subsetI)
  ultimately show ?thesis unfolding shown_def using map_le_map_add by blast
qed

lemma new_objects:
  assumes "tracker_ok t" "own_climanagers (tracked cliManager_gvr [] t)"
  obtains cms where "map KCliManager cms = map vo_object
      (filter (\<lambda>vo. L < vo_resourceVersion vo) (filterByNamespace (objects_of cliManager_gvr t) n0))"
    "\<forall>cm\<in>set cms. tracked cliManager_gvr [] t (cm_object_name cm) = Some (KCliManager cm)"
proof -
  let ?vos = "filter (\<lambda>vo. L < vo_resourceVersion vo) (filterByNamespace (objects_of cliManager_gvr t) n0)"
  obtain cms where cms: "map KCliManager cms = map vo_object ?vos"
    by (rule stored_climanagers [OF assms filter_is_subset])
  have "distinct (map object_order ?vos)"
    using filterByNamespace_distinct [OF assms(1)] distinct_map_filter by blast
  note keys = listed_keys [OF assms cms filter_is_subset this]
  have "tracked cliManager_gvr [] t (cm_object_name cm) = Some (KCliManager cm)" if "cm \<in> set cms" for cm
    using that keys(2) by (fastforce simp: tracked_def)
  with that [OF cms] show thesis by blast
qed

lemma puts_other:
  "key \<notin> MetaNamespaceKeyFunc ` set cms \<Longrightarrow> fmlookup (fold cm_effect (map Added cms) m) key = fmlookup m key"
  by (induction cms arbitrary: m) auto

lemma watch_shows:
  assumes "tracker_ok t" "own_climanagers (tracked cliManager_gvr [] t)" "own_climanagers (tracked cliManager_gvr n0 t)"
    and "lossy_gap D n0 L m t"
  shows "\<exists>T. mirrors (fold cm_effect (concat (map event_deltas (map (WatchEvent EvAdded \<circ> vo_object)
       (filter (\<lambda>vo. L < vo_resourceVersion vo) (filterByNamespace (objects_of cliManager_gvr t) n0))))) m) T \<and>
     shown D T (tracked cliManager_gvr n0 t)"
proof -
  let ?vos = "filter (\<lambda>vo. L < vo_resourceVersion vo) (filterByNamespace (objects_of cliManager_gvr t) n0)"
  obtain m0 g where m: "m = g ++\<^sub>f m0" "gap n0 L m0 t" "ghosts D g" using assms(4) unfolding lossy_gap_def by blast
  obtain cms where cms: "map KCliManager cms = map vo_object ?vos"
    by (rule stored_climanagers [OF assms(1,2) filter_is_subset])
  from ghosts_shown [OF watch_mirrors [OF assms(1,2) m(2)] assms(3) m(3)] show ?thesis
    unfolding added_deltas [OF cms] m(1) puts_add .
qed

end
