(* ===== verification/Informer_Mirror.thy ===== *)
theory Informer_Mirror
  imports Watch_Gap
begin

text \<open>
  The cache of a running informer mirrors the API server. The invariant of the system says what the
  items under way (the events in the channel of the watch, the deltas in the queue) will make of the
  cache: the climanagers of the tracker, from the moment the watch has started, and besides only some that were
  deleted between list and watch (under names of \<open>D\<close>); and between list and watch, those that have not changed
  since the list. Every step keeps it, so that a cache with nothing under way reads as the API server does.
\<close>

section \<open>The invariant\<close>

text \<open>The parsers of selectors accept the empty one, which everything matches.\<close>

definition accepts_empty :: "selector_parsers \<Rightarrow> bool" where
  "accepts_empty ps \<longleftrightarrow> (\<exists>l. sp_labels ps [] = Inr l \<and> (\<forall>m. sel_matches l m)) \<and> sp_fields ps [] = None"

definition clientset_ok :: "(patch_data \<Rightarrow> kobject \<Rightarrow> go_error + kobject) \<Rightarrow> fake_clientset \<Rightarrow> bool" where
  "clientset_ok merge c \<longleftrightarrow> simple_fake merge c \<and> watched_ok (fcs_tracker c) \<and>
     own_climanagers (tracked cliManager_gvr [] (Tracker c)) \<and> versions_ok cliManager_gvr (Tracker c)"

definition cache_ok :: "selector_parsers \<Rightarrow> string \<Rightarrow> informer_system \<Rightarrow> bool" where
  "cache_ok ps n0 s \<longleftrightarrow>
     (let i = sy_informer s; c = in_indexer i in
      lw_list (in_listerWatcher i) = ver_list (fake_versioned ps) n0 \<and>
      lw_watch (in_listerWatcher i) = ver_watch (fake_versioned ps) n0 \<and>
      rf_transformer (sy_fifo s) = None \<and> (rf_populated (sy_fifo s) \<longrightarrow> counting (sy_fifo s)) \<and> in_synced i = rf_synced (sy_fifo s) \<and>
      store_ok c \<and> st_indexers c = fmupd NamespaceIndex MetaNamespaceIndexFunc fmempty \<and>
      own_keys MetaNamespaceKeyFunc (st_items c) \<and>
      fold (note_effect MetaNamespaceKeyFunc) (sy_notes s) fmempty = st_items c)"

definition queued :: "informer_system \<Rightarrow> (string, cli_manager) fmap" where
  "queued s = pending_items MetaNamespaceKeyFunc (sy_fifo s) (in_indexer (sy_informer s))"

definition channel_of :: "nat \<Rightarrow> informer_system \<Rightarrow> watch_event list" where
  "channel_of w s = wa_events (wt_all (fcs_tracker (sy_clientset s)) ! w)"

definition foreseen :: "nat \<Rightarrow> informer_system \<Rightarrow> (string, cli_manager) fmap" where
  "foreseen w s = fold cm_effect (concat (map event_deltas (channel_of w s))) (queued s)"

definition phase_ok :: "string \<Rightarrow> (string \<times> string) set \<Rightarrow> informer_system \<Rightarrow> bool" where
  "phase_ok n0 D s =
     (case sy_phase s of
        ToList \<Rightarrow> True
      | Crashed _ \<Rightarrow> True
      | ToWatch \<Rightarrow> rf_populated (sy_fifo s) \<and>
          (\<exists>L. sy_lastSync s = decimal (nat L) \<and> lossy_gap D n0 L (queued s) (Tracker (sy_clientset s)))
      | Watching w _ \<Rightarrow> rf_populated (sy_fifo s) \<and> w \<in> set (watchers_at cliManager_gvr n0 (fcs_tracker (sy_clientset s))) \<and>
          \<not> wa_stopped (wt_all (fcs_tracker (sy_clientset s)) ! w) \<and>
          (\<exists>T. mirrors (foreseen w s) T \<and> shown D T (tracked cliManager_gvr n0 (Tracker (sy_clientset s)))))"

text \<open>A crashed program promises nothing.\<close>

definition system_ok ::
  "selector_parsers \<Rightarrow> (patch_data \<Rightarrow> kobject \<Rightarrow> go_error + kobject) \<Rightarrow> string \<Rightarrow> (string \<times> string) set \<Rightarrow>
   informer_system \<Rightarrow> bool" where
  "system_ok ps merge n0 D s \<longleftrightarrow> crashed s \<or> clientset_ok merge (sy_clientset s) \<and> cache_ok ps n0 s \<and> phase_ok n0 D s"

lemma lost_by_write: "lost_by (DoWrite op) s = (if sy_phase s = ToWatch then deletes op else {})"
  by (cases op) (simp_all add: deletes_def)

lemma tracked_own: "own_climanagers (tracked r [] t) \<Longrightarrow> own_climanagers (tracked r n0 t)"
  unfolding own_climanagers_def by (simp add: tracked_def split: if_splits)

section \<open>Writes\<close>

lemma stored_form_climanager: "\<exists>cm'. stored_form ns (KCliManager cm) = KCliManager cm' \<and> om_name (cm_meta cm') = om_name (cm_meta cm)"
  by (simp add: stored_form_def put_namespace_def)

lemma write_events_proper:
  assumes "own_climanagers (tracked cliManager_gvr [] t)" "write_allowed op"
  shows "\<forall>e\<in>set (op_events cliManager_gvr n0 op t). proper_event e"
proof (cases op)
  case (OpAdd r obj ns b)
  show ?thesis
  proof (cases "r = cliManager_gvr")
    case True
    then obtain cm where cm: "obj = KCliManager cm" "CHR ''/'' \<notin> set (om_name (cm_meta cm))"
      using assms(2) OpAdd by (cases obj) auto
    then show ?thesis using stored_form_climanager [of ns cm] by (auto simp: OpAdd proper_event_def)
  qed (simp add: OpAdd concerns_def)
next
  case (OpDelete r ns name)
  show ?thesis
  proof (cases "fmlookup (trk_objects t) (r, ns, name)")
    case (Some vo)
    show ?thesis
    proof (cases "r = cliManager_gvr")
      case True
      then obtain cm where "vo_object vo = KCliManager cm" "cm_object_name cm = (ns, name)" "CHR ''/'' \<notin> set name"
        using entry_climanager [OF assms(1)] Some by (metis snd_conv)
      then show ?thesis by (auto simp: OpDelete Some proper_event_def cm_object_name_def)
    qed (simp add: OpDelete Some concerns_def)
  qed (simp add: OpDelete)
qed

lemma write_ok:
  assumes ok: "clientset_ok merge c" "run_op op (fcs_tracker c) = (res, t)" "\<not> panicked res" "write_allowed op"
  shows "clientset_ok merge (set_tracker t c)"
proof -
  have w: "watched_ok (fcs_tracker c)" and own: "own_climanagers (tracked cliManager_gvr [] (wt_tracker (fcs_tracker c)))"
    using ok(1) by (simp_all add: clientset_ok_def Tracker_def)
  have "own_climanagers (tracked cliManager_gvr [] (wt_tracker t))"
    unfolding run_op_tracked [OF w ok(2,3)] by (rule tolds_own [OF own write_events_proper [OF own ok(4)]])
  moreover have "versions_ok cliManager_gvr (wt_tracker t)"
    using run_op_versions [OF w ok(2,3)] ok(1) by (simp add: clientset_ok_def Tracker_def)
  ultimately show ?thesis
    using ok(1) run_op_ok [OF w ok(2,3)] by (simp add: clientset_ok_def set_tracker_def Tracker_def simple_fake_def)
qed

lemma watchers_at_cong: "wt_watchers t' = wt_watchers t \<Longrightarrow> watchers_at r ns t' = watchers_at r ns t"
  by (simp add: watchers_at_def)

lemma run_op_watchers: "run_op op t = (res, t') \<Longrightarrow> \<not> panicked res \<Longrightarrow> watchers_at r ns t' = watchers_at r ns t"
proof (rule watchers_at_cong)
  assume "run_op op t = (res, t')" "\<not> panicked res"
  then show "wt_watchers t' = wt_watchers t"
    by (cases rule: run_op_cases) (auto dest: notify_frame)
qed

lemma write_phase:
  assumes ok: "clientset_ok merge (sy_clientset s)" "phase_ok n0 D s"
    and run: "run_op op (fcs_tracker (sy_clientset s)) = (res, t)" "\<not> panicked res" "write_allowed op"
  shows "phase_ok n0 (D \<union> lost_by (DoWrite op) s) (s\<lparr>sy_clientset := set_tracker t (sy_clientset s)\<rparr>)"
proof -
  let ?t = "fcs_tracker (sy_clientset s)"
  have w: "watched_ok ?t" and own: "own_climanagers (tracked cliManager_gvr [] (wt_tracker ?t))"
    using ok(1) by (simp_all add: clientset_ok_def Tracker_def)
  show ?thesis
  proof (cases "sy_phase s")
    case ToWatch
    then obtain L where L: "rf_populated (sy_fifo s)" "sy_lastSync s = decimal (nat L)" "lossy_gap D n0 L (queued s) (wt_tracker ?t)"
      using ok(2) by (auto simp: phase_ok_def Tracker_def)
    from run_op_lossy [OF w own run(1,2) L(3)] L(1,2) ToWatch show ?thesis
      by (auto simp: phase_ok_def set_tracker_def Tracker_def queued_def lost_by_write simp del: lost_by.simps)
  next
    case (Watching i b)
    obtain T where reg: "i \<in> set (watchers_at cliManager_gvr n0 ?t)" "\<not> wa_stopped (wt_all ?t ! i)"
      and m: "mirrors (foreseen i s) T" "shown D T (tracked cliManager_gvr n0 (wt_tracker ?t))" and count: "rf_populated (sy_fifo s)"
      using ok(2) Watching by (auto simp: phase_ok_def Tracker_def)
    note told = run_op_told [OF w reg(1) run(1,2)]
    let ?s = "s\<lparr>sy_clientset := set_tracker t (sy_clientset s)\<rparr>"
    have "channel_of i ?s = channel_of i s @ op_events cliManager_gvr n0 op (wt_tracker ?t)"
      using told reg(2) by (simp add: channel_of_def set_tracker_def)
    then have "foreseen i ?s = fold cm_effect (concat (map event_deltas (op_events cliManager_gvr n0 op (wt_tracker ?t)))) (foreseen i s)"
      by (simp add: foreseen_def queued_def)
    then have "\<exists>T. mirrors (foreseen i ?s) T \<and> shown D T (tracked cliManager_gvr n0 (wt_tracker t))"
      using tolds_mirror [OF m(1) shown_own [OF m(2)]] tolds_shown [OF m(2)] write_events_proper [OF own run(3)]
      unfolding run_op_tracked [OF w run(1,2)] by metis
    then show ?thesis
      using Watching reg told count
      by (simp add: phase_ok_def set_tracker_def Tracker_def run_op_watchers [OF run(1,2)] lost_by_write del: lost_by.simps)
  qed (simp_all add: phase_ok_def)
qed

section \<open>The list\<close>

lemma clientset_ok_actions: "clientset_ok merge (c\<lparr>fcs_actions := as\<rparr>) = clientset_ok merge c"
  by (simp add: clientset_ok_def simple_fake_def Tracker_def)

lemma extract_empty:
  assumes "accepts_empty ps" "lo_labelSelector opts = []" "lo_fieldSelector opts = []"
  obtains l where "ExtractFromListOptions ps opts = Inr l" "\<And>m. sel_matches l m"
  using assms by (auto simp: accepts_empty_def ExtractFromListOptions_def)

lemma fake_list:
  assumes "accepts_empty ps" "simple_fake merge c" "lo_labelSelector opts = []" "lo_fieldSelector opts = []"
  shows "\<exists>as. ver_list (fake_versioned ps) n0 opts c =
    (trackerList cliManager_gvr cliManager_gvk n0 (fcs_tracker c), c\<lparr>fcs_actions := as\<rparr>)"
proof -
  obtain l where l: "ExtractFromListOptions ps opts = Inr l" "\<And>m. sel_matches l m"
    using extract_empty [OF assms(1,3,4)] by blast
  have same: "matching_list l lst = lst" for lst by (simp add: matching_list_def l(2))
  show ?thesis
    by (cases "trackerList cliManager_gvr cliManager_gvk n0 (fcs_tracker c)")
      (auto simp: fake_versioned_def fakeClimanagers_def FakeCliManagers_def newFakeCliManagers_def Let_def fakeList_def l(1) same
        Invokes_simple [OF assms(2)] climanager_settings_def)
qed

lemma cache_ok_same:
  "cache_ok ps n0 (s\<lparr>sy_clientset := c, sy_phase := p, sy_lastSync := v\<rparr>) = cache_ok ps n0 s"
  "cache_ok ps n0 (s\<lparr>sy_clientset := c, sy_phase := p\<rparr>) = cache_ok ps n0 s"
  "cache_ok ps n0 (s\<lparr>sy_clientset := c\<rparr>) = cache_ok ps n0 s"
  by (simp_all add: cache_ok_def)

lemma after_error_ok:
  assumes "\<not> is_panic_error err \<Longrightarrow> clientset_ok merge c" "cache_ok ps n0 s"
  shows "system_ok ps merge n0 D (s\<lparr>sy_clientset := c, sy_phase := after_error err\<rparr>)"
proof (cases "is_panic_error err")
  case False
  then show ?thesis using assms(1) [OF False] assms(2)
    by (simp add: system_ok_def cache_ok_same phase_ok_def after_error_def)
qed (simp add: system_ok_def crashed_def after_error_def)

lemma transform_none: "rf_transformer f = None \<Longrightarrow> transform_all f objs = Inr objs"
  by (induction objs) (simp_all add: transformed_def)

lemma fifoReplace_ok:
  assumes "rf_transformer f = None" "rf_populated f \<longrightarrow> counting f"
  obtains f' where "fifoReplace objs rv f = (None, f')" "rf_items f' = rf_items f @ [ReplacedAll rv objs]" "counting f'"
    "rf_transformer f' = None" "rf_synced f' = rf_synced f"
  using assms by (cases "rf_populated f") (auto simp: fifoReplace_def transform_none Let_def checkSynced_def counting_def)

lemma list_step:
  assumes "accepts_empty ps" "clientset_ok merge (sy_clientset s)" "cache_ok ps n0 s"
  shows "system_ok ps merge n0 D (reflectorList s)"
proof -
  let ?c = "sy_clientset s"
  have simple: "simple_fake merge ?c" and t: "tracker_ok (wt_tracker (fcs_tracker ?c))"
    and own: "own_climanagers (tracked cliManager_gvr [] (wt_tracker (fcs_tracker ?c)))"
    and versions: "versions_ok cliManager_gvr (wt_tracker (fcs_tracker ?c))"
    using assms(2) watched_okD(1) by (auto simp: clientset_ok_def Tracker_def)
  have lw: "lw_list (in_listerWatcher (sy_informer s)) = ver_list (fake_versioned ps) n0"
    using assms(3) by (simp add: cache_ok_def Let_def)
  obtain as where list: "ver_list (fake_versioned ps) n0 (request_options (relistResourceVersion s)) ?c =
      (trackerList cliManager_gvr cliManager_gvk n0 (fcs_tracker ?c), ?c\<lparr>fcs_actions := as\<rparr>)"
    using fake_list [OF assms(1) simple] by (force simp: request_options_def)
  have c': "clientset_ok merge (?c\<lparr>fcs_actions := as\<rparr>)" using assms(2) by (simp add: clientset_ok_actions)
  show ?thesis
  proof (cases "trackerList cliManager_gvr cliManager_gvk n0 (fcs_tracker ?c)")
    case (Inl err)
    then show ?thesis using after_error_ok [OF _ assms(3)] c' by (simp add: reflectorList_def lw list)
  next
    case (Inr l)
    obtain f' where f': "fifoReplace (cml_items l) (cml_resourceVersion l) (sy_fifo s) = (None, f')"
      "rf_items f' = rf_items (sy_fifo s) @ [ReplacedAll (cml_resourceVersion l) (cml_items l)]" "counting f'"
      "rf_transformer f' = None" "rf_synced f' = rf_synced (sy_fifo s)"
      by (rule fifoReplace_ok [of "sy_fifo s" "cml_items l" "cml_resourceVersion l"])
        (use assms(3) in \<open>simp_all add: cache_ok_def Let_def\<close>)
    let ?s = "s\<lparr>sy_clientset := ?c\<lparr>fcs_actions := as\<rparr>, sy_fifo := f', sy_lastSync := cml_resourceVersion l, sy_phase := ToWatch\<rparr>"
    have "cache_ok ps n0 ?s" using assms(3) f' by (simp add: cache_ok_def Let_def)
    moreover have "queued ?s = items_of MetaNamespaceKeyFunc (cml_items l)"
      by (simp add: queued_def pending_items_def f'(2))
    then have "phase_ok n0 D ?s"
      using gap_lossy [OF list_gap [OF t own versions Inr]] trackerList_result [OF Inr] f'(3)
      by (auto simp: phase_ok_def counting_def Tracker_def)
    ultimately show ?thesis using c' by (simp add: reflectorList_def lw list Inr f'(1) system_ok_def)
  qed
qed

section \<open>The watch\<close>

lemma fake_watch:
  assumes "accepts_empty ps" "simple_fake merge c" "lo_labelSelector opts = []" "lo_fieldSelector opts = []"
  shows "\<exists>as. ver_watch (fake_versioned ps) n0 opts c =
    (case trackerWatch cliManager_gvr n0 opts (fcs_tracker c) of
       (Inl err, t) \<Rightarrow> (Inl (if is_panic_error err then err else ErrorString ''unhandled watch''),
         c\<lparr>fcs_actions := as, fcs_tracker := t\<rparr>)
     | (Inr w, t) \<Rightarrow> (Inr w, c\<lparr>fcs_actions := as, fcs_tracker := t\<rparr>))"
proof -
  obtain l where l: "ExtractFromListOptions ps opts = Inr l"
    using extract_empty [OF assms(1,3,4)] by blast
  have chain: "fcs_watchReactionChain c = [\<lparr>wx_resource = ''*'', wx_react = watchReaction\<rparr>]"
    using assms(2) by (simp add: simple_fake_def)
  show ?thesis
    by (cases "trackerWatch cliManager_gvr n0 opts (fcs_tracker c)"; cases "fst (trackerWatch cliManager_gvr n0 opts (fcs_tracker c))")
      (auto simp: fake_versioned_def fakeClimanagers_def FakeCliManagers_def newFakeCliManagers_def Let_def fakeWatch_def l
        InvokesWatch_def chain watchHandles_def resourceCovers_def watchReaction_def climanager_settings_def)
qed

lemma watchers_at_watch:
  assumes "t' = t\<lparr>wt_all := a, wt_watchers := fmupd (r, ns) (watchers_at r ns t @ [w]) (wt_watchers t)\<rparr>"
  shows "watchers_at r' ns' t' = watchers_at r' ns' t @ (if (r', ns') = (r, ns) then [w] else [])"
  by (simp add: assms watchers_at_def)

lemma watched_ok_watch:
  assumes "watched_ok t"
    "t' = t\<lparr>wt_all := wt_all t @ [f], wt_watchers := fmupd (r, ns) (watchers_at r ns t @ [length (wt_all t)]) (wt_watchers t)\<rparr>"
  shows "watched_ok t'"
proof -
  note at = watchers_at_watch [OF assms(2)]
  have old: "i < length (wt_all t)" if "i \<in> set (watchers_at r' ns' t)" for i r' ns'
    using watched_okD(3) [OF assms(1) that] .
  have len: "length (wt_all t') = Suc (length (wt_all t))" by (simp add: assms(2))
  have bound: "i \<in> set (watchers_at r' ns' t') \<Longrightarrow> i < length (wt_all t')" for i r' ns'
    using old [of i r' ns'] by (auto simp: at len split: if_splits)
  have dist: "distinct (watchers_at r' ns' t')" for r' ns'
    using watched_okD(2) [OF assms(1), of r' ns'] old [of "length (wt_all t)" r' ns'] by (auto simp: at)
  have once: "r' = r'' \<and> ns' = ns''" if "i \<in> set (watchers_at r' ns' t')" "i \<in> set (watchers_at r'' ns'' t')" for i r' ns' r'' ns''
    using that old [of i r' ns'] old [of i r'' ns''] watched_okD(4) [OF assms(1), of i r' ns' r'' ns'']
    by (auto simp: at split: if_splits)
  have "tracker_ok (wt_tracker t')" using watched_okD(1) [OF assms(1)] by (simp add: assms(2))
  then show ?thesis unfolding watched_ok_def using dist bound once by blast
qed

lemma watch_step:
  assumes "accepts_empty ps" "clientset_ok merge (sy_clientset s)" "cache_ok ps n0 s" "phase_ok n0 D s" "sy_phase s = ToWatch"
  shows "system_ok ps merge n0 D (reflectorWatch s)"
proof -
  let ?c = "sy_clientset s" and ?opts = "request_options (sy_lastSync s)"
  let ?t = "fcs_tracker ?c"
  have simple: "simple_fake merge ?c" and w: "watched_ok ?t" and own: "own_climanagers (tracked cliManager_gvr [] (wt_tracker ?t))"
    and versions: "versions_ok cliManager_gvr (wt_tracker ?t)"
    using assms(2) by (auto simp: clientset_ok_def Tracker_def)
  obtain L where L: "sy_lastSync s = decimal (nat L)" "lossy_gap D n0 L (queued s) (wt_tracker ?t)" and pop: "rf_populated (sy_fifo s)"
    using assms(4,5) by (auto simp: phase_ok_def Tracker_def)
  have lw: "lw_watch (in_listerWatcher (sy_informer s)) = ver_watch (fake_versioned ps) n0"
    using assms(3) by (simp add: cache_ok_def Let_def)
  obtain as where watch: "ver_watch (fake_versioned ps) n0 ?opts ?c =
    (case trackerWatch cliManager_gvr n0 ?opts ?t of
       (Inl err, t) \<Rightarrow> (Inl (if is_panic_error err then err else ErrorString ''unhandled watch''),
         ?c\<lparr>fcs_actions := as, fcs_tracker := t\<rparr>)
     | (Inr w, t) \<Rightarrow> (Inr w, ?c\<lparr>fcs_actions := as, fcs_tracker := t\<rparr>))"
    using fake_watch [OF assms(1) simple] by (force simp: request_options_def)
  obtain res t' where tw: "trackerWatch cliManager_gvr n0 ?opts ?t = (res, t')" by fastforce
  show ?thesis
  proof (cases res)
    case (Inl err)
    let ?err = "if is_panic_error err then err else ErrorString ''unhandled watch''"
    have "clientset_ok merge (?c\<lparr>fcs_actions := as, fcs_tracker := t'\<rparr>)" if "\<not> is_panic_error ?err"
    proof -
      have "t' = ?t" using trackerWatch_error [OF tw [unfolded Inl]] that by (auto split: if_splits)
      then show ?thesis using assms(2) by (simp add: clientset_ok_def simple_fake_def Tracker_def)
    qed
    from after_error_ok [OF this assms(3)] show ?thesis by (simp add: reflectorWatch_def lw watch tw Inl)
  next
    case (Inr i)
    obtain L' where L': "(if lo_resourceVersion ?opts = [] then Inr 0 else ParseInt64 (lo_resourceVersion ?opts)) = Inr L'"
      and i: "i = length (wt_all ?t)"
      and t': "t' = ?t\<lparr>wt_all := wt_all ?t @ [\<lparr>wa_events = map (WatchEvent EvAdded \<circ> vo_object)
           (filter (\<lambda>vo. L' < vo_resourceVersion vo) (filterByNamespace (objects_of cliManager_gvr (wt_tracker ?t)) n0)),
           wa_stopped = False\<rparr>],
         wt_watchers := fmupd (cliManager_gvr, n0) (watchers_at cliManager_gvr n0 ?t @ [i]) (wt_watchers ?t)\<rparr>"
      by (rule trackerWatch_result [OF tw [unfolded Inr]])
    have "L' = L"
    proof -
      have "decimal (nat L) \<noteq> []" using decimal_head [of "nat L"] by auto
      then have "ParseInt64 (decimal (nat L)) = Inr L'" using L' L(1) by (simp add: request_options_def)
      moreover have "1 \<le> L" using L(2) by (auto simp: lossy_gap_def gap_def)
      ultimately show ?thesis using ParseInt64_decimal_only by fastforce
    qed
    let ?s = "s\<lparr>sy_clientset := ?c\<lparr>fcs_actions := as, fcs_tracker := t'\<rparr>,
      sy_phase := Watching i (sy_lastSync s \<notin> {[], ''0''})\<rparr>"
    have w': "watched_ok t'" using watched_ok_watch [OF w t' [unfolded i]] .
    have same: "wt_tracker t' = wt_tracker ?t" by (simp add: t')
    have f: "wt_all t' ! i = \<lparr>wa_events = map (WatchEvent EvAdded \<circ> vo_object)
           (filter (\<lambda>vo. L' < vo_resourceVersion vo) (filterByNamespace (objects_of cliManager_gvr (wt_tracker ?t)) n0)),
           wa_stopped = False\<rparr>"
      by (simp add: t' i)
    have "i \<in> set (watchers_at cliManager_gvr n0 t')" by (simp add: watchers_at_watch [OF t'])
    moreover have "\<exists>T. mirrors (foreseen i ?s) T \<and> shown D T (tracked cliManager_gvr n0 (wt_tracker t'))"
      using watch_shows [OF watched_okD(1) [OF w] own tracked_own [OF own] L(2)]
      by (simp add: foreseen_def channel_of_def queued_def f same \<open>L' = L\<close>)
    ultimately have "phase_ok n0 D ?s" using pop f by (simp add: phase_ok_def Tracker_def)
    moreover have "clientset_ok merge (sy_clientset ?s)"
      using simple w' own versions by (simp add: clientset_ok_def simple_fake_def Tracker_def same)
    ultimately show ?thesis
      using assms(3) by (simp add: reflectorWatch_def lw watch tw Inr system_ok_def cache_ok_same)
  qed
qed

section \<open>Events and processing\<close>

lemma handle_event_fields:
  assumes "rf_transformer (sy_fifo s) = None" "counting (sy_fifo s)" "sy_phase s = Watching w b"
    and s': "s' = handle_event w b e s"
  shows "sy_clientset s' = sy_clientset s" "sy_informer s' = sy_informer s" "sy_notes s' = sy_notes s"
    "\<exists>p. sy_phase s' = Watching w p" "rf_items (sy_fifo s') = rf_items (sy_fifo s) @ event_deltas e"
    "counting (sy_fifo s')" "rf_transformer (sy_fifo s') = None" "rf_synced (sy_fifo s') = rf_synced (sy_fifo s)"
proof -
  obtain ty obj where e: "e = WatchEvent ty obj" by (cases e)
  let ?f = "\<lambda>cm. snd (case ty of EvAdded \<Rightarrow> fifoAdd cm (sy_fifo s) | EvModified \<Rightarrow> fifoUpdate cm (sy_fifo s)
      | EvDeleted \<Rightarrow> fifoDelete cm (sy_fifo s))"
  have f: "rf_items (?f cm) = rf_items (sy_fifo s) @ event_deltas (WatchEvent ty (KCliManager cm)) \<and> counting (?f cm) \<and>
      rf_transformer (?f cm) = None \<and> rf_synced (?f cm) = rf_synced (sy_fifo s)" for cm
    using assms(1,2) by (cases ty) (auto simp: fifoAdd_def fifoUpdate_def fifoDelete_def addToItems_def transformed_def
      checkSynced_def counting_def)
  show "sy_clientset s' = sy_clientset s" "sy_informer s' = sy_informer s" "sy_notes s' = sy_notes s"
    "\<exists>p. sy_phase s' = Watching w p" "rf_items (sy_fifo s') = rf_items (sy_fifo s) @ event_deltas e"
    "counting (sy_fifo s')" "rf_transformer (sy_fifo s') = None" "rf_synced (sy_fifo s') = rf_synced (sy_fifo s)"
    using f assms(1,2,3)
    by (cases obj; simp add: s' handle_event_def e Let_def)+
qed

lemma receive_step:
  assumes "clientset_ok merge (sy_clientset s)" "cache_ok ps n0 s" "phase_ok n0 D s" "sy_phase s = Watching w b"
    and "reflectorReceive w b s = Some s'"
  shows "system_ok ps merge n0 D s' \<and> channel_of w s' = tl (channel_of w s) \<and> channel_of w s \<noteq> [] \<and>
    (\<exists>p. sy_phase s' = Watching w p) \<and> foreseen w s' = foreseen w s"
proof -
  let ?t = "fcs_tracker (sy_clientset s)"
  have wok: "watched_ok ?t" using assms(1) by (simp add: clientset_ok_def)
  have reg: "w \<in> set (watchers_at cliManager_gvr n0 ?t)" "\<not> wa_stopped (wt_all ?t ! w)"
    "\<exists>T. mirrors (foreseen w s) T \<and> shown D T (tracked cliManager_gvr n0 (wt_tracker ?t))" and pop: "rf_populated (sy_fifo s)"
    using assms(3,4) by (simp_all add: phase_ok_def Tracker_def)
  have fifo: "rf_transformer (sy_fifo s) = None" "counting (sy_fifo s)"
    using assms(2) pop by (simp_all add: cache_ok_def Let_def)
  have bound: "w < length (wt_all ?t)" using watched_okD(3) [OF wok reg(1)] .
  from assms(5) obtain e es where es: "wa_events (wt_all ?t ! w) = e # es"
    and s': "s' = handle_event w b e (s\<lparr>sy_clientset := set_tracker
       (?t\<lparr>wt_all := (wt_all ?t)[w := (wt_all ?t ! w)\<lparr>wa_events := es\<rparr>]\<rparr>) (sy_clientset s)\<rparr>)"
    by (auto simp: reflectorReceive_def watcherReceive_def Let_def split: list.splits if_splits)
  let ?t' = "?t\<lparr>wt_all := (wt_all ?t)[w := (wt_all ?t ! w)\<lparr>wa_events := es\<rparr>]\<rparr>"
  let ?s1 = "s\<lparr>sy_clientset := set_tracker ?t' (sy_clientset s)\<rparr>"
  note fields = handle_event_fields [OF _ _ _ s', simplified, OF fifo assms(4)]
  have c': "clientset_ok merge (sy_clientset s')"
    using assms(1) watched_ok_cong [OF wok, of ?t'] watched_okD(1) [OF wok]
    by (simp add: fields(1) clientset_ok_def set_tracker_def simple_fake_def Tracker_def)
  have cache: "cache_ok ps n0 s'" using assms(2) by (simp add: cache_ok_def Let_def fields)
  have chan: "channel_of w s = e # es" "channel_of w s' = es"
    using bound by (simp_all add: channel_of_def es fields(1) set_tracker_def)
  have same: "foreseen w s' = foreseen w s"
    by (simp add: foreseen_def chan queued_def pending_items_def fields)
  moreover have "watchers_at cliManager_gvr n0 ?t' = watchers_at cliManager_gvr n0 ?t" by (simp add: watchers_at_def)
  ultimately have "phase_ok n0 D s'"
    using reg fields(4,6) bound by (auto simp: phase_ok_def fields(1) set_tracker_def Tracker_def counting_def)
  with c' cache chan fields(4) same show ?thesis by (simp add: system_ok_def)
qed

lemma pops_frame: "pops key n f c = Some (ns, f', c') \<Longrightarrow> rf_populated f' = rf_populated f \<and> rf_transformer f' = rf_transformer f \<and>
    rf_items f' = drop n (rf_items f)"
proof (induction n arbitrary: f c ns)
  case (Suc n)
  from Suc.prems obtain ns1 f1 c1 ns2 where 1: "Pop key f c = Some (ns1, f1, c1)" and 2: "pops key n f1 c1 = Some (ns2, f', c')"
    by (auto split: option.splits)
  have "f1 = popped 1 f" using 1 by (auto simp: Pop_def split: list.splits prod.splits if_splits)
  then have "rf_populated f1 = rf_populated f \<and> rf_transformer f1 = rf_transformer f \<and> rf_items f1 = drop 1 (rf_items f)"
    by (simp add: popped_def checkSynced_def Let_def)
  with Suc.IH [OF 2] show ?case by simp
qed simp

lemma process_step:
  assumes "clientset_ok merge (sy_clientset s)" "cache_ok ps n0 s" "phase_ok n0 D s" "processLoop s = Some s'"
  shows "system_ok ps merge n0 D s' \<and> sy_clientset s' = sy_clientset s \<and> sy_phase s' = sy_phase s \<and>
    queued s' = queued s \<and> (\<exists>n>0. rf_items (sy_fifo s') = drop n (rf_items (sy_fifo s)))"
proof -
  let ?c = "in_indexer (sy_informer s)"
  obtain r f c where batch: "PopBatch MetaNamespaceKeyFunc (sy_fifo s) ?c = Some (r, f, c)"
    and s': "s' = s\<lparr>sy_fifo := f, sy_informer := (sy_informer s)\<lparr>in_indexer := c, in_synced := fifoHasSynced f\<rparr>,
           sy_notes := sy_notes s @ (case r of Inl _ \<Rightarrow> [] | Inr ns \<Rightarrow> ns)\<rparr>"
    using assms(4) by (auto simp: processLoop_def)
  obtain n ns where n: "0 < n" "r = Inr ns" "pops MetaNamespaceKeyFunc n (sy_fifo s) ?c = Some (ns, f, c)"
    by (rule PopBatch_pops [OF batch])
  have content: "pending_items MetaNamespaceKeyFunc f c = queued s"
    using pops_content [OF n(3)] by (simp add: queued_def)
  have cache: "cache_ok ps n0 s'"
    using assms(2) pops_content [OF n(3)] pops_counting [OF n(3)] pops_frame [OF n(3)]
    by (simp add: cache_ok_def Let_def s' n(2) fifoHasSynced_def)
  have same: "queued s' = queued s" using content by (simp add: s' queued_def)
  moreover have "rf_populated f = rf_populated (sy_fifo s)" using pops_frame [OF n(3)] by simp
  ultimately have "phase_ok n0 D s'"
    using assms(3) by (cases "sy_phase s") (simp_all add: phase_ok_def s' foreseen_def channel_of_def)
  with assms(1) cache n(1) pops_frame [OF n(3)] same show ?thesis by (auto simp: system_ok_def s')
qed

lemma perform_ok:
  assumes "accepts_empty ps" "system_ok ps merge n0 D s" "perform x s = Some s'" "step_allowed x"
  shows "system_ok ps merge n0 (D \<union> lost_by x s) s'"
proof -
  have running: "\<not> crashed s" using assms(3) by (cases x) (auto simp: crashed_def split: reflector_phase.splits prod.splits if_splits)
  with assms(2) have ok: "clientset_ok merge (sy_clientset s)" "cache_ok ps n0 s" "phase_ok n0 D s" by (auto simp: system_ok_def)
  show ?thesis
  proof (cases x)
    case (DoWrite op)
    obtain res t where run: "run_op op (fcs_tracker (sy_clientset s)) = (res, t)" by fastforce
    with assms(3) DoWrite have "\<not> panicked res" "s' = s\<lparr>sy_clientset := set_tracker t (sy_clientset s)\<rparr>"
      by (auto split: if_splits)
    then show ?thesis
      using write_ok [OF ok(1) run] write_phase [OF ok(1,3) run] ok(2) assms(4) DoWrite
      by (simp add: system_ok_def cache_ok_same)
  next
    case DoList
    with assms(3) list_step [OF assms(1) ok(1,2)] show ?thesis by (auto split: if_splits)
  next
    case DoWatch
    with assms(3) watch_step [OF assms(1) ok] show ?thesis by (auto split: if_splits)
  next
    case DoReceive
    with assms(3) obtain w b where p: "sy_phase s = Watching w b" "reflectorReceive w b s = Some s'"
      by (auto split: reflector_phase.splits)
    from receive_step [OF ok p] DoReceive show ?thesis by simp
  next
    case DoProcess
    with assms(3) have "processLoop s = Some s'" by (simp split: if_splits)
    from process_step [OF ok this] DoProcess show ?thesis by simp
  qed
qed

lemma perform_all_ok:
  "accepts_empty ps \<Longrightarrow> system_ok ps merge n0 D s \<Longrightarrow> list_all step_allowed xs \<Longrightarrow> perform_all xs s = Some s' \<Longrightarrow>
     system_ok ps merge n0 (D \<union> lost_names xs s) s'"
proof (induction xs arbitrary: s D)
  case (Cons x xs)
  from Cons.prems(4) obtain s1 where x: "perform x s = Some s1" and xs: "perform_all xs s1 = Some s'"
    by (auto simp: bind_eq_Some_conv)
  have "system_ok ps merge n0 (D \<union> lost_by x s) s1" by (rule perform_ok [OF Cons.prems(1,2) x]) (use Cons.prems(3) in simp)
  then have "system_ok ps merge n0 (D \<union> lost_by x s \<union> lost_names xs s1) s'" using Cons.IH Cons.prems xs by simp
  then show ?case using x by (simp add: Un_assoc)
qed simp

end
