(* ===== verification/Informer_Reads.thy ===== *)
theory Informer_Reads
  imports Informer_Mirror "HOL-Library.Multiset"
begin

text \<open>
  What the users of an informer of climanagers can rely on: that the lister on its cache reads what
  the typed client reads from the API server once nothing is under way, and that its own steps lead there.
\<close>

section \<open>A new informer\<close>

definition fake_informer :: "selector_parsers \<Rightarrow> string \<Rightarrow> int \<Rightarrow> fake_clientset informer" where
  "fake_informer ps n0 resync =
     NewCliManagerInformer (fake_versioned ps) n0 resync (fmupd NamespaceIndex MetaNamespaceIndexFunc fmempty)"

text \<open>An object with which the fake clientset can be filled, and whose name is valid.\<close>

definition storable :: "kobject \<Rightarrow> bool" where
  "storable obj \<longleftrightarrow> typed_object obj \<and> CHR ''/'' \<notin> set (kname obj)"

lemma add_all_keeps:
  assumes "\<And>r obj ns b t res t'. trackerAdd r obj ns b t = (res, t') \<Longrightarrow> P t \<Longrightarrow> P t'"
  shows "add_all obs t = (res, t') \<Longrightarrow> P t \<Longrightarrow> P t'"
proof (induction obs arbitrary: t)
  case (Cons ob obs)
  have kinds: "add_kinds ks ob t = (res, t') \<Longrightarrow> P t \<Longrightarrow> P t'" for ks ob t res t'
    by (induction ks ob t rule: add_kinds.induct) (auto split: prod.splits option.splits dest: assms)
  have single: "addSingle ob t = (res, t') \<Longrightarrow> P t \<Longrightarrow> P t'" for ob t res t'
    by (auto simp: addSingle_def split: sum.splits if_splits dest: kinds)
  obtain r1 t1 where 1: "addSingle ob t = (r1, t1)" by fastforce
  with single Cons.prems(2) have "P t1" by blast
  then show ?case using Cons.IH [of t1] Cons.prems(1) 1 by (auto split: option.splits)
qed simp

lemma trackerAdd_versions:
  assumes "trackerAdd r obj ns b t = (res, t')" "versions_ok r0 t"
  shows "versions_ok r0 t'"
proof (cases res)
  case None
  have old: "1 \<le> version_of r0 t" "\<And>k vo. fmlookup (trk_objects t) (r0, k) = Some vo \<Longrightarrow> vo_resourceVersion vo \<le> version_of r0 t"
    using assms(2) unfolding versions_ok_def by blast+
  obtain vo where vo: "trk_objects t' = fmupd (r, ns, kname obj) vo (trk_objects t)"
    "vo_resourceVersion vo = version_of r t + 1"
    and version: "\<And>r'. version_of r' t' = (if r' = r then version_of r t + 1 else version_of r' t)"
    using trackerAdd_version [OF assms(1) [unfolded None]] by metis
  have "vo_resourceVersion vo' \<le> version_of r0 t'" if "fmlookup (trk_objects t') (r0, k) = Some vo'" for k vo'
    using that old(2) [of k vo'] vo(2) by (cases k) (auto simp: vo(1) version split: if_splits)
  moreover have "1 \<le> version_of r0 t'" using old(1) by (auto simp: version)
  ultimately show ?thesis unfolding versions_ok_def by blast
next
  case (Some err)
  then have "t' = t" using assms(1) by (auto simp: trackerAdd_def Let_def split: if_splits option.splits)
  with assms(2) show ?thesis by simp
qed

lemma new_clientset_ok:
  assumes "NewSimpleClientset merge objects = Inr c" "list_all storable (concat (map flatten objects))"
  shows "clientset_ok merge c"
proof -
  let ?obs = "concat (map flatten objects)"
  obtain t where add: "add_all ?obs NewObjectTracker = (None, t)" and c: "c = clientset_over (ObjectReaction merge) t"
    using assms(1)
    by (cases "add_all ?obs NewObjectTracker") (auto simp: NewSimpleClientset_def fill_tracker_flat split: option.splits)
  have typed: "list_all typed_object ?obs" using assms(2) by (auto simp: list_all_iff storable_def)
  obtain cms where cms: "?obs = map KCliManager cms" "held t = held NewObjectTracker ++ map_of (keyed cms)"
    using add_all_climanagers [OF add typed] by blast
  have fcs: "fcs_tracker c = NewWatchedTracker\<lparr>wt_tracker := t\<rparr>"
    by (simp add: c clientset_over_def AddReactor_def AddWatchReactor_def)
  have "tracker_ok t" by (rule add_all_keeps [of tracker_ok, OF trackerAdd_ok add NewObjectTracker_ok])
  then have "watched_ok (fcs_tracker c)"
    using watched_ok_cong [OF NewWatchedTracker_ok, of "fcs_tracker c"] by (simp add: fcs)
  moreover have "versions_ok cliManager_gvr t"
    by (rule add_all_keeps [of "versions_ok cliManager_gvr", OF trackerAdd_versions add]) (auto simp: versions_ok_def version_of_def NewObjectTracker_def)
  moreover have "own_climanagers (tracked cliManager_gvr [] t)"
  proof -
    have "CHR ''/'' \<notin> set (snd k) \<and> (\<exists>cm. obj = KCliManager cm \<and> cm_object_name cm = k)"
      if "tracked cliManager_gvr [] t k = Some obj" for k obj
    proof -
      have "held t (cliManager_gvr, k) = Some obj" using that by (simp add: tracked_def held_def)
      then have "map_of (keyed cms) (cliManager_gvr, k) = Some obj"
        by (simp add: cms(2) map_add_def held_def NewObjectTracker_def split: option.splits)
      then have "((cliManager_gvr, k), obj) \<in> set (keyed cms)" by (rule map_of_SomeD)
      then obtain cm where cm: "cm \<in> set cms" "cm_key cm = (cliManager_gvr, k)" "obj = KCliManager cm"
        by (auto simp: keyed_def)
      have "storable (KCliManager cm)" using assms(2) cm(1) by (simp add: cms(1) list_all_iff)
      with cm(2,3) show ?thesis by (auto simp: storable_def cm_key_def cm_object_name_def)
    qed
    then show ?thesis unfolding own_climanagers_def by blast
  qed
  ultimately show ?thesis
    by (simp add: clientset_ok_def c simple_fake_over)
qed

lemma start_ok:
  assumes "clientset_ok merge c"
  shows "system_ok ps merge n0 D (start_system (fake_informer ps n0 resync) c)"
proof -
  have "cache_ok ps n0 (start_system (fake_informer ps n0 resync) c)"
    by (simp add: cache_ok_def Let_def start_system_def fake_informer_def NewCliManagerInformer_def
        NewCliManagerInformerWithOptions_def NewTypedCliManagerInformerWithOptions_def WithResource_def tweaked_def
        NewRealFIFO_def own_keys_def NewIndexer_ok) (simp add: NewIndexer_def)
  then show ?thesis using assms by (simp add: system_ok_def phase_ok_def start_system_def)
qed

section \<open>Reads of the cache and of the server\<close>

text \<open>The lister of a namespace and the typed client for it give the same climanagers, by name and in a list, but that the
  lister may have more of them, under names of \<open>D\<close>.\<close>

definition reads_agree :: "(string \<times> string) set \<Rightarrow> selector_parsers \<Rightarrow> string \<Rightarrow> informer_system \<Rightarrow> bool" where
  "reads_agree D ps ns s \<longleftrightarrow>
     (let l = listerCliManagers NewCliManagerLister ns; cache = in_indexer (sy_informer s);
          client = fakeClimanagers ps ns; c = sy_clientset s in
      (\<forall>name cm. CHR ''/'' \<notin> set name \<longrightarrow>
         (fst (cmi_Get client name c) = Inr cm \<longrightarrow> listerGet l name cache = Inr cm) \<and>
         (listerGet l name cache = Inr cm \<longrightarrow> (ns, name) \<notin> D \<longrightarrow> fst (cmi_Get client name c) = Inr cm)) \<and>
      (\<exists>ms items. listerList l everything cache = Inr ms \<and>
         map_sum id cml_items (fst (cmi_List client (request_options []) c)) = Inr items \<and>
         mset items \<subseteq># mset ms \<and> (\<forall>m\<in>#mset ms - mset items. cm_object_name m \<in> D)))"

lemma client_get:
  assumes "clientset_ok merge c"
  shows "fst (cmi_Get (fakeClimanagers ps ns) name c) = Inr cm \<longleftrightarrow>
    tracked cliManager_gvr [] (Tracker c) (ns, name) = Some (KCliManager cm)"
proof -
  have "simple_fake merge c" using assms by (simp add: clientset_ok_def)
  then have "fst (cmi_Get (fakeClimanagers ps ns) name c) = typed_result as_cliManager (trackerGet cliManager_gvr ns name (Tracker c))"
    by (simp add: fakeClimanagers_def FakeCliManagers_def newFakeCliManagers_def Let_def fakeGet_def invoke_typed_def Invokes_simple
        climanager_settings_def typed_reply_object Tracker_def)
  then show ?thesis
    by (auto simp: typed_result_def trackerGet_def tracked_def split: option.splits elim!: as_cliManager.elims)
qed

lemma client_list:
  assumes "accepts_empty ps" "clientset_ok merge c"
  obtains l where "fst (cmi_List (fakeClimanagers ps ns) (request_options []) c) = Inr l"
    "distinct (map MetaNamespaceKeyFunc (cml_items l))"
    "\<And>cm. cm \<in> set (cml_items l) \<longleftrightarrow> tracked cliManager_gvr ns (Tracker c) (cm_object_name cm) = Some (KCliManager cm)"
proof -
  let ?t = "wt_tracker (fcs_tracker c)"
  let ?vos = "filterByNamespace (objects_of cliManager_gvr ?t) ns"
  have ok: "tracker_ok ?t" and own: "own_climanagers (tracked cliManager_gvr [] ?t)" and simple: "simple_fake merge c"
    using assms(2) watched_okD(1) by (auto simp: clientset_ok_def Tracker_def)
  have "\<forall>vo\<in>set ?vos. \<exists>cm. vo_object vo = KCliManager cm"
    using filterByNamespace_set [OF ok] entry_climanager [OF own] by blast
  then have "\<forall>obj\<in>set (map vo_object ?vos). \<exists>cm. obj = KCliManager cm" by auto
  then obtain cms where cms: "map vo_object ?vos = map KCliManager cms" by (metis ex_map_conv)
  have "SchemeNew fake_type_scheme (list_kind cliManager_gvk) = Inr (climanager_type ''CliManagerList'')"
    using fake_type_scheme_facts(2) by (simp add: list_kind_def cliManager_gvk_def SchemeGroupVersion_def)
  then have list: "trackerList cliManager_gvr cliManager_gvk ns (fcs_tracker c) =
      Inr \<lparr>cml_resourceVersion = decimal (nat (version_of cliManager_gvr ?t)), cml_items = cms\<rparr>"
    using SetList_climanagers [of 0 "map vo_object ?vos" cms]
    by (simp add: trackerList_def IsListType_def cms version_of_def Let_def)
  note keys = listed_keys [OF ok own cms [symmetric] subset_refl filterByNamespace_distinct [OF ok]]
  have "fst (ver_list (fake_versioned ps) ns (request_options []) c) = trackerList cliManager_gvr cliManager_gvk ns (fcs_tracker c)"
    using fake_list [OF assms(1) simple, of "request_options []" ns] by (force simp: request_options_def)
  then have get: "fst (cmi_List (fakeClimanagers ps ns) (request_options []) c) =
      Inr \<lparr>cml_resourceVersion = decimal (nat (version_of cliManager_gvr ?t)), cml_items = cms\<rparr>"
    by (simp add: fake_versioned_def list)
  have "cm \<in> set cms \<longleftrightarrow> tracked cliManager_gvr ns ?t (cm_object_name cm) = Some (KCliManager cm)" for cm
  proof
    assume "cm \<in> set cms"
    then obtain vo where vo: "vo \<in> set ?vos" "fmlookup (trk_objects ?t) (cliManager_gvr, cm_object_name cm) = Some vo"
      "vo_object vo = KCliManager cm"
      using keys(2) by blast
    moreover obtain k where "fmlookup (trk_objects ?t) (cliManager_gvr, k) = Some vo" "ns = [] \<or> fst k = ns"
      using vo(1) filterByNamespace_set [OF ok] by blast
    ultimately have "ns = [] \<or> fst (cm_object_name cm) = ns"
      using object_order_key [OF ok] by metis
    with vo show "tracked cliManager_gvr ns ?t (cm_object_name cm) = Some (KCliManager cm)" by (auto simp: tracked_def)
  next
    assume "tracked cliManager_gvr ns ?t (cm_object_name cm) = Some (KCliManager cm)"
    then obtain vo where vo: "fmlookup (trk_objects ?t) (cliManager_gvr, cm_object_name cm) = Some vo"
      "vo_object vo = KCliManager cm" "ns = [] \<or> fst (cm_object_name cm) = ns"
      by (auto simp: tracked_def split: if_splits)
    then have "vo \<in> set ?vos" using filterByNamespace_set [OF ok] by blast
    with vo keys(2) show "cm \<in> set cms" by blast
  qed
  with that [OF get] keys(1) show thesis by (simp add: Tracker_def)
qed

lemma mirror_at:
  assumes "mirrors m T" "own_climanagers T" "CHR ''/'' \<notin> set (snd k)"
  shows "fmlookup m (ObjectName_String k) = Some cm \<longleftrightarrow> T k = Some (KCliManager cm)"
proof -
  have "fmlookup m (ObjectName_String k) = Some cm \<longleftrightarrow> (\<exists>k'. ObjectName_String k = ObjectName_String k' \<and> T k' = Some (KCliManager cm))"
    using assms(1) unfolding mirrors_def by blast
  also have "\<dots> \<longleftrightarrow> T k = Some (KCliManager cm)"
    using ObjectName_String_inj [OF assms(3)] assms(2) unfolding own_climanagers_def by blast
  finally show ?thesis .
qed

lemma storeList_own:
  assumes "own_keys MetaNamespaceKeyFunc (st_items c)"
  shows "distinct (storeList c)" and "cm \<in> set (storeList c) \<longleftrightarrow> fmlookup (st_items c) (MetaNamespaceKeyFunc cm) = Some cm"
proof -
  have entry: "(k, ob) \<in> set (range_entries (st_items c)) \<longleftrightarrow> fmlookup (st_items c) k = Some ob" for k ob
    using map_of_eq_Some_iff [OF distinct_range_entries, of "st_items c" k ob] by simp
  have own: "fmlookup (st_items c) k = Some ob \<Longrightarrow> MetaNamespaceKeyFunc ob = k" for k ob
    using assms by (auto simp: own_keys_def fmpred_iff)
  have "map MetaNamespaceKeyFunc (storeList c) = map fst (range_entries (st_items c))"
    using own entry by (auto simp: storeList_def)
  then show "distinct (storeList c)"
    using distinct_range_entries [of "st_items c"] by (metis distinct_map)
  show "cm \<in> set (storeList c) \<longleftrightarrow> fmlookup (st_items c) (MetaNamespaceKeyFunc cm) = Some cm"
    unfolding storeList_ran using own by (auto simp: fmlookup_ran'_iff)
qed

lemma sublist_of_distinct:
  assumes "distinct xs" "distinct ys" "set xs \<subseteq> set ys"
  shows "mset xs \<subseteq># mset ys" and "set_mset (mset ys - mset xs) = set ys - set xs"
proof -
  have m: "mset xs = mset_set (set xs)" "mset ys = mset_set (set ys)"
    using assms(1,2) by (simp_all add: mset_set_set)
  show "mset xs \<subseteq># mset ys" unfolding m using assms(3) by (simp add: subset_imp_msubset_mset_set)
  show "set_mset (mset ys - mset xs) = set ys - set xs"
    unfolding m using mset_set_Diff [OF _ assms(3)] by (metis List.finite_set finite_Diff finite_set_mset_mset_set)
qed

lemma lister_get:
  "listerGet (listerCliManagers NewCliManagerLister ns) name c = Inr cm \<longleftrightarrow>
     fmlookup (st_items c) (ObjectName_String (ns, name)) = Some cm"
  by (auto simp: listerGet_def listerCliManagers_def ObjectName_String_def storeGet_def Let_def split: option.splits)

lemma mirror_reads_agree:
  assumes "accepts_empty ps" "system_ok ps merge n0 D s" "drained s" "n0 = [] \<or> ns = n0"
  shows "reads_agree D ps ns s"
proof -
  let ?c = "sy_clientset s" and ?cache = "in_indexer (sy_informer s)"
  obtain w b where phase: "sy_phase s = Watching w b" and empty: "rf_items (sy_fifo s) = []" "channel_of w s = []"
    using assms(3) by (auto simp: drained_def channel_of_def split: reflector_phase.splits)
  then have ok: "clientset_ok merge ?c" "cache_ok ps n0 s" "phase_ok n0 D s"
    using assms(2) by (auto simp: system_ok_def crashed_def)
  let ?S = "tracked cliManager_gvr n0 (Tracker ?c)"
  obtain T where m: "mirrors (st_items ?cache) T" and T: "shown D T ?S"
    using ok(3) by (auto simp: phase_ok_def phase foreseen_def empty queued_def pending_items_def)
  note own = shown_own [OF T]
  have cache: "store_ok ?cache" "st_indexers ?cache = fmupd NamespaceIndex MetaNamespaceIndexFunc fmempty"
    "own_keys MetaNamespaceKeyFunc (st_items ?cache)"
    using ok(2) by (simp_all add: cache_ok_def Let_def)
  have here: "tracked cliManager_gvr ns (Tracker ?c) k = ?S k" if "ns = [] \<or> fst k = ns" for k
    using assms(4) that by (auto simp: tracked_def)
  have get: "listerGet (listerCliManagers NewCliManagerLister ns) name ?cache = Inr cm \<longleftrightarrow> T (ns, name) = Some (KCliManager cm)"
    if name: "CHR ''/'' \<notin> set name" for name cm
    unfolding lister_get using mirror_at [OF m own, of "(ns, name)"] name by simp
  have client: "fst (cmi_Get (fakeClimanagers ps ns) name ?c) = Inr cm \<longleftrightarrow> ?S (ns, name) = Some (KCliManager cm)" for name cm
    unfolding client_get [OF ok(1)] using assms(4) by (auto simp: tracked_def)
  obtain l where l: "fst (cmi_List (fakeClimanagers ps ns) (request_options []) ?c) = Inr l"
    "distinct (map MetaNamespaceKeyFunc (cml_items l))"
    "\<And>cm. cm \<in> set (cml_items l) \<longleftrightarrow> tracked cliManager_gvr ns (Tracker ?c) (cm_object_name cm) = Some (KCliManager cm)"
    using client_list [OF assms(1) ok(1), of ns] by blast
  let ?ms = "filter (\<lambda>m. ns = [] \<or> om_namespace (cm_meta m) = ns) (storeList ?cache)"
  have ms: "listerList (listerCliManagers NewCliManagerLister ns) everything ?cache = Inr ?ms"
    using lister_lists [of everything ?cache ns] cache by (simp add: selector_ok_def everything_def)
  have stored: "cm \<in> set (storeList ?cache) \<longleftrightarrow> T (cm_object_name cm) = Some (KCliManager cm)" for cm
  proof
    assume "cm \<in> set (storeList ?cache)"
    then have "fmlookup (st_items ?cache) (ObjectName_String (cm_object_name cm)) = Some cm"
      unfolding storeList_own(2) [OF cache(3)] MetaNamespaceKeyFunc_def .
    then obtain k where k: "T k = Some (KCliManager cm)"
      using m unfolding mirrors_def by blast
    then have "cm_object_name cm = k" using own unfolding own_climanagers_def by (metis kobject.inject(11))
    with k show "T (cm_object_name cm) = Some (KCliManager cm)" by simp
  next
    assume T': "T (cm_object_name cm) = Some (KCliManager cm)"
    then have "CHR ''/'' \<notin> set (snd (cm_object_name cm))" using own unfolding own_climanagers_def by blast
    with T' show "cm \<in> set (storeList ?cache)"
      unfolding storeList_own(2) [OF cache(3)] MetaNamespaceKeyFunc_def using mirror_at [OF m own] by blast
  qed
  have member: "cm \<in> set ?ms \<longleftrightarrow> T (cm_object_name cm) = Some (KCliManager cm) \<and> (ns = [] \<or> fst (cm_object_name cm) = ns)" for cm
    using stored by (auto simp: cm_object_name_def)
  have item: "cm \<in> set (cml_items l) \<longleftrightarrow>
      ?S (cm_object_name cm) = Some (KCliManager cm) \<and> (ns = [] \<or> fst (cm_object_name cm) = ns)" for cm
    unfolding l(3) using here [of "cm_object_name cm"] by (auto simp: tracked_def split: if_splits)
  have "distinct ?ms" "distinct (cml_items l)" using storeList_own(1) [OF cache(3)] l(2) by (simp_all add: distinct_map)
  moreover have "set (cml_items l) \<subseteq> set ?ms" using item member shown_some [OF T] by blast
  ultimately have "mset (cml_items l) \<subseteq># mset ?ms" "set_mset (mset ?ms - mset (cml_items l)) = set ?ms - set (cml_items l)"
    using sublist_of_distinct by blast+
  moreover have "cm_object_name cm \<in> D" if "cm \<in> set ?ms - set (cml_items l)" for cm
    using that item member shown_only [OF T] by blast
  ultimately have "\<exists>ms items. listerList (listerCliManagers NewCliManagerLister ns) everything ?cache = Inr ms \<and>
      map_sum id cml_items (fst (cmi_List (fakeClimanagers ps ns) (request_options []) ?c)) = Inr items \<and>
      mset items \<subseteq># mset ms \<and> (\<forall>m\<in>#mset ms - mset items. cm_object_name m \<in> D)"
    by (intro exI [of _ ?ms] exI [of _ "cml_items l"]) (simp add: ms l(1))
  moreover have "(fst (cmi_Get (fakeClimanagers ps ns) name ?c) = Inr cm \<longrightarrow>
        listerGet (listerCliManagers NewCliManagerLister ns) name ?cache = Inr cm) \<and>
      (listerGet (listerCliManagers NewCliManagerLister ns) name ?cache = Inr cm \<longrightarrow> (ns, name) \<notin> D \<longrightarrow>
        fst (cmi_Get (fakeClimanagers ps ns) name ?c) = Inr cm)" if "CHR ''/'' \<notin> set name" for name cm
    unfolding client get [OF that] using shown_some [OF T] shown_only [OF T] by blast
  ultimately show ?thesis unfolding reads_agree_def Let_def by blast
qed

section \<open>Nothing stays under way\<close>

lemma perform_all_append: "perform_all (xs @ ys) s = Option.bind (perform_all xs s) (perform_all ys)"
  by (induction xs arbitrary: s) (simp_all add: bind_assoc [symmetric] del: bind_assoc split: bind_splits)

lemma reflectorReceive_tracker:
  assumes "reflectorReceive w b s = Some s'"
  shows "Tracker (sy_clientset s') = Tracker (sy_clientset s)"
proof -
  have "sy_clientset (handle_event w b e s) = sy_clientset s" for e s
    by (simp add: handle_event_def Let_def split: watch_event.split option.split)
  with assms show ?thesis
    by (auto simp: reflectorReceive_def Let_def set_tracker_def Tracker_def split: prod.splits received.splits)
qed

text \<open>The steps of the informer alone.\<close>

abbreviation informer_steps :: "system_step set" where
  "informer_steps \<equiv> {DoList, DoWatch, DoReceive, DoProcess}"

definition informer_reaches :: "informer_system \<Rightarrow> informer_system \<Rightarrow> bool" where
  "informer_reaches s s' \<longleftrightarrow> (\<exists>ys. set ys \<subseteq> informer_steps \<and> perform_all ys s = Some s')"

lemma informer_reaches_refl: "informer_reaches s s"
  unfolding informer_reaches_def by (intro exI [of _ "[]"]) simp

lemma informer_reaches_step:
  "x \<in> informer_steps \<Longrightarrow> perform x s = Some s1 \<Longrightarrow> informer_reaches s1 s' \<Longrightarrow> informer_reaches s s'"
  unfolding informer_reaches_def by (metis bind.bind_lunit insert_subset list.simps(15) perform_all.simps(2))

lemma informer_reaches_trans: "informer_reaches s s1 \<Longrightarrow> informer_reaches s1 s2 \<Longrightarrow> informer_reaches s s2"
  unfolding informer_reaches_def by (metis bind.bind_lunit le_sup_iff perform_all_append set_append)

definition same_server :: "informer_system \<Rightarrow> informer_system \<Rightarrow> bool" where
  "same_server s s' \<longleftrightarrow> Tracker (sy_clientset s') = Tracker (sy_clientset s)"

lemma running_ok:
  "system_ok ps merge n0 D s \<Longrightarrow> \<not> crashed s \<Longrightarrow> clientset_ok merge (sy_clientset s) \<and> cache_ok ps n0 s \<and> phase_ok n0 D s"
  by (auto simp: system_ok_def)

lemma receive_all:
  "system_ok ps merge n0 D s \<Longrightarrow> sy_phase s = Watching w b \<Longrightarrow>
     \<exists>s' b'. informer_reaches s s' \<and> system_ok ps merge n0 D s' \<and> sy_phase s' = Watching w b' \<and> channel_of w s' = [] \<and>
       same_server s s' \<and> foreseen w s' = foreseen w s"
proof (induction "length (channel_of w s)" arbitrary: s b)
  case 0
  then show ?case using informer_reaches_refl by (auto simp: same_server_def)
next
  case (Suc n)
  have ok: "clientset_ok merge (sy_clientset s)" "cache_ok ps n0 s" "phase_ok n0 D s"
    using running_ok [OF Suc.prems(1)] Suc.prems(2) by (auto simp: crashed_def)
  obtain e es where "channel_of w s = e # es" using Suc.hyps(2) by (cases "channel_of w s") auto
  then obtain s1 where s1: "reflectorReceive w b s = Some s1"
    by (simp add: reflectorReceive_def watcherReceive_def channel_of_def Let_def)
  from receive_step [OF ok Suc.prems(2) s1] obtain p where p: "system_ok ps merge n0 D s1" "channel_of w s1 = tl (channel_of w s)"
    "sy_phase s1 = Watching w p" "foreseen w s1 = foreseen w s"
    by blast
  have "n = length (channel_of w s1)" using Suc.hyps(2) by (simp add: p(2))
  from Suc.hyps(1) [OF this p(1,3)] obtain s' b' where s': "informer_reaches s1 s'" "system_ok ps merge n0 D s'"
    "sy_phase s' = Watching w b'" "channel_of w s' = []" "same_server s1 s'" "foreseen w s' = foreseen w s1"
    by blast
  moreover have "informer_reaches s s'"
    by (rule informer_reaches_step [of DoReceive, OF _ _ s'(1)]) (simp_all add: Suc.prems(2) s1)
  ultimately show ?case using reflectorReceive_tracker [OF s1] p(4) by (auto simp: same_server_def)
qed

lemma PopBatch_busy: "rf_items f \<noteq> [] \<Longrightarrow> \<exists>x. PopBatch key f c = Some x"
  by (cases "length (batch_from key (rf_initialPopulationCount f) 0 [] (rf_items f)) = 1")
    (simp_all add: PopBatch_def Let_def split: prod.split)

lemma process_all:
  "system_ok ps merge n0 D s \<Longrightarrow> \<not> crashed s \<Longrightarrow>
     \<exists>s'. informer_reaches s s' \<and> system_ok ps merge n0 D s' \<and> rf_items (sy_fifo s') = [] \<and>
       sy_phase s' = sy_phase s \<and> sy_clientset s' = sy_clientset s \<and> queued s' = queued s"
proof (induction "length (rf_items (sy_fifo s))" arbitrary: s rule: less_induct)
  case less
  show ?case
  proof (cases "rf_items (sy_fifo s) = []")
    case True
    then show ?thesis using informer_reaches_refl less.prems(1) by blast
  next
    case False
    then obtain s1 where s1: "processLoop s = Some s1"
      using PopBatch_busy [of "sy_fifo s"] by (fastforce simp: processLoop_def)
    from process_step [OF _ _ _ s1] running_ok [OF less.prems] obtain n where
      n: "system_ok ps merge n0 D s1" "sy_clientset s1 = sy_clientset s" "sy_phase s1 = sy_phase s"
        "queued s1 = queued s" "0 < n" "rf_items (sy_fifo s1) = drop n (rf_items (sy_fifo s))"
      by blast
    have "length (rf_items (sy_fifo s1)) < length (rf_items (sy_fifo s))" using n(5,6) False by simp
    moreover have "\<not> crashed s1" using less.prems(2) n(3) by (simp add: crashed_def)
    ultimately obtain s' where s': "informer_reaches s1 s'" "system_ok ps merge n0 D s'" "rf_items (sy_fifo s') = []"
      "sy_phase s' = sy_phase s1" "sy_clientset s' = sy_clientset s1" "queued s' = queued s1"
      using less.hyps [OF _ n(1)] by blast
    have "informer_reaches s s'"
      by (rule informer_reaches_step [of DoProcess, OF _ _ s'(1)]) (simp_all add: less.prems(2) s1)
    with s' n(2-4) show ?thesis by auto
  qed
qed

lemma deliver_existing_ok:
  "\<not> wa_stopped f \<Longrightarrow> length (wa_events f) + length objs \<le> DefaultChanSize \<Longrightarrow> \<exists>f'. deliver_existing L objs f = Inr f'"
proof (induction objs arbitrary: f)
  case (Cons obj objs)
  let ?f = "f\<lparr>wa_events := wa_events f @ [WatchEvent EvAdded (vo_object obj)]\<rparr>"
  have "\<exists>f'. deliver_existing L objs ?f = Inr f'" "\<exists>f'. deliver_existing L objs f = Inr f'"
    using Cons.prems by (auto intro: Cons.IH)
  with Cons.prems show ?case by (simp add: watcherSend_def)
qed simp

lemma drained_synced: "system_ok ps merge n0 D s \<Longrightarrow> drained s \<Longrightarrow> in_synced (sy_informer s)"
proof -
  assume "system_ok ps merge n0 D s" "drained s"
  then have "counting (sy_fifo s)" "rf_items (sy_fifo s) = []" "in_synced (sy_informer s) = rf_synced (sy_fifo s)"
    by (auto simp: system_ok_def cache_ok_def phase_ok_def drained_def crashed_def Let_def split: reflector_phase.splits)
  then show ?thesis by (auto simp: counting_def)
qed

text \<open>Once the watch has started: what is under way is received, then processed.\<close>

lemma drains:
  assumes "system_ok ps merge n0 D s" "sy_phase s = Watching w b"
  shows "\<exists>s'. informer_reaches s s' \<and> system_ok ps merge n0 D s' \<and> drained s' \<and> same_server s s' \<and>
    st_items (in_indexer (sy_informer s')) = foreseen w s"
proof -
  from receive_all [OF assms] obtain s2 b' where 2: "informer_reaches s s2" "system_ok ps merge n0 D s2"
    "sy_phase s2 = Watching w b'" "channel_of w s2 = []" "same_server s s2" "foreseen w s2 = foreseen w s"
    by blast
  from process_all [OF 2(2)] 2(3) obtain s3 where 3: "informer_reaches s2 s3" "system_ok ps merge n0 D s3"
    "rf_items (sy_fifo s3) = []" "sy_phase s3 = sy_phase s2" "sy_clientset s3 = sy_clientset s2" "queued s3 = queued s2"
    by (auto simp: crashed_def)
  have "drained s3" using 2(3,4) 3 by (simp add: drained_def channel_of_def)
  moreover have "informer_reaches s s3" using 2(1) 3(1) informer_reaches_trans by blast
  moreover have "same_server s s3" using 2(5) 3(5) by (simp add: same_server_def)
  moreover have "st_items (in_indexer (sy_informer s3)) = queued s3" by (simp add: queued_def pending_items_def 3(3))
  then have "st_items (in_indexer (sy_informer s3)) = foreseen w s" using 2(4,6) 3(6) by (simp add: foreseen_def)
  ultimately show ?thesis using 3(2) by blast
qed

lemma start_watch:
  assumes "accepts_empty ps" "system_ok ps merge n0 D s" "sy_phase s = ToWatch"
    and "version_of cliManager_gvr (Tracker (sy_clientset s)) < 2 ^ 63"
    and "length (objects_of cliManager_gvr (Tracker (sy_clientset s))) \<le> DefaultChanSize"
  shows "\<exists>w b. informer_reaches s (reflectorWatch s) \<and> system_ok ps merge n0 D (reflectorWatch s) \<and>
    sy_phase (reflectorWatch s) = Watching w b \<and> same_server s (reflectorWatch s)"
proof -
  let ?c = "sy_clientset s" and ?opts = "request_options (sy_lastSync s)"
  have ok: "clientset_ok merge ?c" "cache_ok ps n0 s" "phase_ok n0 D s"
    using running_ok [OF assms(2)] assms(3) by (auto simp: crashed_def)
  obtain L where L: "sy_lastSync s = decimal (nat L)" "lossy_gap D n0 L (queued s) (Tracker ?c)"
    using ok(3) assms(3) by (auto simp: phase_ok_def)
  have bound: "int (nat L) < 2 ^ 63" using L(2) assms(4) by (auto simp: lossy_gap_def gap_def)
  have ne: "decimal (nat L) \<noteq> []" using decimal_head [of "nat L"] by auto
  have "length (filterByNamespace (objects_of cliManager_gvr (wt_tracker (fcs_tracker ?c))) n0) \<le> DefaultChanSize"
    using assms(5) by (simp add: filterByNamespace_def Tracker_def) (metis le_trans length_filter_le)
  then obtain f where f: "deliver_existing (int (nat L)) (filterByNamespace (objects_of cliManager_gvr (wt_tracker (fcs_tracker ?c))) n0)
      NewRaceFreeFake = Inr f"
    using deliver_existing_ok [of NewRaceFreeFake] by (fastforce simp: NewRaceFreeFake_def)
  obtain t' where tw: "trackerWatch cliManager_gvr n0 ?opts (fcs_tracker ?c) = (Inr (length (wt_all (fcs_tracker ?c))), t')"
    "wt_tracker t' = wt_tracker (fcs_tracker ?c)"
    using ParseInt64_decimal [OF bound] ne f by (simp add: trackerWatch_def request_options_def L(1) Let_def)
  have simple: "simple_fake merge ?c" using ok(1) by (simp add: clientset_ok_def)
  have lw: "lw_watch (in_listerWatcher (sy_informer s)) = ver_watch (fake_versioned ps) n0"
    using ok(2) by (simp add: cache_ok_def Let_def)
  obtain as where "ver_watch (fake_versioned ps) n0 ?opts ?c =
      (Inr (length (wt_all (fcs_tracker ?c))), ?c\<lparr>fcs_actions := as, fcs_tracker := t'\<rparr>)"
    using fake_watch [OF assms(1) simple, of ?opts n0] tw(1) by (force simp: request_options_def)
  then have s': "sy_phase (reflectorWatch s) = Watching (length (wt_all (fcs_tracker ?c))) (sy_lastSync s \<notin> {[], ''0''})"
    "same_server s (reflectorWatch s)"
    by (simp_all add: reflectorWatch_def lw same_server_def Tracker_def tw(2))
  have "informer_reaches s (reflectorWatch s)"
    by (rule informer_reaches_step [of DoWatch, OF _ _ informer_reaches_refl]) (simp_all add: assms(3))
  with s' watch_step [OF assms(1) ok assms(3)] show ?thesis by blast
qed

lemma start_list:
  assumes "accepts_empty ps" "system_ok ps merge n0 D s" "sy_phase s = ToList"
  shows "informer_reaches s (reflectorList s) \<and> system_ok ps merge n0 D (reflectorList s) \<and> sy_phase (reflectorList s) = ToWatch \<and>
    same_server s (reflectorList s) \<and> fcs_tracker (sy_clientset (reflectorList s)) = fcs_tracker (sy_clientset s) \<and>
    (\<exists>l. fst (cmi_List (fakeClimanagers ps n0) (request_options []) (sy_clientset s)) = Inr l \<and>
       queued (reflectorList s) = items_of MetaNamespaceKeyFunc (cml_items l))"
proof -
  let ?c = "sy_clientset s"
  have ok: "clientset_ok merge ?c" "cache_ok ps n0 s"
    using running_ok [OF assms(2)] assms(3) by (auto simp: crashed_def)
  have simple: "simple_fake merge ?c" using ok(1) by (simp add: clientset_ok_def)
  obtain l where l: "fst (cmi_List (fakeClimanagers ps n0) (request_options []) ?c) = Inr l"
    using client_list [OF assms(1) ok(1), of n0] by blast
  then have "trackerList cliManager_gvr cliManager_gvk n0 (fcs_tracker ?c) = Inr l"
    using fake_list [OF assms(1) simple, of "request_options []" n0] by (auto simp: request_options_def fake_versioned_def)
  then obtain as where list: "ver_list (fake_versioned ps) n0 (request_options (relistResourceVersion s)) ?c =
      (Inr l, ?c\<lparr>fcs_actions := as\<rparr>)"
    using fake_list [OF assms(1) simple, of "request_options (relistResourceVersion s)" n0] by (auto simp: request_options_def)
  have lw: "lw_list (in_listerWatcher (sy_informer s)) = ver_list (fake_versioned ps) n0"
    using ok(2) by (simp add: cache_ok_def Let_def)
  obtain f' where f': "fifoReplace (cml_items l) (cml_resourceVersion l) (sy_fifo s) = (None, f')"
      "rf_items f' = rf_items (sy_fifo s) @ [ReplacedAll (cml_resourceVersion l) (cml_items l)]"
    by (rule fifoReplace_ok [of "sy_fifo s" "cml_items l" "cml_resourceVersion l"])
      (use ok(2) in \<open>simp_all add: cache_ok_def Let_def\<close>)
  then have "sy_phase (reflectorList s) = ToWatch \<and> same_server s (reflectorList s) \<and>
      fcs_tracker (sy_clientset (reflectorList s)) = fcs_tracker (sy_clientset s)"
    by (simp add: reflectorList_def lw list same_server_def Tracker_def)
  moreover have "queued (reflectorList s) = items_of MetaNamespaceKeyFunc (cml_items l)"
    by (simp add: reflectorList_def lw list f' queued_def pending_items_def)
  moreover have "informer_reaches s (reflectorList s)"
    by (rule informer_reaches_step [of DoList, OF _ _ informer_reaches_refl]) (simp_all add: assms(3))
  ultimately show ?thesis using list_step [OF assms(1) ok] l by blast
qed

text \<open>A watch that starts puts what is newer than the list, and nothing else.\<close>

lemma watch_foresees:
  assumes "accepts_empty ps" "clientset_ok merge (sy_clientset s)" "cache_ok ps n0 s"
    and "sy_phase (reflectorWatch s) = Watching w b" "sy_phase s = ToWatch"
  shows "\<exists>cms. foreseen w (reflectorWatch s) = fold cm_effect (map Added cms) (queued s) \<and>
    (\<forall>cm\<in>set cms. tracked cliManager_gvr [] (Tracker (sy_clientset s)) (cm_object_name cm) = Some (KCliManager cm))"
proof -
  let ?c = "sy_clientset s" and ?opts = "request_options (sy_lastSync s)"
  let ?t = "fcs_tracker ?c"
  have simple: "simple_fake merge ?c" and ok: "tracker_ok (wt_tracker ?t)"
    and own: "own_climanagers (tracked cliManager_gvr [] (wt_tracker ?t))"
    using assms(2) watched_okD(1) by (auto simp: clientset_ok_def Tracker_def)
  have lw: "lw_watch (in_listerWatcher (sy_informer s)) = ver_watch (fake_versioned ps) n0"
    using assms(3) by (simp add: cache_ok_def Let_def)
  obtain as where watch: "ver_watch (fake_versioned ps) n0 ?opts ?c =
    (case trackerWatch cliManager_gvr n0 ?opts ?t of
       (Inl err, t) \<Rightarrow> (Inl (if is_panic_error err then err else ErrorString ''unhandled watch''),
         ?c\<lparr>fcs_actions := as, fcs_tracker := t\<rparr>)
     | (Inr w, t) \<Rightarrow> (Inr w, ?c\<lparr>fcs_actions := as, fcs_tracker := t\<rparr>))"
    using fake_watch [OF assms(1) simple] by (force simp: request_options_def)
  obtain t' where tw: "trackerWatch cliManager_gvr n0 ?opts ?t = (Inr w, t')"
    using assms(4) by (cases "trackerWatch cliManager_gvr n0 ?opts ?t"; cases "fst (trackerWatch cliManager_gvr n0 ?opts ?t)")
      (auto simp: reflectorWatch_def lw watch after_error_def split: if_splits)
  obtain L where t': "w = length (wt_all ?t)"
    "t' = ?t\<lparr>wt_all := wt_all ?t @ [\<lparr>wa_events = map (WatchEvent EvAdded \<circ> vo_object)
         (filter (\<lambda>vo. L < vo_resourceVersion vo) (filterByNamespace (objects_of cliManager_gvr (wt_tracker ?t)) n0)),
         wa_stopped = False\<rparr>],
       wt_watchers := fmupd (cliManager_gvr, n0) (watchers_at cliManager_gvr n0 ?t @ [w]) (wt_watchers ?t)\<rparr>"
    by (rule trackerWatch_result [OF tw])
  obtain cms where cms: "map KCliManager cms = map vo_object
      (filter (\<lambda>vo. L < vo_resourceVersion vo) (filterByNamespace (objects_of cliManager_gvr (wt_tracker ?t)) n0))"
    "\<forall>cm\<in>set cms. tracked cliManager_gvr [] (wt_tracker ?t) (cm_object_name cm) = Some (KCliManager cm)"
    by (rule new_objects [OF ok own])
  have "foreseen w (reflectorWatch s) = fold cm_effect (map Added cms) (queued s)"
    by (simp add: reflectorWatch_def lw watch tw foreseen_def channel_of_def queued_def t' added_deltas [OF cms(1)] del: map_map)
  with cms(2) show ?thesis by (auto simp: Tracker_def)
qed

lemma catches_up:
  assumes "accepts_empty ps" "system_ok ps merge n0 D s" "\<not> crashed s"
    and "version_of cliManager_gvr (Tracker (sy_clientset s)) < 2 ^ 63"
    and "length (objects_of cliManager_gvr (Tracker (sy_clientset s))) \<le> DefaultChanSize"
  shows "\<exists>s'. informer_reaches s s' \<and> drained s' \<and> in_synced (sy_informer s') \<and> same_server s s' \<and>
    (\<forall>ns. n0 = [] \<or> ns = n0 \<longrightarrow> reads_agree D ps ns s')"
proof -
  have watch: "\<exists>s' w b. informer_reaches s1 s' \<and> system_ok ps merge n0 D s' \<and> sy_phase s' = Watching w b \<and> same_server s s'"
    if "system_ok ps merge n0 D s1" "sy_phase s1 = ToWatch" "same_server s s1" for s1
    using start_watch [OF assms(1) that(1,2)] assms(4,5) that(3) unfolding same_server_def by metis
  obtain s1 w b where 1: "informer_reaches s s1" "system_ok ps merge n0 D s1" "sy_phase s1 = Watching w b" "same_server s s1"
  proof (cases "sy_phase s")
    case ToList
    from start_list [OF assms(1,2) ToList] watch informer_reaches_trans show thesis by (metis that)
  next
    case ToWatch
    from watch [OF assms(2) ToWatch] show thesis by (auto simp: same_server_def intro: that)
  next
    case (Watching w b)
    show thesis by (rule that [OF informer_reaches_refl assms(2) Watching]) (simp add: same_server_def)
  next
    case (Crashed err)
    with assms(3) show thesis by (simp add: crashed_def)
  qed
  from drains [OF 1(2,3)] obtain s2 where 2: "informer_reaches s1 s2" "system_ok ps merge n0 D s2" "drained s2" "same_server s1 s2"
    by blast
  have "informer_reaches s s2" using 1(1) 2(1) informer_reaches_trans by blast
  moreover have "same_server s s2" using 1(4) 2(4) by (simp add: same_server_def)
  ultimately show ?thesis
    using 2(3) drained_synced [OF 2(2,3)] mirror_reads_agree [OF assms(1) 2(2,3)] by blast
qed

end
