(* ===== verification/Informer_Run.thy ===== *)
theory Informer_Run
  imports Informer_Reads
begin

text \<open>
  The properties of a run of the climanager informer on the fake clientset, from its start: its cache mirrors the
  server but for what is deleted between list and watch, it gets there, and its handlers know the cache. A run of
  the sample shows that the hypotheses can hold.
\<close>

section \<open>What is deleted before the watch stays\<close>

lemma ghost_stays:
  assumes "accepts_empty ps" "system_ok ps merge n0 D s" "sy_phase s = ToList"
    and get: "fst (cmi_Get (fakeClimanagers ps ns) name (sy_clientset s)) = Inr cm" and ns: "n0 = [] \<or> ns = n0"
    and del: "perform_all [DoList, DoWrite (OpDelete cliManager_gvr ns name)] s = Some s2"
    and bounds: "version_of cliManager_gvr (Tracker (sy_clientset s2)) < 2 ^ 63"
      "length (objects_of cliManager_gvr (Tracker (sy_clientset s2))) \<le> DefaultChanSize"
  shows "\<exists>s'. informer_reaches s2 s' \<and> drained s' \<and> in_synced (sy_informer s') \<and> same_server s2 s' \<and>
    listerGet (listerCliManagers NewCliManagerLister ns) name (in_indexer (sy_informer s')) = Inr cm \<and>
    (\<forall>cm'. fst (cmi_Get (fakeClimanagers ps ns) name (sy_clientset s')) \<noteq> Inr cm')"
proof -
  let ?k = "(ns, name)" and ?s1 = "reflectorList s" and ?op = "OpDelete cliManager_gvr ns name"
  have ok: "clientset_ok merge (sy_clientset s)" using running_ok [OF assms(2)] assms(3) by (simp add: crashed_def)
  have here: "tracked cliManager_gvr [] (Tracker (sy_clientset s)) ?k = Some (KCliManager cm)"
    using get unfolding client_get [OF ok] .
  have own: "own_climanagers (tracked cliManager_gvr [] (Tracker (sy_clientset s)))" using ok by (simp add: clientset_ok_def)
  have cm: "cm_object_name cm = ?k" "CHR ''/'' \<notin> set (snd ?k)" using own here unfolding own_climanagers_def by blast+
  from start_list [OF assms(1-3)] obtain l where 1: "system_ok ps merge n0 D ?s1" "sy_phase ?s1 = ToWatch" "same_server s ?s1"
    "fst (cmi_List (fakeClimanagers ps n0) (request_options []) (sy_clientset s)) = Inr l"
    "queued ?s1 = items_of MetaNamespaceKeyFunc (cml_items l)"
    by blast
  obtain l' where l': "fst (cmi_List (fakeClimanagers ps n0) (request_options []) (sy_clientset s)) = Inr l'"
    "distinct (map MetaNamespaceKeyFunc (cml_items l'))"
    "\<And>cm. cm \<in> set (cml_items l') \<longleftrightarrow> tracked cliManager_gvr n0 (Tracker (sy_clientset s)) (cm_object_name cm) = Some (KCliManager cm)"
    using client_list [OF assms(1) ok, of n0] by blast
  have "tracked cliManager_gvr n0 (Tracker (sy_clientset s)) (cm_object_name cm) = Some (KCliManager cm)"
    using here ns unfolding cm(1) by (auto simp: tracked_def)
  then have "cm \<in> set (cml_items l)" using 1(4) l'(1) l'(3) [of cm] by simp
  then have listed: "fmlookup (queued ?s1) (ObjectName_String ?k) = Some cm"
    using 1(4) l'(1,2) cm(1) unfolding 1(5) items_of_def by (subst puts_lookup) (auto simp: MetaNamespaceKeyFunc_def)
  from del assms(3) have step: "perform (DoWrite ?op) ?s1 = Some s2" by (simp add: bind_eq_Some_conv del: perform.simps(1))
  obtain res t where run: "run_op ?op (fcs_tracker (sy_clientset ?s1)) = (res, t)" by fastforce
  with step have s2: "\<not> panicked res" "s2 = ?s1\<lparr>sy_clientset := set_tracker t (sy_clientset ?s1)\<rparr>"
    by (auto simp del: run_op.simps split: if_splits)
  have ok2: "system_ok ps merge n0 (D \<union> lost_by (DoWrite ?op) ?s1) s2"
    by (rule perform_ok [OF assms(1) 1(1) step]) simp
  have phase2: "sy_phase s2 = ToWatch" using 1(2) by (simp add: s2(2))
  have run2: "clientset_ok merge (sy_clientset s2)" "cache_ok ps n0 s2"
    using running_ok [OF ok2] phase2 by (simp_all add: crashed_def)
  have w: "watched_ok (fcs_tracker (sy_clientset ?s1))"
    using running_ok [OF 1(1)] 1(2) by (simp add: crashed_def clientset_ok_def)
  have same: "wt_tracker (fcs_tracker (sy_clientset ?s1)) = Tracker (sy_clientset s)" using 1(3) by (simp add: same_server_def Tracker_def)
  obtain vo where vo: "fmlookup (trk_objects (Tracker (sy_clientset s))) (cliManager_gvr, ?k) = Some vo" "vo_object vo = KCliManager cm"
    using here by (auto simp: tracked_def)
  have "tracked cliManager_gvr [] (wt_tracker t) =
      told (WatchEvent EvDeleted (KCliManager cm)) (tracked cliManager_gvr [] (Tracker (sy_clientset s)))"
    using run_op_tracked [OF w run s2(1), of cliManager_gvr "[]"] vo by (simp add: same concerns_def)
  then have gone: "tracked cliManager_gvr [] (Tracker (sy_clientset s2)) ?k = None"
    using cm(1) by (simp add: told_climanager s2(2) Tracker_def set_tracker_def del: told.simps)
  from start_watch [OF assms(1) ok2 phase2 bounds] obtain w b where
    3: "informer_reaches s2 (reflectorWatch s2)" "system_ok ps merge n0 (D \<union> lost_by (DoWrite ?op) ?s1) (reflectorWatch s2)"
      "sy_phase (reflectorWatch s2) = Watching w b" "same_server s2 (reflectorWatch s2)"
    by blast
  from watch_foresees [OF assms(1) run2 3(3) phase2] obtain cms where
    cms: "foreseen w (reflectorWatch s2) = fold cm_effect (map Added cms) (queued s2)"
      "\<forall>cm\<in>set cms. tracked cliManager_gvr [] (Tracker (sy_clientset s2)) (cm_object_name cm) = Some (KCliManager cm)"
    by blast
  have own2: "own_climanagers (tracked cliManager_gvr [] (Tracker (sy_clientset s2)))" using run2(1) by (simp add: clientset_ok_def)
  have "MetaNamespaceKeyFunc cm' \<noteq> ObjectName_String ?k" if "cm' \<in> set cms" for cm'
  proof
    assume key: "MetaNamespaceKeyFunc cm' = ObjectName_String ?k"
    have there: "tracked cliManager_gvr [] (Tracker (sy_clientset s2)) (cm_object_name cm') = Some (KCliManager cm')" using cms(2) that by blast
    then have "CHR ''/'' \<notin> set (snd (cm_object_name cm'))" using own2 unfolding own_climanagers_def by blast
    then have "cm_object_name cm' = ?k" using ObjectName_String_inj [OF _ cm(2)] key by (simp add: MetaNamespaceKeyFunc_def)
    with there gone show False by simp
  qed
  then have "ObjectName_String ?k \<notin> MetaNamespaceKeyFunc ` set cms" by force
  moreover have "queued s2 = queued ?s1" by (simp add: s2(2) queued_def)
  ultimately have foreseen: "fmlookup (foreseen w (reflectorWatch s2)) (ObjectName_String ?k) = Some cm"
    unfolding cms(1) using listed by (simp add: puts_other)
  from drains [OF 3(2,3)] obtain s' where 4: "informer_reaches (reflectorWatch s2) s'"
    "system_ok ps merge n0 (D \<union> lost_by (DoWrite ?op) ?s1) s'" "drained s'" "same_server (reflectorWatch s2) s'"
    "st_items (in_indexer (sy_informer s')) = foreseen w (reflectorWatch s2)"
    by blast
  have server: "same_server s2 s'" using 3(4) 4(4) by (simp add: same_server_def)
  have "clientset_ok merge (sy_clientset s')"
    using running_ok [OF 4(2)] 4(3) by (auto simp: drained_def crashed_def split: reflector_phase.splits)
  then have "\<forall>cm'. fst (cmi_Get (fakeClimanagers ps ns) name (sy_clientset s')) \<noteq> Inr cm'"
    using gone server by (simp add: client_get same_server_def)
  moreover have "listerGet (listerCliManagers NewCliManagerLister ns) name (in_indexer (sy_informer s')) = Inr cm"
    unfolding lister_get 4(5) by (rule foreseen)
  ultimately show ?thesis
    using informer_reaches_trans [OF 3(1) 4(1)] 4(3) server drained_synced [OF 4(2,3)] by blast
qed

section \<open>The properties\<close>

abbreviation sys_start :: "selector_parsers \<Rightarrow> string \<Rightarrow> int \<Rightarrow> fake_clientset \<Rightarrow> informer_system" where
  "sys_start ps n0 resync c \<equiv> start_system (fake_informer ps n0 resync) c"

lemma run_ok:
  assumes "accepts_empty ps" "NewSimpleClientset merge objects = Inr c" "list_all storable (concat (map flatten objects))"
    and "list_all step_allowed xs" "perform_all xs (sys_start ps n0 resync c) = Some s"
  shows "system_ok ps merge n0 (lost_names xs (sys_start ps n0 resync c)) s"
  using perform_all_ok [OF assms(1) start_ok [OF new_clientset_ok [OF assms(2,3)], of ps n0 "{}"] assms(4,5)] by simp

text \<open>C20: a cache that mirrors the server. However writers, the reflector and the processing of its queue interleave, whenever
  an informer of climanagers has nothing under way, the lister on its cache returns what the typed client returns
  from the API server: the same climanager for every name, and the same climanagers in a list. Only the names
  under which a climanager was deleted between the list and the watch of the informer are excepted: there the lister may have
  one more. Names have no slash.\<close>

theorem informer_mirrors_server:
  assumes "accepts_empty ps" "NewSimpleClientset merge objects = Inr c" "list_all storable (concat (map flatten objects))"
    and "list_all step_allowed xs" "perform_all xs (sys_start ps n0 resync c) = Some s"
    and "drained s" "n0 = [] \<or> ns = n0"
  shows "reads_agree (lost_names xs (sys_start ps n0 resync c)) ps ns s"
  by (rule mirror_reads_agree [OF assms(1) run_ok [OF assms(1-5)] assms(6,7)])

text \<open>C21: the cache gets there. From every state that an informer of climanagers can reach without a panic, its own steps alone,
  without any further write, lead to a state in which nothing is under way, the informer has synced and the lister reads
  what the client reads; bounds are a version below the range of \<open>int64\<close> and no more climanagers than fit
  into the channel of a watch.\<close>

theorem informer_catches_up:
  assumes "accepts_empty ps" "NewSimpleClientset merge objects = Inr c" "list_all storable (concat (map flatten objects))"
    and "list_all step_allowed xs" "perform_all xs (sys_start ps n0 resync c) = Some s" "\<not> crashed s"
    and "version_of cliManager_gvr (Tracker (sy_clientset s)) < 2 ^ 63"
    and "length (objects_of cliManager_gvr (Tracker (sy_clientset s))) \<le> DefaultChanSize"
  shows "\<exists>s'. informer_reaches s s' \<and> drained s' \<and> in_synced (sy_informer s') \<and> same_server s s' \<and>
    (\<forall>ns. n0 = [] \<or> ns = n0 \<longrightarrow> reads_agree (lost_names xs (sys_start ps n0 resync c)) ps ns s')"
  by (rule catches_up [OF assms(1) run_ok [OF assms(1-5)] assms(6-8)])

text \<open>C22: what the fake API server forgets. A climanager that is deleted between a list of the informer and its watch is
  gone from the server, but the informer catches up without noticing: its lister keeps returning it. So the exception
  in the mirroring of the server is needed.\<close>

theorem deletion_before_watch_lost:
  assumes "accepts_empty ps" "NewSimpleClientset merge objects = Inr c" "list_all storable (concat (map flatten objects))"
    and "list_all step_allowed xs" "perform_all xs (sys_start ps n0 resync c) = Some s" "sy_phase s = ToList"
    and "fst (cmi_Get (fakeClimanagers ps ns) name (sy_clientset s)) = Inr cm" "n0 = [] \<or> ns = n0"
    and "perform_all [DoList, DoWrite (OpDelete cliManager_gvr ns name)] s = Some s2"
    and "version_of cliManager_gvr (Tracker (sy_clientset s2)) < 2 ^ 63"
    and "length (objects_of cliManager_gvr (Tracker (sy_clientset s2))) \<le> DefaultChanSize"
  shows "\<exists>s'. informer_reaches s2 s' \<and> drained s' \<and> in_synced (sy_informer s') \<and> same_server s2 s' \<and>
    listerGet (listerCliManagers NewCliManagerLister ns) name (in_indexer (sy_informer s')) = Inr cm \<and>
    (\<forall>cm'. fst (cmi_Get (fakeClimanagers ps ns) name (sy_clientset s')) \<noteq> Inr cm')"
  by (rule ghost_stays [OF assms(1) run_ok [OF assms(1-5)] assms(6-11)])

text \<open>C23: handlers know the cache. At every moment, also while events are under way, a handler of the informer that puts and drops
  what it is notified of holds exactly the objects of the cache, each under its own key.\<close>

theorem handlers_follow_cache:
  assumes "accepts_empty ps" "NewSimpleClientset merge objects = Inr c" "list_all storable (concat (map flatten objects))"
    and "list_all step_allowed xs" "perform_all xs (sys_start ps n0 resync c) = Some s" "\<not> crashed s"
  shows "fold (note_effect MetaNamespaceKeyFunc) (sy_notes s) fmempty = st_items (in_indexer (sy_informer s)) \<and>
    own_keys MetaNamespaceKeyFunc (st_items (in_indexer (sy_informer s)))"
  using running_ok [OF run_ok [OF assms(1-5)] assms(6)] by (simp add: cache_ok_def Let_def)

section \<open>A run of the sample\<close>

definition sample_merge :: "patch_data \<Rightarrow> kobject \<Rightarrow> go_error + kobject" where
  "sample_merge patch obj = Inr obj"

definition sample_clientset :: fake_clientset where
  "sample_clientset = clientset_over (ObjectReaction sample_merge) NewObjectTracker"

definition sample_write :: system_step where
  "sample_write = DoWrite (OpAdd cliManager_gvr (KCliManager sample_config) OperatorNamespace False)"

abbreviation sample_system :: informer_system where
  "sample_system \<equiv> sys_start sample_parsers [] 0 sample_clientset"

lemma sample_new: "NewSimpleClientset sample_merge [] = Inr sample_clientset"
  by (simp add: NewSimpleClientset_def sample_clientset_def)

lemma sample_accepts: "accepts_empty sample_parsers"
  by (simp add: accepts_empty_def sample_parsers_def)

lemma sample_names:
  "om_name (cm_meta sample_config) = OperatorConfigName" "om_namespace (cm_meta sample_config) = OperatorNamespace"
  "OperatorNamespace \<noteq> []" "CHR ''/'' \<notin> set OperatorConfigName"
  by (simp_all add: sample_config_def)

lemma objects_of_single:
  assumes "trk_objects t = fmupd (r, k) vo fmempty"
  shows "objects_of r t = [vo]"
proof -
  have "snd |`| ffilter (\<lambda>x. fst x = r) {|(r, k)|} = {|k|}" by auto
  then show ?thesis by (simp add: objects_of_def assms sorted_list_of_fset.rep_eq)
qed

lemma sample_written:
  obtains s where "perform sample_write sample_system = Some s" "sy_phase s = ToList"
    "trk_objects (Tracker (sy_clientset s)) =
       fmupd (cliManager_gvr, OperatorNamespace, OperatorConfigName) \<lparr>vo_resourceVersion = 2, vo_object = KCliManager sample_config\<rparr> fmempty"
    "version_of cliManager_gvr (Tracker (sy_clientset s)) = 2" "wt_watchers (fcs_tracker (sy_clientset s)) = fmempty"
  by (rule that [of "sample_system\<lparr>sy_clientset := set_tracker (snd (watchedAdd cliManager_gvr (KCliManager sample_config)
        OperatorNamespace False (fcs_tracker sample_clientset))) sample_clientset\<rparr>"])
    (simp_all add: sample_write_def start_system_def crashed_def panicked_def sample_clientset_def clientset_over_def AddReactor_def
      AddWatchReactor_def NewWatchedTracker_def watchedAdd_def trackerAdd_def sample_names getWatches_def watchers_at_def
      NewObjectTracker_def set_tracker_def Tracker_def version_of_def)

lemma informer_steps_allowed: "set ys \<subseteq> informer_steps \<Longrightarrow> list_all step_allowed ys"
  by (induction ys) auto

lemma informer_steps_lose: "set ys \<subseteq> informer_steps \<Longrightarrow> lost_names ys s = {}"
  by (induction ys arbitrary: s) (auto split: option.split)

lemma sample_write_allowed: "step_allowed sample_write"
  using sample_names by (simp add: sample_write_def)

lemma sample_write_keeps: "lost_by sample_write s = {}"
  by (simp add: sample_write_def)

text \<open>The sample is written before the list; then the informer runs on.\<close>

lemma sample_run_informer:
  obtains ys s where "list_all step_allowed (sample_write # ys)" "perform_all (sample_write # ys) sample_system = Some s"
    "lost_names (sample_write # ys) sample_system = {}" "drained s" "\<not> crashed s"
    "tracked cliManager_gvr [] (Tracker (sy_clientset s)) (OperatorNamespace, OperatorConfigName) = Some (KCliManager sample_config)"
    "clientset_ok sample_merge (sy_clientset s)"
proof -
  obtain s1 where s1: "perform sample_write sample_system = Some s1" "sy_phase s1 = ToList"
    "trk_objects (Tracker (sy_clientset s1)) =
       fmupd (cliManager_gvr, OperatorNamespace, OperatorConfigName) \<lparr>vo_resourceVersion = 2, vo_object = KCliManager sample_config\<rparr> fmempty"
    "version_of cliManager_gvr (Tracker (sy_clientset s1)) = 2"
    by (rule sample_written)
  have run1: "perform_all [sample_write] sample_system = Some s1" using s1(1) by simp
  have ok1: "system_ok sample_parsers sample_merge [] (lost_names [sample_write] sample_system) s1"
    by (rule run_ok [OF sample_accepts sample_new _ _ run1]) (simp_all add: sample_write_allowed)
  have few: "length (objects_of cliManager_gvr (Tracker (sy_clientset s1))) \<le> DefaultChanSize"
    by (simp add: objects_of_single [OF s1(3)] DefaultChanSize_def)
  from catches_up [OF sample_accepts ok1 _ _ few] s1(2,4) obtain s where s: "informer_reaches s1 s" "drained s" "same_server s1 s"
    by (auto simp: crashed_def)
  then obtain ys where ys: "set ys \<subseteq> informer_steps" "perform_all ys s1 = Some s" by (auto simp: informer_reaches_def)
  have allowed: "list_all step_allowed (sample_write # ys)" using sample_write_allowed informer_steps_allowed [OF ys(1)] by simp
  have none: "lost_names (sample_write # ys) sample_system = {}"
    using informer_steps_lose [OF ys(1)] by (simp add: sample_write_keeps s1(1))
  have run: "perform_all (sample_write # ys) sample_system = Some s" using s1(1) ys(2) by simp
  have nc: "\<not> crashed s" using s(2) by (auto simp: drained_def crashed_def split: reflector_phase.splits)
  have "clientset_ok sample_merge (sy_clientset s)"
    using running_ok [OF run_ok [OF sample_accepts sample_new _ allowed run] nc] by simp
  moreover have "tracked cliManager_gvr [] (Tracker (sy_clientset s)) (OperatorNamespace, OperatorConfigName) = Some (KCliManager sample_config)"
    using s(3) s1(3) by (simp add: same_server_def tracked_def)
  ultimately show thesis using that [OF allowed run none s(2) nc] by blast
qed

theorem informer_mirrors_server_witness:
  "\<exists>ys s. perform_all (sample_write # ys) sample_system = Some s \<and>
     listerGet (listerCliManagers NewCliManagerLister OperatorNamespace) OperatorConfigName (in_indexer (sy_informer s)) = Inr sample_config"
proof -
  obtain ys s where r: "list_all step_allowed (sample_write # ys)" "perform_all (sample_write # ys) sample_system = Some s" "drained s"
    "tracked cliManager_gvr [] (Tracker (sy_clientset s)) (OperatorNamespace, OperatorConfigName) = Some (KCliManager sample_config)"
    "clientset_ok sample_merge (sy_clientset s)"
    by (rule sample_run_informer)
  have "reads_agree (lost_names (sample_write # ys) sample_system) sample_parsers OperatorNamespace s"
    by (rule informer_mirrors_server [OF sample_accepts sample_new _ r(1,2,3)]) simp_all
  then have "listerGet (listerCliManagers NewCliManagerLister OperatorNamespace) OperatorConfigName (in_indexer (sy_informer s)) =
      Inr sample_config"
    using client_get [OF r(5)] r(4) sample_names(4) unfolding reads_agree_def Let_def by blast
  with r(2) show ?thesis by blast
qed

theorem informer_catches_up_witness:
  "\<exists>s s'. perform_all [sample_write] sample_system = Some s \<and> informer_reaches s s' \<and> drained s' \<and>
     reads_agree {} sample_parsers OperatorNamespace s'"
proof -
  obtain s1 where s1: "perform sample_write sample_system = Some s1" "sy_phase s1 = ToList"
    "trk_objects (Tracker (sy_clientset s1)) =
       fmupd (cliManager_gvr, OperatorNamespace, OperatorConfigName) \<lparr>vo_resourceVersion = 2, vo_object = KCliManager sample_config\<rparr> fmempty"
    "version_of cliManager_gvr (Tracker (sy_clientset s1)) = 2"
    by (rule sample_written)
  have run: "perform_all [sample_write] sample_system = Some s1" using s1(1) by simp
  have "list_all step_allowed [sample_write]" by (simp add: sample_write_allowed)
  moreover have "\<not> crashed s1" using s1(2) by (simp add: crashed_def)
  moreover have "length (objects_of cliManager_gvr (Tracker (sy_clientset s1))) \<le> DefaultChanSize"
    by (simp add: objects_of_single [OF s1(3)] DefaultChanSize_def)
  moreover have "lost_names [sample_write] sample_system = {}" by (simp add: sample_write_keeps s1(1))
  ultimately show ?thesis
    using informer_catches_up [OF sample_accepts sample_new _ _ run] s1(4) run by fastforce
qed

text \<open>The sample is listed, deleted, and stays in the cache.\<close>

theorem deletion_before_watch_lost_witness:
  "\<exists>s2 s'. perform_all [sample_write, DoList, DoWrite (OpDelete cliManager_gvr OperatorNamespace OperatorConfigName)] sample_system = Some s2 \<and>
     informer_reaches s2 s' \<and> drained s' \<and>
     listerGet (listerCliManagers NewCliManagerLister OperatorNamespace) OperatorConfigName (in_indexer (sy_informer s')) = Inr sample_config \<and>
     fst (cmi_Get (fakeClimanagers sample_parsers OperatorNamespace) OperatorConfigName (sy_clientset s')) \<noteq> Inr sample_config"
proof -
  let ?k = "(cliManager_gvr, OperatorNamespace, OperatorConfigName)"
  obtain s1 where s1: "perform sample_write sample_system = Some s1" "sy_phase s1 = ToList"
    "trk_objects (Tracker (sy_clientset s1)) = fmupd ?k \<lparr>vo_resourceVersion = 2, vo_object = KCliManager sample_config\<rparr> fmempty"
    "version_of cliManager_gvr (Tracker (sy_clientset s1)) = 2" "wt_watchers (fcs_tracker (sy_clientset s1)) = fmempty"
    by (rule sample_written)
  have run: "perform_all [sample_write] sample_system = Some s1" using s1(1) by simp
  have allowed: "list_all step_allowed [sample_write]" by (simp add: sample_write_allowed)
  have ok: "system_ok sample_parsers sample_merge [] (lost_names [sample_write] sample_system) s1"
    by (rule run_ok [OF sample_accepts sample_new _ allowed run]) simp
  then have client: "clientset_ok sample_merge (sy_clientset s1)" using s1(2) by (simp add: system_ok_def crashed_def)
  have get: "fst (cmi_Get (fakeClimanagers sample_parsers OperatorNamespace) OperatorConfigName (sy_clientset s1)) = Inr sample_config"
    unfolding client_get [OF client] by (simp add: tracked_def s1(3))
  note list = start_list [OF sample_accepts ok s1(2)]
  let ?s = "reflectorList s1"
  let ?t = "(fcs_tracker (sy_clientset s1))\<lparr>wt_tracker := (Tracker (sy_clientset s1))\<lparr>trk_objects := fmempty\<rparr>\<rparr>"
  let ?s2 = "?s\<lparr>sy_clientset := set_tracker ?t (sy_clientset ?s)\<rparr>"
  have "fmdrop k (fmupd k x fmempty) = fmempty" for k :: "gvr \<times> string \<times> string" and x :: versioned_object
    by (rule fmap_ext) simp
  then have "run_op (OpDelete cliManager_gvr OperatorNamespace OperatorConfigName) (fcs_tracker (sy_clientset s1)) = (None, ?t)"
    using s1(3,5) by (simp add: watchedDelete_def getWatches_def watchers_at_def trackerDelete_def Tracker_def)
  then have "perform (DoWrite (OpDelete cliManager_gvr OperatorNamespace OperatorConfigName)) ?s = Some ?s2"
    using list by (simp add: crashed_def panicked_def del: run_op.simps)
  then have del: "perform_all [DoList, DoWrite (OpDelete cliManager_gvr OperatorNamespace OperatorConfigName)] s1 = Some ?s2"
    using s1(2) by (simp del: perform.simps(1))
  have "version_of cliManager_gvr (Tracker (sy_clientset ?s2)) < 2 ^ 63"
    using s1(4) by (simp add: set_tracker_def Tracker_def version_of_def)
  moreover have "length (objects_of cliManager_gvr (Tracker (sy_clientset ?s2))) \<le> DefaultChanSize"
    by (simp add: set_tracker_def Tracker_def objects_of_def sorted_list_of_fset.rep_eq)
  ultimately obtain s' where "informer_reaches ?s2 s'" "drained s'"
    "listerGet (listerCliManagers NewCliManagerLister OperatorNamespace) OperatorConfigName (in_indexer (sy_informer s')) = Inr sample_config"
    "\<forall>cm'. fst (cmi_Get (fakeClimanagers sample_parsers OperatorNamespace) OperatorConfigName (sy_clientset s')) \<noteq> Inr cm'"
    using deletion_before_watch_lost [OF sample_accepts sample_new _ allowed run s1(2) get _ del] by auto
  moreover have "perform_all [sample_write, DoList, DoWrite (OpDelete cliManager_gvr OperatorNamespace OperatorConfigName)] sample_system = Some ?s2"
    using s1(1) del by simp
  ultimately show ?thesis by blast
qed

theorem handlers_follow_cache_witness:
  "\<exists>ys s. perform_all (sample_write # ys) sample_system = Some s \<and> drained s \<and>
     fold (note_effect MetaNamespaceKeyFunc) (sy_notes s) fmempty = st_items (in_indexer (sy_informer s))"
proof -
  obtain ys s where r: "list_all step_allowed (sample_write # ys)" "perform_all (sample_write # ys) sample_system = Some s" "drained s"
    "\<not> crashed s"
    by (rule sample_run_informer)
  then show ?thesis using handlers_follow_cache [OF sample_accepts sample_new _ r(1,2,4)] by auto
qed

end
