(* ===== verification/Redundant_Writes.thy ===== *)
theory Redundant_Writes
  imports Sample_Cluster
begin

text \<open>
  Calls that write although nothing has to change: \<open>ApplyOperatorStatus\<close>, which compares the stored
  configuration before it fills in transition times, and \<open>applyRoute\<close>, which compares a spec that the
  server has completed.
\<close>

section \<open>Applying a status again\<close>

lemma FindApplyCondition_stamped:
  assumes "c \<in> set cs" and "distinct (map oca_type cs)"
  shows "FindApplyCondition (SetApplyConditionsLastTransitionTime t0 cs old) (oca_type c) = Some (set_transition_time t0 old c)"
  using assms
proof (induction cs)
  case (Cons d cs)
  then show ?case
    by (cases "c = d") (auto simp: SetApplyConditionsLastTransitionTime_def set_transition_time_frame)
qed simp

lemma set_transition_time_eq:
  "set_transition_time t0 old c = c\<lparr>oca_lastTransitionTime := oca_lastTransitionTime (set_transition_time t0 old c)\<rparr>"
  by (auto simp: set_transition_time_def Let_def split: option.splits)

lemma stamping_settles:
  assumes "distinct (map oca_type cs)"
  shows "SetApplyConditionsLastTransitionTime now cs (SetApplyConditionsLastTransitionTime t0 cs old) =
    SetApplyConditionsLastTransitionTime t0 cs old"
proof -
  have "set_transition_time now (SetApplyConditionsLastTransitionTime t0 cs old) c = set_transition_time t0 old c"
    if "c \<in> set cs" for c
  proof -
    obtain time where time: "oca_lastTransitionTime (set_transition_time t0 old c) = Some time"
      using set_transition_time_set [of t0 old c] by auto
    have "set_transition_time now (SetApplyConditionsLastTransitionTime t0 cs old) c = c\<lparr>oca_lastTransitionTime := Some time\<rparr>"
      by (simp add: set_transition_time_def [of now] FindApplyCondition_stamped [OF that assms] Let_def
          set_transition_time_frame time)
    then show ?thesis using set_transition_time_eq [of t0 old c] time by simp
  qed
  then show ?thesis by (simp add: SetApplyConditionsLastTransitionTime_def)
qed

definition desired_status :: "operator_status_ac \<Rightarrow> cli_manager_ac" where
  "desired_status dc = WithStatus (Some \<lparr>cmsta_operatorStatus = dc\<rparr>) (CliManagerAC OperatorConfigName OperatorNamespace)"

definition stamped_status :: "int \<Rightarrow> operator_condition_ac list \<Rightarrow> operator_status_ac \<Rightarrow> cli_manager_ac" where
  "stamped_status t0 old dc =
     set_status_conditions (SetApplyConditionsLastTransitionTime t0 (osta_conditions dc) old) (desired_status dc)"

lemma desired_conditions [simp]: "status_conditions (desired_status dc) = osta_conditions dc"
  by (simp add: desired_status_def status_conditions_def WithStatus_def)

lemma stamped_conditions [simp]:
  "status_conditions (stamped_status t0 old dc) = SetApplyConditionsLastTransitionTime t0 (osta_conditions dc) old"
  by (simp add: stamped_status_def desired_status_def status_conditions_def set_status_conditions_def WithStatus_def)

text \<open>C37: applying a status is never a no-op while a condition comes without a transition time, because the
  comparison with the stored configuration is made before the times are filled in: even when exactly
  what would be sent is stored, it is sent again, at every call.\<close>

theorem ApplyOperatorStatus_resends:
  assumes "call (ca_get c OperatorNamespace OperatorConfigName) s = (Inr inst, s1)"
    and "ExtractCliManagerStatus extractInto inst fieldManager = Inr (stamped_status t0 old dc)"
    and "distinct (map oca_type (osta_conditions dc))"
    and "cnd \<in> set (osta_conditions dc)" and "oca_lastTransitionTime cnd = None"
  shows "ApplyOperatorStatus extractInto now c fieldManager (Some dc) s =
    (case call (ca_applyStatus c OperatorNamespace (stamped_status t0 old dc) True fieldManager) s1 of
       (Inl err, s2) \<Rightarrow> (Some (apply_error ''ApplyStatus'' fieldManager err), s2)
     | (Inr _, s2) \<Rightarrow> (None, s2))"
proof -
  have "\<forall>d\<in>set (status_conditions (stamped_status t0 old dc)). oca_lastTransitionTime d \<noteq> None"
    by (auto simp: SetApplyConditionsLastTransitionTime_def set_transition_time_set simp del: not_None_eq)
  with assms(4,5) have "stamped_status t0 old dc \<noteq> desired_status dc" by (metis desired_conditions)
  moreover have "set_status_conditions (SetApplyConditionsLastTransitionTime now (osta_conditions dc)
      (SetApplyConditionsLastTransitionTime t0 (osta_conditions dc) old)) (desired_status dc) = stamped_status t0 old dc"
    by (simp add: stamped_status_def stamping_settles [OF assms(3)])
  ultimately show ?thesis
    by (simp add: ApplyOperatorStatus_def assms(1,2) desired_status_def [symmetric] Let_def)
qed

definition sample_condition :: operator_condition_ac where
  "sample_condition = \<lparr>oca_type = Some ''Available'', oca_status = Some ''True'', oca_lastTransitionTime = None,
     oca_reason = None, oca_message = None\<rparr>"

definition sample_status :: operator_status_ac where
  "sample_status = \<lparr>osta_observedGeneration = None, osta_conditions = [sample_condition], osta_version = None,
     osta_readyReplicas = None, osta_latestAvailableRevision = None, osta_generations = []\<rparr>"

theorem ApplyOperatorStatus_resends_witness:
  "\<exists>t0. ApplyOperatorStatus (\<lambda>_ _ _. Inr (stamped_status t0 [] sample_status)) 9
       (fake_climanagers (\<lambda>cm _. Inr cm) (\<lambda>_ _ cm. Inr cm)) ''operator'' (Some sample_status) sample_start =
     (case call (ca_applyStatus (fake_climanagers (\<lambda>cm _. Inr cm) (\<lambda>_ _ cm. Inr cm)) OperatorNamespace
         (stamped_status t0 [] sample_status) True ''operator'') sample_start of
        (Inl err, s2) \<Rightarrow> (Some (apply_error ''ApplyStatus'' ''operator'' err), s2)
      | (Inr _, s2) \<Rightarrow> (None, s2))"
proof -
  note read = call_config [OF sample_configured, of "\<lambda>cm _. Inr cm" "\<lambda>_ _ cm. Inr cm"]
  have meta: "om_name (cm_meta sample_config) = OperatorConfigName" "om_namespace (cm_meta sample_config) = OperatorNamespace"
    by (simp_all add: sample_config_def)
  have "ExtractCliManagerStatus (\<lambda>_ _ _. Inr (stamped_status 5 [] sample_status)) sample_config ''operator'' =
      Inr (stamped_status 5 [] sample_status)"
    by (simp add: ExtractCliManagerStatus_def ExtractCliManagerFrom_def meta stamped_status_def desired_status_def
        set_status_conditions_def WithStatus_def CliManagerAC_def WithAPIVersion_def WithKind_def WithNamespace_def
        WithName_def update_meta_ac_def ensureObjectMetaApplyConfigurationExists_def empty_cli_manager_ac_def Let_def)
  from ApplyOperatorStatus_resends [OF read this, of sample_condition 9] show ?thesis
    by (intro exI [of _ 5]) (simp add: sample_status_def sample_condition_def)
qed

section \<open>The host of the route\<close>

text \<open>C38: the manifest names no host, so as soon as the server has assigned one to the route, every run of
  \<open>manageRoute\<close> sends an update that clears it and reports a change, however little changed before.\<close>

theorem assigned_host_is_overwritten:
  assumes "call (rc_get (rec_routes c) (om_namespace (cm_meta cm)) ''openshift-cli-manager'') s = (Inr existing, s1)"
    and "rs_host (route_spec existing) \<noteq> []"
  shows "\<exists>sent r s2. call (rc_update (rec_routes c) (om_namespace (cm_meta cm)) sent) s1 = (r, s2) \<and>
    manageRoute c cm s = (apply_write r, s2) \<and> rs_host (route_spec sent) = [] \<and>
    route_spec sent = route_spec (desired_route (rec_insecureHTTP c) cm)"
proof -
  have key: "om_namespace (route_meta (desired_route b cm)) = om_namespace (cm_meta cm)"
    "om_name (route_meta (desired_route b cm)) = ''openshift-cli-manager''"
    "rs_host (route_spec (desired_route b cm)) = []" for b
    by (simp_all add: desired_route_def namespaced_operand_meta_def route_yaml_def manifest_meta_def)
  then have "route_spec existing \<noteq> route_spec (desired_route (rec_insecureHTTP c) cm)" using assms(2) by metis
  moreover define sent where "sent = existing\<lparr>route_meta := snd (EnsureObjectMeta False (route_meta existing)
      (route_meta (desired_route (rec_insecureHTTP c) cm))),
    route_spec := route_spec (desired_route (rec_insecureHTTP c) cm)\<rparr>"
  moreover obtain r s2 where "call (rc_update (rec_routes c) (om_namespace (cm_meta cm)) sent) s1 = (r, s2)"
    by (cases "call (rc_update (rec_routes c) (om_namespace (cm_meta cm)) sent) s1")
  ultimately show ?thesis
    by (intro exI [of _ sent] exI [of _ r] exI [of _ s2])
      (simp add: manageRoute_eq applyRoute_def key assms(1) Let_def case_prod_beta)
qed

definition hosted_route :: route where
  "hosted_route = (desired_route False sample_config)\<lparr>route_spec :=
     (route_spec (desired_route False sample_config))\<lparr>rs_host := ''cli.apps.example''\<rparr>\<rparr>"

text \<open>A server that holds this route and keeps its host.\<close>

definition hosting_reconciler :: "tracker reconciler" where
  "hosting_reconciler = sample_reconciler\<lparr>rec_routes :=
     \<lparr>rc_get = (\<lambda>_ _ w. (Inr hosted_route, w)), rc_create = (\<lambda>_ ob w. (Inr ob, w)), rc_update = (\<lambda>_ ob w. (Inr hosted_route, w))\<rparr>\<rparr>"

theorem assigned_host_is_overwritten_witness:
  "manageRoute hosting_reconciler sample_config sample_start = (apply_write (Inr hosted_route), sample_start)"
proof -
  have read: "call (rc_get (rec_routes hosting_reconciler) (om_namespace (cm_meta sample_config)) ''openshift-cli-manager'')
      sample_start = (Inr hosted_route, sample_start)"
    by (simp add: hosting_reconciler_def call_def)
  have "rs_host (route_spec hosted_route) \<noteq> []" by (simp add: hosted_route_def)
  from assigned_host_is_overwritten [OF read this] show ?thesis
    by (auto simp: hosting_reconciler_def call_def)
qed

end
