(* ===== verification/Deep_Copy.thy ===== *)
theory Deep_Copy
  imports Kube_Objects
begin

text \<open>
  The generated copy functions of the API types (\<^verbatim>\<open>pkg/apis/climanager/v1/zz_generated.deepcopy.go\<close>)
  with those of the embedded types, over an explicit heap, where sharing can be seen. The rest of
  the development treats API objects as values; the theorems here say that a copy may be treated so:
  it has the value of the original and shares nothing with it.

  The heap is the list of its cells. A pointer, map or slice is \<open>None\<close> (nil) or the index of a
  cell; a slice is its whole array. The code allocates a struct or array before it fills it; here the
  cell is added once it is complete.
\<close>

section \<open>Objects in a heap\<close>

type_synonym addr = nat

text \<open>The records keep the fields without pointers in tuples.\<close>

record h_owner =
  ho_fields :: "string \<times> string \<times> string \<times> string"
  ho_controller :: "addr option"
  ho_blockOwnerDeletion :: "addr option"

record h_entry =
  he_fields :: "string \<times> string \<times> string \<times> string \<times> string"
  he_time :: "addr option"
  he_fieldsV1 :: "addr option"

record h_meta =
  hm_names :: "string \<times> string \<times> string \<times> string \<times> string \<times> string"
  hm_generation :: int
  hm_creationTimestamp :: int
  hm_deletionTimestamp :: "addr option"
  hm_deletionGracePeriodSeconds :: "addr option"
  hm_labels :: "addr option"
  hm_annotations :: "addr option"
  hm_ownerReferences :: "addr option"
  hm_finalizers :: "addr option"
  hm_managedFields :: "addr option"

record h_raw =
  hr_raw :: "addr option"
  hr_object :: "addr option"

record h_operator_spec =
  hs_states :: "string \<times> string \<times> string"
  hs_unsupportedConfigOverrides :: h_raw
  hs_observedConfig :: h_raw

record h_operator_status =
  ht_fields :: "int \<times> string \<times> int \<times> int"
  ht_conditions :: "addr option"
  ht_generations :: "addr option"

record h_cli_manager =
  hc_type :: "string \<times> string"
  hc_meta :: h_meta
  hc_spec :: h_operator_spec
  hc_status :: h_operator_status

record h_list_meta =
  hl_names :: "string \<times> string \<times> string"
  hl_remainingItemCount :: "addr option"
  hl_shardInfo :: "addr option"

record h_cli_manager_list =
  hcl_type :: "string \<times> string"
  hcl_meta :: h_list_meta
  hcl_items :: "addr option"

text \<open>An object embedded in a raw extension is one cell.\<close>

datatype cell =
    CTime int | CInt int | CBool bool | CMap gomap | CStrings "string list" | CBytes string | CShard string
  | CObject string | CConditions "operator_condition list" | CGenerations "generation_status list"
  | CFieldsV1 "addr option" | COwners "h_owner list" | CEntries "h_entry list"
  | CSpec h_operator_spec | CStatus h_operator_status
  | CCliManager h_cli_manager | CItems "h_cli_manager list" | CCliManagerList h_cli_manager_list

type_synonym heap = "cell list"

definition deref :: "heap \<Rightarrow> addr \<Rightarrow> cell option" where
  "deref h a = (if a < length h then Some (h ! a) else None)"

text \<open>A view gives the value of an object in a heap and the cells it is made of, unless a pointer dangles
  or has the wrong type. A copier gives the copy.\<close>

type_synonym ('a, 'v) view = "heap \<Rightarrow> 'a \<Rightarrow> ('v \<times> addr set) option"

type_synonym 'a copier = "'a \<Rightarrow> heap \<Rightarrow> 'a \<times> heap"

lemma deref_prefix: "prefix h h' \<Longrightarrow> a < length h \<Longrightarrow> deref h' a = deref h a"
  by (auto simp: deref_def prefix_def nth_append)

lemma deref_new [simp]: "deref (h @ [c]) (length h) = Some c"
  by (simp add: deref_def)

lemma deref_less: "deref h a = Some c \<Longrightarrow> a < length h"
  by (simp add: deref_def split: if_splits)

section \<open>The contract of a deep copy\<close>

locale deep_copy =
  fixes view :: "('a, 'v) view" and copy :: "'a copier"
  assumes frame: "view h x = Some (v, A) \<Longrightarrow> (\<And>a. a \<in> A \<Longrightarrow> deref h' a = deref h a) \<Longrightarrow> view h' x = Some (v, A)"
    and allocated: "view h x = Some (v, A) \<Longrightarrow> A \<subseteq> {..<length h}"
    and copies: "view h x = Some (v, A) \<Longrightarrow> copy x h = (y, h') \<Longrightarrow>
      prefix h h' \<and> (\<exists>B. view h' y = Some (v, B) \<and> B \<subseteq> {length h..<length h'})"
begin

lemma kept: "view h x = Some (v, A) \<Longrightarrow> prefix h h' \<Longrightarrow> view h' x = Some (v, A)"
  using frame allocated deref_prefix by (metis lessThan_iff subsetD)

text \<open>The copy has the value, shares no cell, and neither side sees a write to the other.\<close>

lemma independent:
  assumes "view h x = Some (v, A)" and "copy x h = (y, h')"
  shows "\<exists>B. view h' y = Some (v, B) \<and> A \<inter> B = {} \<and> view h' x = Some (v, A) \<and>
    (\<forall>h''. (\<forall>a. a \<notin> B \<longrightarrow> deref h'' a = deref h' a) \<longrightarrow> view h'' x = Some (v, A)) \<and>
    (\<forall>h''. (\<forall>a. a \<notin> A \<longrightarrow> deref h'' a = deref h' a) \<longrightarrow> view h'' y = Some (v, B))"
proof -
  from copies [OF assms] obtain B where B: "view h' y = Some (v, B)" "B \<subseteq> {length h..<length h'}" "prefix h h'" by blast
  have old: "view h' x = Some (v, A)" using kept [OF assms(1) B(3)] .
  have disj: "A \<inter> B = {}" using allocated [OF assms(1)] B(2) by fastforce
  have "\<forall>h''. (\<forall>a. a \<notin> B \<longrightarrow> deref h'' a = deref h' a) \<longrightarrow> view h'' x = Some (v, A)"
    using frame [OF old] disj by blast
  moreover have "\<forall>h''. (\<forall>a. a \<notin> A \<longrightarrow> deref h'' a = deref h' a) \<longrightarrow> view h'' y = Some (v, B)"
    using frame [OF B(1)] disj by blast
  ultimately show ?thesis using B(1) old disj by blast
qed

end

section \<open>Pointers, structs and slices\<close>

text \<open>A pointer to a value without pointers, such as \<^verbatim>\<open>*int64\<close>, a map or a slice of strings: the new cell has
  the same content.\<close>

definition view_leaf :: "(addr option, cell option) view" where
  "view_leaf h p =
     (case p of None \<Rightarrow> Some (None, {}) | Some a \<Rightarrow> map_option (\<lambda>c. (Some c, {a})) (deref h a))"

definition copy_leaf :: "addr option copier" where
  "copy_leaf p h =
     (case Option.bind p (deref h) of None \<Rightarrow> (None, h) | Some c \<Rightarrow> (Some (length h), h @ [c]))"

definition view_pair :: "('a, 'v) view \<Rightarrow> ('b, 'u) view \<Rightarrow> ('a \<times> 'b, 'v \<times> 'u) view" where
  "view_pair v1 v2 h p =
     Option.bind (v1 h (fst p)) (\<lambda>(v, A). map_option (\<lambda>(u, B). ((v, u), A \<union> B)) (v2 h (snd p)))"

definition copy_pair :: "'a copier \<Rightarrow> 'b copier \<Rightarrow> ('a \<times> 'b) copier" where
  "copy_pair c1 c2 p h = (let (x, h1) = c1 (fst p) h; (y, h2) = c2 (snd p) h1 in ((x, y), h2))"

fun view_elements :: "('a, 'v) view \<Rightarrow> ('a list, 'v list) view" where
  "view_elements v h [] = Some ([], {})"
| "view_elements v h (x # xs) =
     Option.bind (v h x) (\<lambda>(u, A). map_option (\<lambda>(us, B). (u # us, A \<union> B)) (view_elements v h xs))"

fun copy_elements :: "'a copier \<Rightarrow> 'a list copier" where
  "copy_elements c [] h = ([], h)"
| "copy_elements c (x # xs) h = (let (y, h1) = c x h; (ys, h2) = copy_elements c xs h1 in (y # ys, h2))"

text \<open>A pointer to a cell with pointers of its own: \<open>un\<close> reads the cell's content, \<open>wrap\<close> makes the new cell.\<close>

definition view_ref :: "(cell \<Rightarrow> 'a option) \<Rightarrow> ('a, 'v) view \<Rightarrow> (addr option, 'v option) view" where
  "view_ref un v h p =
     (case p of
        None \<Rightarrow> Some (None, {})
      | Some a \<Rightarrow> Option.bind (Option.bind (deref h a) un) (\<lambda>x. map_option (\<lambda>(u, A). (Some u, insert a A)) (v h x)))"

definition copy_ref :: "(cell \<Rightarrow> 'a option) \<Rightarrow> ('a \<Rightarrow> cell) \<Rightarrow> 'a copier \<Rightarrow> addr option copier" where
  "copy_ref un wrap c p h =
     (case Option.bind p (\<lambda>a. Option.bind (deref h a) un) of
        None \<Rightarrow> (None, h)
      | Some x \<Rightarrow> (let (y, h1) = c x h in (Some (length h1), h1 @ [wrap y])))"

interpretation leaf: deep_copy view_leaf copy_leaf
proof
  fix h h' :: heap and x y v A
  show "view_leaf h x = Some (v, A) \<Longrightarrow> (\<And>a. a \<in> A \<Longrightarrow> deref h' a = deref h a) \<Longrightarrow> view_leaf h' x = Some (v, A)"
    by (auto simp: view_leaf_def split: option.splits)
  show "view_leaf h x = Some (v, A) \<Longrightarrow> A \<subseteq> {..<length h}"
    by (auto simp: view_leaf_def dest: deref_less split: option.splits)
  show "view_leaf h x = Some (v, A) \<Longrightarrow> copy_leaf x h = (y, h') \<Longrightarrow>
      prefix h h' \<and> (\<exists>B. view_leaf h' y = Some (v, B) \<and> B \<subseteq> {length h..<length h'})"
    by (auto simp: view_leaf_def copy_leaf_def split: option.splits)
qed

lemma deep_copy_pair:
  assumes "deep_copy v1 c1" and "deep_copy v2 c2"
  shows "deep_copy (view_pair v1 v2) (copy_pair c1 c2)"
proof
  fix h h' x v A y
  show "view_pair v1 v2 h' x = Some (v, A)"
    if "view_pair v1 v2 h x = Some (v, A)" "\<And>a. a \<in> A \<Longrightarrow> deref h' a = deref h a"
  proof -
    from that(1) obtain u w B C where
      parts: "v1 h (fst x) = Some (u, B)" "v2 h (snd x) = Some (w, C)" "v = (u, w)" "A = B \<union> C"
      by (auto simp: view_pair_def bind_eq_Some_conv)
    from deep_copy.frame [OF assms(1) parts(1)] deep_copy.frame [OF assms(2) parts(2)] that(2)
    show ?thesis by (simp add: view_pair_def parts(3,4))
  qed
  show "A \<subseteq> {..<length h}" if "view_pair v1 v2 h x = Some (v, A)"
    using that deep_copy.allocated [OF assms(1)] deep_copy.allocated [OF assms(2)]
    by (fastforce simp: view_pair_def bind_eq_Some_conv)
  show "prefix h h' \<and> (\<exists>B. view_pair v1 v2 h' y = Some (v, B) \<and> B \<subseteq> {length h..<length h'})"
    if "view_pair v1 v2 h x = Some (v, A)" "copy_pair c1 c2 x h = (y, h')"
  proof -
    from that(1) obtain u w B C where
      parts: "v1 h (fst x) = Some (u, B)" "v2 h (snd x) = Some (w, C)" "v = (u, w)"
      by (auto simp: view_pair_def bind_eq_Some_conv)
    from that(2) obtain y1 h1 y2 where c: "c1 (fst x) h = (y1, h1)" "c2 (snd x) h1 = (y2, h')" "y = (y1, y2)"
      by (auto simp: copy_pair_def split: prod.splits)
    from deep_copy.copies [OF assms(1) parts(1) c(1)] obtain B' where
      one: "prefix h h1" "v1 h1 y1 = Some (u, B')" "B' \<subseteq> {length h..<length h1}" by blast
    from deep_copy.copies [OF assms(2) deep_copy.kept [OF assms(2) parts(2) one(1)] c(2)] obtain C' where
      two: "prefix h1 h'" "v2 h' y2 = Some (w, C')" "C' \<subseteq> {length h1..<length h'}" by blast
    have "v1 h' y1 = Some (u, B')" by (rule deep_copy.kept [OF assms(1) one(2) two(1)])
    moreover have "B' \<union> C' \<subseteq> {length h..<length h'}"
      using one(1,3) two(1,3) prefix_length_le [OF one(1)] prefix_length_le [OF two(1)] by fastforce
    ultimately show ?thesis
      using one(1) two(1,2) by (auto simp: view_pair_def c(3) parts(3) dest: prefix_order.trans)
  qed
qed

lemma deep_copy_elements:
  assumes d: "deep_copy v c"
  shows "deep_copy (view_elements v) (copy_elements c)"
proof
  fix h h' :: heap and xs us A ys
  show "view_elements v h' xs = Some (us, A)"
    if "view_elements v h xs = Some (us, A)" "\<And>a. a \<in> A \<Longrightarrow> deref h' a = deref h a"
    using that
  proof (induction xs arbitrary: us A)
    case (Cons x xs)
    then obtain w B ws C where parts: "v h x = Some (w, B)" "view_elements v h xs = Some (ws, C)" "us = w # ws" "A = B \<union> C"
      by (auto simp: bind_eq_Some_conv)
    with Cons deep_copy.frame [OF d parts(1)] show ?case by simp
  qed simp
  show "A \<subseteq> {..<length h}" if "view_elements v h xs = Some (us, A)"
    using that
  proof (induction xs arbitrary: us A)
    case (Cons x xs)
    then obtain w B ws C where parts: "v h x = Some (w, B)" "view_elements v h xs = Some (ws, C)" "A = B \<union> C"
      by (auto simp: bind_eq_Some_conv)
    with Cons.IH deep_copy.allocated [OF d parts(1)] show ?case by simp
  qed simp
  show "prefix h h' \<and> (\<exists>B. view_elements v h' ys = Some (us, B) \<and> B \<subseteq> {length h..<length h'})"
    if "view_elements v h xs = Some (us, A)" "copy_elements c xs h = (ys, h')"
    using that
  proof (induction xs arbitrary: h us A ys)
    case (Cons x xs)
    then obtain w B ws C where parts: "v h x = Some (w, B)" "view_elements v h xs = Some (ws, C)" "us = w # ws"
      by (auto simp: bind_eq_Some_conv)
    from Cons.prems(2) obtain y h1 zs where c: "c x h = (y, h1)" "copy_elements c xs h1 = (zs, h')" "ys = y # zs"
      by (auto split: prod.splits)
    from deep_copy.copies [OF d parts(1) c(1)] obtain B' where
      one: "prefix h h1" "v h1 y = Some (w, B')" "B' \<subseteq> {length h..<length h1}" by blast
    have "view_elements v h1 xs = Some (ws, C)"
      using parts(2) one(1)
    proof (induction xs arbitrary: ws C)
      case (Cons z zs)
      then show ?case by (auto simp: bind_eq_Some_conv dest: deep_copy.kept [OF d])
    qed simp
    from Cons.IH [OF this c(2)] obtain C' where
      two: "prefix h1 h'" "view_elements v h' zs = Some (ws, C')" "C' \<subseteq> {length h1..<length h'}" by blast
    have "B' \<union> C' \<subseteq> {length h..<length h'}"
      using one(3) two(3) prefix_length_le [OF one(1)] prefix_length_le [OF two(1)] by fastforce
    with deep_copy.kept [OF d one(2) two(1)] one(1) two(1,2) show ?case
      by (auto simp: c(3) parts(3) dest: prefix_order.trans)
  qed simp
qed

lemma deep_copy_ref:
  assumes d: "deep_copy v c" and un: "\<And>x. un (wrap x) = Some x"
  shows "deep_copy (view_ref un v) (copy_ref un wrap c)"
proof
  fix h h' :: heap and p u A q
  show "view_ref un v h' p = Some (u, A)"
    if "view_ref un v h p = Some (u, A)" "\<And>a. a \<in> A \<Longrightarrow> deref h' a = deref h a"
  proof (cases p)
    case (Some a)
    with that(1) obtain ce x w B where parts: "deref h a = Some ce" "un ce = Some x" "v h x = Some (w, B)" "u = Some w"
      "A = insert a B" by (auto simp: view_ref_def bind_eq_Some_conv)
    have "v h' x = Some (w, B)" by (rule deep_copy.frame [OF d parts(3)]) (simp add: that(2) parts(5))
    with that(2) [of a] parts Some show ?thesis by (simp add: view_ref_def)
  qed (use that in \<open>simp add: view_ref_def\<close>)
  show "A \<subseteq> {..<length h}" if "view_ref un v h p = Some (u, A)"
    using that by (fastforce simp: view_ref_def bind_eq_Some_conv dest: deep_copy.allocated [OF d] deref_less split: option.splits)
  show "prefix h h' \<and> (\<exists>B. view_ref un v h' q = Some (u, B) \<and> B \<subseteq> {length h..<length h'})"
    if view: "view_ref un v h p = Some (u, A)" and copy: "copy_ref un wrap c p h = (q, h')"
  proof (cases p)
    case None
    with view copy show ?thesis by (auto simp: view_ref_def copy_ref_def)
  next
    case (Some a)
    with view obtain ce x w B where parts: "deref h a = Some ce" "un ce = Some x" "v h x = Some (w, B)" "u = Some w"
      by (auto simp: view_ref_def bind_eq_Some_conv)
    with copy Some obtain y h1 where c: "c x h = (y, h1)" "q = Some (length h1)" "h' = h1 @ [wrap y]"
      by (auto simp: copy_ref_def split: prod.splits)
    from deep_copy.copies [OF d parts(3) c(1)] obtain B' where
      one: "prefix h h1" "v h1 y = Some (w, B')" "B' \<subseteq> {length h..<length h1}" by blast
    have "v h' y = Some (w, B')" by (rule deep_copy.kept [OF d one(2)]) (simp add: c(3))
    moreover have "insert (length h1) B' \<subseteq> {length h..<length h'}"
      using one(3) prefix_length_le [OF one(1)] by (auto simp: c(3))
    ultimately show ?thesis
      using one(1) by (auto simp: view_ref_def c(2,3) un parts(4))
  qed
qed

text \<open>A struct: \<open>sub\<close> are its parts with pointers, \<open>put\<close> replaces them, \<open>rest\<close> is what \<^verbatim>\<open>*out = *in\<close> copies.\<close>

definition view_struct :: "('a \<Rightarrow> 'f) \<Rightarrow> ('a \<Rightarrow> 'r) \<Rightarrow> ('f, 'v) view \<Rightarrow> ('a, 'r \<times> 'v) view" where
  "view_struct sub rest v h x = map_option (\<lambda>(u, A). ((rest x, u), A)) (v h (sub x))"

lemma deep_copy_struct:
  assumes d: "deep_copy v c"
    and copy: "\<And>x h. copy x h = (let (f, h') = c (sub x) h in (put f x, h'))"
    and put: "\<And>f x. sub (put f x) = f" "\<And>f x. rest (put f x) = rest x"
  shows "deep_copy (view_struct sub rest v) copy"
proof
  fix h h' :: heap and x u A y
  show "view_struct sub rest v h' x = Some (u, A)"
    if "view_struct sub rest v h x = Some (u, A)" "\<And>a. a \<in> A \<Longrightarrow> deref h' a = deref h a"
  proof -
    from that(1) obtain w where w: "v h (sub x) = Some (w, A)" "u = (rest x, w)" by (auto simp: view_struct_def)
    have "v h' (sub x) = Some (w, A)" by (rule deep_copy.frame [OF d w(1) that(2)])
    then show ?thesis by (simp add: view_struct_def w(2))
  qed
  show "A \<subseteq> {..<length h}" if "view_struct sub rest v h x = Some (u, A)"
    using that by (auto simp: view_struct_def dest: deep_copy.allocated [OF d])
  show "prefix h h' \<and> (\<exists>B. view_struct sub rest v h' y = Some (u, B) \<and> B \<subseteq> {length h..<length h'})"
    if "view_struct sub rest v h x = Some (u, A)" "copy x h = (y, h')"
    using that deep_copy.copies [OF d] by (fastforce simp: view_struct_def copy put split: prod.splits)
qed

section \<open>Metadata\<close>

fun un_owners :: "cell \<Rightarrow> h_owner list option" where
  "un_owners (COwners xs) = Some xs" | "un_owners _ = None"
fun un_entries :: "cell \<Rightarrow> h_entry list option" where
  "un_entries (CEntries xs) = Some xs" | "un_entries _ = None"
fun un_fieldsV1 :: "cell \<Rightarrow> addr option option" where
  "un_fieldsV1 (CFieldsV1 p) = Some p" | "un_fieldsV1 _ = None"

definition OwnerReferenceDeepCopyInto :: "h_owner copier" where
  "OwnerReferenceDeepCopyInto x h =
     (let (controller, h1) = copy_leaf (ho_controller x) h;
          (block, h2) = copy_leaf (ho_blockOwnerDeletion x) h1 in
      (x\<lparr>ho_controller := controller, ho_blockOwnerDeletion := block\<rparr>, h2))"

definition view_owner where
  "view_owner = view_struct (\<lambda>x. (ho_controller x, ho_blockOwnerDeletion x)) ho_fields (view_pair view_leaf view_leaf)"

text \<open>\<open>FieldsV1\<close> is a struct of one slice of bytes.\<close>

definition FieldsV1DeepCopy :: "addr option copier" where
  "FieldsV1DeepCopy = copy_ref un_fieldsV1 CFieldsV1 copy_leaf"

definition ManagedFieldsEntryDeepCopyInto :: "h_entry copier" where
  "ManagedFieldsEntryDeepCopyInto x h =
     (let (time, h1) = copy_leaf (he_time x) h;
          (fieldsV1, h2) = FieldsV1DeepCopy (he_fieldsV1 x) h1 in
      (x\<lparr>he_time := time, he_fieldsV1 := fieldsV1\<rparr>, h2))"

definition view_entry where
  "view_entry = view_struct (\<lambda>x. (he_time x, he_fieldsV1 x)) he_fields
     (view_pair view_leaf (view_ref un_fieldsV1 view_leaf))"

definition ObjectMetaDeepCopyInto :: "h_meta copier" where
  "ObjectMetaDeepCopyInto x h =
     (let (deletion, h1) = copy_leaf (hm_deletionTimestamp x) h;
          (grace, h2) = copy_leaf (hm_deletionGracePeriodSeconds x) h1;
          (labels, h3) = copy_leaf (hm_labels x) h2;
          (annotations, h4) = copy_leaf (hm_annotations x) h3;
          (owners, h5) = copy_ref un_owners COwners (copy_elements OwnerReferenceDeepCopyInto) (hm_ownerReferences x) h4;
          (finalizers, h6) = copy_leaf (hm_finalizers x) h5;
          (managed, h7) = copy_ref un_entries CEntries (copy_elements ManagedFieldsEntryDeepCopyInto) (hm_managedFields x) h6 in
      (x\<lparr>hm_deletionTimestamp := deletion, hm_deletionGracePeriodSeconds := grace, hm_labels := labels,
         hm_annotations := annotations, hm_ownerReferences := owners, hm_finalizers := finalizers,
         hm_managedFields := managed\<rparr>, h7))"

definition view_meta where
  "view_meta = view_struct
     (\<lambda>x. (hm_deletionTimestamp x, hm_deletionGracePeriodSeconds x, hm_labels x, hm_annotations x,
        hm_ownerReferences x, hm_finalizers x, hm_managedFields x))
     (\<lambda>x. (hm_names x, hm_generation x, hm_creationTimestamp x))
     (view_pair view_leaf (view_pair view_leaf (view_pair view_leaf (view_pair view_leaf
       (view_pair (view_ref un_owners (view_elements view_owner))
       (view_pair view_leaf (view_ref un_entries (view_elements view_entry))))))))"

definition ListMetaDeepCopyInto :: "h_list_meta copier" where
  "ListMetaDeepCopyInto x h =
     (let (remaining, h1) = copy_leaf (hl_remainingItemCount x) h;
          (shard, h2) = copy_leaf (hl_shardInfo x) h1 in
      (x\<lparr>hl_remainingItemCount := remaining, hl_shardInfo := shard\<rparr>, h2))"

definition view_list_meta where
  "view_list_meta = view_struct (\<lambda>x. (hl_remainingItemCount x, hl_shardInfo x)) hl_names (view_pair view_leaf view_leaf)"

section \<open>Spec and status\<close>

definition RawExtensionDeepCopyInto :: "h_raw copier" where
  "RawExtensionDeepCopyInto x h =
     (let (raw, h1) = copy_leaf (hr_raw x) h; (object, h2) = copy_leaf (hr_object x) h1 in
      (x\<lparr>hr_raw := raw, hr_object := object\<rparr>, h2))"

definition view_raw where
  "view_raw = view_struct (\<lambda>x. (hr_raw x, hr_object x)) (\<lambda>_. ()) (view_pair view_leaf view_leaf)"

definition OperatorSpecDeepCopyInto :: "h_operator_spec copier" where
  "OperatorSpecDeepCopyInto x h =
     (let (overrides, h1) = RawExtensionDeepCopyInto (hs_unsupportedConfigOverrides x) h;
          (observed, h2) = RawExtensionDeepCopyInto (hs_observedConfig x) h1 in
      (x\<lparr>hs_unsupportedConfigOverrides := overrides, hs_observedConfig := observed\<rparr>, h2))"

definition CliManagerSpecDeepCopyInto :: "h_operator_spec copier" where
  "CliManagerSpecDeepCopyInto x h = OperatorSpecDeepCopyInto x h"

definition view_spec where
  "view_spec = view_struct (\<lambda>x. (hs_unsupportedConfigOverrides x, hs_observedConfig x)) hs_states (view_pair view_raw view_raw)"

definition OperatorStatusDeepCopyInto :: "h_operator_status copier" where
  "OperatorStatusDeepCopyInto x h =
     (let (conditions, h1) = copy_leaf (ht_conditions x) h;
          (generations, h2) = copy_leaf (ht_generations x) h1 in
      (x\<lparr>ht_conditions := conditions, ht_generations := generations\<rparr>, h2))"

definition CliManagerStatusDeepCopyInto :: "h_operator_status copier" where
  "CliManagerStatusDeepCopyInto x h = OperatorStatusDeepCopyInto x h"

definition view_status where
  "view_status = view_struct (\<lambda>x. (ht_conditions x, ht_generations x)) ht_fields (view_pair view_leaf view_leaf)"

section \<open>CliManager and CliManagerList\<close>

fun un_spec :: "cell \<Rightarrow> h_operator_spec option" where
  "un_spec (CSpec x) = Some x" | "un_spec _ = None"
fun un_status :: "cell \<Rightarrow> h_operator_status option" where
  "un_status (CStatus x) = Some x" | "un_status _ = None"
fun un_cli_manager :: "cell \<Rightarrow> h_cli_manager option" where
  "un_cli_manager (CCliManager x) = Some x" | "un_cli_manager _ = None"
fun un_items :: "cell \<Rightarrow> h_cli_manager list option" where
  "un_items (CItems xs) = Some xs" | "un_items _ = None"
fun un_cli_manager_list :: "cell \<Rightarrow> h_cli_manager_list option" where
  "un_cli_manager_list (CCliManagerList x) = Some x" | "un_cli_manager_list _ = None"

definition CliManagerSpecDeepCopy :: "addr option copier" where
  "CliManagerSpecDeepCopy = copy_ref un_spec CSpec CliManagerSpecDeepCopyInto"

definition CliManagerStatusDeepCopy :: "addr option copier" where
  "CliManagerStatusDeepCopy = copy_ref un_status CStatus CliManagerStatusDeepCopyInto"

definition CliManagerDeepCopyInto :: "h_cli_manager copier" where
  "CliManagerDeepCopyInto x h =
     (let (meta, h1) = ObjectMetaDeepCopyInto (hc_meta x) h;
          (spec, h2) = CliManagerSpecDeepCopyInto (hc_spec x) h1;
          (status, h3) = CliManagerStatusDeepCopyInto (hc_status x) h2 in
      (x\<lparr>hc_meta := meta, hc_spec := spec, hc_status := status\<rparr>, h3))"

definition CliManagerDeepCopy :: "addr option copier" where
  "CliManagerDeepCopy = copy_ref un_cli_manager CCliManager CliManagerDeepCopyInto"

definition CliManagerDeepCopyObject :: "addr option \<Rightarrow> heap \<Rightarrow> addr iface \<times> heap" where
  "CliManagerDeepCopyObject p h =
     (case CliManagerDeepCopy p h of
        (Some a, h') \<Rightarrow> (Holding (Some a), h')
      | (None, h') \<Rightarrow> (NilInterface, h'))"

definition view_cli_manager where
  "view_cli_manager = view_struct (\<lambda>x. (hc_meta x, hc_spec x, hc_status x)) hc_type
     (view_pair view_meta (view_pair view_spec view_status))"

definition CliManagerListDeepCopyInto :: "h_cli_manager_list copier" where
  "CliManagerListDeepCopyInto x h =
     (let (meta, h1) = ListMetaDeepCopyInto (hcl_meta x) h;
          (items, h2) = copy_ref un_items CItems (copy_elements CliManagerDeepCopyInto) (hcl_items x) h1 in
      (x\<lparr>hcl_meta := meta, hcl_items := items\<rparr>, h2))"

definition CliManagerListDeepCopy :: "addr option copier" where
  "CliManagerListDeepCopy = copy_ref un_cli_manager_list CCliManagerList CliManagerListDeepCopyInto"

definition CliManagerListDeepCopyObject :: "addr option \<Rightarrow> heap \<Rightarrow> addr iface \<times> heap" where
  "CliManagerListDeepCopyObject p h =
     (case CliManagerListDeepCopy p h of
        (Some a, h') \<Rightarrow> (Holding (Some a), h')
      | (None, h') \<Rightarrow> (NilInterface, h'))"

definition view_cli_manager_list where
  "view_cli_manager_list = view_struct (\<lambda>x. (hcl_meta x, hcl_items x)) hcl_type
     (view_pair view_list_meta (view_ref un_items (view_elements view_cli_manager)))"

section \<open>The copy functions keep the contract\<close>

lemmas copy_structs = copy_pair_def Let_def case_prod_beta

interpretation owner: deep_copy view_owner OwnerReferenceDeepCopyInto
  unfolding view_owner_def
  by (rule deep_copy_struct [OF deep_copy_pair [OF leaf.deep_copy_axioms leaf.deep_copy_axioms],
      where put = "\<lambda>(c, b) x. x\<lparr>ho_controller := c, ho_blockOwnerDeletion := b\<rparr>"])
    (auto simp: OwnerReferenceDeepCopyInto_def copy_structs)

lemmas leaf_axioms = leaf.deep_copy_axioms

lemmas owners_axioms = deep_copy_ref [OF deep_copy_elements [OF owner.deep_copy_axioms], of un_owners COwners]

lemmas fieldsV1_axioms = deep_copy_ref [OF leaf_axioms, of un_fieldsV1 CFieldsV1]

interpretation entry: deep_copy view_entry ManagedFieldsEntryDeepCopyInto
  unfolding view_entry_def
  by (rule deep_copy_struct [OF deep_copy_pair [OF leaf_axioms fieldsV1_axioms],
      where put = "\<lambda>(t, f) x. x\<lparr>he_time := t, he_fieldsV1 := f\<rparr>"])
    (auto simp: ManagedFieldsEntryDeepCopyInto_def FieldsV1DeepCopy_def copy_structs)

lemmas entries_axioms = deep_copy_ref [OF deep_copy_elements [OF entry.deep_copy_axioms], of un_entries CEntries]

lemmas meta_pairs = deep_copy_pair [OF leaf_axioms deep_copy_pair [OF leaf_axioms deep_copy_pair [OF leaf_axioms
  deep_copy_pair [OF leaf_axioms deep_copy_pair [OF owners_axioms deep_copy_pair [OF leaf_axioms entries_axioms]]]]]]

interpretation metadata: deep_copy view_meta ObjectMetaDeepCopyInto
  unfolding view_meta_def
  by (rule deep_copy_struct [OF meta_pairs, where put = "\<lambda>(d, g, l, a, ow, f, m) x.
      x\<lparr>hm_deletionTimestamp := d, hm_deletionGracePeriodSeconds := g, hm_labels := l, hm_annotations := a,
        hm_ownerReferences := ow, hm_finalizers := f, hm_managedFields := m\<rparr>"])
    (auto simp: ObjectMetaDeepCopyInto_def copy_structs)

interpretation list_metadata: deep_copy view_list_meta ListMetaDeepCopyInto
  unfolding view_list_meta_def
  by (rule deep_copy_struct [OF deep_copy_pair [OF leaf_axioms leaf_axioms],
      where put = "\<lambda>(r, s) x. x\<lparr>hl_remainingItemCount := r, hl_shardInfo := s\<rparr>"])
    (auto simp: ListMetaDeepCopyInto_def copy_structs)

interpretation raw: deep_copy view_raw RawExtensionDeepCopyInto
  unfolding view_raw_def
  by (rule deep_copy_struct [OF deep_copy_pair [OF leaf_axioms leaf_axioms],
      where put = "\<lambda>(r, ob) x. x\<lparr>hr_raw := r, hr_object := ob\<rparr>"])
    (auto simp: RawExtensionDeepCopyInto_def copy_structs)

interpretation spec: deep_copy view_spec CliManagerSpecDeepCopyInto
  unfolding view_spec_def
  by (rule deep_copy_struct [OF deep_copy_pair [OF raw.deep_copy_axioms raw.deep_copy_axioms],
      where put = "\<lambda>(u, ob) x. x\<lparr>hs_unsupportedConfigOverrides := u, hs_observedConfig := ob\<rparr>"])
    (auto simp: CliManagerSpecDeepCopyInto_def OperatorSpecDeepCopyInto_def copy_structs)

interpretation status: deep_copy view_status CliManagerStatusDeepCopyInto
  unfolding view_status_def
  by (rule deep_copy_struct [OF deep_copy_pair [OF leaf_axioms leaf_axioms],
      where put = "\<lambda>(cs, gs) x. x\<lparr>ht_conditions := cs, ht_generations := gs\<rparr>"])
    (auto simp: CliManagerStatusDeepCopyInto_def OperatorStatusDeepCopyInto_def copy_structs)

interpretation cli_manager: deep_copy view_cli_manager CliManagerDeepCopyInto
  unfolding view_cli_manager_def
  by (rule deep_copy_struct [OF deep_copy_pair [OF metadata.deep_copy_axioms
        deep_copy_pair [OF spec.deep_copy_axioms status.deep_copy_axioms]],
      where put = "\<lambda>(m, sp, st) x. x\<lparr>hc_meta := m, hc_spec := sp, hc_status := st\<rparr>"])
    (auto simp: CliManagerDeepCopyInto_def copy_structs)

lemmas items_axioms = deep_copy_ref [OF deep_copy_elements [OF cli_manager.deep_copy_axioms], of un_items CItems]

interpretation cli_manager_list: deep_copy view_cli_manager_list CliManagerListDeepCopyInto
  unfolding view_cli_manager_list_def
  by (rule deep_copy_struct [OF deep_copy_pair [OF list_metadata.deep_copy_axioms items_axioms],
      where put = "\<lambda>(m, xs) x. x\<lparr>hcl_meta := m, hcl_items := xs\<rparr>"])
    (auto simp: CliManagerListDeepCopyInto_def copy_structs)

interpretation cli_manager_pointer:
  deep_copy "view_ref un_cli_manager view_cli_manager" CliManagerDeepCopy
  unfolding CliManagerDeepCopy_def by (rule deep_copy_ref [OF cli_manager.deep_copy_axioms]) simp

interpretation cli_manager_list_pointer:
  deep_copy "view_ref un_cli_manager_list view_cli_manager_list" CliManagerListDeepCopy
  unfolding CliManagerListDeepCopy_def by (rule deep_copy_ref [OF cli_manager_list.deep_copy_axioms]) simp

interpretation spec_pointer: deep_copy "view_ref un_spec view_spec" CliManagerSpecDeepCopy
  unfolding CliManagerSpecDeepCopy_def by (rule deep_copy_ref [OF spec.deep_copy_axioms]) simp

interpretation status_pointer: deep_copy "view_ref un_status view_status" CliManagerStatusDeepCopy
  unfolding CliManagerStatusDeepCopy_def by (rule deep_copy_ref [OF status.deep_copy_axioms]) simp

abbreviation cli_manager_at :: "heap \<Rightarrow> addr \<Rightarrow> (_ \<times> addr set) option" where
  "cli_manager_at h a \<equiv> view_ref un_cli_manager view_cli_manager h (Some a)"

abbreviation cli_manager_list_at :: "heap \<Rightarrow> addr \<Rightarrow> (_ \<times> addr set) option" where
  "cli_manager_list_at h a \<equiv> view_ref un_cli_manager_list view_cli_manager_list h (Some a)"

lemma at_nothing: "view_ref un v h None = Some (u, B) \<Longrightarrow> u = None"
  by (simp add: view_ref_def)

lemma at_something: "view_ref un v h (Some a) = Some (u, B) \<Longrightarrow> \<exists>w. u = Some w"
  by (auto simp: view_ref_def bind_eq_Some_conv)

text \<open>C36: \<open>DeepCopyObject\<close> of a climanager gives a new object of the same value that shares nothing with it:
  whatever is written to the cells of one, the other keeps its value; of nil it gives the nil interface.\<close>

theorem CliManager_copy_independent:
  assumes "cli_manager_at h a = Some (v, A)"
  shows "CliManagerDeepCopyObject None h = (NilInterface, h) \<and>
    (\<exists>b h' B. CliManagerDeepCopyObject (Some a) h = (Holding (Some b), h') \<and>
      cli_manager_at h' b = Some (v, B) \<and> A \<inter> B = {} \<and>
      (\<forall>h''. (\<forall>x. x \<notin> B \<longrightarrow> deref h'' x = deref h' x) \<longrightarrow> cli_manager_at h'' a = Some (v, A)) \<and>
      (\<forall>h''. (\<forall>x. x \<notin> A \<longrightarrow> deref h'' x = deref h' x) \<longrightarrow> cli_manager_at h'' b = Some (v, B)))"
proof -
  obtain q h' where copy: "CliManagerDeepCopy (Some a) h = (q, h')" by (cases "CliManagerDeepCopy (Some a) h")
  note ind = cli_manager_pointer.independent [OF assms copy]
  then obtain b where "q = Some b" using at_something [OF assms] at_nothing by (cases q) fastforce+
  with copy ind show ?thesis
    by (simp add: CliManagerDeepCopyObject_def CliManagerDeepCopy_def copy_ref_def) blast
qed

text \<open>the same for a list of climanagers, whose items are copied with everything they point to.\<close>

theorem CliManagerList_copy_independent:
  assumes "cli_manager_list_at h a = Some (v, A)"
  shows "CliManagerListDeepCopyObject None h = (NilInterface, h) \<and>
    (\<exists>b h' B. CliManagerListDeepCopyObject (Some a) h = (Holding (Some b), h') \<and>
      cli_manager_list_at h' b = Some (v, B) \<and> A \<inter> B = {} \<and>
      (\<forall>h''. (\<forall>x. x \<notin> B \<longrightarrow> deref h'' x = deref h' x) \<longrightarrow> cli_manager_list_at h'' a = Some (v, A)) \<and>
      (\<forall>h''. (\<forall>x. x \<notin> A \<longrightarrow> deref h'' x = deref h' x) \<longrightarrow> cli_manager_list_at h'' b = Some (v, B)))"
proof -
  obtain q h' where copy: "CliManagerListDeepCopy (Some a) h = (q, h')" by (cases "CliManagerListDeepCopy (Some a) h")
  note ind = cli_manager_list_pointer.independent [OF assms copy]
  then obtain b where "q = Some b" using at_something [OF assms] at_nothing by (cases q) fastforce+
  with copy ind show ?thesis
    by (simp add: CliManagerListDeepCopyObject_def CliManagerListDeepCopy_def copy_ref_def) blast
qed

section \<open>A heap\<close>

text \<open>One climanager with labels, and a list that holds it.\<close>

definition sample_object :: h_cli_manager where
  "sample_object =
     \<lparr>hc_type = (''CliManager'', ''operator.openshift.io/v1''),
      hc_meta = \<lparr>hm_names = (''cluster'', [], ''ns'', [], [], []), hm_generation = 1, hm_creationTimestamp = 0,
        hm_deletionTimestamp = None, hm_deletionGracePeriodSeconds = None, hm_labels = Some 0, hm_annotations = None,
        hm_ownerReferences = None, hm_finalizers = None, hm_managedFields = None\<rparr>,
      hc_spec = \<lparr>hs_states = (''Managed'', [], []),
        hs_unsupportedConfigOverrides = \<lparr>hr_raw = None, hr_object = None\<rparr>,
        hs_observedConfig = \<lparr>hr_raw = None, hr_object = None\<rparr>\<rparr>,
      hc_status = \<lparr>ht_fields = (0, [], 0, 0), ht_conditions = None, ht_generations = None\<rparr>\<rparr>"

definition sample_heap :: heap where
  "sample_heap =
     [CMap (fmupd ''app'' ''cli'' fmempty), CCliManager sample_object, CItems [sample_object],
      CCliManagerList \<lparr>hcl_type = ([], []),
        hcl_meta = \<lparr>hl_names = ([], [], []), hl_remainingItemCount = None, hl_shardInfo = None\<rparr>, hcl_items = Some 2\<rparr>]"

lemmas sample_views = view_ref_def view_struct_def view_pair_def view_leaf_def view_cli_manager_def view_meta_def
  view_spec_def view_raw_def view_status_def view_cli_manager_list_def view_list_meta_def deref_def

theorem CliManager_copy_independent_witness:
  "\<exists>v b h' B. CliManagerDeepCopyObject (Some 1) sample_heap = (Holding (Some b), h') \<and>
     cli_manager_at h' b = Some (v, B) \<and> {0, 1} \<inter> B = {}"
proof -
  obtain v where "cli_manager_at sample_heap 1 = Some (v, {0, 1})"
    by (simp add: sample_views sample_heap_def sample_object_def insert_commute)
  from CliManager_copy_independent [OF this] show ?thesis by blast
qed

theorem CliManagerList_copy_independent_witness:
  "\<exists>v b h' B. CliManagerListDeepCopyObject (Some 3) sample_heap = (Holding (Some b), h') \<and>
     cli_manager_list_at h' b = Some (v, B) \<and> {0, 2, 3} \<inter> B = {}"
proof -
  obtain v where "cli_manager_list_at sample_heap 3 = Some (v, {0, 2, 3})"
    by (simp add: sample_views sample_heap_def sample_object_def insert_commute)
  from CliManagerList_copy_independent [OF this] show ?thesis by blast
qed

end
