(* ===== verification/Log_Level.thy ===== *)
theory Log_Level
  imports Reconciler
begin

text \<open>
  The log level controller that \<^verbatim>\<open>RunOperator\<close> starts beside the reconciler (library-go,
  \<^verbatim>\<open>operator/loglevel\<close>): it sets the verbosity of the operator's own log from the
  configuration object, which it reads through the operator client. The verbosity of klog is a
  number passed along; \<open>quote\<close> is the \<^verbatim>\<open>%q\<close> verb.
\<close>

definition LogLevelToVerbosity :: "log_level \<Rightarrow> nat" where
  "LogLevelToVerbosity l =
     (if l = Normal then 2 else if l = Debug then 4 else if l = Trace then 6 else if l = TraceAll then 8 else 2)"

definition ValidLogLevel :: "log_level \<Rightarrow> bool" where
  "ValidLogLevel l \<longleftrightarrow> l \<in> {Normal, Debug, Trace, TraceAll, []}"

definition GetLogLevel :: "nat \<Rightarrow> log_level \<times> bool" where
  "GetLogLevel v =
     (if v \<ge> 8 then (TraceAll, False) else if v \<ge> 6 then (Trace, False) else if v \<ge> 4 then (Debug, False)
      else if v \<ge> 2 then (Normal, False) else (Normal, True))"

definition SetLogLevel :: "log_level \<Rightarrow> nat" where
  "SetLogLevel targetLevel = LogLevelToVerbosity targetLevel"

text \<open>The missing configuration object is no error: the operator may be removed.\<close>

definition logLevelSync ::
  "(string \<Rightarrow> string) \<Rightarrow> log_level \<Rightarrow> 'w climanager_api \<Rightarrow> nat \<Rightarrow> ('w, go_error option \<times> nat) go" where
  "logLevelSync quote defaultLogLevel c v s =
     (case GetOperatorState c s of
        (Inl err, s1) \<Rightarrow> if IsNotFound err then ((None, v), s1) else ((Some err, v), s1)
      | (Inr (detailedSpec, _, _), s1) \<Rightarrow>
          (let (currentLogLevel, isUnknown) = GetLogLevel v;
               desired = (if os_operatorLogLevel detailedSpec = [] then defaultLogLevel
                          else os_operatorLogLevel detailedSpec);
               (desiredLogLevel, s2) =
                 (if ValidLogLevel desired then (desired, s1)
                  else (defaultLogLevel, emit (EventWarning ''OperatorLogLevelInvalid''
                    (''Invalid logLevel '' @ quote desired @ '', falling back to '' @ quote defaultLogLevel)) s1)) in
           if \<not> isUnknown \<and> currentLogLevel = desiredLogLevel then ((None, v), s2)
           else
             (let level = (if desiredLogLevel = [] then currentLogLevel else desiredLogLevel) in
              if isUnknown then ((None, SetLogLevel level), s2)
              else ((None, SetLogLevel level), emit (EventNormal ''OperatorLogLevelChange''
                (''Operator log level changed from '' @ quote currentLogLevel @ '' to '' @ quote level)) s2))))"

definition NewClusterOperatorLoggingController ::
  "(string \<Rightarrow> string) \<Rightarrow> 'w climanager_api \<Rightarrow> nat \<Rightarrow> ('w, go_error option \<times> nat) go" where
  "NewClusterOperatorLoggingController quote c = logLevelSync quote Normal c"

text \<open>The level that the configuration asks for.\<close>

definition wanted_level :: "operator_spec \<Rightarrow> log_level" where
  "wanted_level sp = (if os_operatorLogLevel sp \<in> {Debug, Trace, TraceAll} then os_operatorLogLevel sp else Normal)"

lemma level_roundtrip:
  "l \<in> {Normal, Debug, Trace, TraceAll} \<Longrightarrow> GetLogLevel (SetLogLevel l) = (l, False)"
  by (auto simp: GetLogLevel_def SetLogLevel_def LogLevelToVerbosity_def)

text \<open>The reconciler gives the operand the verbosity that this controller would set for the level.\<close>

lemma verbosity_operand: "verbosity l = LogLevelToVerbosity l"
  by (simp add: verbosity_def LogLevelToVerbosity_def)

lemma wanted_cases:
  "(if ValidLogLevel (if l = [] then Normal else l) then (if l = [] then Normal else l) else Normal) =
     (if l \<in> {Debug, Trace, TraceAll} then l else Normal)"
  by (auto simp: ValidLogLevel_def)

lemma if_pair: "(if P then (x, a) else (y, b)) = (if P then x else y, if P then a else b)"
  by simp

lemma logLevelSync_read:
  assumes "call (ca_get c OperatorNamespace OperatorConfigName) t = (Inr cm, t)"
  shows "\<exists>t' t''. env_world t' = env_world t \<and> env_world t'' = env_world t \<and>
    (ValidLogLevel (os_operatorLogLevel (cms_operatorSpec (cm_spec cm))) \<longrightarrow> t' = t) \<and>
    NewClusterOperatorLoggingController quote c v t =
      (let w = wanted_level (cms_operatorSpec (cm_spec cm)) in
       if GetLogLevel v = (w, False) then ((None, v), t') else ((None, SetLogLevel w), t''))"
proof -
  let ?sp = "cms_operatorSpec (cm_spec cm)"
  let ?l = "os_operatorLogLevel ?sp" and ?w = "wanted_level ?sp"
  let ?d = "if ?l = [] then Normal else ?l"
  obtain cur unk where lvl: "GetLogLevel v = (cur, unk)" by (cases "GetLogLevel v")
  define t1 where "t1 = (if ValidLogLevel ?d then t else emit (EventWarning ''OperatorLogLevelInvalid''
    (''Invalid logLevel '' @ quote ?d @ '', falling back to '' @ quote Normal)) t)"
  have sel: "(if ValidLogLevel ?d then (?d, t) else (Normal, emit (EventWarning ''OperatorLogLevelInvalid''
    (''Invalid logLevel '' @ quote ?d @ '', falling back to '' @ quote Normal)) t)) = (?w, t1)"
    by (simp only: if_pair t1_def wanted_cases wanted_level_def)
  have "?w \<noteq> []" by (auto simp: wanted_level_def)
  moreover have "env_world t1 = env_world t" by (simp add: t1_def)
  moreover have "ValidLogLevel ?l \<longrightarrow> t1 = t" by (auto simp: t1_def ValidLogLevel_def)
  ultimately show ?thesis
    unfolding NewClusterOperatorLoggingController_def logLevelSync_def GetOperatorState_def assms
    by (simp add: sel lvl Let_def) (metis emit_world)
qed

end
