(* ===== verification/Starter.thy ===== *)
theory Starter
  imports Event_Sync Clientset Log_Level
begin

text \<open>
  How the operator is put together (\<^verbatim>\<open>pkg/operator/starter.go\<close>, \<open>NewTargetConfigReconciler\<close>): clients from the configuration, informers, the reconciler with its
  event handlers, and what runs until the context is done. The clients for Kubernetes, dynamic
  objects and routes come from vendored generators; their constructors are parameters.
\<close>

section \<open>Informers for Kubernetes objects\<close>

text \<open>The informer of network policies in one namespace: its handlers and flags.\<close>

record kube_informer =
  ki_handlers :: "nat list"
  ki_started :: bool
  ki_stopped :: bool

record kube_factory =
  kf_namespace :: string
  kf_networkPolicies :: "kube_informer option"

definition NewKubeInformersForNamespaces :: "string list \<Rightarrow> (string, kube_factory) fmap" where
  "NewKubeInformersForNamespaces namespaces =
     fold (\<lambda>ns m. fmupd ns \<lparr>kf_namespace = ns, kf_networkPolicies = None\<rparr> m) namespaces fmempty"

definition networkPolicies :: "kube_factory \<Rightarrow> kube_informer" where
  "networkPolicies f =
     (case kf_networkPolicies f of
        Some i \<Rightarrow> i
      | None \<Rightarrow> \<lparr>ki_handlers = [], ki_started = False, ki_stopped = False\<rparr>)"

text \<open>Registers a handler with the informer of network policies, which it creates if needed; a
  namespace without informers is a nil interface.\<close>

definition add_policy_handler ::
  "string \<Rightarrow> nat \<Rightarrow> (string, kube_factory) fmap \<Rightarrow> go_error option \<times> (string, kube_factory) fmap" where
  "add_policy_handler ns handler m =
     (case fmlookup m ns of
        None \<Rightarrow> (Some (Panic ''invalid memory address or nil pointer dereference''), m)
      | Some f \<Rightarrow>
          (let i = networkPolicies f in
           if ki_stopped i
           then (Some (ErrorString ''handler was not added to shared informer because it has stopped already''),
                 fmupd ns (f\<lparr>kf_networkPolicies := Some i\<rparr>) m)
           else (None, fmupd ns (f\<lparr>kf_networkPolicies := Some (i\<lparr>ki_handlers := ki_handlers i @ [handler]\<rparr>)\<rparr>) m)))"

definition start_kube :: "kube_factory \<Rightarrow> kube_factory" where
  "start_kube f = f\<lparr>kf_networkPolicies := map_option (\<lambda>i. i\<lparr>ki_started := True\<rparr>) (kf_networkPolicies f)\<rparr>"

definition StartKubeInformers :: "(string, kube_factory) fmap \<Rightarrow> (string, kube_factory) fmap" where
  "StartKubeInformers m = fmmap start_kube m"

section \<open>The reconciler\<close>

text \<open>The clients of the Kubernetes API the reconciler uses.\<close>

record 'w kube_clients =
  kc_roles :: "('w, role) resource_client"
  kc_roleBindings :: "('w, role_binding) resource_client"
  kc_clusterRoles :: "('w, cluster_role) resource_client"
  kc_clusterRoleBindings :: "('w, role_binding) resource_client"
  kc_serviceAccounts :: "('w, service_account) resource_client"
  kc_services :: "('w, service) resource_client"
  kc_networkPolicies :: "('w, network_policy) resource_client"
  kc_deployments :: "('w, deployment) resource_client"

text \<open>The hash functions and the random source of the apply functions.\<close>

record hash_functions =
  hf_serviceHash :: "service_spec \<Rightarrow> go_error + string"
  hf_deploymentHash :: "deployment_spec \<Rightarrow> go_error + string"
  hf_serviceSum :: "service \<Rightarrow> string"
  hf_serviceAccountSum :: "service_account \<Rightarrow> string"
  hf_policySum :: "network_policy \<Rightarrow> string"
  hf_unstructuredSum :: "unstructured \<Rightarrow> string"
  hf_uuid :: string

text \<open>Both registrations add the one key to the queue, whatever the event.\<close>

definition queue_handler :: nat where "queue_handler = 0"

text \<open>The error of the first registration is dropped.\<close>

definition NewTargetConfigReconciler ::
  "string \<Rightarrow> 'w climanager_api \<Rightarrow> ('w, route) resource_client \<Rightarrow> climanager_informer \<Rightarrow> 'w climanager_api \<Rightarrow>
   'w dynamic_client \<Rightarrow> 'w kube_clients \<Rightarrow> bool \<Rightarrow> hash_functions \<Rightarrow> int \<Rightarrow>
   'w factory \<times> (string, kube_factory) fmap \<Rightarrow>
   (go_error + 'w reconciler \<times> string rate_queue) \<times> 'w factory \<times> (string, kube_factory) fmap" where
  "NewTargetConfigReconciler targetImage operatorConfigClient routeCLient operatorClientInformer cliManagerClient
     dynamicClient kubeClient insecureHTTP hf now st =
     (let (f, kube) = st;
          c = \<lparr>rec_targetImage = targetImage, rec_operatorClient = operatorConfigClient,
               rec_cliManagerClient = cliManagerClient, rec_dynamicClient = dynamicClient, rec_routes = routeCLient,
               rec_roles = kc_roles kubeClient, rec_roleBindings = kc_roleBindings kubeClient,
               rec_clusterRoles = kc_clusterRoles kubeClient, rec_clusterRoleBindings = kc_clusterRoleBindings kubeClient,
               rec_serviceAccounts = kc_serviceAccounts kubeClient, rec_services = kc_services kubeClient,
               rec_networkPolicies = kc_networkPolicies kubeClient, rec_deployments = kc_deployments kubeClient,
               rec_insecureHTTP = insecureHTTP, rec_serviceHash = hf_serviceHash hf,
               rec_deploymentHash = hf_deploymentHash hf, rec_serviceSum = hf_serviceSum hf,
               rec_serviceAccountSum = hf_serviceAccountSum hf, rec_policySum = hf_policySum hf,
               rec_unstructuredSum = hf_unstructuredSum hf, rec_uuid = hf_uuid hf\<rparr>;
          queue = NewRateLimitingQueue now;
          (i, f1) = Informer operatorClientInformer f;
          (_, i1) = AddEventHandler queue_handler i;
          f2 = f1\<lparr>fa_informers := fmupd CliManagerType i1 (fa_informers f1)\<rparr>;
          (err, kube1) = add_policy_handler OperatorNamespace queue_handler kube in
      case err of
        Some e \<Rightarrow> (Inl e, f2, kube1)
      | None \<Rightarrow> (Inr (c, queue), f2, kube1))"

section \<open>RunOperator\<close>

text \<open>What the environment provides; the last two connect a client of the group to the server.\<close>

record ('w, 'h) operator_deps =
  od_net :: "'h net"
  od_kube :: "rest_config \<Rightarrow> go_error + 'w kube_clients"
  od_dynamic :: "rest_config \<Rightarrow> go_error + 'w dynamic_client"
  od_route :: "rest_config \<Rightarrow> go_error + ('w, route) resource_client"
  od_getenv :: "string \<Rightarrow> string"
  od_hashes :: hash_functions
  od_versioned :: "'h clientset \<Rightarrow> 'w versioned"
  od_climanagers :: "'h climanagersV1_client \<Rightarrow> 'w climanager_api"

text \<open>What runs once everything is started.\<close>

record 'w running_operator =
  ro_reconciler :: "'w reconciler"
  ro_queue :: "string rate_queue"
  ro_informers :: "'w factory"
  ro_kubeInformers :: "(string, kube_factory) fmap"
  ro_logLevelClient :: "'w climanager_api"

definition RunOperator ::
  "('w, 'h) operator_deps \<Rightarrow> rest_config \<Rightarrow> rest_config \<Rightarrow> bool \<Rightarrow> int \<Rightarrow> go_error + 'w running_operator" where
  "RunOperator d protoKubeConfig kubeConfig serveArtifactAsHttp now =
     sum_bind (od_kube d protoKubeConfig) (\<lambda>kubeClient.
     sum_bind (od_dynamic d protoKubeConfig) (\<lambda>dynamicClient.
     let kubeInformers = NewKubeInformersForNamespaces [OperatorNamespace] in
     sum_bind (NewForConfig (od_net d) kubeConfig) (\<lambda>operatorConfigClient.
     let operatorConfigInformers = NewSharedInformerFactory (od_versioned d operatorConfigClient) 600000000000;
         informer = CliManagers (V1 (Climanagers operatorConfigInformers));
         (_, informers1) = Informer informer operatorConfigInformers;
         cliManagerClient = od_climanagers d (ClimanagersV1 operatorConfigClient) in
     sum_bind (od_route d kubeConfig) (\<lambda>routeClient.
     (case NewTargetConfigReconciler (od_getenv d ''RELATED_IMAGE_OPERAND_IMAGE'')
             (od_climanagers d (ClimanagersV1 operatorConfigClient)) routeClient
             (CliManagers (V1 (Climanagers informers1))) cliManagerClient dynamicClient kubeClient
             serveArtifactAsHttp (od_hashes d) now (informers1, kubeInformers) of
        (Inl err, _) \<Rightarrow> Inl err
      | (Inr (c, queue), informers2, kube2) \<Rightarrow>
          Inr \<lparr>ro_reconciler = c, ro_queue = queue, ro_informers = Start informers2,
               ro_kubeInformers = StartKubeInformers kube2, ro_logLevelClient = cliManagerClient\<rparr>)))))"

section \<open>Properties\<close>

text \<open>C32: the log level follows the configuration. When the read succeeds the controller returns no error,
  klog is then at the level the configuration asks for (the default for an empty or unknown one), and
  with an unchanged configuration the next run changes nothing and, if the level is valid, reports nothing.\<close>

theorem log_level_follows:
  assumes "call (ca_get c OperatorNamespace OperatorConfigName) s = (Inr cm, s)"
    and "NewClusterOperatorLoggingController quote c v s = ((err, v'), s')"
    and "call (ca_get c OperatorNamespace OperatorConfigName) s' = (Inr cm, s')"
  shows "err = None \<and> GetLogLevel v' = (wanted_level (cms_operatorSpec (cm_spec cm)), False) \<and>
    (\<exists>s''. NewClusterOperatorLoggingController quote c v' s' = ((None, v'), s'') \<and>
      env_world s'' = env_world s' \<and> (ValidLogLevel (os_operatorLogLevel (cms_operatorSpec (cm_spec cm))) \<longrightarrow> s'' = s'))"
proof -
  let ?w = "wanted_level (cms_operatorSpec (cm_spec cm))"
  have "GetLogLevel (SetLogLevel ?w) = (?w, False)"
    by (rule level_roundtrip) (simp add: wanted_level_def)
  with assms(2) logLevelSync_read [OF assms(1), of quote v]
  have v': "err = None" "GetLogLevel v' = (?w, False)" by (auto simp: Let_def split: if_splits)
  with logLevelSync_read [OF assms(3), of quote v'] show ?thesis by (auto simp: Let_def)
qed

theorem log_level_follows_witness:
  "\<exists>v'. NewClusterOperatorLoggingController (\<lambda>t. t) (fake_climanagers (\<lambda>cm _. Inr cm) (\<lambda>_ _ cm. Inr cm)) 0 sample_start =
     ((None, v'), sample_start) \<and> GetLogLevel v' = (Normal, False)"
proof -
  let ?api = "fake_climanagers (\<lambda>cm _. Inr cm) (\<lambda>_ _ cm. Inr cm)"
  note read = call_config [OF sample_configured, of "\<lambda>cm _. Inr cm" "\<lambda>_ _ cm. Inr cm"]
  have level: "os_operatorLogLevel (cms_operatorSpec (cm_spec sample_config)) = Normal" by (simp add: sample_config_def)
  have run: "NewClusterOperatorLoggingController (\<lambda>t. t) ?api 0 sample_start = ((None, 2), sample_start)"
    unfolding NewClusterOperatorLoggingController_def logLevelSync_def GetOperatorState_def read
    by (simp add: level GetLogLevel_def ValidLogLevel_def SetLogLevel_def LogLevelToVerbosity_def)
  from log_level_follows [OF read run read] run level show ?thesis by (auto simp: wanted_level_def)
qed

text \<open>What the reconciler's constructor does to fresh informers: it cannot fail on them.\<close>

lemma fresh_policies:
  "add_policy_handler OperatorNamespace h (NewKubeInformersForNamespaces [OperatorNamespace]) =
     (None, fmupd OperatorNamespace \<lparr>kf_namespace = OperatorNamespace, kf_networkPolicies =
        Some \<lparr>ki_handlers = [h], ki_started = False, ki_stopped = False\<rparr>\<rparr> fmempty)"
  by (simp add: add_policy_handler_def NewKubeInformersForNamespaces_def networkPolicies_def Let_def fmupd_idem)

definition requested :: "'w versioned \<Rightarrow> 'w informer" where
  "requested client = NewCliManagerInformer client [] 600000000000 (fmupd NamespaceIndex MetaNamespaceIndexFunc fmempty)"

definition fresh_factory :: "'w versioned \<Rightarrow> 'w factory" where
  "fresh_factory client = NewSharedInformerFactory client 600000000000"

lemma requested_first:
  "Informer (CliManagers (V1 (Climanagers (fresh_factory client)))) (fresh_factory client) =
     (requested client, (fresh_factory client)\<lparr>fa_informers := fmupd CliManagerType (requested client) fmempty\<rparr>)"
  by (simp add: fresh_factory_def NewSharedInformerFactory_def NewSharedInformerFactoryWithOptions_def Informer_def
      TypedInformer_def InformerFor_def defaultInformer_def CliManagers_def V1_def Climanagers_def requested_def
      NewCliManagerInformer_def NewCliManagerInformerWithOptions_def NewTypedCliManagerInformerWithOptions_def
      WithResource_def Let_def)

lemma requested_again:
  "fmlookup (fa_informers f) CliManagerType = Some i \<Longrightarrow> Informer ci f = (i, f)"
  by (simp add: Informer_def TypedInformer_def InformerFor_def)

definition started_factory :: "'w versioned \<Rightarrow> 'w factory" where
  "started_factory client = (fresh_factory client)
     \<lparr>fa_informers := fmupd CliManagerType ((requested client)\<lparr>in_handlers := [queue_handler]\<rparr>) fmempty,
      fa_startedInformers := fmupd CliManagerType True fmempty,
      fa_launched := [CliManagerType], fa_running := [CliManagerType]\<rparr>"

lemma started_from_fresh:
  "Start ((fresh_factory client)\<lparr>fa_informers :=
      fmupd CliManagerType ((requested client)\<lparr>in_handlers := [queue_handler]\<rparr>) fmempty\<rparr>) = started_factory client"
  by (simp add: Start_def StartWithContext_def start_informer_def is_started_def started_factory_def fresh_factory_def
      NewSharedInformerFactory_def NewSharedInformerFactoryWithOptions_def)

definition started_policies :: "(string, kube_factory) fmap" where
  "started_policies = fmupd OperatorNamespace \<lparr>kf_namespace = OperatorNamespace, kf_networkPolicies =
     Some \<lparr>ki_handlers = [queue_handler], ki_started = True, ki_stopped = False\<rparr>\<rparr> fmempty"

lemma policies_from_fresh:
  "StartKubeInformers (fmupd OperatorNamespace \<lparr>kf_namespace = OperatorNamespace, kf_networkPolicies =
     Some \<lparr>ki_handlers = [queue_handler], ki_started = False, ki_stopped = False\<rparr>\<rparr> fmempty) = started_policies"
  by (rule fmap_ext) (simp add: StartKubeInformers_def started_policies_def start_kube_def)

definition built_reconciler ::
  "('w, 'h) operator_deps \<Rightarrow> bool \<Rightarrow> 'w kube_clients \<Rightarrow> 'w dynamic_client \<Rightarrow> 'w climanager_api \<Rightarrow>
   ('w, route) resource_client \<Rightarrow> 'w reconciler" where
  "built_reconciler d http kc dc api rc =
     \<lparr>rec_targetImage = od_getenv d ''RELATED_IMAGE_OPERAND_IMAGE'', rec_operatorClient = api,
      rec_cliManagerClient = api, rec_dynamicClient = dc, rec_routes = rc,
      rec_roles = kc_roles kc, rec_roleBindings = kc_roleBindings kc,
      rec_clusterRoles = kc_clusterRoles kc, rec_clusterRoleBindings = kc_clusterRoleBindings kc,
      rec_serviceAccounts = kc_serviceAccounts kc, rec_services = kc_services kc,
      rec_networkPolicies = kc_networkPolicies kc, rec_deployments = kc_deployments kc,
      rec_insecureHTTP = http, rec_serviceHash = hf_serviceHash (od_hashes d),
      rec_deploymentHash = hf_deploymentHash (od_hashes d), rec_serviceSum = hf_serviceSum (od_hashes d),
      rec_serviceAccountSum = hf_serviceAccountSum (od_hashes d), rec_policySum = hf_policySum (od_hashes d),
      rec_unstructuredSum = hf_unstructuredSum (od_hashes d), rec_uuid = hf_uuid (od_hashes d)\<rparr>"

lemma RunOperator_eq:
  "RunOperator d protoConfig config http now =
     sum_bind (od_kube d protoConfig) (\<lambda>kc. sum_bind (od_dynamic d protoConfig) (\<lambda>dc.
     sum_bind (NewForConfig (od_net d) config) (\<lambda>cs. sum_bind (od_route d config) (\<lambda>rc.
       let api = od_climanagers d (ClimanagersV1 cs) in
       Inr \<lparr>ro_reconciler = built_reconciler d http kc dc api rc, ro_queue = NewRateLimitingQueue now,
            ro_informers = started_factory (od_versioned d cs), ro_kubeInformers = started_policies,
            ro_logLevelClient = api\<rparr>))))"
proof -
  have handler: "AddEventHandler queue_handler (requested client) =
      (None, (requested client)\<lparr>in_handlers := [queue_handler]\<rparr>)" for client :: "'a versioned"
    by (simp add: AddEventHandler_def requested_def NewCliManagerInformer_def NewCliManagerInformerWithOptions_def
        NewTypedCliManagerInformerWithOptions_def WithResource_def)
  show ?thesis
    unfolding RunOperator_def NewTargetConfigReconciler_def fresh_factory_def [symmetric]
    by (simp add: Let_def requested_first requested_again handler fresh_policies started_from_fresh policies_from_fresh
        built_reconciler_def)
qed

lemma RunOperator_insecure:
  "RunOperator d protoConfig config http now = Inr run \<Longrightarrow> rec_insecureHTTP (ro_reconciler run) = http"
  by (auto simp: RunOperator_eq Let_def built_reconciler_def sum_bind_Inr)


end
