(* ===== verification/Command_Line.thy ===== *)
theory Command_Line
  imports Starter
begin

text \<open>
  The command line of the two operator binaries (\<^verbatim>\<open>cmd/cli-manager-operator\<close>,
  \<^verbatim>\<open>cmd/cli-manager-operator-testing\<close>, \<^verbatim>\<open>pkg/cmd/operator\<close>): the commands they define and how
  pflag parses the arguments of the operator command into variables. The flags the command inherits
  from its parents are a parameter; help texts are left out.
\<close>

section \<open>Flags\<close>

text \<open>A flag writes one variable, given by its name; its type says how.\<close>

datatype flag_target = BoolVar string | StringVar string | StringArrayVar string

record flag =
  fl_Name :: string
  fl_Shorthand :: "char option"
  fl_NoOptDefVal :: string
  fl_Hidden :: bool
  fl_Value :: flag_target

record flag_set =
  fs_formal :: "(string, flag) fmap"
  fs_shorthands :: "(char, string) fmap"

text \<open>\<open>va_args\<close> holds the positional arguments.\<close>

record flag_vars =
  va_bools :: "(string, bool) fmap"
  va_strings :: "(string, string) fmap"
  va_arrays :: "(string, string list) fmap"
  va_args :: "string list"

definition WordSepNormalizeFunc :: "string \<Rightarrow> string" where
  "WordSepNormalizeFunc name = map (\<lambda>ch. if ch = CHR ''_'' then CHR ''-'' else ch) name"

definition ParseBool :: "string \<Rightarrow> bool option" where
  "ParseBool s =
     (if s \<in> {''1'', ''t'', ''T'', ''TRUE'', ''true'', ''True''} then Some True
      else if s \<in> {''0'', ''f'', ''F'', ''FALSE'', ''false'', ''False''} then Some False
      else None)"

text \<open>\<open>Set\<close> of the three kinds of values; a bad boolean is an error and leaves the variable false.
  The array starts empty.\<close>

definition set_value :: "flag_target \<Rightarrow> string \<Rightarrow> flag_vars \<Rightarrow> go_error option \<times> flag_vars" where
  "set_value target value v =
     (case target of
        BoolVar p \<Rightarrow>
          (case ParseBool value of
             Some b \<Rightarrow> (None, v\<lparr>va_bools := fmupd p b (va_bools v)\<rparr>)
           | None \<Rightarrow> (Some (ErrorString (''invalid argument '' @ value)), v\<lparr>va_bools := fmupd p False (va_bools v)\<rparr>))
      | StringVar p \<Rightarrow> (None, v\<lparr>va_strings := fmupd p value (va_strings v)\<rparr>)
      | StringArrayVar p \<Rightarrow>
          (None, v\<lparr>va_arrays := fmupd p ((case fmlookup (va_arrays v) p of Some xs \<Rightarrow> xs | None \<Rightarrow> []) @ [value])
             (va_arrays v)\<rparr>))"

definition ErrHelp :: go_error where "ErrHelp = ErrorString ''pflag: help requested''"

text \<open>\<open>strings.SplitN(name, "=", 2)\<close>\<close>

definition split_assignment :: "string \<Rightarrow> string \<times> string option" where
  "split_assignment s =
     (case dropWhile (\<lambda>ch. ch \<noteq> CHR ''='') s of
        [] \<Rightarrow> (s, None)
      | _ # value \<Rightarrow> (takeWhile (\<lambda>ch. ch \<noteq> CHR ''='') s, Some value))"

text \<open>The rest of the arguments, or the error, and the variables.\<close>

type_synonym parse_result = "(go_error + string list) \<times> flag_vars"

definition after_set :: "go_error option \<times> flag_vars \<Rightarrow> string list \<Rightarrow> parse_result" where
  "after_set r rest = (case r of (Some err, v) \<Rightarrow> (Inl err, v) | (None, v) \<Rightarrow> (Inr rest, v))"

definition parseLongArg :: "flag_set \<Rightarrow> string \<Rightarrow> string list \<Rightarrow> flag_vars \<Rightarrow> parse_result" where
  "parseLongArg fs s args v =
     (let name = drop 2 s in
      if name = [] \<or> hd name = CHR ''-'' \<or> hd name = CHR ''='' then (Inl (ErrorString (''bad flag syntax: '' @ s)), v)
      else
        (let (name, val) = split_assignment name in
         case fmlookup (fs_formal fs) (WordSepNormalizeFunc name) of
           None \<Rightarrow>
             if name = ''help'' then (Inl ErrHelp, v) else (Inl (ErrorString (''unknown flag: --'' @ name)), v)
         | Some flag \<Rightarrow>
             (case val of
                Some value \<Rightarrow> after_set (set_value (fl_Value flag) value v) args
              | None \<Rightarrow>
                  if fl_NoOptDefVal flag \<noteq> [] then after_set (set_value (fl_Value flag) (fl_NoOptDefVal flag) v) args
                  else
                    (case args of
                       value # rest \<Rightarrow> after_set (set_value (fl_Value flag) value v) rest
                     | [] \<Rightarrow> (Inl (ErrorString (''flag needs an argument: --'' @ name)), v)))))"

text \<open>One letter of a series of shorthands: the letters left, with the arguments.\<close>

definition parseSingleShortArg ::
  "flag_set \<Rightarrow> char \<Rightarrow> string \<Rightarrow> string list \<Rightarrow> flag_vars \<Rightarrow> (go_error + bool \<times> string list) \<times> flag_vars" where
  "parseSingleShortArg fs ch shorthands args v =
     (case Option.bind (fmlookup (fs_shorthands fs) ch) (fmlookup (fs_formal fs)) of
        None \<Rightarrow>
          if ch = CHR ''h'' then (Inl ErrHelp, v)
          else (Inl (ErrorString (''unknown shorthand flag: '' @ [ch] @ '' in -'' @ ch # shorthands)), v)
      | Some flag \<Rightarrow>
          (let set = (\<lambda>value go_on rest. case set_value (fl_Value flag) value v of
                 (Some err, v') \<Rightarrow> (Inl err, v') | (None, v') \<Rightarrow> (Inr (go_on, rest), v')) in
           if length shorthands > 1 \<and> hd shorthands = CHR ''='' then set (tl shorthands) False args
           else if fl_NoOptDefVal flag \<noteq> [] then set (fl_NoOptDefVal flag) True args
           else if shorthands \<noteq> [] then set shorthands False args
           else
             (case args of
                value # rest \<Rightarrow> set value True rest
              | [] \<Rightarrow> (Inl (ErrorString (''flag needs an argument: '' @ [ch] @ '' in -'' @ [ch])), v))))"

text \<open>\<open>a\<close> is the result so far. Every letter gets the arguments of the whole call.\<close>

fun parseShortArg :: "flag_set \<Rightarrow> string \<Rightarrow> string list \<Rightarrow> string list \<Rightarrow> flag_vars \<Rightarrow> parse_result" where
  "parseShortArg fs [] args a v = (Inr a, v)"
| "parseShortArg fs (ch # shorthands) args a v =
     (if prefix ''test.'' (ch # shorthands) then (Inr args, v)
      else
        (case parseSingleShortArg fs ch shorthands args v of
           (Inl err, v') \<Rightarrow> (Inl err, v')
         | (Inr (go_on, a'), v') \<Rightarrow> if go_on then parseShortArg fs shorthands args a' v' else (Inr a', v')))"

lemma after_set_length: "after_set r rest = (Inr a, v') \<Longrightarrow> a = rest"
  by (auto simp: after_set_def split: prod.splits option.splits)

lemma parseLongArg_length: "parseLongArg fs s args v = (Inr a, v') \<Longrightarrow> length a \<le> length args"
  by (auto simp: parseLongArg_def Let_def dest!: after_set_length split: prod.splits option.splits if_splits list.splits)

lemma parseSingleShortArg_length:
  "parseSingleShortArg fs ch sh args v = (Inr (m, a), v') \<Longrightarrow> length a \<le> length args"
  by (auto simp: parseSingleShortArg_def Let_def split: option.splits if_splits list.splits prod.splits)

lemma parseShortArg_length:
  "parseShortArg fs sh args a v = (Inr a', v') \<Longrightarrow> length a \<le> length args \<Longrightarrow> length a' \<le> length args"
proof (induction fs sh args a v rule: parseShortArg.induct)
  case (2 fs ch shorthands args a v)
  then show ?case
    by (auto split: if_splits prod.splits sum.splits dest: parseSingleShortArg_length)
qed simp

function parseArgs :: "flag_set \<Rightarrow> string list \<Rightarrow> flag_vars \<Rightarrow> go_error option \<times> flag_vars" where
  "parseArgs fs [] v = (None, v)"
| "parseArgs fs (s # args) v =
     (if s = [] \<or> hd s \<noteq> CHR ''-'' \<or> length s = 1 then parseArgs fs args (v\<lparr>va_args := va_args v @ [s]\<rparr>)
      else if s = ''--'' then (None, v\<lparr>va_args := va_args v @ args\<rparr>)
      else
        (case (if s ! 1 = CHR ''-'' then parseLongArg fs s args v else parseShortArg fs (tl s) args args v) of
           (Inl err, v') \<Rightarrow> (Some err, v')
         | (Inr args', v') \<Rightarrow> parseArgs fs args' v'))"
  by pat_completeness auto

termination
  by (relation "measure (\<lambda>(_, args, _). length args)")
    (auto split: if_splits dest!: parseLongArg_length parseShortArg_length [OF _ order_refl] sym [of "(Inr _, _)"])

section \<open>The commands\<close>

definition AddFlag :: "flag \<Rightarrow> flag_set \<Rightarrow> go_error + flag_set" where
  "AddFlag flag fs =
     (if WordSepNormalizeFunc (fl_Name flag) \<in> fmdom' (fs_formal fs)
      then Inl (Panic (''flag redefined: '' @ fl_Name flag))
      else
        (let name = WordSepNormalizeFunc (fl_Name flag);
             fs' = fs\<lparr>fs_formal := fmupd name (flag\<lparr>fl_Name := name\<rparr>) (fs_formal fs)\<rparr> in
         case fl_Shorthand flag of
           None \<Rightarrow> Inr fs'
         | Some ch \<Rightarrow>
             if ch \<in> fmdom' (fs_shorthands fs) then Inl (Panic (''unable to redefine shorthand '' @ [ch]))
             else Inr (fs'\<lparr>fs_shorthands := fmupd ch name (fs_shorthands fs)\<rparr>)))"

text \<open>Defining a flag writes its default.\<close>

type_synonym flags_being_defined = "flag_set \<times> flag_vars"

definition BoolVarP ::
  "string \<Rightarrow> string \<Rightarrow> char option \<Rightarrow> bool \<Rightarrow> flags_being_defined \<Rightarrow> go_error + flags_being_defined" where
  "BoolVarP p name shorthand value st =
     (case st of (fs, v) \<Rightarrow>
        sum_bind (AddFlag \<lparr>fl_Name = name, fl_Shorthand = shorthand, fl_NoOptDefVal = ''true'', fl_Hidden = False,
            fl_Value = BoolVar p\<rparr> fs)
          (\<lambda>fs'. Inr (fs', v\<lparr>va_bools := fmupd p value (va_bools v)\<rparr>)))"

definition define_string :: "string \<Rightarrow> string \<Rightarrow> string \<Rightarrow> flags_being_defined \<Rightarrow> go_error + flags_being_defined" where
  "define_string p name value st =
     (case st of (fs, v) \<Rightarrow>
        sum_bind (AddFlag \<lparr>fl_Name = name, fl_Shorthand = None, fl_NoOptDefVal = [], fl_Hidden = False,
            fl_Value = StringVar p\<rparr> fs)
          (\<lambda>fs'. Inr (fs', v\<lparr>va_strings := fmupd p value (va_strings v)\<rparr>)))"

definition define_array :: "string \<Rightarrow> string \<Rightarrow> flags_being_defined \<Rightarrow> go_error + flags_being_defined" where
  "define_array p name st =
     (case st of (fs, v) \<Rightarrow>
        sum_bind (AddFlag \<lparr>fl_Name = name, fl_Shorthand = None, fl_NoOptDefVal = [], fl_Hidden = False,
            fl_Value = StringArrayVar p\<rparr> fs)
          (\<lambda>fs'. Inr (fs', v\<lparr>va_arrays := fmupd p [] (va_arrays v)\<rparr>)))"

text \<open>An unknown name is an error, which the one caller drops.\<close>

definition MarkHidden :: "string \<Rightarrow> flag_set \<Rightarrow> flag_set" where
  "MarkHidden name fs =
     (case fmlookup (fs_formal fs) (WordSepNormalizeFunc name) of
        None \<Rightarrow> fs
      | Some fl \<Rightarrow> fs\<lparr>fs_formal := fmupd (WordSepNormalizeFunc name) (fl\<lparr>fl_Hidden := True\<rparr>) (fs_formal fs)\<rparr>)"

definition ControllerFlagsAddFlags :: "flags_being_defined \<Rightarrow> go_error + flags_being_defined" where
  "ControllerFlagsAddFlags st =
     sum_bind (define_string ''ConfigFile'' ''config'' [] st) (\<lambda>st.
     sum_bind (define_string ''KubeConfigFile'' ''kubeconfig'' [] st) (\<lambda>st.
     sum_bind (define_string ''Namespace'' ''namespace'' [] st) (\<lambda>st.
     sum_bind (define_string ''BindAddress'' ''listen'' [] st)
       (define_array ''TerminateOnFiles'' ''terminate-on-files''))))"

datatype command =
  Command (cmd_Use: string) (cmd_Short: string) (cmd_Flags: flag_set) (cmd_commands: "command list")

definition serve_var :: string where "serve_var = ''operator.ServeArtifactAsHttp''"

definition http_flag :: string where "http_flag = ''serve-artifacts-in-http''"

definition NewOperator :: "bool \<Rightarrow> flag_vars \<Rightarrow> go_error + command \<times> flag_vars" where
  "NewOperator supportHttp v =
     sum_bind (ControllerFlagsAddFlags (\<lparr>fs_formal = fmempty, fs_shorthands = fmempty\<rparr>, v)) (\<lambda>st.
     sum_bind (if supportHttp
               then sum_bind (BoolVarP serve_var http_flag None False st) (\<lambda>(fs, v'). Inr (MarkHidden http_flag fs, v'))
               else Inr st) (\<lambda>(fs, v').
     Inr (Command ''operator'' ''Start the Cluster CLI Manager Operator'' fs [], v')))"

text \<open>The root commands of the two binaries.\<close>

definition NewCLIManagerOperatorCommand :: "flag_vars \<Rightarrow> go_error + command \<times> flag_vars" where
  "NewCLIManagerOperatorCommand v =
     sum_bind (NewOperator False v) (\<lambda>(cmd, v').
       Inr (Command ''cli-manager-operator'' ''OpenShift CLI Manager operator''
         \<lparr>fs_formal = fmempty, fs_shorthands = fmempty\<rparr> [cmd], v'))"

definition NewTestingOperatorCommand :: "flag_vars \<Rightarrow> go_error + command \<times> flag_vars" where
  "NewTestingOperatorCommand v =
     sum_bind (NewOperator True v) (\<lambda>(cmd, v').
       Inr (Command ''cli-manager-operator'' ''OpenShift CLI Manager operator''
         \<lparr>fs_formal = fmempty, fs_shorthands = fmempty\<rparr> [cmd], v'))"

section \<open>Running the operator command\<close>

text \<open>\<open>inherited\<close> are the persistent flags of the parents; a flag of the command's own wins.\<close>

fun AddFlagSet :: "flag list \<Rightarrow> flag_set \<Rightarrow> go_error + flag_set" where
  "AddFlagSet [] fs = Inr fs"
| "AddFlagSet (fl # newSet) fs =
     (if WordSepNormalizeFunc (fl_Name fl) \<in> fmdom' (fs_formal fs) then AddFlagSet newSet fs
      else sum_bind (AddFlag fl fs) (AddFlagSet newSet))"

definition InitDefaultHelpFlag :: "flag list \<Rightarrow> flags_being_defined \<Rightarrow> go_error + flags_being_defined" where
  "InitDefaultHelpFlag inherited st =
     (case st of (fs, v) \<Rightarrow>
        sum_bind (AddFlagSet inherited fs) (\<lambda>fs'.
          if ''help'' \<in> fmdom' (fs_formal fs') then Inr (fs', v)
          else BoolVarP ''help'' ''help'' (Some CHR ''h'') False (fs', v)))"

definition help_requested :: "flag_set \<Rightarrow> flag_vars \<Rightarrow> go_error + bool" where
  "help_requested fs v =
     (case map_option fl_Value (fmlookup (fs_formal fs) ''help'') of
        Some (BoolVar p) \<Rightarrow> Inr (fmlookup (va_bools v) p = Some True)
      | _ \<Rightarrow> Inl (ErrorString ''trying to get bool value of flag of another type''))"

definition execute :: "flag list \<Rightarrow> command \<Rightarrow> string list \<Rightarrow> flag_vars \<Rightarrow> go_error + flag_vars" where
  "execute inherited cmd args v =
     sum_bind (InitDefaultHelpFlag inherited (cmd_Flags cmd, v)) (\<lambda>(fs, v).
       (case parseArgs fs args (v\<lparr>va_args := []\<rparr>) of
          (Some err, _) \<Rightarrow> Inl err
        | (None, v') \<Rightarrow> sum_bind (help_requested fs v') (\<lambda>help. if help then Inl ErrHelp else Inr v')))"

definition no_vars :: flag_vars where
  "no_vars = \<lparr>va_bools = fmupd serve_var False fmempty, va_strings = fmempty, va_arrays = fmempty, va_args = []\<rparr>"

text \<open>A binary that is called with the subcommand and \<open>args\<close>; \<open>build\<close> is its root command. The controller command
  loads its configuration, then runs the operator.\<close>

definition run_binary ::
  "(flag_vars \<Rightarrow> go_error + command \<times> flag_vars) \<Rightarrow> flag list \<Rightarrow> ('w, 'h) operator_deps \<Rightarrow> string list \<Rightarrow>
   rest_config \<Rightarrow> rest_config \<Rightarrow> int \<Rightarrow> go_error + 'w running_operator" where
  "run_binary build inherited d args protoConfig config now =
     sum_bind (build no_vars) (\<lambda>(root, v). sum_bind (execute inherited (hd (cmd_commands root)) args v) (\<lambda>v'.
       RunOperator d protoConfig config (fmlookup (va_bools v') serve_var = Some True) now))"

section \<open>Who can turn on plain HTTP\<close>

text \<open>The flags of a set that write a variable.\<close>

definition writes :: "string \<Rightarrow> flag_set \<Rightarrow> bool" where
  "writes p fs \<longleftrightarrow> (\<exists>k fl. fmlookup (fs_formal fs) k = Some fl \<and> fl_Value fl = BoolVar p)"

lemma set_value_other: "target \<noteq> BoolVar p \<Longrightarrow> fmlookup (va_bools (snd (set_value target x v))) p = fmlookup (va_bools v) p"
  by (cases target) (auto simp: set_value_def split: option.split)

lemma set_value_other': "set_value target x v = (r, v') \<Longrightarrow> target \<noteq> BoolVar p \<Longrightarrow>
    fmlookup (va_bools v') p = fmlookup (va_bools v) p"
  using set_value_other [of target p x v] by simp

lemma not_writes: "\<not> writes p fs \<Longrightarrow> fmlookup (fs_formal fs) k = Some fl \<Longrightarrow> fl_Value fl \<noteq> BoolVar p"
  by (auto simp: writes_def)

lemma after_set_other:
  "after_set (set_value target x v) rest = (r, v') \<Longrightarrow> target \<noteq> BoolVar p \<Longrightarrow>
     fmlookup (va_bools v') p = fmlookup (va_bools v) p"
  by (auto simp: after_set_def dest: set_value_other' split: prod.splits option.splits)

lemma parseLongArg_other:
  "parseLongArg fs s args v = (r, v') \<Longrightarrow> \<not> writes p fs \<Longrightarrow> fmlookup (va_bools v') p = fmlookup (va_bools v) p"
  by (auto simp: parseLongArg_def Let_def dest: after_set_other not_writes
      split: prod.splits option.splits if_splits list.splits)

lemma parseSingleShortArg_other:
  "parseSingleShortArg fs ch sh args v = (r, v') \<Longrightarrow> \<not> writes p fs \<Longrightarrow>
     fmlookup (va_bools v') p = fmlookup (va_bools v) p"
  by (auto simp: parseSingleShortArg_def Let_def bind_eq_Some_conv dest: set_value_other' not_writes
      split: option.splits if_splits list.splits prod.splits)

lemma parseShortArg_other:
  "parseShortArg fs sh args a v = (r, v') \<Longrightarrow> \<not> writes p fs \<Longrightarrow> fmlookup (va_bools v') p = fmlookup (va_bools v) p"
proof (induction fs sh args a v rule: parseShortArg.induct)
  case (2 fs ch shorthands args a v)
  then show ?case
    by (auto dest: parseSingleShortArg_other split: if_splits prod.splits sum.splits)
qed simp

lemma parseArgs_other:
  "parseArgs fs args v = (r, v') \<Longrightarrow> \<not> writes p fs \<Longrightarrow> fmlookup (va_bools v') p = fmlookup (va_bools v) p"
proof (induction fs args v rule: parseArgs.induct)
  case (2 fs s args v)
  then show ?case
    by (auto dest: parseLongArg_other parseShortArg_other split: if_splits prod.splits sum.splits)
qed simp

lemma AddFlag_formal:
  "AddFlag fl fs = Inr fs' \<Longrightarrow> WordSepNormalizeFunc (fl_Name fl) \<notin> fmdom' (fs_formal fs) \<and>
     fs_formal fs' = fmupd (WordSepNormalizeFunc (fl_Name fl)) (fl\<lparr>fl_Name := WordSepNormalizeFunc (fl_Name fl)\<rparr>) (fs_formal fs)"
  by (auto simp: AddFlag_def Let_def split: if_splits option.splits)

lemma AddFlagSet_keeps:
  "AddFlagSet newSet fs = Inr fs' \<Longrightarrow> fmlookup (fs_formal fs) k = Some fl \<Longrightarrow> fmlookup (fs_formal fs') k = Some fl"
proof (induction newSet arbitrary: fs)
  case (Cons f newSet)
  then show ?case
    by (fastforce simp: sum_bind_Inr fmdom'I dest!: AddFlag_formal split: if_splits)
qed simp

lemma AddFlagSet_new:
  "AddFlagSet newSet fs = Inr fs' \<Longrightarrow> fmlookup (fs_formal fs') k = Some fl \<Longrightarrow>
     fmlookup (fs_formal fs) k = Some fl \<or> (\<exists>f\<in>set newSet. k = WordSepNormalizeFunc (fl_Name f) \<and> fl_Value fl = fl_Value f)"
proof (induction newSet arbitrary: fs)
  case (Cons f newSet)
  show ?case
  proof (cases "WordSepNormalizeFunc (fl_Name f) \<in> fmdom' (fs_formal fs)")
    case True
    with Cons show ?thesis by auto
  next
    case False
    with Cons.prems obtain fs1 where fs1: "AddFlag f fs = Inr fs1" "AddFlagSet newSet fs1 = Inr fs'"
      by (auto simp: sum_bind_Inr)
    from Cons.IH [OF this(2) Cons.prems(2)] AddFlag_formal [OF fs1(1)] show ?thesis
      by (auto split: if_splits)
  qed
qed simp

text \<open>The flags of the command itself.\<close>

lemma NewOperator_flags:
  "\<exists>fs v. NewOperator b no_vars = Inr (Command ''operator'' ''Start the Cluster CLI Manager Operator'' fs [], v) \<and>
     fs_shorthands fs = fmempty \<and> fmlookup (va_bools v) serve_var = Some False \<and>
     fmdom' (fs_formal fs) =
       {''config'', ''kubeconfig'', ''namespace'', ''listen'', ''terminate-on-files''} \<union> (if b then {http_flag} else {}) \<and>
     (\<not> b \<longrightarrow> \<not> writes serve_var fs) \<and>
     (b \<longrightarrow> fmlookup (fs_formal fs) http_flag = Some \<lparr>fl_Name = http_flag, fl_Shorthand = None,
        fl_NoOptDefVal = ''true'', fl_Hidden = True, fl_Value = BoolVar serve_var\<rparr>)"
  by (cases b)
    (auto simp: NewOperator_def ControllerFlagsAddFlags_def define_string_def define_array_def AddFlag_def Let_def
      WordSepNormalizeFunc_def BoolVarP_def MarkHidden_def http_flag_def no_vars_def writes_def serve_var_def
      split: if_splits)

lemma production_execute:
  assumes "\<forall>fl\<in>set inherited. fl_Value fl \<noteq> BoolVar serve_var"
    and "\<not> writes serve_var (cmd_Flags cmd)"
    and "execute inherited cmd args v = Inr v'"
  shows "fmlookup (va_bools v') serve_var = fmlookup (va_bools v) serve_var"
proof -
  from assms(3) obtain fs v1 where init: "InitDefaultHelpFlag inherited (cmd_Flags cmd, v) = Inr (fs, v1)"
    by (cases "InitDefaultHelpFlag inherited (cmd_Flags cmd, v)") (auto simp: execute_def)
  then have parse: "parseArgs fs args (v1\<lparr>va_args := []\<rparr>) = (None, v')" using assms(3)
    by (cases "parseArgs fs args (v1\<lparr>va_args := []\<rparr>)")
      (auto simp: execute_def sum_bind_Inr split: option.splits if_splits)
  from init obtain fs1 where fs1: "AddFlagSet inherited (cmd_Flags cmd) = Inr fs1"
    by (auto simp: InitDefaultHelpFlag_def sum_bind_Inr)
  have own: "\<not> writes serve_var fs1"
    using AddFlagSet_new [OF fs1] assms(1,2) by (fastforce simp: writes_def)
  have "\<not> writes serve_var fs \<and> fmlookup (va_bools v1) serve_var = fmlookup (va_bools v) serve_var"
  proof (cases "''help'' \<in> fmdom' (fs_formal fs1)")
    case True
    with init own fs1 show ?thesis by (simp add: InitDefaultHelpFlag_def)
  next
    case False
    with init fs1 have added: "AddFlag \<lparr>fl_Name = ''help'', fl_Shorthand = Some CHR ''h'',
        fl_NoOptDefVal = ''true'', fl_Hidden = False, fl_Value = BoolVar ''help''\<rparr> fs1 = Inr fs"
      and v1: "v1 = v\<lparr>va_bools := fmupd ''help'' False (va_bools v)\<rparr>"
      by (auto simp: InitDefaultHelpFlag_def BoolVarP_def sum_bind_Inr)
    from AddFlag_formal [OF added] own have "\<not> writes serve_var fs"
      by (auto simp: writes_def serve_var_def split: if_splits)
    then show ?thesis by (simp add: v1 serve_var_def)
  qed
  with parseArgs_other [OF parse] show ?thesis by simp
qed

text \<open>C34: the operator that is shipped never serves artifacts over plain HTTP. Whatever its arguments, if it
  starts, the reconciler wants a route that redirects plain requests, and a container whose only argument
  is the verbosity.\<close>

theorem production_serves_https:
  assumes "\<forall>fl\<in>set inherited. fl_Value fl \<noteq> BoolVar serve_var"
    and "run_binary NewCLIManagerOperatorCommand inherited d args protoConfig config now = Inr run"
  shows "\<not> rec_insecureHTTP (ro_reconciler run) \<and>
    manageRoute (ro_reconciler run) cm = applyRoute (rec_routes (ro_reconciler run)) (desired_route False cm) \<and>
    map_option tls_insecureEdgeTerminationPolicy (rs_tls (route_spec (desired_route False cm))) = Some ''Redirect'' \<and>
    length (c_args (operand_container img level (rec_insecureHTTP (ro_reconciler run)))) = 1"
proof -
  from NewOperator_flags [of False] obtain fs v where op: "NewOperator False no_vars =
      Inr (Command ''operator'' ''Start the Cluster CLI Manager Operator'' fs [], v)"
    and own: "fmlookup (va_bools v) serve_var = Some False" "\<not> writes serve_var fs" by auto
  from assms(2) op obtain v' where
    ex: "execute inherited (Command ''operator'' ''Start the Cluster CLI Manager Operator'' fs []) args v = Inr v'"
    and run: "RunOperator d protoConfig config (fmlookup (va_bools v') serve_var = Some True) now = Inr run"
    by (auto simp: run_binary_def NewCLIManagerOperatorCommand_def sum_bind_Inr)
  have "fmlookup (va_bools v') serve_var = Some False"
    using production_execute [OF assms(1) _ ex] own by simp
  with RunOperator_insecure [OF run] show ?thesis
    by (simp add: manageRoute_eq) (simp add: desired_route_def operand_container_def)
qed

text \<open>Inherited flags that do not get in the way: as those of klog they leave \<open>help\<close>, \<open>h\<close> and the variable alone.\<close>

definition unobtrusive :: "flag list \<Rightarrow> bool" where
  "unobtrusive inherited \<longleftrightarrow>
     (\<forall>fl\<in>set inherited. fl_Value fl \<noteq> BoolVar serve_var \<and> fl_Shorthand fl \<noteq> Some CHR ''h'' \<and>
        WordSepNormalizeFunc (fl_Name fl) \<notin> {''help'', http_flag}) \<and>
     distinct (filter (\<lambda>s. s \<noteq> None) (map fl_Shorthand inherited))"

lemma AddFlag_shorthand:
  "AddFlag fl fs = Inr fs' \<Longrightarrow> fmdom' (fs_shorthands fs') = fmdom' (fs_shorthands fs) \<union> set_option (fl_Shorthand fl)"
  by (auto simp: AddFlag_def Let_def split: if_splits option.splits)

lemma AddFlagSet_succeeds:
  "distinct (filter (\<lambda>s. s \<noteq> None) (map fl_Shorthand newSet)) \<Longrightarrow>
   (\<forall>fl\<in>set newSet. \<forall>ch\<in>set_option (fl_Shorthand fl). ch \<notin> fmdom' (fs_shorthands fs) \<and> ch \<noteq> h) \<Longrightarrow>
   h \<notin> fmdom' (fs_shorthands fs) \<Longrightarrow>
   \<exists>fs'. AddFlagSet newSet fs = Inr fs' \<and> h \<notin> fmdom' (fs_shorthands fs')"
proof (induction newSet arbitrary: fs)
  case (Cons f newSet)
  show ?case
  proof (cases "WordSepNormalizeFunc (fl_Name f) \<in> fmdom' (fs_formal fs)")
    case True
    with Cons show ?thesis by (auto split: if_splits)
  next
    case False
    with Cons.prems(2) obtain fs1 where fs1: "AddFlag f fs = Inr fs1"
      by (cases "fl_Shorthand f") (auto simp: AddFlag_def Let_def)
    have later: "ch \<notin> fmdom' (fs_shorthands fs1) \<and> ch \<noteq> h"
      if "fl \<in> set newSet" "ch \<in> set_option (fl_Shorthand fl)" for fl ch
    proof -
      have "Some ch \<in> set (filter (\<lambda>s. s \<noteq> None) (map fl_Shorthand newSet))" using that by force
      with Cons.prems(1) have "fl_Shorthand f \<noteq> Some ch" by (auto split: if_splits)
      with that Cons.prems(2) AddFlag_shorthand [OF fs1] show ?thesis by auto
    qed
    have "h \<notin> fmdom' (fs_shorthands fs1)"
      using Cons.prems(2,3) AddFlag_shorthand [OF fs1] by auto
    with Cons.IH [of fs1] later Cons.prems(1) fs1 False show ?thesis by (auto split: if_splits)
  qed
qed simp

lemma InitDefaultHelpFlag_unobtrusive:
  assumes "unobtrusive inherited" and "fs_shorthands fs = fmempty" and "''help'' \<notin> fmdom' (fs_formal fs)"
  shows "\<exists>fs'. InitDefaultHelpFlag inherited (fs, v) = Inr (fs', v\<lparr>va_bools := fmupd ''help'' False (va_bools v)\<rparr>) \<and>
    fmlookup (fs_formal fs') http_flag = fmlookup (fs_formal fs) http_flag \<and>
    map_option fl_Value (fmlookup (fs_formal fs') ''help'') = Some (BoolVar ''help'')"
proof -
  obtain fs1 where fs1: "AddFlagSet inherited fs = Inr fs1" and h: "CHR ''h'' \<notin> fmdom' (fs_shorthands fs1)"
    using AddFlagSet_succeeds [of inherited fs "CHR ''h''"] assms(1,2) by (auto simp: unobtrusive_def)
  have new: "''help'' \<notin> fmdom' (fs_formal fs1)"
    using AddFlagSet_new [OF fs1, of "''help''"] assms(1,3) by (fastforce simp: unobtrusive_def fmlookup_dom'_iff)
  have http: "fmlookup (fs_formal fs1) http_flag = fmlookup (fs_formal fs) http_flag"
  proof (cases "fmlookup (fs_formal fs1) http_flag")
    case None
    then show ?thesis using AddFlagSet_keeps [OF fs1, of http_flag] by (cases "fmlookup (fs_formal fs) http_flag") auto
  next
    case (Some fl)
    with AddFlagSet_new [OF fs1 Some] assms(1) show ?thesis by (auto simp: unobtrusive_def)
  qed
  show ?thesis
    by (simp add: InitDefaultHelpFlag_def fs1 new BoolVarP_def AddFlag_def WordSepNormalizeFunc_def h Let_def http)
      (simp add: http_flag_def)
qed

definition http_argument :: "string \<Rightarrow> string" where
  "http_argument val = ''--'' @ http_flag @ ''='' @ val"

lemma parse_http_argument:
  "parseArgs fs [http_argument val] v =
     (case fmlookup (fs_formal fs) http_flag of
        None \<Rightarrow> (Some (ErrorString (''unknown flag: --'' @ http_flag)), v)
      | Some fl \<Rightarrow> set_value (fl_Value fl) val v)"
  by (auto simp: http_argument_def http_flag_def parseLongArg_def split_assignment_def WordSepNormalizeFunc_def after_set_def Let_def
      split: option.split prod.split)

text \<open>C35: the flag belongs to the testing binary. There \<open>--serve-artifacts-in-http=val\<close> runs the operator with the
  boolean \<open>val\<close> reads as, or is an error if it is none; without arguments both binaries run it without plain
  HTTP; the shipped binary does not know the flag.\<close>

theorem http_flag_by_binary:
  assumes "unobtrusive inherited"
  shows "run_binary NewTestingOperatorCommand inherited d [http_argument val] protoConfig config now =
      (case ParseBool val of
         Some b \<Rightarrow> RunOperator d protoConfig config b now
       | None \<Rightarrow> Inl (ErrorString (''invalid argument '' @ val))) \<and>
    run_binary NewCLIManagerOperatorCommand inherited d [http_argument val] protoConfig config now =
      Inl (ErrorString (''unknown flag: --'' @ http_flag)) \<and>
    run_binary NewTestingOperatorCommand inherited d [] protoConfig config now = RunOperator d protoConfig config False now \<and>
    run_binary NewCLIManagerOperatorCommand inherited d [] protoConfig config now = RunOperator d protoConfig config False now"
proof -
  have distinct: "serve_var \<noteq> ''help''" "http_flag \<noteq> ''help''" by (simp_all add: serve_var_def http_flag_def)
  obtain fs v where op: "NewOperator True no_vars =
      Inr (Command ''operator'' ''Start the Cluster CLI Manager Operator'' fs [], v)"
    and own: "fmlookup (va_bools v) serve_var = Some False" "fs_shorthands fs = fmempty" "''help'' \<notin> fmdom' (fs_formal fs)"
    and http: "map_option fl_Value (fmlookup (fs_formal fs) http_flag) = Some (BoolVar serve_var)"
    using NewOperator_flags [of True] distinct by auto
  obtain fs0 v0 where op0: "NewOperator False no_vars =
      Inr (Command ''operator'' ''Start the Cluster CLI Manager Operator'' fs0 [], v0)"
    and own0: "fmlookup (va_bools v0) serve_var = Some False" "fs_shorthands fs0 = fmempty" "''help'' \<notin> fmdom' (fs_formal fs0)"
      "http_flag \<notin> fmdom' (fs_formal fs0)"
    using NewOperator_flags [of False] by (auto simp: http_flag_def)
  obtain fs' where init: "InitDefaultHelpFlag inherited (fs, v) = Inr (fs', v\<lparr>va_bools := fmupd ''help'' False (va_bools v)\<rparr>)"
    and fs': "map_option fl_Value (fmlookup (fs_formal fs') http_flag) = Some (BoolVar serve_var)"
      "map_option fl_Value (fmlookup (fs_formal fs') ''help'') = Some (BoolVar ''help'')"
    using InitDefaultHelpFlag_unobtrusive [OF assms own(2,3), of v] http by auto
  obtain fs0' where init0: "InitDefaultHelpFlag inherited (fs0, v0) = Inr (fs0', v0\<lparr>va_bools := fmupd ''help'' False (va_bools v0)\<rparr>)"
    and fs0': "fmlookup (fs_formal fs0') http_flag = None"
      "map_option fl_Value (fmlookup (fs_formal fs0') ''help'') = Some (BoolVar ''help'')"
    using InitDefaultHelpFlag_unobtrusive [OF assms own0(2,3), of v0] own0(4) by auto
  note run = run_binary_def NewTestingOperatorCommand_def NewCLIManagerOperatorCommand_def op op0 execute_def init init0
    parse_http_argument help_requested_def
  have "run_binary NewTestingOperatorCommand inherited d [http_argument val] protoConfig config now =
      (case ParseBool val of
         Some b \<Rightarrow> RunOperator d protoConfig config b now
       | None \<Rightarrow> Inl (ErrorString (''invalid argument '' @ val)))"
    using fs' distinct by (auto simp: run set_value_def own(1) split: option.split simp del: parseArgs.simps)
  moreover have "run_binary NewCLIManagerOperatorCommand inherited d [http_argument val] protoConfig config now =
      Inl (ErrorString (''unknown flag: --'' @ http_flag))"
    by (simp add: run fs0' del: parseArgs.simps)
  moreover have "run_binary NewTestingOperatorCommand inherited d [] protoConfig config now = RunOperator d protoConfig config False now"
    using fs' distinct by (auto simp: run own(1))
  moreover have "run_binary NewCLIManagerOperatorCommand inherited d [] protoConfig config now = RunOperator d protoConfig config False now"
    using fs0' distinct by (auto simp: run own0(1))
  ultimately show ?thesis by blast
qed

section \<open>A run of the binaries\<close>

definition sample_deps :: "(tracker, unit) operator_deps" where
  "sample_deps =
     \<lparr>od_net = sample_net,
      od_kube = (\<lambda>_. Inr \<lparr>kc_roles = rec_roles sample_reconciler, kc_roleBindings = rec_roleBindings sample_reconciler,
        kc_clusterRoles = rec_clusterRoles sample_reconciler,
        kc_clusterRoleBindings = rec_clusterRoleBindings sample_reconciler,
        kc_serviceAccounts = rec_serviceAccounts sample_reconciler, kc_services = rec_services sample_reconciler,
        kc_networkPolicies = rec_networkPolicies sample_reconciler, kc_deployments = rec_deployments sample_reconciler\<rparr>),
      od_dynamic = (\<lambda>_. Inr (rec_dynamicClient sample_reconciler)),
      od_route = (\<lambda>_. Inr (rec_routes sample_reconciler)),
      od_getenv = (\<lambda>_. ''image''),
      od_hashes = \<lparr>hf_serviceHash = (\<lambda>_. Inr []), hf_deploymentHash = (\<lambda>_. Inr []), hf_serviceSum = (\<lambda>_. []),
        hf_serviceAccountSum = (\<lambda>_. []), hf_policySum = (\<lambda>_. []), hf_unstructuredSum = (\<lambda>_. []), hf_uuid = []\<rparr>,
      od_versioned = (\<lambda>_. \<lparr>ver_list = (\<lambda>_ _ w. (Inr \<lparr>cml_resourceVersion = [], cml_items = []\<rparr>, w)),
        ver_watch = (\<lambda>_ _ w. (Inr 0, w)),
        ver_watchListUnsupported = False\<rparr>),
      od_climanagers = (\<lambda>_. fake_climanagers (\<lambda>cm _. Inr cm) (\<lambda>_ _ cm. Inr cm))\<rparr>"

definition v_flag :: flag where
  "v_flag = \<lparr>fl_Name = ''v'', fl_Shorthand = Some CHR ''v'', fl_NoOptDefVal = [], fl_Hidden = False,
     fl_Value = StringVar ''klog.v''\<rparr>"

lemma sample_runs: "\<exists>run. RunOperator sample_deps sample_rest sample_rest http now = Inr run"
  by (simp add: RunOperator_eq sample_deps_def NewForConfig_def NewForConfigAndClient_def group_client discovery_client
      sample_net_def sample_rest_def Let_def)

lemma v_flag_unobtrusive: "unobtrusive [v_flag]"
  by (simp add: unobtrusive_def v_flag_def WordSepNormalizeFunc_def http_flag_def)

theorem http_flag_by_binary_witness:
  "\<exists>run. run_binary NewTestingOperatorCommand [v_flag] sample_deps [http_argument ''true''] sample_rest sample_rest 0 =
     Inr run \<and> rec_insecureHTTP (ro_reconciler run)"
proof -
  obtain run where run: "RunOperator sample_deps sample_rest sample_rest True 0 = Inr run" using sample_runs by blast
  with http_flag_by_binary [OF v_flag_unobtrusive, of sample_deps "''true''" sample_rest sample_rest 0]
    RunOperator_insecure [OF run]
  show ?thesis by (simp add: ParseBool_def)
qed

theorem production_serves_https_witness:
  "\<exists>run. run_binary NewCLIManagerOperatorCommand [v_flag] sample_deps [] sample_rest sample_rest 0 = Inr run \<and>
     \<not> rec_insecureHTTP (ro_reconciler run)"
proof -
  have flags: "\<forall>fl\<in>set [v_flag]. fl_Value fl \<noteq> BoolVar serve_var" by (simp add: v_flag_def)
  obtain fs v where op: "NewOperator False no_vars =
      Inr (Command ''operator'' ''Start the Cluster CLI Manager Operator'' fs [], v)"
    and own: "fmlookup (va_bools v) serve_var = Some False" "fs_shorthands fs = fmempty" "''help'' \<notin> fmdom' (fs_formal fs)"
    using NewOperator_flags [of False] by (auto simp: http_flag_def)
  obtain run where run: "run_binary NewCLIManagerOperatorCommand [v_flag] sample_deps [] sample_rest sample_rest 0 = Inr run"
    using InitDefaultHelpFlag_unobtrusive [OF v_flag_unobtrusive own(2,3), of v] op own(1) sample_runs [of False 0]
    by (auto simp: run_binary_def NewCLIManagerOperatorCommand_def execute_def help_requested_def serve_var_def)
  with production_serves_https [OF flags run] show ?thesis by blast
qed

end
