(* ===== verification/Test_Binary.thy ===== *)
theory Test_Binary
  imports Command_Line
begin

text \<open>
  The version of a build (\<^verbatim>\<open>pkg/version\<close>) with the metric that tells it, and the binary that offers
  the end-to-end tests to \<^verbatim>\<open>openshift-tests\<close> (\<^verbatim>\<open>cmd/cli-manager-operator-tests-ext\<close>, with the registry of
  \<^verbatim>\<open>openshift-tests-extension/pkg/extension\<close>). The tests, which ginkgo collects, the registration of
  a metric with prometheus and the commands the extension framework adds are parameters.
\<close>

section \<open>The version\<close>

text \<open>The variables the linker sets.\<close>

record build_vars =
  commitFromGit :: string
  versionFromGit :: string
  majorFromGit :: string
  minorFromGit :: string
  buildDate :: string

text \<open>The fields of \<^verbatim>\<open>version.Info\<close> that are set; the others are empty.\<close>

record version_info =
  vi_Major :: string
  vi_Minor :: string
  vi_GitVersion :: string
  vi_GitCommit :: string
  vi_BuildDate :: string

definition version_Get :: "build_vars \<Rightarrow> version_info" where
  "version_Get b =
     \<lparr>vi_Major = majorFromGit b, vi_Minor = minorFromGit b, vi_GitVersion = versionFromGit b,
      vi_GitCommit = commitFromGit b, vi_BuildDate = buildDate b\<rparr>"

definition version_String :: "version_info \<Rightarrow> string" where
  "version_String info = vi_GitVersion info"

text \<open>A vector of gauges: its options, the names of its labels and the values that were set.\<close>

record gauge_vec =
  gv_Name :: string
  gv_Help :: string
  gv_labels :: "string list"
  gv_values :: "(string list \<times> int) list"

definition version_init :: "(gauge_vec \<Rightarrow> 'r \<Rightarrow> go_error option \<times> 'r) \<Rightarrow> build_vars \<Rightarrow> 'r \<Rightarrow> go_error option \<times> 'r" where
  "version_init mustRegister b =
     mustRegister
       \<lparr>gv_Name = ''openshift_cli_manager_operator_build_info'',
        gv_Help = ''A metric with a constant '' @ [CHR 0x27] @ ''1'' @ [CHR 0x27] @
          '' value labeled by major, minor, git commit & git version from which OpenShift CLI Manager Operator was built.'',
        gv_labels = [''major'', ''minor'', ''gitCommit'', ''gitVersion''],
        gv_values = [([majorFromGit b, minorFromGit b, commitFromGit b, versionFromGit b], 1)]\<rparr>"

section \<open>Extensions\<close>

record component =
  co_Product :: string
  co_Kind :: string
  co_Name :: string

definition Identifier :: "component \<Rightarrow> string" where
  "Identifier e = co_Product e @ '':'' @ co_Kind e @ '':'' @ co_Name e"

record suite =
  su_Name :: string
  su_Qualifiers :: "string list"
  su_Parallelism :: int

text \<open>Of a test its name and its source.\<close>

record test_spec =
  ts_Name :: string
  ts_Source :: string

record extension =
  ex_Component :: component
  ex_Suites :: "suite list"
  ex_specs :: "test_spec list"

definition NewExtension :: "string \<Rightarrow> string \<Rightarrow> string \<Rightarrow> extension" where
  "NewExtension product kind name =
     \<lparr>ex_Component = \<lparr>co_Product = product, co_Kind = kind, co_Name = name\<rparr>, ex_Suites = [], ex_specs = []\<rparr>"

definition AddSpecs :: "test_spec list \<Rightarrow> extension \<Rightarrow> extension" where
  "AddSpecs specs e =
     e\<lparr>ex_specs := ex_specs e @ map (\<lambda>spec. spec\<lparr>ts_Source := Identifier (ex_Component e)\<rparr>) specs\<rparr>"

definition AddGlobalSuite :: "suite \<Rightarrow> extension \<Rightarrow> extension" where
  "AddGlobalSuite s e = e\<lparr>ex_Suites := ex_Suites e @ [s]\<rparr>"

text \<open>The quotation is that of an identifier without special characters.\<close>

definition AddSuite :: "suite \<Rightarrow> extension \<Rightarrow> extension" where
  "AddSuite s e =
     (let expr = ''source == '' @ [CHR 0x22] @ Identifier (ex_Component e) @ [CHR 0x22] in
      AddGlobalSuite
        (s\<lparr>su_Qualifiers :=
           (if su_Qualifiers s = [] then [expr]
            else map (\<lambda>q. ''('' @ expr @ '') && ('' @ q @ '')'') (su_Qualifiers s))\<rparr>) e)"

text \<open>The first extension is the default.\<close>

type_synonym ext_registry = "(string, extension) fmap"

definition NewRegistry :: ext_registry where "NewRegistry = fmempty"

definition DefaultExtension :: string where "DefaultExtension = ''default''"

definition RegisterExtension :: "extension \<Rightarrow> ext_registry \<Rightarrow> ext_registry" where
  "RegisterExtension e r =
     fmupd (Identifier (ex_Component e)) e (if r = fmempty then fmupd DefaultExtension e r else r)"

section \<open>The binary\<close>

definition prepareOperatorTestsRegistry :: "go_error + test_spec list \<Rightarrow> go_error + ext_registry" where
  "prepareOperatorTestsRegistry buildSpecs =
     (let e = AddSuite
        \<lparr>su_Name = ''openshift/cli-manager-operator/operator/serial'',
         su_Qualifiers = [''name.contains('' @ [CHR 0x22] @ ''[Operator]'' @ [CHR 0x22] @ '') && name.contains('' @
           [CHR 0x22] @ ''[Serial]'' @ [CHR 0x22] @ '')''],
         su_Parallelism = 1\<rparr> (NewExtension ''openshift'' ''payload'' ''cli-manager-operator'') in
      case buildSpecs of
        Inl err \<Rightarrow> Inl (WrappedError (''couldn'' @ [CHR 0x27] @ ''t build extension test specs from ginkgo'') err)
      | Inr specs \<Rightarrow> Inr (RegisterExtension (AddSpecs specs e) NewRegistry))"

text \<open>The command, its version and its registry.\<close>

definition newOperatorTestCommand ::
  "go_error + test_spec list \<Rightarrow> (ext_registry \<Rightarrow> command list) \<Rightarrow> build_vars \<Rightarrow> go_error + command \<times> string" where
  "newOperatorTestCommand buildSpecs defaultExtensionCommands b =
     (case prepareOperatorTestsRegistry buildSpecs of
        Inl err \<Rightarrow> Inl (WrappedError ''failed to prepare operator tests registry'' err)
      | Inr registry \<Rightarrow>
          (let v = version_String (version_Get b) in
           Inr (Command ''cli-manager-operator-tests-ext'' ''A binary used to run cli-manager-operator tests as part of OTE.''
              \<lparr>fs_formal = fmempty, fs_shorthands = fmempty\<rparr> (defaultExtensionCommands registry),
             if length v = 0 then ''<unknown>'' else v)))"

text \<open>The command exists exactly if ginkgo gives the tests. Then the registry has them all, in order and with the
  component as their source, and its one suite asks for that source.\<close>

lemma newOperatorTestCommand_cases:
  "case buildSpecs of
     Inl err \<Rightarrow> \<exists>msg msg'. newOperatorTestCommand buildSpecs cmds b = Inl (WrappedError msg (WrappedError msg' err))
   | Inr specs \<Rightarrow> \<exists>registry e s cmd v.
       prepareOperatorTestsRegistry buildSpecs = Inr registry \<and>
       fmlookup registry ''openshift:payload:cli-manager-operator'' = Some e \<and> fmlookup registry DefaultExtension = Some e \<and>
       ex_specs e = map (\<lambda>spec. spec\<lparr>ts_Source := ''openshift:payload:cli-manager-operator''\<rparr>) specs \<and>
       ex_Suites e = [s] \<and>
       list_all (prefix (''(source == '' @ [CHR 0x22] @ ''openshift:payload:cli-manager-operator'' @ [CHR 0x22] @ '') && ''))
         (su_Qualifiers s) \<and>
       newOperatorTestCommand buildSpecs cmds b = Inr (cmd, v) \<and> cmd_commands cmd = cmds registry \<and> v \<noteq> []"
proof (cases buildSpecs)
  case (Inr specs)
  show ?thesis unfolding Inr
    by (simp add: newOperatorTestCommand_def prepareOperatorTestsRegistry_def RegisterExtension_def AddSpecs_def AddSuite_def
        AddGlobalSuite_def NewExtension_def NewRegistry_def Identifier_def DefaultExtension_def Let_def)
qed (simp add: newOperatorTestCommand_def prepareOperatorTestsRegistry_def)

end
