(* ===== verification/Apply_Schema.thy ===== *)
theory Apply_Schema
  imports Scheme_Types Fake_Clientset
begin

text \<open>
  The schema of the apply configurations (\<^verbatim>\<open>pkg/generated/applyconfiguration/internal\<close>) and what uses
  it: the parser that is made once for the process, the extraction of applied fields, and the converter of
  objects to typed values for the fake clientset (\<^verbatim>\<open>applyconfiguration/utils.go\<close>, apimachinery
  \<^verbatim>\<open>managedfields/internal/runtimetypeconverter.go\<close>). The types of a schema, their resolution and the
  validation of values against them are those of \<^verbatim>\<open>structured-merge-diff\<close> (\<^verbatim>\<open>schema/elements.go\<close>,
  \<^verbatim>\<open>typed/validate.go\<close>, \<^verbatim>\<open>typed/helpers.go\<close>). Its \<^verbatim>\<open>NewParser\<close>, which reads YAML, is a parameter; an
  object is given by its JSON form. The messages of validation errors are the constructors of \<open>complaint\<close>.
\<close>

section \<open>Schemas\<close>

text \<open>Scalar types and element relationships are strings. The unions of a map are not used in validation.\<close>

datatype atom = Atom "string option" "list_type option" "map_type option"
  and list_type = ListType type_ref string "string list"
  and map_type = MapType "struct_field list" type_ref string
  and struct_field = StructField string type_ref "json option"
  and type_ref = TypeRef "string option" atom "string option" bool

type_synonym smd_schema = "(string \<times> atom) list"

definition NoAtom :: atom where "NoAtom = Atom None None None"

definition NoTypeRef :: type_ref where "NoTypeRef = TypeRef None NoAtom None False"

definition Named :: "string \<Rightarrow> type_ref" where "Named name = TypeRef (Some name) NoAtom None False"

text \<open>Of two types with one name the later counts.\<close>

definition FindNamedType :: "smd_schema \<Rightarrow> string \<Rightarrow> atom option" where
  "FindNamedType s name = map_of (rev s) name"

definition resolveNoOverrides :: "smd_schema \<Rightarrow> type_ref \<Rightarrow> atom option" where
  "resolveNoOverrides s tr =
     (case tr of TypeRef name inlined _ _ \<Rightarrow> (case name of Some n \<Rightarrow> FindNamedType s n | None \<Rightarrow> Some inlined))"

definition Resolve :: "smd_schema \<Rightarrow> type_ref \<Rightarrow> atom option" where
  "Resolve s tr =
     (case tr of TypeRef _ _ relationship _ \<Rightarrow>
        (case relationship of
           None \<Rightarrow> resolveNoOverrides s tr
         | Some r \<Rightarrow>
             (case resolveNoOverrides s tr of
                None \<Rightarrow> None
              | Some (Atom sc li (Some (MapType flds el _))) \<Rightarrow> Some (Atom sc li (Some (MapType flds el r)))
              | Some (Atom sc (Some (ListType el _ keys)) None) \<Rightarrow> Some (Atom sc (Some (ListType el r keys)) None)
              | Some (Atom _ None None) \<Rightarrow> None)))"

section \<open>Validation\<close>

text \<open>Two numbers are the same item of a set if they are written the same.\<close>

datatype path_element = FieldName string | ItemIndex nat | ItemKeys "(string \<times> json) list" | ItemValue json

datatype complaint =
    NoTypeFound string | InvalidAtom string | ExpectedScalar string | UnexpectedScalarType string
  | ExpectedList | ExpectedMap | NotDeclared | BadElement nat string | DuplicateKey path_element

type_synonym validation_error = "path_element list \<times> complaint"

definition with_prefix :: "path_element \<Rightarrow> validation_error list \<Rightarrow> validation_error list" where
  "with_prefix pe errs = map (\<lambda>(path, c). (pe # path, c)) errs"

fun is_scalar :: "json \<Rightarrow> bool" where
  "is_scalar (JBool _) = True"
| "is_scalar (JInt _) = True"
| "is_scalar (JFloat _) = True"
| "is_scalar (JStr _) = True"
| "is_scalar _ = False"

definition scalar_allows :: "string \<Rightarrow> json \<Rightarrow> bool option" where
  "scalar_allows t v =
     (if t = ''numeric'' then Some (case v of JInt _ \<Rightarrow> True | JFloat _ \<Rightarrow> True | _ \<Rightarrow> False)
      else if t = ''string'' then Some (case v of JStr _ \<Rightarrow> True | _ \<Rightarrow> False)
      else if t = ''boolean'' then Some (case v of JBool _ \<Rightarrow> True | _ \<Rightarrow> False)
      else if t = ''untyped'' then Some (is_scalar v)
      else None)"

definition validateScalar :: "string \<Rightarrow> json \<Rightarrow> validation_error list" where
  "validateScalar t v =
     (if v = JNull then []
      else case scalar_allows t v of
        Some True \<Rightarrow> [] | Some False \<Rightarrow> [([], ExpectedScalar t)] | None \<Rightarrow> [([], UnexpectedScalarType t)])"

fun deduceAtom :: "atom \<Rightarrow> json \<Rightarrow> atom" where
  "deduceAtom (Atom sc li ma) v =
     (if is_scalar v \<and> sc \<noteq> None then Atom sc None None
      else case v of
        JArr _ \<Rightarrow> (if li \<noteq> None then Atom None li None else Atom sc li ma)
      | JObj _ \<Rightarrow> (if ma \<noteq> None then Atom None None ma else Atom sc li ma)
      | _ \<Rightarrow> Atom sc li ma)"

definition FindField :: "struct_field list \<Rightarrow> string \<Rightarrow> struct_field option" where
  "FindField flds name = map_of (rev (map (\<lambda>f. case f of StructField n _ _ \<Rightarrow> (n, f)) flds)) name"

subsection \<open>Keys of associative lists\<close>

definition getAssociativeKeyDefault :: "smd_schema \<Rightarrow> type_ref \<Rightarrow> string \<Rightarrow> string + json option" where
  "getAssociativeKeyDefault s elementType fieldName =
     (case Resolve s elementType of
        None \<Rightarrow> Inl ''invalid elementType for list''
      | Some (Atom _ _ None) \<Rightarrow> Inl ''associative list may not have non-map types''
      | Some (Atom _ _ (Some (MapType flds _ _))) \<Rightarrow>
          Inr (case FindField flds fieldName of Some (StructField _ _ d) \<Rightarrow> d | None \<Rightarrow> None))"

fun item_keys :: "smd_schema \<Rightarrow> type_ref \<Rightarrow> json_map \<Rightarrow> string list \<Rightarrow> string + (string \<times> json) list" where
  "item_keys s elementType m [] = Inr []"
| "item_keys s elementType m (fieldName # names) =
     (case fmlookup m fieldName of
        Some v \<Rightarrow> map_sum id (Cons (fieldName, v)) (item_keys s elementType m names)
      | None \<Rightarrow>
          (case getAssociativeKeyDefault s elementType fieldName of
             Inl err \<Rightarrow> Inl (''couldn't find default value for '' @ fieldName @ '': '' @ err)
           | Inr (Some d) \<Rightarrow> map_sum id (Cons (fieldName, d)) (item_keys s elementType m names)
           | Inr None \<Rightarrow> item_keys s elementType m names))"

definition keyedItemToPathElement :: "smd_schema \<Rightarrow> type_ref \<Rightarrow> string list \<Rightarrow> json \<Rightarrow> string + path_element" where
  "keyedItemToPathElement s elementType keys child =
     (case child of
        JNull \<Rightarrow> Inl ''associative list with keys may not have a null element''
      | JObj m \<Rightarrow>
          (case item_keys s elementType m keys of
             Inl err \<Rightarrow> Inl err
           | Inr keyMap \<Rightarrow>
               if keys \<noteq> [] \<and> keyMap = [] then Inl ''associative list with keys has an element that omits all key fields''
               else Inr (ItemKeys (sort_key fst keyMap)))
      | _ \<Rightarrow> Inl ''associative list with keys may not have non-map elements'')"

definition setItemToPathElement :: "json \<Rightarrow> string + path_element" where
  "setItemToPathElement child =
     (case child of
        JObj _ \<Rightarrow> Inl ''associative list without keys has an element that's a map type''
      | JArr _ \<Rightarrow> Inl ''not supported: associative list with lists as elements''
      | JNull \<Rightarrow> Inl ''associative list without keys has an element that's an explicit null''
      | _ \<Rightarrow> Inr (ItemValue child))"

definition listItemToPathElement :: "smd_schema \<Rightarrow> list_type \<Rightarrow> json \<Rightarrow> string + path_element" where
  "listItemToPathElement s t child =
     (case t of ListType el relationship keys \<Rightarrow>
        if relationship \<noteq> ''associative'' then Inl ''invalid indexing of non-associative list''
        else if keys \<noteq> [] then keyedItemToPathElement s el keys child
        else setItemToPathElement child)"

subsection \<open>The walk\<close>

text \<open>The loops over the items of a list and the entries of a map, with the validation of a child as argument. An element
  without a key ends the first, an undeclared field the second. Duplicates are not allowed.\<close>

fun visitListItems ::
  "(type_ref \<Rightarrow> json \<Rightarrow> validation_error list) \<Rightarrow> smd_schema \<Rightarrow> list_type \<Rightarrow> nat \<Rightarrow> path_element list \<Rightarrow> json list \<Rightarrow>
   validation_error list" where
  "visitListItems child_errs s t i observed [] = []"
| "visitListItems child_errs s t i observed (child # rest) =
     (case t of ListType el relationship keys \<Rightarrow>
        if relationship \<noteq> ''associative'' then
          with_prefix (ItemIndex i) (child_errs el child) @ visitListItems child_errs s t (i + 1) observed rest
        else
          (case listItemToPathElement s t child of
             Inl err \<Rightarrow> [([], BadElement i err)]
           | Inr pe \<Rightarrow>
               (if pe \<in> set observed then [([], DuplicateKey pe)] else []) @
               with_prefix pe (child_errs el child) @ visitListItems child_errs s t (i + 1) (pe # observed) rest))"

fun visitMapItems ::
  "(type_ref \<Rightarrow> json \<Rightarrow> validation_error list) \<Rightarrow> map_type \<Rightarrow> (string \<times> json) list \<Rightarrow> validation_error list" where
  "visitMapItems child_errs t [] = []"
| "visitMapItems child_errs t ((key, v) # rest) =
     (case t of MapType flds el _ \<Rightarrow>
        (case FindField flds key of
           Some (StructField _ tr _) \<Rightarrow> with_prefix (FieldName key) (child_errs tr v) @ visitMapItems child_errs t rest
         | None \<Rightarrow>
             if el = NoTypeRef then [([FieldName key], NotDeclared)]
             else with_prefix (FieldName key) (child_errs el v) @ visitMapItems child_errs t rest))"

lemma visitListItems_cong [fundef_cong]:
  "xs = xs' \<Longrightarrow> s = s' \<Longrightarrow> t = t' \<Longrightarrow> i = i' \<Longrightarrow> obs = obs' \<Longrightarrow> (\<And>tr x. x \<in> set xs' \<Longrightarrow> f tr x = g tr x) \<Longrightarrow>
     visitListItems f s t i obs xs = visitListItems g s' t' i' obs' xs'"
  by (induction xs arbitrary: xs' i i' obs obs') (auto split: list_type.split sum.split)

lemma visitMapItems_cong [fundef_cong]:
  "es = es' \<Longrightarrow> t = t' \<Longrightarrow> (\<And>tr k v. (k, v) \<in> set es' \<Longrightarrow> f tr v = g tr v) \<Longrightarrow>
     visitMapItems f t es = visitMapItems g t' es'"
proof (induction es arbitrary: es')
  case (Cons e es)
  obtain k v where e: "e = (k, v)" by (cases e)
  have "f tr v = g tr v" for tr using Cons.prems(3) [of k v] Cons.prems(1) by (auto simp: e)
  moreover have "visitMapItems f t es = visitMapItems g t' es"
    by (rule Cons.IH [OF refl Cons.prems(2)]) (rule Cons.prems(3), unfold Cons.prems(1) [symmetric], erule list.set_intros(2))
  ultimately show ?case
    using Cons.prems(1,2) by (auto simp: e split: map_type.split option.split struct_field.split)
qed simp

lemma entry_size:
  assumes "(k, v) \<in> set (range_entries m)"
  shows "size v < size (JObj m)"
proof -
  have "fmlookup m k = Some v" using map_of_eq_Some_iff [OF distinct_range_entries, of m k v] assms by simp
  then have "(k, v) \<in> fset (fset_of_fmap m)" by simp
  then have "Suc (size v) \<le> sum (Suc \<circ> (\<lambda>(a, b). 0 + size b)) (fset (fset_of_fmap m))"
    by (intro order_trans [OF _ member_le_sum [of "(k, v)"]]) auto
  then show ?thesis by (simp add: size_fset_def)
qed

lemma item_size: "x \<in> set xs \<Longrightarrow> size x < size (JArr xs)"
  by (induction xs) auto

definition type_name :: "type_ref \<Rightarrow> string" where
  "type_name tr = (case tr of TypeRef (Some n) _ _ _ \<Rightarrow> n | _ \<Rightarrow> ''inlined type'')"

function validate :: "smd_schema \<Rightarrow> type_ref \<Rightarrow> json \<Rightarrow> validation_error list" where
  "validate s tr v =
     (case Resolve s tr of
        None \<Rightarrow> [([], NoTypeFound (type_name tr))]
      | Some a \<Rightarrow>
          (case deduceAtom a v of
             Atom _ _ (Some t) \<Rightarrow>
               (case v of JNull \<Rightarrow> [] | JObj m \<Rightarrow> visitMapItems (validate s) t (range_entries m) | _ \<Rightarrow> [([], ExpectedMap)])
           | Atom (Some t) _ None \<Rightarrow> validateScalar t v
           | Atom None (Some t) None \<Rightarrow>
               (case v of JNull \<Rightarrow> [] | JArr xs \<Rightarrow> visitListItems (validate s) s t 0 [] xs | _ \<Rightarrow> [([], ExpectedList)])
           | Atom None None None \<Rightarrow> [([], InvalidAtom (type_name tr))]))"
  by pat_completeness auto
termination
  by (relation "measure (\<lambda>(s, tr, v). size v)") (auto dest: entry_size item_size simp del: json.size)

declare validate.simps [simp del]

section \<open>Parsers\<close>

text \<open>A parser is its schema, a parseable type a schema and a reference to one of its types. A typed value is
  the value with its type. The functions panic for the parser \<open>nil\<close>. Of the reflection of a Go object only the JSON
  it stands for is kept.\<close>

type_synonym parseable_type = "smd_schema \<times> type_ref"
type_synonym typed_value = "json \<times> type_ref \<times> smd_schema"

definition ParserType :: "smd_schema option \<Rightarrow> string \<Rightarrow> go_error + parseable_type" where
  "ParserType p name =
     (case p of
        None \<Rightarrow> Inl (Panic ''runtime error: invalid memory address or nil pointer dereference'')
      | Some s \<Rightarrow> Inr (s, Named name))"

text \<open>The text of a list of validation errors is a parameter.\<close>

definition AsTyped :: "(validation_error list \<Rightarrow> string) \<Rightarrow> json \<Rightarrow> parseable_type \<Rightarrow> go_error + typed_value" where
  "AsTyped say v t =
     (case t of (s, tr) \<Rightarrow>
        if validate s tr v \<noteq> [] then Inl (ErrorString (say (validate s tr v))) else Inr (v, tr, s))"

subsection \<open>The parser of the process\<close>

definition schemaYAML :: string where
  "schemaYAML = concat (map (\<lambda>l. l @ [CHR 0x0A])
     [''types:'',
      ''- name: com.github.openshift.cli-manager-operator.pkg.apis.climanager.v1.CliManager'',
      ''  scalar: untyped'',
      ''  list:'',
      ''    elementType:'',
      ''      namedType: __untyped_atomic_'',
      ''    elementRelationship: atomic'',
      ''  map:'',
      ''    elementType:'',
      ''      namedType: __untyped_deduced_'',
      ''    elementRelationship: separable'',
      ''- name: __untyped_atomic_'',
      ''  scalar: untyped'',
      ''  list:'',
      ''    elementType:'',
      ''      namedType: __untyped_atomic_'',
      ''    elementRelationship: atomic'',
      ''  map:'',
      ''    elementType:'',
      ''      namedType: __untyped_atomic_'',
      ''    elementRelationship: atomic'',
      ''- name: __untyped_deduced_'',
      ''  scalar: untyped'',
      ''  list:'',
      ''    elementType:'',
      ''      namedType: __untyped_atomic_'',
      ''    elementRelationship: atomic'',
      ''  map:'',
      ''    elementType:'',
      ''      namedType: __untyped_deduced_'',
      ''    elementRelationship: separable''])"

text \<open>What this text says.\<close>

definition climanager_schema :: smd_schema where
  "climanager_schema =
     [(''com.github.openshift.cli-manager-operator.pkg.apis.climanager.v1.CliManager'',
       Atom (Some ''untyped'') (Some (ListType (Named ''__untyped_atomic_'') ''atomic'' []))
         (Some (MapType [] (Named ''__untyped_deduced_'') ''separable''))),
      (''__untyped_atomic_'',
       Atom (Some ''untyped'') (Some (ListType (Named ''__untyped_atomic_'') ''atomic'' []))
         (Some (MapType [] (Named ''__untyped_atomic_'') ''atomic''))),
      (''__untyped_deduced_'',
       Atom (Some ''untyped'') (Some (ListType (Named ''__untyped_atomic_'') ''atomic'' []))
         (Some (MapType [] (Named ''__untyped_deduced_'') ''separable'')))]"

text \<open>The variables \<^verbatim>\<open>parserOnce\<close> and \<^verbatim>\<open>parser\<close>. A \<^verbatim>\<open>sync.Once\<close> whose function panicked is done; the parser is
  \<open>nil\<close> then.\<close>

datatype parser_once = NotDone | Done "smd_schema option"

definition Parser ::
  "(string \<Rightarrow> go_error + smd_schema) \<Rightarrow> parser_once \<Rightarrow> (go_error + smd_schema option) \<times> parser_once" where
  "Parser newParser parserOnce =
     (case parserOnce of
        Done parser \<Rightarrow> (Inr parser, Done parser)
      | NotDone \<Rightarrow>
          (case newParser schemaYAML of
             Inl err \<Rightarrow> (Inl (Panic (''Failed to parse schema: '' @ ErrorText err)), Done None)
           | Inr parser \<Rightarrow> (Inr (Some parser), Done (Some parser))))"

section \<open>Names of types\<close>

fun split_string :: "char \<Rightarrow> string \<Rightarrow> string list" where
  "split_string sep [] = [[]]"
| "split_string sep (c # cs) =
     (if c = sep then [] # split_string sep cs
      else case split_string sep cs of [] \<Rightarrow> [[c]] | part # parts \<Rightarrow> (c # part) # parts)"

fun join_parts :: "char \<Rightarrow> string list \<Rightarrow> string" where
  "join_parts sep [] = []"
| "join_parts sep [part] = part"
| "join_parts sep (part # parts) = part @ sep # join_parts sep parts"

definition reverseParts :: "string \<Rightarrow> string" where
  "reverseParts dotSeparatedName = join_parts CHR ''.'' (rev (split_string CHR ''.'' dotSeparatedName))"

definition toOpenAPIDefinitionName :: "string \<Rightarrow> string" where
  "toOpenAPIDefinitionName name =
     (case split_string CHR ''/'' name of
        [] \<Rightarrow> []
      | part # parts \<Rightarrow>
          join_parts CHR ''.'' ((if CHR ''.'' \<in> set part then reverseParts part else part) # parts))"

text \<open>The type name of an object of a kind. \<open>namer\<close> gives the names that types of other packages give
  themselves (\<^verbatim>\<open>OpenAPIModelName\<close>).\<close>

definition ToOpenAPIDefinitionName ::
  "(go_type \<Rightarrow> string option) \<Rightarrow> type_scheme \<Rightarrow> gvk \<Rightarrow> go_error + string" where
  "ToOpenAPIDefinitionName namer s k =
     (case k of (grp, version, kind) \<Rightarrow>
        if version = [] then Inl (ErrorString (''version is required on all types: '' @ GVKString k))
        else
          (case SchemeNew s k of
             Inl err \<Rightarrow> Inl err
           | Inr example \<Rightarrow>
               (case namer example of
                  Some name \<Rightarrow> Inr name
                | None \<Rightarrow>
                    if example = PointerType (StructType ''k8s.io/apimachinery/pkg/apis/meta/v1/unstructured'' ''Unstructured'') then
                      (if grp = [] \<or> kind = [] then
                         Inl (ErrorString (''unable to convert GroupVersionKind with empty fields to unstructured type to an OpenAPI definition name: '' @ GVKString k))
                       else Inr (reverseParts grp @ ''.'' @ version @ ''.'' @ kind))
                    else
                      (case example of
                         PointerType (StructType pkg name) \<Rightarrow> Inr (toOpenAPIDefinitionName (pkg @ ''.'' @ name))
                       | PointerType (NamedType pkg name) \<Rightarrow> Inr (toOpenAPIDefinitionName (pkg @ ''.'' @ name))
                       | _ \<Rightarrow> Inr (toOpenAPIDefinitionName ''.'')))))"

section \<open>Converters and extraction\<close>

type_synonym type_converter = "type_scheme \<times> smd_schema option"

definition NewTypeConverter ::
  "(string \<Rightarrow> go_error + smd_schema) \<Rightarrow> type_scheme \<Rightarrow> parser_once \<Rightarrow> (go_error + type_converter) \<times> parser_once" where
  "NewTypeConverter newParser s parserOnce =
     (case Parser newParser parserOnce of
        (Inl err, parserOnce) \<Rightarrow> (Inl err, parserOnce)
      | (Inr parser, parserOnce) \<Rightarrow> (Inr (s, parser), parserOnce))"

text \<open>An object is given by its kind and its JSON form.\<close>

definition ObjectToTyped ::
  "(validation_error list \<Rightarrow> string) \<Rightarrow> (go_type \<Rightarrow> string option) \<Rightarrow> type_converter \<Rightarrow> gvk \<Rightarrow> json \<Rightarrow>
   go_error + typed_value" where
  "ObjectToTyped say namer tc k obj =
     (case tc of (s, parser) \<Rightarrow>
        sum_bind (ToOpenAPIDefinitionName namer s k) (\<lambda>name.
        sum_bind (ParserType parser name) (\<lambda>t. AsTyped say obj t)))"

text \<open>\<^verbatim>\<open>ExtractInto\<close> converts the object first; what it does with the typed object is the parameter \<open>extract_typed\<close>. The
  argument of the generated extraction is evaluated before the call.\<close>

definition ExtractInto ::
  "(validation_error list \<Rightarrow> string) \<Rightarrow> (cli_manager \<Rightarrow> json) \<Rightarrow> (typed_value \<Rightarrow> extract_into) \<Rightarrow> go_error + parseable_type \<Rightarrow>
   extract_into" where
  "ExtractInto say to_json extract_typed objectType cm fieldManager subresource =
     sum_bind objectType (\<lambda>t.
       case AsTyped say (to_json cm) t of
         Inl err \<Rightarrow> Inl (WrappedError ''error converting obj to typed'' err)
       | Inr v \<Rightarrow> extract_typed v cm fieldManager subresource)"

definition climanager_extract ::
  "(validation_error list \<Rightarrow> string) \<Rightarrow> (cli_manager \<Rightarrow> json) \<Rightarrow> (typed_value \<Rightarrow> extract_into) \<Rightarrow> smd_schema option \<Rightarrow>
   extract_into" where
  "climanager_extract say to_json extract_typed parser =
     ExtractInto say to_json extract_typed
       (ParserType parser ''com.github.openshift.cli-manager-operator.pkg.apis.climanager.v1.CliManager'')"

section \<open>What the schema admits\<close>

lemma with_prefix_none [simp]: "with_prefix pe [] = []"
  by (simp add: with_prefix_def)

lemma visitListItems_none:
  "relationship \<noteq> ''associative'' \<Longrightarrow> (\<And>x. x \<in> set xs \<Longrightarrow> f el x = []) \<Longrightarrow>
     visitListItems f s (ListType el relationship keys) i obs xs = []"
  by (induction xs arbitrary: i) auto

lemma visitMapItems_none:
  assumes "el \<noteq> NoTypeRef" and "\<And>k v. (k, v) \<in> set es \<Longrightarrow> f el v = []"
  shows "visitMapItems f (MapType [] el relationship) es = []"
  using assms(2)
proof (induction es)
  case (Cons e es)
  obtain k v where e: "e = (k, v)" by (cases e)
  have "f el v = []" by (rule Cons.prems [of k]) (simp add: e)
  moreover have "visitMapItems f (MapType [] el relationship) es = []" by (rule Cons.IH) (rule Cons.prems, erule list.set_intros(2))
  ultimately show ?case using assms(1) by (simp add: e FindField_def)
qed simp

text \<open>A type of anything: any scalar, any list and any map, of elements of such types.\<close>

definition any_atom :: "string \<Rightarrow> string \<Rightarrow> string \<Rightarrow> string \<Rightarrow> atom" where
  "any_atom el er mel mr =
     Atom (Some ''untyped'') (Some (ListType (Named el) er [])) (Some (MapType [] (Named mel) mr))"

definition untyped :: "smd_schema \<Rightarrow> string set \<Rightarrow> bool" where
  "untyped s names \<longleftrightarrow>
     (\<forall>n\<in>names. \<exists>el er mel mr. FindNamedType s n = Some (any_atom el er mel mr) \<and> er \<noteq> ''associative'' \<and>
        el \<in> names \<and> mel \<in> names)"

lemma Resolve_Named: "Resolve s (Named n) = FindNamedType s n"
  by (simp add: Resolve_def resolveNoOverrides_def Named_def)

lemma untyped_validates:
  assumes "untyped s names"
  shows "n \<in> names \<Longrightarrow> validate s (Named n) v = []"
proof (induction v arbitrary: n rule: measure_induct_rule [where f = size])
  case (less v)
  from assms less.prems obtain el er mel mr where
    n: "FindNamedType s n = Some (any_atom el er mel mr)" and er: "er \<noteq> ''associative''"
    and names: "el \<in> names" "mel \<in> names"
    unfolding untyped_def by blast
  have list: "visitListItems (validate s) s (ListType (Named el) er []) 0 [] xs = []" if "v = JArr xs" for xs
    by (rule visitListItems_none [OF er]) (rule less.IH [OF _ names(1)], simp only: that item_size)
  have not_none: "Named mel \<noteq> NoTypeRef" by (simp add: Named_def NoTypeRef_def)
  have map: "visitMapItems (validate s) (MapType [] (Named mel) mr) (range_entries m) = []" if "v = JObj m" for m
    by (rule visitMapItems_none [OF not_none]) (rule less.IH [OF _ names(2)], simp only: that entry_size)
  show ?case
    by (subst validate.simps) (cases v; simp add: Resolve_Named n any_atom_def list map validateScalar_def scalar_allows_def)
qed

definition climanager_model :: string where
  "climanager_model = ''com.github.openshift.cli-manager-operator.pkg.apis.climanager.v1.CliManager''"

lemma climanager_schema_untyped:
  "untyped climanager_schema {climanager_model, ''__untyped_atomic_'', ''__untyped_deduced_''}"
  by (auto simp: untyped_def climanager_schema_def FindNamedType_def any_atom_def climanager_model_def)

lemmas climanager_valid = untyped_validates [OF climanager_schema_untyped, of climanager_model, simplified]

lemma climanager_AsTyped:
  "AsTyped say v (climanager_schema, Named climanager_model) = Inr (v, Named climanager_model, climanager_schema)"
  by (simp add: AsTyped_def climanager_valid)

text \<open>The name the scheme gives the type is the one in the generated schema.\<close>

lemma climanager_model_name:
  assumes "namer (climanager_type ''CliManager'') = None"
    and "SchemeNew s (''operator.openshift.io'', ''v1'', ''CliManager'') = Inr (climanager_type ''CliManager'')"
  shows "ToOpenAPIDefinitionName namer s (''operator.openshift.io'', ''v1'', ''CliManager'') = Inr climanager_model"
proof -
  have name: "toOpenAPIDefinitionName
      (''github.com/openshift/cli-manager-operator/pkg/apis/climanager/v1'' @ ''.'' @ ''CliManager'') = climanager_model"
    by code_simp
  show ?thesis using assms name by (simp add: ToOpenAPIDefinitionName_def climanager_type_def)
qed

lemma Parser_twice: "Parser newParser once = (r, once') \<Longrightarrow> \<exists>p. once' = Done p \<and> Parser newParser once' = (Inr p, once')"
  by (auto simp: Parser_def split: parser_once.splits sum.splits)

lemma fake_scheme_makes:
  "SchemeNew fake_type_scheme (''operator.openshift.io'', ''v1'', ''CliManager'') = Inr (climanager_type ''CliManager'')"
proof -
  have "SchemeNew (snd (init_scheme (NewScheme name))) (''operator.openshift.io'', ''v1'', ''CliManager'') =
      Inr (climanager_type ''CliManager'')" for name
    unfolding init_scheme_once by code_simp
  then show ?thesis by (simp add: fake_type_scheme_def init_fake_scheme_same)
qed

lemma climanager_extract_typed:
  "climanager_extract say to_json extract_typed (Some climanager_schema) cm fieldManager subresource =
     extract_typed (to_json cm, Named climanager_model, climanager_schema) cm fieldManager subresource"
  by (simp add: climanager_extract_def ExtractInto_def ParserType_def climanager_AsTyped flip: climanager_model_def)


definition sample_newParser :: "string \<Rightarrow> go_error + smd_schema" where
  "sample_newParser text = (if text = schemaYAML then Inr climanager_schema else Inl (ErrorString ''unable to validate schema''))"


end
