(* ===== verification/Typed_Informer.thy ===== *)
theory Typed_Informer
  imports Informer_Run
begin

text \<open>
  The views of an informer: the typed constructors, adapters and event handlers for climanagers
  (\<^verbatim>\<open>informers/externalversions/climanager/v1\<close>, client-go \<^verbatim>\<open>shared_informer.go\<close>, \<^verbatim>\<open>index.go\<close> and
  \<^verbatim>\<open>controller.go\<close>), and the generic informer with its lister (\<^verbatim>\<open>informers/externalversions/generic.go\<close>,
  client-go \<^verbatim>\<open>listers.go\<close>). Every object of the informer is a climanager, so that no type assertion fails.
\<close>

section \<open>Typed constructors\<close>

text \<open>The assertion that an indexed object has the type is all that \<^verbatim>\<open>TypedIndexerFuncToIndexerFunc\<close> adds.\<close>

definition TypedIndexerFuncToIndexerFunc :: "(cli_manager \<Rightarrow> string list) \<Rightarrow> cli_manager \<Rightarrow> string list" where
  "TypedIndexerFuncToIndexerFunc indexer obj = indexer obj"

definition TypedIndexersToIndexers ::
  "(string, cli_manager \<Rightarrow> string list) fmap \<Rightarrow> (string, cli_manager \<Rightarrow> string list) fmap" where
  "TypedIndexersToIndexers indexers = fmmap TypedIndexerFuncToIndexerFunc indexers"

definition NewTypedFilteredCliManagerInformer ::
  "'w versioned \<Rightarrow> string \<Rightarrow> int \<Rightarrow> (string, cli_manager \<Rightarrow> string list) fmap \<Rightarrow> tweak_list_options \<Rightarrow> 'w informer" where
  "NewTypedFilteredCliManagerInformer client namespace resyncPeriod indexers tweakListOptions =
     fst (NewTypedCliManagerInformerWithOptions client namespace
       \<lparr>io_ResyncPeriod = resyncPeriod, io_Indexers = TypedIndexersToIndexers indexers, io_InformerName = None,
        io_TweakListOptions = tweakListOptions\<rparr>)"

definition NewTypedCliManagerInformer ::
  "'w versioned \<Rightarrow> string \<Rightarrow> int \<Rightarrow> (string, cli_manager \<Rightarrow> string list) fmap \<Rightarrow> 'w informer" where
  "NewTypedCliManagerInformer client namespace resyncPeriod indexers =
     fst (NewTypedCliManagerInformerWithOptions client namespace
       \<lparr>io_ResyncPeriod = resyncPeriod, io_Indexers = TypedIndexersToIndexers indexers, io_InformerName = None,
        io_TweakListOptions = None\<rparr>)"

lemma TypedIndexersToIndexers_same [simp]: "TypedIndexersToIndexers indexers = indexers"
  by (rule fmap_ext) (simp add: TypedIndexersToIndexers_def TypedIndexerFuncToIndexerFunc_def [abs_def] option.map_ident)

lemma typed_constructors:
  "NewTypedCliManagerInformer client ns resync indexers = NewCliManagerInformer client ns resync indexers"
  "NewTypedFilteredCliManagerInformer client ns resync indexers tweak =
     NewFilteredCliManagerInformer client ns resync indexers tweak"
  by (simp_all add: NewTypedCliManagerInformer_def NewCliManagerInformer_def NewCliManagerInformerWithOptions_def
      NewTypedFilteredCliManagerInformer_def NewFilteredCliManagerInformer_def)

section \<open>Adapters\<close>

text \<open>A value of \<^verbatim>\<open>CliManagerInformer\<close>: one of another package with its \<open>Informer\<close>, an adapter around one,
  or that of a factory. The last two have typed informers too.\<close>

datatype 'w climanager_access =
    Foreign "'w factory \<Rightarrow> 'w informer \<times> 'w factory"
  | Adapter "'w climanager_access"
  | OfFactory climanager_informer

fun access_Informer :: "'w climanager_access \<Rightarrow> 'w factory \<Rightarrow> 'w informer \<times> 'w factory" where
  "access_Informer (Foreign informer) f = informer f"
| "access_Informer (Adapter a) f = access_Informer a f"
| "access_Informer (OfFactory i) f = Informer i f"

fun access_TypedInformer :: "'w climanager_access \<Rightarrow> ('w factory \<Rightarrow> 'w informer \<times> 'w factory) option" where
  "access_TypedInformer (Foreign informer) = None"
| "access_TypedInformer (Adapter a) = Some (access_Informer a)"
| "access_TypedInformer (OfFactory i) = Some (TypedInformer i)"

definition ToTypedCliManagerInformer :: "'w climanager_access \<Rightarrow> 'w climanager_access" where
  "ToTypedCliManagerInformer a = (if access_TypedInformer a \<noteq> None then a else Adapter a)"

text \<open>The conversion gives a typed informer, the same one as before, and converting again changes nothing.\<close>

lemma ToTypedCliManagerInformer_same:
  "access_TypedInformer (ToTypedCliManagerInformer a) = Some (access_Informer a) \<and>
   access_Informer (ToTypedCliManagerInformer a) = access_Informer a \<and>
   ToTypedCliManagerInformer (ToTypedCliManagerInformer a) = ToTypedCliManagerInformer a"
  by (cases a) (auto simp: ToTypedCliManagerInformer_def Informer_def fun_eq_iff)

section \<open>The generic informer and its lister\<close>

record 'w generic_informer =
  gi_informer :: "'w informer"
  gi_resource :: "string \<times> string"

definition genericInformerInformer :: "'w generic_informer \<Rightarrow> 'w informer" where
  "genericInformerInformer f = gi_informer f"

record generic_lister =
  gl_indexer :: "cli_manager store"
  gl_resource :: "string \<times> string"

record generic_namespace_lister = generic_lister +
  gl_namespace :: string

definition NewGenericLister :: "cli_manager store \<Rightarrow> string \<times> string \<Rightarrow> generic_lister" where
  "NewGenericLister indexer resource = \<lparr>gl_indexer = indexer, gl_resource = resource\<rparr>"

definition genericInformerLister :: "'w generic_informer \<Rightarrow> generic_lister" where
  "genericInformerLister f = NewGenericLister (in_indexer (genericInformerInformer f)) (gi_resource f)"

definition genericList :: "generic_lister \<Rightarrow> selector \<Rightarrow> cli_manager list" where
  "genericList l s = ListAll (gl_indexer l) s"

definition ByNamespace :: "generic_lister \<Rightarrow> string \<Rightarrow> generic_namespace_lister" where
  "ByNamespace l namespace =
     \<lparr>gl_indexer = gl_indexer l, gl_resource = gl_resource l, gl_namespace = namespace\<rparr>"

definition genericGet :: "generic_lister \<Rightarrow> string \<Rightarrow> go_error + cli_manager" where
  "genericGet l name =
     (case storeGet name (gl_indexer l) of
        None \<Rightarrow> Inl (NewNotFound (fst (gl_resource l), [], snd (gl_resource l)) name)
      | Some obj \<Rightarrow> Inr obj)"

definition genericNamespaceList :: "generic_namespace_lister \<Rightarrow> selector \<Rightarrow> go_error + cli_manager list" where
  "genericNamespaceList l s = ListAllByNamespace (gl_indexer l) (gl_namespace l) s"

definition genericNamespaceGet :: "generic_namespace_lister \<Rightarrow> string \<Rightarrow> go_error + cli_manager" where
  "genericNamespaceGet l name =
     (case storeGet (gl_namespace l @ ''/'' @ name) (gl_indexer l) of
        None \<Rightarrow> Inl (NewNotFound (fst (gl_resource l), [], snd (gl_resource l)) name)
      | Some obj \<Rightarrow> Inr obj)"

text \<open>The generic lister of a namespace lists and gets what the typed one does; only the resource that a missing
  object names differs. For the empty namespace it looks up a key that starts with a slash.\<close>

lemma generic_lister_same:
  fixes f :: "'w generic_informer"
  defines "c \<equiv> in_indexer (gi_informer f)"
  shows "genericNamespaceList (ByNamespace (genericInformerLister f) ns) s =
      listerList (listerCliManagers NewCliManagerLister ns) s c \<and>
    (ns \<noteq> [] \<longrightarrow> (\<forall>cm. genericNamespaceGet (ByNamespace (genericInformerLister f) ns) name = Inr cm \<longleftrightarrow>
      listerGet (listerCliManagers NewCliManagerLister ns) name c = Inr cm)) \<and>
    (\<forall>cm. genericGet (genericInformerLister f) name = Inr cm \<longleftrightarrow> listerGet NewCliManagerLister name c = Inr cm)"
  by (auto simp: c_def genericNamespaceList_def ByNamespace_def genericInformerLister_def NewGenericLister_def
      genericInformerInformer_def listerList_def listerCliManagers_def genericNamespaceGet_def listerGet_def genericGet_def
      NewCliManagerLister_def Let_def split: option.splits)

section \<open>Typed event handlers\<close>

text \<open>A deleted object: its last known state and, if that may be stale or missing, its key.\<close>

record 'o deleted_object =
  OptionalObj :: "'o option"
  FinalStateUnknown :: "(string \<times> 'o option) option"

datatype 'o typed_note =
    TypedAdd 'o bool
  | TypedUpdate 'o 'o
  | TypedDelete "'o deleted_object"

fun typed_notification :: "'o notification \<Rightarrow> 'o typed_note" where
  "typed_notification (OnAdd obj isInInitialList) = TypedAdd obj isInInitialList"
| "typed_notification (OnUpdate oldObj newObj) = TypedUpdate oldObj newObj"
| "typed_notification (OnDeleteUnknown k obj) =
     TypedDelete \<lparr>OptionalObj = obj, FinalStateUnknown = Some (k, obj)\<rparr>"
| "typed_notification (OnDelete obj) = TypedDelete \<lparr>OptionalObj = Some obj, FinalStateUnknown = None\<rparr>"

definition GetKey :: "('o \<Rightarrow> string) \<Rightarrow> 'o deleted_object \<Rightarrow> string" where
  "GetKey key d =
     (case FinalStateUnknown d of
        Some (k, _) \<Rightarrow> k
      | None \<Rightarrow> (case OptionalObj d of None \<Rightarrow> [] | Some obj \<Rightarrow> key obj))"

text \<open>\<^verbatim>\<open>TypedFilteringResourceEventHandler\<close>: what it passes on. The filter may be given a nil object.\<close>

fun typed_filter :: "('o option \<Rightarrow> bool) \<Rightarrow> 'o typed_note \<Rightarrow> 'o typed_note list" where
  "typed_filter filterFunc (TypedAdd obj isInInitialList) =
     (if filterFunc (Some obj) then [TypedAdd obj isInInitialList] else [])"
| "typed_filter filterFunc (TypedUpdate oldObj newObj) =
     (let newer = filterFunc (Some newObj); older = filterFunc (Some oldObj) in
      if newer \<and> older then [TypedUpdate oldObj newObj]
      else if newer then [TypedAdd newObj False]
      else if older then [TypedDelete \<lparr>OptionalObj = Some oldObj, FinalStateUnknown = None\<rparr>]
      else [])"
| "typed_filter filterFunc (TypedDelete d) = (if filterFunc (OptionalObj d) then [TypedDelete d] else [])"

subsection \<open>What a filtering handler knows\<close>

text \<open>A handler that puts and drops what it is told keeps, with typed notifications, what it keeps with untyped ones.\<close>

fun typed_effect :: "('o \<Rightarrow> string) \<Rightarrow> 'o typed_note \<Rightarrow> (string, 'o) fmap \<Rightarrow> (string, 'o) fmap" where
  "typed_effect key (TypedAdd obj b) m = fmupd (key obj) obj m"
| "typed_effect key (TypedUpdate old obj) m = fmupd (key obj) obj m"
| "typed_effect key (TypedDelete d) m = fmdrop (GetKey key d) m"

lemma typed_effect_same: "typed_effect key (typed_notification n) m = note_effect key n m"
  by (cases n) (simp_all add: GetKey_def)

definition passing :: "('o option \<Rightarrow> bool) \<Rightarrow> (string, 'o) fmap \<Rightarrow> (string, 'o) fmap" where
  "passing filterFunc m = fmfilter (\<lambda>k. filterFunc (fmlookup m k)) m"

lemma passing_lookup [simp]:
  "fmlookup (passing filterFunc m) k = (if filterFunc (fmlookup m k) then fmlookup m k else None)"
  by (simp add: passing_def)

text \<open>A notification tells the truth about a map if the map is as the notification says it was.\<close>

fun note_key :: "('o \<Rightarrow> string) \<Rightarrow> 'o notification \<Rightarrow> string" where
  "note_key key (OnAdd obj b) = key obj"
| "note_key key (OnUpdate old obj) = key obj"
| "note_key key (OnDelete obj) = key obj"
| "note_key key (OnDeleteUnknown k obj) = k"

fun truthful :: "('o \<Rightarrow> string) \<Rightarrow> 'o notification \<Rightarrow> (string, 'o) fmap \<Rightarrow> bool" where
  "truthful key (OnAdd obj b) m = (fmlookup m (key obj) = None)"
| "truthful key (OnUpdate old obj) m = (fmlookup m (key obj) = Some old)"
| "truthful key (OnDelete obj) m = (fmlookup m (key obj) \<in> {None, Some obj})"
| "truthful key (OnDeleteUnknown k obj) m = (obj = fmlookup m k)"

fun all_truthful :: "('o \<Rightarrow> string) \<Rightarrow> 'o notification list \<Rightarrow> (string, 'o) fmap \<Rightarrow> bool" where
  "all_truthful key [] m = True"
| "all_truthful key (n # ns) m = (truthful key n m \<and> all_truthful key ns (note_effect key n m))"

lemma note_effect_other: "k \<noteq> note_key key n \<Longrightarrow> fmlookup (note_effect key n m) k = fmlookup m k"
  by (cases n) auto

lemma truthful_other: "fmlookup m (note_key key n) = fmlookup m' (note_key key n) \<Longrightarrow> truthful key n m = truthful key n m'"
  by (cases n) auto

text \<open>Notifications about different keys tell the truth together.\<close>

lemma truthful_together:
  "distinct (map (note_key key) ns) \<Longrightarrow> (\<And>n. n \<in> set ns \<Longrightarrow> truthful key n m) \<Longrightarrow> all_truthful key ns m"
proof (induction ns arbitrary: m)
  case (Cons n ns)
  have "truthful key n' (note_effect key n m)" if "n' \<in> set ns" for n'
  proof -
    have "note_key key n' \<noteq> note_key key n" using Cons.prems(1) that by (auto simp: image_iff)
    then have "fmlookup (note_effect key n m) (note_key key n') = fmlookup m (note_key key n')" by (rule note_effect_other)
    then show ?thesis using Cons.prems(2) [of n'] that truthful_other [of "note_effect key n m" key n' m] by simp
  qed
  then show ?case using Cons.IH [of "note_effect key n m"] Cons.prems by simp
qed simp

text \<open>What one notification does to what passes.\<close>

lemma filter_step:
  assumes "own_keys key m" and "truthful key n m"
  shows "fold (typed_effect key) (typed_filter P (typed_notification n)) (passing P m) = passing P (note_effect key n m)"
proof (cases n)
  case (OnUpdate old obj)
  with assms have "key old = key obj" by (auto simp: own_keys_def dest: fmpredD)
  with OnUpdate assms(2) show ?thesis by (intro fmap_ext) (auto simp: Let_def GetKey_def)
next
  case (OnDelete obj)
  with assms(2) show ?thesis by (intro fmap_ext) (auto simp: GetKey_def)
qed (use assms(2) in \<open>auto intro!: fmap_ext simp: GetKey_def\<close>)

lemma own_keys_note: "own_keys key m \<Longrightarrow> own_keys key (note_effect key n m)"
  by (cases n) (auto simp: own_keys_def fmpred_iff split: if_splits)

lemma filter_follows:
  "own_keys key m \<Longrightarrow> all_truthful key ns m \<Longrightarrow>
     fold (typed_effect key) (concat (map (typed_filter P \<circ> typed_notification) ns)) (passing P m) =
     passing P (fold (note_effect key) ns m)"
proof (induction ns arbitrary: m)
  case (Cons n ns)
  then show ?case by (simp add: filter_step own_keys_note)
qed simp

lemma truthful_resync:
  "(\<And>obj. obj \<in> set objs \<Longrightarrow> fmlookup m (key obj) = Some obj) \<Longrightarrow> all_truthful key (map (\<lambda>obj. OnUpdate obj obj) objs) m"
  by (induction objs) (simp_all add: fmupd_same)

text \<open>The informer tells the truth: about a replacement of its objects by others with different keys, and about an object that
  was deleted in the state in which it is stored.\<close>

lemma processDelta_truthful:
  assumes "own_keys key (st_items c)"
    and "\<And>rv objs. d = ReplacedAll rv objs \<Longrightarrow> distinct (map key objs)"
    and "\<And>obj. d = Deleted obj \<Longrightarrow> storeGet (key obj) c \<in> {None, Some obj}"
  shows "all_truthful key (fst (processDelta key b d c)) (st_items c)"
proof (cases d)
  case (ReplacedAll rv objs)
  let ?n = "\<lambda>obj. case storeGet (key obj) c of Some old \<Rightarrow> OnUpdate old obj | None \<Rightarrow> OnAdd obj b"
  have keys: "note_key key (?n obj) = key obj" for obj by (simp split: option.split)
  have "distinct (map (note_key key) (replacement_notes key objs b c))"
    using assms(2) [OF ReplacedAll] by (auto simp: replacement_notes_def keys comp_def)
  then show ?thesis
    unfolding ReplacedAll processDelta.simps processReplacedAll_def fst_conv
    by (rule truthful_together) (auto simp: replacement_notes_def storeGet_def split: option.split)
next
  case SyncAll
  have "fmlookup (st_items c) (key obj) = Some obj" if "obj \<in> set (storeList c)" for obj
    using that assms(1) by (auto simp: storeList_ran own_keys_def fmlookup_ran'_iff dest: fmpredD)
  then show ?thesis by (simp add: SyncAll truthful_resync)
qed (use assms in \<open>auto simp: store_changed_def storeGet_def split: option.split\<close>)

text \<open>So a filtering handler keeps exactly the stored objects that pass.\<close>

lemma filtering_handler_follows:
  assumes "own_keys key (st_items c)" "processDelta key b d c = (notes, c')"
    and "\<And>rv objs. d = ReplacedAll rv objs \<Longrightarrow> distinct (map key objs)"
    and "\<And>obj. d = Deleted obj \<Longrightarrow> storeGet (key obj) c \<in> {None, Some obj}"
  shows "fold (typed_effect key) (concat (map (typed_filter P \<circ> typed_notification) notes)) (passing P (st_items c)) =
    passing P (st_items c')"
proof -
  have "all_truthful key (fst (processDelta key b d c)) (st_items c)"
    by (rule processDelta_truthful) (rule assms(1), erule assms(3), erule assms(4))
  then have "all_truthful key notes (st_items c)" by (simp add: assms(2))
  from filter_follows [OF assms(1) this] show ?thesis by (simp add: processDelta_notes [OF assms(1,2)])
qed

end
