(* ===== verification/Spec2Isabelle.thy ===== *)
theory Spec2Isabelle
  imports Sync_Order Event_Sync Informer_Run Redundant_Writes Deep_Copy Test_Binary Apply_Schema Typed_Informer
begin

text \<open>
  A model of the CLI manager operator for OpenShift. The operator watches one configuration object, a
  \<^verbatim>\<open>CliManager\<close> named \<^verbatim>\<open>cluster\<close>, and keeps eleven objects of the cluster in the form that
  object and a set of embedded manifests ask for: network policy, cluster role and binding, role and
  binding, deployment, route, two services, service account and service monitor. This theory imports
  all others and holds the properties of a whole \<open>sync\<close>.

  \<^bold>\<open>Parts and theories.\<close> Source paths are relative to the repository; \<^verbatim>\<open>library-go\<close>,
  \<^verbatim>\<open>client-go\<close>, \<^verbatim>\<open>apimachinery\<close> and \<^verbatim>\<open>pflag\<close> are read where the repository vendors them.

  \<^item> Vocabulary: \<open>Go_Prelude\<close> (errors, maps, the world and calls on it), \<open>Object_Meta\<close>,
    \<open>Kube_Objects\<close> (records for the API structs), \<open>Unstructured_Objects\<close> (JSON objects and their nested
    fields), \<open>Assets\<close> (\<^verbatim>\<open>bindata\<close>: the manifests, decoded), \<open>Apply_Config\<close> and \<open>Apply_Schema\<close>
    (\<^verbatim>\<open>pkg/generated/applyconfiguration\<close>; the second has the generated schema, its parser and the validation
    of objects against it).
  \<^item> The reconciler: \<open>Reconciler\<close> has one definition per function of
    \<^verbatim>\<open>pkg/operator/target_config_reconciler.go\<close>, composed in \<open>reconcile\<close> and \<open>sync\<close> as the code
    composes them. They call the merge functions (\<open>Meta_Merge\<close>), the apply functions of library-go
    (\<open>Resource_Apply\<close>, \<open>Core_Apply\<close>, \<open>Deployment_Apply\<close>, \<open>Unstructured_Apply\<close>) with their cache
    (\<open>Resource_Cache\<close>), the generation table (\<open>Generations\<close>) and the operator client
    (\<open>Operator_Client\<close>: \<^verbatim>\<open>pkg/operator/operatorclient/interfaces.go\<close>, with \<open>Retry\<close>). A client of a
    resource is a record of functions of the world (\<open>Resource_Client\<close>); the locale \<open>object_api\<close> states
    what such a client promises.
  \<^item> A server: \<open>Object_Tracker\<close> is the in-memory server behind client-go's fake clients; \<open>Fake_Cluster\<close>
    interprets \<open>object_api\<close> on it for every resource; \<open>Tracker_Watch\<close> adds its watchers and the events a
    write sends them.
  \<^item> The control loop: \<open>Work_Queue\<close> (client-go's queue, delaying queue and rate limiter, with the locale
    \<open>job_queue\<close>) and \<open>Controller_Loop\<close> (event handlers, \<open>Run\<close>, \<open>runWorker\<close>, \<open>processNextWorkItem\<close>), a step
    relation \<open>loop_step\<close> in which events, other clients, time and the worker interleave.
  \<^item> What feeds it: \<open>Store_Index\<close> (the indexed store), \<open>Informer_Factory\<close> and \<open>Cli_Lister\<close>
    (\<^verbatim>\<open>pkg/generated/informers\<close>, \<^verbatim>\<open>pkg/generated/listers\<close>); \<open>Informer_Queue\<close> (the queue of deltas between
    reflector and store, taken one by one or in batches) and \<open>Shared_Informer\<close> (reflector, queue, store
    and handlers run against a tracker, one step at a time); \<open>Typed_Informer\<close> (typed and generic views of an
    informer, and its typed handlers).
  \<^item> How it starts: \<open>Scheme_Types\<close> (registration of the API types), \<open>Clientset\<close>, \<open>Fake_Clientset\<close> and
    \<open>Fake_Client\<close> (\<^verbatim>\<open>pkg/generated/clientset\<close>; the last with the reactor chain and the generic fake
    client it rests on), \<open>Log_Level\<close>, \<open>Starter\<close> (\<^verbatim>\<open>pkg/operator/starter.go\<close>) and \<open>Command_Line\<close> (\<^verbatim>\<open>pkg/cmd/operator\<close>,
    \<^verbatim>\<open>cmd/cli-manager-operator\<close> and its testing twin); \<open>Test_Binary\<close> (\<^verbatim>\<open>pkg/version\<close> and
    \<^verbatim>\<open>cmd/cli-manager-operator-tests-ext\<close>).
  \<^item> \<open>Deep_Copy\<close>: the generated copy functions over a heap. The other theories treat objects as values; the
    locale \<open>deep_copy\<close> and its interpretations say why they may.

  \<^bold>\<open>State.\<close> The world is a parameter \<open>'w\<close>, the server; \<open>'w env\<close> adds the events reported so far. A call that
  may fail is a function from \<open>'w env\<close> to a result and a new \<open>'w env\<close>, with errors in the left of a sum or in
  an option, and a panic is the error \<open>Panic\<close>. Maps of the code are finite maps; where the order of a loop over
  a map could matter, a lemma says that it does not (\<open>MergeMap_any_order\<close>) or that it does (\<open>MergeMap_clash\<close>).
  Integers are \<open>int\<close> or \<open>nat\<close>: nothing the operator computes comes near the bounds of \<^verbatim>\<open>int64\<close>, and where
  a bound is tested (the backoff of the limiter) the test is in the model.

  \<^bold>\<open>What is shown.\<close>
  \<^item> A \<open>sync\<close> on the tracker succeeds unless a foreign object is in the way (\<open>Sync_Progress\<close>), puts every
    operand in the desired form (\<open>Sync_Delivery\<close>), touches nothing else, and leaves nothing to do for the next
    (\<open>Sync_Convergence\<close>); on any server its steps run in order up to the first error (\<open>Sync_Order\<close>).
    \<open>Operand_Objects\<close> gives the desired objects in closed form; \<open>Tracked_Apply\<close> and \<open>Tracker_Steps\<close> carry the
    proofs through one apply function and through a sequence of steps.
  \<^item> The loop loses no event, retries a failure with the delay of the limiter, never runs two syncs at once,
    ends after shutdown, and with \<open>sync\<close> brings the cluster to rest (\<open>Controller_Loop\<close>, \<open>Event_Sync\<close>).
  \<^item> The climanager informer on the tracker behind the fake clientset: at every moment the cache, the queued
    deltas and the events under way together are the server's objects, so that a run that is drained shows
    them to the lister, and every handler has been told the cache. The only exception are objects deleted between
    the list and the watch, which the tracker forgets and the cache keeps. \<open>Queue_Content\<close>,
    \<open>Watch_Mirror\<close>, \<open>Watch_Gap\<close> and \<open>Informer_Mirror\<close> carry the invariant through queue, watch and
    steps, \<open>Informer_Reads\<close> reads it off; \<open>Informer_Run\<close> holds the properties.
  \<^item> The fake clientset, its reactors and its log of actions behave as the tracker alone (\<open>Fake_Client\<close>).
  \<^item> The merge functions, the owner reference, the generation table, the limiter, the indexed store, the lister,
    the informer factory, the clientsets, the log level and the command line each have their contract.
  \<^item> Every climanager is a value of its type in the generated schema, and scheme and schema call that type by one
    name (\<open>Apply_Schema\<close>); a filtering handler keeps the stored objects that pass (\<open>Typed_Informer\<close>).
  \<^item> \<open>Redundant_Writes\<close> shows two calls that write although nothing changed.
  \<open>Sample_Cluster\<close> and the definitions named \<open>sample_...\<close> are concrete inputs for the witnesses.

  \<^bold>\<open>Bounds.\<close> Loops over slices and maps are structural recursions or folds. The retry loop recurses on the number
  of steps (four for the default backoff); the loop over the command line on the arguments left. No definition
  uses fuel: the worker's endless loop is a step relation, with a bound on the steps after shutdown.

  \<^bold>\<open>Parameters.\<close> The hash functions and the random source of the apply functions, the transport and address
  parsing of \<^verbatim>\<open>net/http\<close>, the reading of YAML and the extraction of managed fields from a typed object, the
  server's patch and apply semantics (the merges of the fake clientset too), the parsers of selectors, the
  constructors of the vendored clients, the flags a command inherits, the tests ginkgo collects.

  \<^bold>\<open>Not modelled.\<close> Of the running informer: resyncs, the watch list mode of the reflector, timeouts of
  a watch, the second attempt of a list whose version has expired, and the resource versions the store
  remembers. Help texts, exit codes and what the controller command does before it runs the operator (signals,
  leader election, metrics server). The tracker with managed fields behind \<^verbatim>\<open>NewClientset\<close>. The end-to-end
  tests, which run against a cluster.
\<close>

section \<open>Properties of sync\<close>

text \<open>C1: \<open>sync\<close> converges. If it returns no error on a server that stores what it is sent, the next
  \<open>sync\<close> returns no error, leaves every object as it is and reports no event.\<close>

theorem sync_converges:
  assumes "tracker_ok (env_world s)" and "configured (env_world s) cm" and "proper_owner cm"
    and "sync (on_tracker c strategicMerge patchMerge) s = (None, s')"
  shows "sync (on_tracker c strategicMerge patchMerge) s' = (None, s')"
  using reconcile_converges [OF assms(1-3)] assms(4) by (simp add: sync_None)

theorem sync_converges_witness:
  "\<exists>s'. sync sample_operator sample_start = (None, s') \<and> sync sample_operator s' = (None, s')"
  using sample_run sync_converges [OF sample_tracker_ok sample_configured sample_owner] by blast





text \<open>C4: whatever \<open>sync\<close> returns, it touches only its eleven operands and the configuration object,
  and it keeps every object under its own name.\<close>

theorem sync_confined:
  assumes "tracker_ok (env_world s)" and "configured (env_world s) cm" and "proper_owner cm"
    and "sync (on_tracker c strategicMerge patchMerge) s = (r, s')"
  shows "tracker_ok (env_world s') \<and>
    unchanged_off (insert config_key (operand_keys cm)) (env_world s) (env_world s')"
proof -
  let ?c = "on_tracker c strategicMerge patchMerge"
  have ns: "om_namespace (cm_meta cm) \<noteq> []" using configured_key [OF assms(1,2)] by simp
  note good = conjunct1 [OF operand_good [OF assms(3) ns]]
  obtain x s1 where st: "steps_expecting ?c cm (expected_generation cm) s = (x, s1)"
    by (cases "steps_expecting ?c cm (expected_generation cm) s")
  note s1 = confinedD [OF good assms(1) st]
  show ?thesis
  proof (cases x)
    case (Inl e)
    with st assms(4) have "s' = s1" by (simp add: sync_def reconcile_tracker [OF assms(2)] bindE_def)
    with s1 show ?thesis by (blast intro: unchanged_off_mono)
  next
    case (Inr d)
    have "configured (env_world s1) cm"
      using configured_cong [OF unchanged_offD [OF s1(2) config_not_operand]] assms(2) by blast
    from record_status_stores [OF s1(1) this, of c strategicMerge patchMerge d] obtain s2 where
      s2: "record_status ?c d s1 = (Inr (), s2)" "tracker_ok (env_world s2)"
        "unchanged_off {config_key} (env_world s1) (env_world s2)" by blast
    then have "s' = s2" using st assms(4) Inr by (simp add: sync_def reconcile_tracker [OF assms(2)] bindE_def)
    with s2 unchanged_off_trans [OF s1(2) s2(3)] show ?thesis by (auto intro: unchanged_off_mono)
  qed
qed

theorem sync_confined_witness:
  "\<exists>s'. sync sample_operator sample_start = (None, s') \<and>
    unchanged_off (insert config_key (operand_keys sample_config)) (env_world sample_start) (env_world s')"
  using sample_run sync_confined [OF sample_tracker_ok sample_configured sample_owner] by blast

end
